(* ===== verification/Json.thy ===== *)
theory Json
  imports Prelude
begin

text \<open>
  The part of \<open>encoding/json\<close> the GNS3 client uses: the grammar of the scanner on bytes, one value
  at a time (\<open>Decoder.Decode\<close>) or the whole input (\<open>Unmarshal\<close>), and decoding into structs, slices,
  strings and integers.  Object keys match field names up to ASCII letter case.  The scanner's
  limit of 10000 nested brackets and the replacement of invalid UTF-8 are left out.
\<close>

section \<open>Values and scanner\<close>

datatype json =
    JNull
  | JBool bool
  | JNum string
  | JStr string
  | JArr "json list"
  | JObj "(string \<times> json) list"

definition json_ws :: "char \<Rightarrow> bool" where
  "json_ws c = (c \<in> {CHR '' '', CHR 0x09, CHR 0x0A, CHR 0x0D})"

abbreviation skip_ws :: "string \<Rightarrow> string" where
  "skip_ws s \<equiv> dropWhile json_ws s"

definition hex_val :: "char \<Rightarrow> nat option" where
  "hex_val c =
     (let n = (of_char c :: nat) in
      if 48 \<le> n \<and> n \<le> 57 then Some (n - 48)
      else if 97 \<le> n \<and> n \<le> 102 then Some (n - 87)
      else if 65 \<le> n \<and> n \<le> 70 then Some (n - 55) else None)"

fun hex4 :: "string \<Rightarrow> (nat \<times> string) option" where
  "hex4 (a # b # c # d # r) =
     (case (hex_val a, hex_val b, hex_val c, hex_val d) of
        (Some x, Some y, Some z, Some w) \<Rightarrow> Some (((x * 16 + y) * 16 + z) * 16 + w, r)
      | _ \<Rightarrow> None)"
| "hex4 _ = None"

definition escape_char :: "char \<Rightarrow> char option" where
  "escape_char c =
     (if c \<in> {CHR 0x22, CHR 0x5C, CHR ''/''} then Some c
      else if c = CHR ''b'' then Some (CHR 0x08) else if c = CHR ''f'' then Some (CHR 0x0C)
      else if c = CHR ''n'' then Some (CHR 0x0A) else if c = CHR ''r'' then Some (CHR 0x0D)
      else if c = CHR ''t'' then Some (CHR 0x09) else None)"

text \<open>The raw text of a string up to its closing quote, and what follows the quote.\<close>

fun scan_string :: "string \<Rightarrow> (string \<times> string) option" where
  "scan_string [] = None"
| "scan_string (c # r) =
     (if c = CHR 0x22 then Some ([], r)
      else if (of_char c :: nat) < 32 then None
      else if c = CHR 0x5C then
        (case r of
           [] \<Rightarrow> None
         | e # r2 \<Rightarrow>
             if e = CHR ''u'' \<and> hex4 r2 \<noteq> None \<or> escape_char e \<noteq> None
             then map_option (\<lambda>(raw, rest). (c # e # raw, rest)) (scan_string r2)
             else None)
      else map_option (\<lambda>(raw, rest). (c # raw, rest)) (scan_string r))"

definition utf8 :: "nat \<Rightarrow> string" where
  "utf8 n =
     (if n < 0x80 then [char_of n]
      else if n < 0x800 then [char_of (0xC0 + n div 64), char_of (0x80 + n mod 64)]
      else if n < 0x10000 then
        [char_of (0xE0 + n div 4096), char_of (0x80 + n div 64 mod 64), char_of (0x80 + n mod 64)]
      else [char_of (0xF0 + n div 262144), char_of (0x80 + n div 4096 mod 64),
            char_of (0x80 + n div 64 mod 64), char_of (0x80 + n mod 64)])"

text \<open>A \<open>\u\<close> escape: a surrogate pair is one code point, a lone surrogate is U+FFFD.\<close>

definition code_unit :: "nat \<Rightarrow> string \<Rightarrow> nat \<times> string" where
  "code_unit u r =
     (if u < 0xD800 \<or> 0xDFFF < u then (u, r)
      else case r of
        b # c # r2 \<Rightarrow>
          (case hex4 r2 of
             Some (v, r3) \<Rightarrow>
               if b = CHR 0x5C \<and> c = CHR ''u'' \<and> u < 0xDC00 \<and> 0xDC00 \<le> v \<and> v \<le> 0xDFFF
               then (0x10000 + (u - 0xD800) * 1024 + (v - 0xDC00), r3) else (0xFFFD, r)
           | None \<Rightarrow> (0xFFFD, r))
      | _ \<Rightarrow> (0xFFFD, r))"

lemma hex4_length: "hex4 s = Some (n, r) \<Longrightarrow> length r < length s"
  by (cases s rule: hex4.cases) (auto split: option.splits)

lemma code_unit_length: "code_unit u r = (n, r') \<Longrightarrow> length r' \<le> length r"
  by (auto simp: code_unit_def dest!: hex4_length split: if_splits list.splits option.splits)

function unescape :: "string \<Rightarrow> string" where
  "unescape [] = []"
| "unescape (c # r) =
     (if c \<noteq> CHR 0x5C then c # unescape r
      else case r of
        [] \<Rightarrow> []
      | e # r2 \<Rightarrow>
          (case (if e = CHR ''u'' then hex4 r2 else None) of
             Some (u, r3) \<Rightarrow> (case code_unit u r3 of (n, r4) \<Rightarrow> utf8 n @ unescape r4)
           | None \<Rightarrow> (case escape_char e of Some d \<Rightarrow> d # unescape r2 | None \<Rightarrow> unescape r2)))"
  by pat_completeness auto
termination
  by (relation "measure length")
     (auto dest!: hex4_length code_unit_length [OF sym] split: if_splits)

section \<open>Numbers\<close>

definition span :: "(char \<Rightarrow> bool) \<Rightarrow> string \<Rightarrow> string \<times> string" where
  "span P s = (takeWhile P s, dropWhile P s)"

definition scan_sign :: "char list \<Rightarrow> string \<Rightarrow> string \<times> string" where
  "scan_sign signs s =
     (case s of d # r \<Rightarrow> if d \<in> set signs then ([d], r) else ([], s) | [] \<Rightarrow> ([], []))"

definition scan_whole :: "string \<Rightarrow> (string \<times> string) option" where
  "scan_whole s =
     (case s of
        d # r \<Rightarrow>
          if d = CHR ''0'' then Some ([d], r)
          else (case span is_digit s of (ds, r2) \<Rightarrow> if ds = [] then None else Some (ds, r2))
      | [] \<Rightarrow> None)"

definition scan_frac :: "string \<Rightarrow> (string \<times> string) option" where
  "scan_frac s =
     (case s of
        c # r \<Rightarrow>
          if c = CHR ''.'' then
            (case span is_digit r of (ds, r2) \<Rightarrow> if ds = [] then None else Some (c # ds, r2))
          else Some ([], s)
      | [] \<Rightarrow> Some ([], []))"

definition scan_exp :: "string \<Rightarrow> (string \<times> string) option" where
  "scan_exp s =
     (case s of
        c # r \<Rightarrow>
          if c = CHR ''e'' \<or> c = CHR ''E'' then
            (case scan_sign ''+-'' r of (sg, r1) \<Rightarrow>
               (case span is_digit r1 of (ds, r2) \<Rightarrow>
                  if ds = [] then None else Some (c # sg @ ds, r2)))
          else Some ([], s)
      | [] \<Rightarrow> Some ([], []))"

definition scan_number :: "string \<Rightarrow> (string \<times> string) option" where
  "scan_number s =
     (case scan_sign ''-'' s of (sg, s1) \<Rightarrow>
     (case scan_whole s1 of
        None \<Rightarrow> None
      | Some (ds, s2) \<Rightarrow>
     (case scan_frac s2 of
        None \<Rightarrow> None
      | Some (f, s3) \<Rightarrow>
     (case scan_exp s3 of
        None \<Rightarrow> None
      | Some (e, s4) \<Rightarrow> Some (sg @ ds @ f @ e, s4)))))"

section \<open>The parser\<close>

definition scan_literal :: "string \<Rightarrow> (json \<times> string) option" where
  "scan_literal s =
     (case cut_prefix s ''true'' of Some r \<Rightarrow> Some (JBool True, r)
      | None \<Rightarrow>
     (case cut_prefix s ''false'' of Some r \<Rightarrow> Some (JBool False, r)
      | None \<Rightarrow>
     (case cut_prefix s ''null'' of Some r \<Rightarrow> Some (JNull, r)
      | None \<Rightarrow> map_option (\<lambda>(n, r). (JNum n, r)) (scan_number s))))"

text \<open>One value; the elements of an array after \<open>[\<close>; the members of an object after \<open>{\<close>.\<close>

fun parse_value :: "nat \<Rightarrow> string \<Rightarrow> (json \<times> string) option"
and parse_elems :: "nat \<Rightarrow> string \<Rightarrow> (json list \<times> string) option"
and parse_members :: "nat \<Rightarrow> string \<Rightarrow> ((string \<times> json) list \<times> string) option" where
  "parse_value 0 s = None"
| "parse_value (Suc n) s =
     (case skip_ws s of
        [] \<Rightarrow> None
      | c # r \<Rightarrow>
          if c = CHR 0x22 then map_option (\<lambda>(t, r'). (JStr (unescape t), r')) (scan_string r)
          else if c = CHR ''['' then
            (case skip_ws r of
               [] \<Rightarrow> None
             | d # r' \<Rightarrow> if d = CHR '']'' then Some (JArr [], r')
                         else map_option (\<lambda>(vs, q). (JArr vs, q)) (parse_elems n r))
          else if c = CHR ''{'' then
            (case skip_ws r of
               [] \<Rightarrow> None
             | d # r' \<Rightarrow> if d = CHR ''}'' then Some (JObj [], r')
                         else map_option (\<lambda>(ms, q). (JObj ms, q)) (parse_members n r))
          else scan_literal (c # r))"
| "parse_elems 0 s = None"
| "parse_elems (Suc n) s =
     (case parse_value n s of
        None \<Rightarrow> None
      | Some (v, r) \<Rightarrow>
          (case skip_ws r of
             [] \<Rightarrow> None
           | c # r' \<Rightarrow>
               if c = CHR '','' then map_option (\<lambda>(vs, q). (v # vs, q)) (parse_elems n r')
               else if c = CHR '']'' then Some ([v], r') else None))"
| "parse_members 0 s = None"
| "parse_members (Suc n) s =
     (case skip_ws s of
        [] \<Rightarrow> None
      | q # s1 \<Rightarrow>
          if q \<noteq> CHR 0x22 then None
          else case scan_string s1 of
            None \<Rightarrow> None
          | Some (k, s2) \<Rightarrow>
              (case skip_ws s2 of
                 [] \<Rightarrow> None
               | d # s3 \<Rightarrow>
                   if d \<noteq> CHR '':'' then None
                   else case parse_value n s3 of
                     None \<Rightarrow> None
                   | Some (v, r) \<Rightarrow>
                       (case skip_ws r of
                          [] \<Rightarrow> None
                        | c # r' \<Rightarrow>
                            if c = CHR '','' then
                              map_option (\<lambda>(ms, z). ((unescape k, v) # ms, z)) (parse_members n r')
                            else if c = CHR ''}'' then Some ([(unescape k, v)], r')
                            else None)))"

text \<open>Enough fuel for any input of that length.\<close>

definition json_fuel :: "string \<Rightarrow> nat" where
  "json_fuel s = 2 * length s + 2"

abbreviation next_value :: "string \<Rightarrow> (json \<times> string) option" where
  "next_value s \<equiv> parse_value (json_fuel s) s"

section \<open>Consumption and fuel\<close>

lemma scan_string_length: "scan_string s = Some (raw, r) \<Longrightarrow> length r < length s"
  by (induction s arbitrary: raw rule: scan_string.induct)
     (fastforce split: if_splits list.splits option.splits)+

lemma span_length: "span P s = (a, b) \<Longrightarrow> length s = length a + length b"
  by (auto simp: span_def simp flip: length_append)

lemma scan_sign_length: "scan_sign g s = (a, r) \<Longrightarrow> length r \<le> length s"
  by (auto simp: scan_sign_def split: list.splits if_splits)

lemma scan_whole_length: "scan_whole s = Some (a, r) \<Longrightarrow> length r < length s"
  by (auto simp: scan_whole_def simp flip: length_greater_0_conv dest!: span_length
      split: list.splits if_splits prod.splits)

lemma scan_frac_length: "scan_frac s = Some (f, r) \<Longrightarrow> length r \<le> length s"
  by (auto simp: scan_frac_def dest!: span_length split: list.splits if_splits prod.splits)

lemma scan_exp_length: "scan_exp s = Some (f, r) \<Longrightarrow> length r \<le> length s"
  by (auto simp: scan_exp_def dest!: span_length scan_sign_length
      split: list.splits if_splits prod.splits)

lemma scan_number_length: "scan_number s = Some (n, r) \<Longrightarrow> length r < length s"
  by (auto simp: scan_number_def
      dest!: scan_sign_length scan_whole_length scan_frac_length scan_exp_length
      split: prod.splits option.splits)

lemma scan_literal_length: "scan_literal s = Some (v, r) \<Longrightarrow> length r < length s"
  by (auto simp: scan_literal_def cut_prefix_Some dest: scan_number_length split: option.splits)

lemma skip_ws_length: "skip_ws s = c # r \<Longrightarrow> length r < length s"
  using length_dropWhile_le [of json_ws s] by simp

text \<open>The shape of a successful parse, used by the inductions below.\<close>

lemma parse_value_SomeD:
  assumes "parse_value (Suc n) s = Some (v, r)"
  obtains (str) r1 t where "skip_ws s = CHR 0x22 # r1" "scan_string r1 = Some (t, r)"
      "v = JStr (unescape t)"
  | (arr0) r1 where "skip_ws s = CHR ''['' # r1" "skip_ws r1 = CHR '']'' # r" "v = JArr []"
  | (arr) r1 d r2 vs where "skip_ws s = CHR ''['' # r1" "skip_ws r1 = d # r2" "d \<noteq> CHR '']''"
      "parse_elems n r1 = Some (vs, r)" "v = JArr vs"
  | (obj0) r1 where "skip_ws s = CHR ''{'' # r1" "skip_ws r1 = CHR ''}'' # r" "v = JObj []"
  | (obj) r1 d r2 ms where "skip_ws s = CHR ''{'' # r1" "skip_ws r1 = d # r2" "d \<noteq> CHR ''}''"
      "parse_members n r1 = Some (ms, r)" "v = JObj ms"
  | (lit) c r1 where "skip_ws s = c # r1" "c \<notin> {CHR 0x22, CHR ''['', CHR ''{''}"
      "scan_literal (c # r1) = Some (v, r)"
proof -
  obtain c r1 where a: "skip_ws s = c # r1" using assms by (cases "skip_ws s") simp_all
  consider "c = CHR 0x22" | "c = CHR ''[''" | "c = CHR ''{''"
    | "c \<notin> {CHR 0x22, CHR ''['', CHR ''{''}" by blast
  then show ?thesis
  proof cases
    case 1
    with assms a str show ?thesis by auto
  next
    case 2
    then obtain d r2 where b: "skip_ws r1 = d # r2"
      using assms a by (cases "skip_ws r1") simp_all
    show ?thesis
    proof (cases "d = CHR '']''")
      case True
      with assms a b 2 arr0 show ?thesis by auto
    next
      case False
      with assms a b 2 arr [of r1 d r2] show ?thesis by auto
    qed
  next
    case 3
    then obtain d r2 where b: "skip_ws r1 = d # r2"
      using assms a by (cases "skip_ws r1") simp_all
    show ?thesis
    proof (cases "d = CHR ''}''")
      case True
      with assms a b 3 obj0 show ?thesis by auto
    next
      case False
      with assms a b 3 obj [of r1 d r2] show ?thesis by auto
    qed
  next
    case 4
    with assms a lit [of c r1] show ?thesis by simp
  qed
qed

lemma parse_elems_SomeD:
  assumes "parse_elems (Suc n) s = Some (vs, r)"
  obtains v r1 c r2 where "parse_value n s = Some (v, r1)" "skip_ws r1 = c # r2"
    "c = CHR '','' \<and> (\<exists>vs'. parse_elems n r2 = Some (vs', r) \<and> vs = v # vs')
     \<or> c = CHR '']'' \<and> r2 = r \<and> vs = [v]"
  using assms by (fastforce split: list.splits if_splits option.splits prod.splits)

lemma parse_members_SomeD:
  assumes "parse_members (Suc n) s = Some (ms, r)"
  obtains s1 k s2 s3 v r1 c r2 where "skip_ws s = CHR 0x22 # s1" "scan_string s1 = Some (k, s2)"
    "skip_ws s2 = CHR '':'' # s3" "parse_value n s3 = Some (v, r1)" "skip_ws r1 = c # r2"
    "c = CHR '','' \<and> (\<exists>ms'. parse_members n r2 = Some (ms', r) \<and> ms = (unescape k, v) # ms')
     \<or> c = CHR ''}'' \<and> r2 = r \<and> ms = [(unescape k, v)]"
proof -
  obtain q s1 where a: "skip_ws s = q # s1" using assms by (cases "skip_ws s") simp_all
  have q: "q = CHR 0x22" using assms a by (simp split: if_splits)
  obtain k s2 where b: "scan_string s1 = Some (k, s2)"
    using assms a q by (cases "scan_string s1") (simp_all, fastforce)
  obtain d s3 where c: "skip_ws s2 = d # s3" using assms a b q by (cases "skip_ws s2") simp_all
  have d: "d = CHR '':''" using assms a b c q by (simp split: if_splits)
  obtain v r1 where e: "parse_value n s3 = Some (v, r1)"
    using assms a b c d q by (cases "parse_value n s3") (simp_all, fastforce)
  obtain x r2 where f: "skip_ws r1 = x # r2"
    using assms a b c d e q by (cases "skip_ws r1") simp_all
  have "x = CHR '','' \<and> (\<exists>ms'. parse_members n r2 = Some (ms', r) \<and> ms = (unescape k, v) # ms')
     \<or> x = CHR ''}'' \<and> r2 = r \<and> ms = [(unescape k, v)]"
    using assms a b c d e f q by (auto split: if_splits)
  then show ?thesis using a b c d e f q that by blast
qed

lemma parse_length:
  "parse_value n s = Some (v, r) \<Longrightarrow> length r < length s"
  "parse_elems n s = Some (vs, r) \<Longrightarrow> length r < length s"
  "parse_members n s = Some (ms, r) \<Longrightarrow> length r < length s"
proof (induction n arbitrary: s v r vs ms)
  case (Suc n)
  {
    case 1
    then show ?case
      by (cases rule: parse_value_SomeD)
         (fastforce dest!: skip_ws_length scan_string_length scan_literal_length Suc.IH)+
  next
    case 2
    then show ?case
      by (cases rule: parse_elems_SomeD) (fastforce dest!: skip_ws_length Suc.IH)
  next
    case 3
    then show ?case
      by (cases rule: parse_members_SomeD)
         (fastforce dest!: skip_ws_length scan_string_length Suc.IH)
  }
qed auto

text \<open>The fuel \<open>json_fuel\<close> is enough: whatever some fuel parses, it parses.\<close>

lemma parse_fuel:
  "parse_value n s = Some (v, r) \<Longrightarrow> 2 * length s + 1 \<le> m \<Longrightarrow> parse_value m s = Some (v, r)"
  "parse_elems n s = Some (vs, r) \<Longrightarrow> 2 * length s + 2 \<le> m \<Longrightarrow> parse_elems m s = Some (vs, r)"
  "parse_members n s = Some (ms, r) \<Longrightarrow> 2 * length s + 2 \<le> m \<Longrightarrow> parse_members m s = Some (ms, r)"
proof (induction n arbitrary: s v r vs ms m)
  case (Suc n)
  {
    case 1
    then obtain m' where m: "m = Suc m'" by (cases m) auto
    from 1(1) show ?case
    proof (cases rule: parse_value_SomeD)
      case (arr r1 d r2 vs)
      then show ?thesis using 1(2) Suc.IH(2) [of r1 vs r m'] m by (auto dest: skip_ws_length)
    next
      case (obj r1 d r2 ms)
      then show ?thesis using 1(2) Suc.IH(3) [of r1 ms r m'] m by (auto dest: skip_ws_length)
    qed (simp_all add: m)
  next
    case 2
    then obtain m' where m: "m = Suc m'" by (cases m) auto
    from 2(1) show ?case
    proof (cases rule: parse_elems_SomeD)
      case (1 v r1 c r2)
      have v: "parse_value m' s = Some (v, r1)" using 1 2(2) m Suc.IH(1) [of s v r1 m'] by simp
      have "length r2 < length s" using parse_length(1) [OF 1(1)] skip_ws_length [OF 1(2)] by simp
      then have "\<forall>vs'. parse_elems n r2 = Some (vs', r) \<longrightarrow> parse_elems m' r2 = Some (vs', r)"
        using 2(2) m Suc.IH(2) [of r2 _ r m'] by simp
      then show ?thesis using 1 v m by auto
    qed
  next
    case 3
    then obtain m' where m: "m = Suc m'" by (cases m) auto
    from 3(1) show ?case
    proof (cases rule: parse_members_SomeD)
      case (1 s1 k s2 s3 v r1 c r2)
      have l: "length s3 < length s"
        using skip_ws_length [OF 1(1)] scan_string_length [OF 1(2)] skip_ws_length [OF 1(3)] by simp
      have v: "parse_value m' s3 = Some (v, r1)" using 1 3(2) m l Suc.IH(1) [of s3 v r1 m'] by simp
      have "length r2 < length s"
        using parse_length(1) [OF 1(4)] skip_ws_length [OF 1(5)] l by simp
      then have "\<forall>ms'. parse_members n r2 = Some (ms', r) \<longrightarrow> parse_members m' r2 = Some (ms', r)"
        using 3(2) m Suc.IH(3) [of r2 _ r m'] by simp
      then show ?thesis using 1 v m by auto
    qed
  }
qed auto

lemma next_value_complete: "parse_value n s = Some (v, r) \<Longrightarrow> next_value s = Some (v, r)"
  by (rule parse_fuel(1)) (simp_all add: json_fuel_def)

section \<open>Text after a complete value\<close>

lemma skip_ws_append: "skip_ws s = c # r \<Longrightarrow> skip_ws (s @ t) = c # r @ t"
  by (induction s) (auto split: if_splits)

lemma hex4_append: "hex4 s = Some (n, r) \<Longrightarrow> hex4 (s @ t) = Some (n, r @ t)"
  by (cases s rule: hex4.cases) (auto split: option.splits)

lemma scan_string_append:
  "scan_string s = Some (raw, r) \<Longrightarrow> scan_string (s @ t) = Some (raw, r @ t)"
proof (induction s arbitrary: raw rule: scan_string.induct)
  case (2 c s)
  show ?case
  proof (cases "c = CHR 0x5C")
    case False
    then show ?thesis using 2 by (auto split: if_splits)
  next
    case True
    then obtain e r2 where r: "s = e # r2" using 2(3) by (auto split: list.splits)
    have "hex4 r2 \<noteq> None \<Longrightarrow> hex4 (r2 @ t) \<noteq> None" using hex4_append by fastforce
    then show ?thesis using 2 True r by (auto split: if_splits)
  qed
qed simp

lemma span_append: "span P s = (a, b) \<Longrightarrow> b \<noteq> [] \<Longrightarrow> span P (s @ t) = (a, b @ t)"
  by (induction s arbitrary: a) (auto simp: span_def split: if_splits)

lemma span_append_Cons:
  "span P (c # s) = (a, b) \<Longrightarrow> b \<noteq> [] \<Longrightarrow> span P (c # s @ t) = (a, b @ t)"
  using span_append [of P "c # s"] by simp

lemma scan_sign_append:
  "scan_sign g s = (a, r) \<Longrightarrow> r \<noteq> [] \<Longrightarrow> scan_sign g (s @ t) = (a, r @ t)"
  by (auto simp: scan_sign_def split: list.splits if_splits)

lemma scan_whole_append:
  "scan_whole s = Some (a, r) \<Longrightarrow> r \<noteq> [] \<Longrightarrow> scan_whole (s @ t) = Some (a, r @ t)"
  by (auto simp: scan_whole_def span_append_Cons split: list.splits if_splits prod.splits)

lemma scan_frac_append:
  "scan_frac s = Some (f, r) \<Longrightarrow> r \<noteq> [] \<Longrightarrow> scan_frac (s @ t) = Some (f, r @ t)"
  by (auto simp: scan_frac_def span_append split: list.splits if_splits prod.splits)

lemma scan_exp_append:
  assumes "scan_exp s = Some (f, r)" "r \<noteq> []"
  shows "scan_exp (s @ t) = Some (f, r @ t)"
proof (cases s)
  case (Cons c u)
  obtain sg r1 where g: "scan_sign ''+-'' u = (sg, r1)" by fastforce
  obtain ds r2 where d: "span is_digit r1 = (ds, r2)" by fastforce
  show ?thesis
  proof (cases "c = CHR ''e'' \<or> c = CHR ''E''")
    case True
    then have "r2 = r" using assms Cons g d by (auto simp: scan_exp_def split: if_splits)
    moreover have "r1 \<noteq> []" using d assms(2) \<open>r2 = r\<close> by (auto simp: span_def)
    ultimately show ?thesis
      using assms Cons True g d scan_sign_append [OF g] span_append [OF d]
      by (auto simp: scan_exp_def split: if_splits)
  qed (use assms Cons in \<open>auto simp: scan_exp_def\<close>)
qed (use assms in \<open>simp add: scan_exp_def\<close>)

lemma scan_frac_rest: "scan_frac s = Some (f, r) \<Longrightarrow> r \<noteq> [] \<Longrightarrow> s \<noteq> []"
  by (auto simp: scan_frac_def)

lemma scan_exp_rest: "scan_exp s = Some (f, r) \<Longrightarrow> r \<noteq> [] \<Longrightarrow> s \<noteq> []"
  by (auto simp: scan_exp_def)

lemma scan_number_append:
  assumes "scan_number s = Some (n, r)" "r \<noteq> []"
  shows "scan_number (s @ t) = Some (n, r @ t)"
proof -
  obtain sg s1 where g: "scan_sign ''-'' s = (sg, s1)" by fastforce
  obtain ds s2 where w: "scan_whole s1 = Some (ds, s2)"
    using assms g by (auto simp: scan_number_def split: option.splits)
  obtain f s3 where f: "scan_frac s2 = Some (f, s3)"
    using assms g w by (auto simp: scan_number_def split: option.splits)
  obtain e where e: "scan_exp s3 = Some (e, r)" and n: "n = sg @ ds @ f @ e"
    using assms g w f by (auto simp: scan_number_def split: option.splits)
  have s3: "s3 \<noteq> []" using scan_exp_rest [OF e assms(2)] .
  have s2: "s2 \<noteq> []" using scan_frac_rest [OF f s3] .
  have s1: "s1 \<noteq> []" using w by (auto simp: scan_whole_def)
  show ?thesis
    using scan_sign_append [OF g s1] scan_whole_append [OF w s2] scan_frac_append [OF f s3]
      scan_exp_append [OF e assms(2)] n
    by (simp add: scan_number_def)
qed

lemma cut_prefix_append2: "cut_prefix s p = Some r \<Longrightarrow> cut_prefix (s @ t) p = Some (r @ t)"
  by (simp add: cut_prefix_Some)

lemma scan_literal_kind:
  "scan_literal s = Some (v, r) \<Longrightarrow>
     cut_prefix s ''true'' = Some r \<and> v = JBool True \<or> cut_prefix s ''false'' = Some r \<and> v = JBool False
     \<or> cut_prefix s ''null'' = Some r \<and> v = JNull
     \<or> (\<exists>n. scan_number s = Some (n, r) \<and> v = JNum n)"
  by (auto simp: scan_literal_def split: option.splits)

lemma scan_number_hd:
  assumes "scan_number s = Some (n, r)"
  shows "\<exists>c u. s = c # u \<and> c \<notin> {CHR ''t'', CHR ''f'', CHR ''n''}"
  using assms
  by (cases s)
     (auto simp: scan_number_def scan_sign_def scan_whole_def span_def is_digit_def
       split: if_splits prod.splits option.splits)

lemma number_no_literal:
  assumes "scan_number s = Some (n, r)"
  shows "cut_prefix (s @ t) ''true'' = None" "cut_prefix (s @ t) ''false'' = None"
    "cut_prefix (s @ t) ''null'' = None"
  using scan_number_hd [OF assms] by (auto simp: cut_prefix_def)

lemma scan_literal_append:
  assumes "scan_literal s = Some (v, r)" "r \<noteq> [] \<or> (\<forall>x. v \<noteq> JNum x)"
  shows "scan_literal (s @ t) = Some (v, r @ t)"
proof -
  consider "cut_prefix s ''true'' = Some r" "v = JBool True"
    | "cut_prefix s ''false'' = Some r" "v = JBool False"
    | "cut_prefix s ''null'' = Some r" "v = JNull"
    | n where "scan_number s = Some (n, r)" "v = JNum n"
    using scan_literal_kind [OF assms(1)] by blast
  then show ?thesis
  proof cases
    case 1
    then show ?thesis using cut_prefix_append2 by (simp add: scan_literal_def)
  next
    case 2
    then have "s = ''false'' @ r" by (simp add: cut_prefix_Some)
    then have "cut_prefix (s @ t) ''true'' = None" by (simp add: cut_prefix_def)
    then show ?thesis using 2 cut_prefix_append2 by (simp add: scan_literal_def)
  next
    case 3
    then have "s = ''null'' @ r" by (simp add: cut_prefix_Some)
    then have "cut_prefix (s @ t) ''true'' = None" "cut_prefix (s @ t) ''false'' = None"
      by (simp_all add: cut_prefix_def)
    then show ?thesis using 3 cut_prefix_append2 by (simp add: scan_literal_def)
  next
    case 4
    then show ?thesis
      using assms(2) scan_number_append [OF 4(1)] number_no_literal [OF 4(1)]
      by (simp add: scan_literal_def)
  qed
qed

text \<open>Text that follows a complete value does not change what is read (numbers apart).\<close>

lemma parse_append:
  "parse_value n s = Some (v, r) \<Longrightarrow> r \<noteq> [] \<or> (\<forall>x. v \<noteq> JNum x) \<Longrightarrow>
     parse_value n (s @ t) = Some (v, r @ t)"
  "parse_elems n s = Some (vs, r) \<Longrightarrow> parse_elems n (s @ t) = Some (vs, r @ t)"
  "parse_members n s = Some (ms, r) \<Longrightarrow> parse_members n (s @ t) = Some (ms, r @ t)"
proof (induction n arbitrary: s v r vs ms)
  case (Suc n)
  {
    case 1
    from 1(1) show ?case
    proof (cases rule: parse_value_SomeD)
      case (str r1 u)
      then show ?thesis using skip_ws_append [of s] scan_string_append [of r1] by simp
    next
      case (arr0 r1)
      then show ?thesis using skip_ws_append [of s] skip_ws_append [of r1] by simp
    next
      case (arr r1 d r2 vs)
      then show ?thesis
        using skip_ws_append [of s] skip_ws_append [of r1] Suc.IH(2) [of r1 vs r] by simp
    next
      case (obj0 r1)
      then show ?thesis using skip_ws_append [of s] skip_ws_append [of r1] by simp
    next
      case (obj r1 d r2 ms)
      then show ?thesis
        using skip_ws_append [of s] skip_ws_append [of r1] Suc.IH(3) [of r1 ms r] by simp
    next
      case (lit c r1)
      then show ?thesis
        using skip_ws_append [of s] scan_literal_append [of "c # r1" v r t] 1(2) by simp
    qed
  next
    case 2
    from 2(1) show ?case
    proof (cases rule: parse_elems_SomeD)
      case (1 v r1 c r2)
      have "r1 \<noteq> []" using 1(2) by auto
      then have "parse_value n (s @ t) = Some (v, r1 @ t)" using Suc.IH(1) 1(1) by blast
      moreover have "\<forall>vs'. parse_elems n r2 = Some (vs', r) \<longrightarrow>
          parse_elems n (r2 @ t) = Some (vs', r @ t)"
        using Suc.IH(2) by blast
      ultimately show ?thesis using 1(2,3) skip_ws_append [OF 1(2), of t] by auto
    qed
  next
    case 3
    from 3(1) show ?case
    proof (cases rule: parse_members_SomeD)
      case (1 s1 k s2 s3 v r1 c r2)
      have "r1 \<noteq> []" using 1(5) by auto
      then have "parse_value n (s3 @ t) = Some (v, r1 @ t)" using Suc.IH(1) 1(4) by blast
      moreover have "\<forall>ms'. parse_members n r2 = Some (ms', r) \<longrightarrow>
          parse_members n (r2 @ t) = Some (ms', r @ t)"
        using Suc.IH(3) by blast
      ultimately show ?thesis
        using 1(6) skip_ws_append [OF 1(1), of t] skip_ws_append [OF 1(3), of t]
          skip_ws_append [OF 1(5), of t] scan_string_append [OF 1(2), of t] by auto
    qed
  }
qed auto

lemma next_value_append:
  assumes "next_value s = Some (v, r)" "r \<noteq> [] \<or> (\<forall>x. v \<noteq> JNum x)"
  shows "next_value (s @ t) = Some (v, r @ t)"
  using next_value_complete [OF parse_append(1) [OF assms]] .

section \<open>Decoding into Go values\<close>

definition err_eof :: gerr where "err_eof = Sentinel ''EOF''"
definition err_json :: gerr where "err_json = Sentinel ''invalid JSON''"
definition err_json_type :: gerr where "err_json_type = Sentinel ''json: cannot unmarshal''"

text \<open>
  A destination of type \<open>'a\<close>: what a value stores over the previous content of the variable.
  \<open>null\<close> leaves a string, a number or a struct as it is.
\<close>

type_synonym 'a json_dest = "json \<Rightarrow> 'a \<Rightarrow> gerr + 'a"

definition dest_string :: "string json_dest" where
  "dest_string j old =
     (case j of JStr s \<Rightarrow> Inr s | JNull \<Rightarrow> Inr old | _ \<Rightarrow> Inl err_json_type)"

definition dest_int :: "int json_dest" where
  "dest_int j old =
     (case j of
        JNum n \<Rightarrow> (case atoi n of (v, None) \<Rightarrow> Inr v | (_, Some _) \<Rightarrow> Inl err_json_type)
      | JNull \<Rightarrow> Inr old
      | _ \<Rightarrow> Inl err_json_type)"

fun dest_list :: "'a json_dest \<Rightarrow> 'a \<Rightarrow> json list \<Rightarrow> gerr + 'a list" where
  "dest_list d z [] = Inr []"
| "dest_list d z (j # js) =
     (case d j z of Inl e \<Rightarrow> Inl e
      | Inr a \<Rightarrow> (case dest_list d z js of Inl e \<Rightarrow> Inl e | Inr as \<Rightarrow> Inr (a # as)))"

definition dest_slice :: "'a json_dest \<Rightarrow> 'a \<Rightarrow> 'a list json_dest" where
  "dest_slice d z j old =
     (case j of JArr js \<Rightarrow> dest_list d z js | JNull \<Rightarrow> Inr [] | _ \<Rightarrow> Inl err_json_type)"

text \<open>Struct fields, in the order of the object's members; unknown members are skipped.\<close>

type_synonym 'a json_field = "string \<times> 'a json_dest"

fun dest_members :: "'a json_field list \<Rightarrow> (string \<times> json) list \<Rightarrow> 'a \<Rightarrow> gerr + 'a" where
  "dest_members fs [] a = Inr a"
| "dest_members fs ((k, j) # ms) a =
     (case find (\<lambda>f. equal_fold (fst f) k) fs of
        None \<Rightarrow> dest_members fs ms a
      | Some f \<Rightarrow> (case snd f j a of Inl e \<Rightarrow> Inl e | Inr a' \<Rightarrow> dest_members fs ms a'))"

definition dest_struct :: "'a json_field list \<Rightarrow> 'a json_dest" where
  "dest_struct fs j old =
     (case j of JObj ms \<Rightarrow> dest_members fs ms old | JNull \<Rightarrow> Inr old | _ \<Rightarrow> Inl err_json_type)"

definition field :: "string \<Rightarrow> ('a \<Rightarrow> 'b) \<Rightarrow> ('b \<Rightarrow> 'a \<Rightarrow> 'a) \<Rightarrow> 'b json_dest \<Rightarrow> 'a json_field" where
  "field name sel upd d =
     (name, \<lambda>j a. case d j (sel a) of Inl e \<Rightarrow> Inl e | Inr b \<Rightarrow> Inr (upd b a))"

text \<open>
  \<open>json.Unmarshal\<close> checks the syntax of the whole input first; \<open>Decoder.Decode\<close> takes one value
  off the stream, and reports \<open>io.EOF\<close> when only white space is left.
\<close>

definition Unmarshal :: "'a json_dest \<Rightarrow> string \<Rightarrow> 'a \<Rightarrow> gerr + 'a" where
  "Unmarshal d body z =
     (case next_value body of
        None \<Rightarrow> Inl err_json
      | Some (j, r) \<Rightarrow> if skip_ws r = [] then d j z else Inl err_json)"

definition Decode :: "'a json_dest \<Rightarrow> string \<Rightarrow> 'a \<Rightarrow> (gerr + 'a) \<times> string" where
  "Decode d body z =
     (if skip_ws body = [] then (Inl err_eof, [])
      else case next_value body of
        None \<Rightarrow> (Inl err_json, [])
      | Some (j, r) \<Rightarrow> (d j z, r))"

text \<open>
  \<open>decodeStrict\<close> (\<open>gns3client_impl.go\<close>): decode one value, then insist that the next decode
  hits the end of the input.
\<close>

definition decodeStrict :: "'a json_dest \<Rightarrow> string \<Rightarrow> 'a \<Rightarrow> gerr + 'a" where
  "decodeStrict d body z =
     (case Decode d body z of
        (Inl e, _) \<Rightarrow> Inl e
      | (Inr a, r) \<Rightarrow>
          (case Decode (dest_struct []) r () of
             (Inl e, _) \<Rightarrow>
               if e = err_eof then Inr a
               else Inl (Wrapf ''truncated or malformed JSON: '' e [])
           | (Inr _, _) \<Rightarrow> Inl (Errorf ''trailing data after JSON value'')))"

lemma dest_struct_unit: "dest_struct [] j () = Inr () \<or> dest_struct [] j () = Inl err_json_type"
proof -
  have "dest_members [] ms () = Inr ()" for ms :: "(string \<times> json) list"
    by (induction ms) auto
  then show ?thesis by (auto simp: dest_struct_def split: json.splits)
qed

lemma err_eof_distinct [simp]: "err_json \<noteq> err_eof" "err_json_type \<noteq> err_eof"
  by (simp_all add: err_eof_def err_json_def err_json_type_def)

lemma decode_end: "fst (Decode (dest_struct []) r ()) = Inl err_eof \<longleftrightarrow> skip_ws r = []"
proof (cases "skip_ws r = []")
  case True
  then show ?thesis by (simp add: Decode_def)
next
  case False
  then show ?thesis
    using dest_struct_unit
    by (cases "next_value r")
       (auto simp: Decode_def simp del: dropWhile_eq_Nil_conv, metis err_eof_distinct(2) Inr_not_Inl sum.inject(1))
qed

lemma next_value_nonblank: "next_value s = Some x \<Longrightarrow> skip_ws s \<noteq> []"
  by (cases "skip_ws s") (simp_all add: json_fuel_def del: dropWhile_eq_Nil_conv)

lemma decodeStrict_Inr:
  "decodeStrict d body z = Inr a \<longleftrightarrow>
     (\<exists>j r. next_value body = Some (j, r) \<and> skip_ws r = [] \<and> d j z = Inr a)"
proof (cases "next_value body")
  case None
  then show ?thesis by (auto simp: decodeStrict_def Decode_def)
next
  case (Some x)
  then obtain j r where x: "next_value body = Some (j, r)" by (cases x) auto
  have d: "Decode d body z = (d j z, r)"
    using next_value_nonblank [OF x] x by (auto simp: Decode_def)
  obtain q r' where q: "Decode (dest_struct []) r () = (q, r')" by fastforce
  show ?thesis
    using x q decode_end [of r]
    by (auto simp: decodeStrict_def d split: sum.splits simp del: dropWhile_eq_Nil_conv)
qed

lemma Unmarshal_Inr:
  "Unmarshal d body z = Inr a \<longleftrightarrow>
     (\<exists>j r. next_value body = Some (j, r) \<and> skip_ws r = [] \<and> d j z = Inr a)"
  by (auto simp: Unmarshal_def split: option.splits)

lemma number_stays:
  assumes "next_value s = Some (JNum n, q)" "next_value (s @ t) = Some (j, r)"
  shows "\<exists>m. j = JNum m"
proof -
  have "parse_value (Suc (2 * length s + 1)) s = Some (JNum n, q)"
    using assms(1) by (simp add: json_fuel_def)
  then obtain c u where c: "skip_ws s = c # u" "scan_literal (c # u) = Some (JNum n, q)"
    by (cases rule: parse_value_SomeD) auto
  then have num: "scan_number (c # u) = Some (n, q)"
    by (auto dest: scan_literal_kind)
  have h: "c \<notin> {CHR 0x22, CHR ''['', CHR ''{''}"
    using num by (auto simp: scan_number_def scan_sign_def scan_whole_def span_def is_digit_def
        split: if_splits prod.splits option.splits)
  have "parse_value (Suc (2 * length (s @ t) + 1)) (s @ t) = Some (j, r)"
    using assms(2) by (simp add: json_fuel_def)
  then have "scan_literal (c # u @ t) = Some (j, r)"
    using skip_ws_append [OF c(1), of t] h by simp
  then show ?thesis
    using number_no_literal [OF num, of t] by (auto simp: scan_literal_def split: option.splits)
qed

text \<open>A complete array or object, cut short anywhere, is not accepted.\<close>

lemma truncated_rejected:
  assumes "next_value (b1 @ b2) = Some (j, r)" "skip_ws r = []" "\<forall>n. j \<noteq> JNum n" "skip_ws b2 \<noteq> []"
  shows "Unmarshal d b1 z \<noteq> Inr a"
proof
  assume "Unmarshal d b1 z = Inr a"
  then obtain k q where k: "next_value b1 = Some (k, q)" "skip_ws q = []" by (auto simp: Unmarshal_Inr)
  show False
  proof (cases "q = [] \<and> (\<exists>n. k = JNum n)")
    case False
    then have "next_value (b1 @ b2) = Some (k, q @ b2)" by (intro next_value_append k(1)) auto
    then have "skip_ws (q @ b2) = []" using assms(1,2) by simp
    then show False using assms(4) k(2) by (simp add: dropWhile_eq_Nil_conv)
  next
    case True
    then obtain n where "k = JNum n" by blast
    then show False using number_stays [of b1 n q b2 j r] k(1) assms(1,3) by auto
  qed
qed

text \<open>
  The two decoders accept the same bodies with the same result, and a body that holds one
  array or object is rejected by both when it is cut short of a byte that is not white space.
\<close>

theorem truncated_json_rejected:
  shows "(decodeStrict d body z = Inr a \<longleftrightarrow> Unmarshal d body z = Inr a)
    \<and> (body = b1 @ b2 \<and> skip_ws b2 \<noteq> [] \<and> (\<forall>n. j \<noteq> JNum n)
        \<and> Unmarshal (\<lambda>v _. Inr v) body JNull = Inr j
       \<longrightarrow> decodeStrict d b1 z \<noteq> Inr a \<and> Unmarshal d b1 z \<noteq> Inr a)"
proof -
  have eq: "decodeStrict d b y = Inr a \<longleftrightarrow> Unmarshal d b y = Inr a" for b y
    by (simp add: decodeStrict_Inr Unmarshal_Inr)
  have "Unmarshal d b1 z \<noteq> Inr a"
    if h: "body = b1 @ b2" "skip_ws b2 \<noteq> []" "\<forall>n. j \<noteq> JNum n"
      "Unmarshal (\<lambda>v _. Inr v) body JNull = Inr j"
  proof -
    obtain r where "next_value (b1 @ b2) = Some (j, r)" "skip_ws r = []"
      using h(1,4) by (auto simp: Unmarshal_Inr simp del: dropWhile_eq_Nil_conv)
    from truncated_rejected [OF this h(3,2)] show ?thesis .
  qed
  then show ?thesis using eq by blast
qed

theorem truncated_json_rejected_witness:
  "Unmarshal dest_string ''[1,'' [] \<noteq> Inr ''x''"
  using truncated_json_rejected
    [of dest_string "''[1,2]''" "[]" "''x''" "''[1,''" "''2]''" "JArr [JNum ''1'', JNum ''2'']"]
  by (simp add: Unmarshal_def json_fuel_def json_ws_def scan_literal_def cut_prefix_def
      scan_number_def scan_sign_def scan_whole_def scan_frac_def scan_exp_def span_def is_digit_def
      numeral_eq_Suc)

end
