(* ===== verification/Topology.thy ===== *)
theory Topology
  imports Prelude
begin

text \<open>
  Lab topology templates (\<open>internal/labsession/gns3client.go\<close>) and the translation of
  interface labels into GNS3 adapter and port numbers (\<open>gns3client_impl.go\<close>).  A template is
  well formed when every link of it can be created: its end points are declared nodes of a
  supported type, their labels translate, and no physical port carries two links.
\<close>

section \<open>Templates\<close>

text \<open>Values of \<open>map[string]any\<close> node properties: the templates use strings and numbers.\<close>

datatype gval = GStr string | GInt int

record NodeTemplate =
  nt_Name :: string
  nt_NodeType :: string
  nt_TemplateID :: string
  nt_StartupConfig :: string
  nt_Properties :: "(string, gval) gomap"

record LinkTemplate =
  lt_NodeA :: string
  lt_IfaceA :: string
  lt_NodeB :: string
  lt_IfaceB :: string

record TopologyTemplate =
  tt_LabID :: int
  tt_ComputeID :: string
  tt_Nodes :: "NodeTemplate list"
  tt_Links :: "LinkTemplate list"

text \<open>Composite literals: omitted fields have their zero value.\<close>

definition node0 :: "string \<Rightarrow> string \<Rightarrow> NodeTemplate" where
  "node0 name ty = \<lparr>nt_Name = name, nt_NodeType = ty, nt_TemplateID = [],
     nt_StartupConfig = [], nt_Properties = []\<rparr>"

definition link :: "string \<Rightarrow> string \<Rightarrow> string \<Rightarrow> string \<Rightarrow> LinkTemplate" where
  "link a ia b ib = \<lparr>lt_NodeA = a, lt_IfaceA = ia, lt_NodeB = b, lt_IfaceB = ib\<rparr>"

section \<open>Scanning: \<open>fmt.Sscanf\<close> with literal text and \<open>%d\<close>\<close>

datatype scan_item = Lit string | PercentD

definition scan_blank :: "char \<Rightarrow> bool" where
  "scan_blank c = (is_space c \<and> c \<noteq> CHR 0x0A)"

text \<open>
  \<open>%d\<close> skips blanks, takes an optional sign and a maximal run of digits, and fails on an empty
  run or a value outside 64 bits.  Input left over after the last item is ignored.
\<close>

definition scan_int :: "string \<Rightarrow> (int \<times> string) option" where
  "scan_int s =
     (let s1 = dropWhile scan_blank s;
          sgn = (if s1 \<noteq> [] \<and> (hd s1 = CHR ''-'' \<or> hd s1 = CHR ''+'') then [hd s1] else []);
          s2 = drop (length sgn) s1;
          ds = takeWhile is_digit s2
      in (case atoi (sgn @ ds) of (v, None) \<Rightarrow> Some (v, dropWhile is_digit s2)
          | (_, Some _) \<Rightarrow> None))"

fun sscanf :: "scan_item list \<Rightarrow> string \<Rightarrow> int list option" where
  "sscanf [] s = Some []"
| "sscanf (Lit l # fs) s = (case cut_prefix s l of None \<Rightarrow> None | Some r \<Rightarrow> sscanf fs r)"
| "sscanf (PercentD # fs) s =
     (case scan_int s of None \<Rightarrow> None
      | Some (v, r) \<Rightarrow> map_option (\<lambda>vs. v # vs) (sscanf fs r))"

section \<open>\<open>interfaceToPort\<close>\<close>

definition err_iface :: "string \<Rightarrow> string \<Rightarrow> string \<Rightarrow> gerr" where
  "err_iface what iface expected =
     Errorf (''unrecognized '' @ what @ '' interface '' @ quote_str iface @
             '' (expected '' @ expected @ '')'')"

definition iface_iou :: "string \<Rightarrow> string \<Rightarrow> gerr + int \<times> int" where
  "iface_iou nodeType iface =
     (case sscanf [Lit ''Et0/'', PercentD] iface of
        Some [n] \<Rightarrow> Inr (0, n)
      | _ \<Rightarrow>
     (case sscanf [Lit ''Fa0/'', PercentD] iface of
        Some [n] \<Rightarrow> Inr (0, n)
      | _ \<Rightarrow> Inl (err_iface nodeType iface ''Et0/N or Fa0/N'')))"

definition iface_dynamips :: "string \<Rightarrow> gerr + int \<times> int" where
  "iface_dynamips iface =
     (case sscanf [Lit ''Fa'', PercentD, Lit ''/'', PercentD] iface of
        Some [slot, portN] \<Rightarrow> Inr (slot, portN)
      | _ \<Rightarrow>
     (case sscanf [Lit ''Gi0/'', PercentD] iface of
        Some [slot] \<Rightarrow> Inr (0, slot)
      | _ \<Rightarrow>
     (case sscanf [Lit ''Gi1/'', PercentD] iface of
        Some [portN] \<Rightarrow> Inr (1, portN - 1)
      | _ \<Rightarrow> Inl (err_iface ''dynamips'' iface ''Fa<N>/<M> or Gi0/N''))))"

definition iface_hub :: "string \<Rightarrow> gerr + int \<times> int" where
  "iface_hub iface =
     (case sscanf [Lit ''e'', PercentD] iface of
        Some [p] \<Rightarrow> Inr (0, p)
      | _ \<Rightarrow> Inl (err_iface ''hub'' iface ''e<N>''))"

definition iface_docker :: "string \<Rightarrow> gerr + int \<times> int" where
  "iface_docker iface =
     (if iface = ''eth0'' then Inr (0, 0)
      else case sscanf [Lit ''eth'', PercentD] iface of
        Some [n] \<Rightarrow> Inr (n, 0)
      | _ \<Rightarrow> Inl (err_iface ''docker'' iface ''ethN''))"

definition iface_qemu :: "string \<Rightarrow> gerr + int \<times> int" where
  "iface_qemu iface =
     (if iface = ''eth0'' \<or> iface = ''Ethernet0'' then Inr (0, 0)
      else case sscanf [Lit ''eth'', PercentD] iface of
        Some [n] \<Rightarrow> Inr (n, 0)
      | _ \<Rightarrow>
     (case sscanf [Lit ''Ethernet'', PercentD] iface of
        Some [n] \<Rightarrow> Inr (n, 0)
      | _ \<Rightarrow> Inl (err_iface ''qemu'' iface ''ethN or EthernetN'')))"

definition interfaceToPort :: "string \<Rightarrow> string \<Rightarrow> gerr + int \<times> int" where
  "interfaceToPort nodeType iface =
     (if nodeType = ''iou'' then iface_iou nodeType iface
      else if nodeType = ''dynamips'' then iface_dynamips iface
      else if nodeType = ''vpcs'' then Inr (0, 0)
      else if nodeType = ''ethernet_hub'' then iface_hub iface
      else if nodeType = ''docker'' then iface_docker iface
      else if nodeType = ''qemu'' then iface_qemu iface
      else Inl (Errorf (''no port mapping for node type '' @ quote_str nodeType)))"

definition nodeTypeOf :: "TopologyTemplate \<Rightarrow> string \<Rightarrow> string" where
  "nodeTypeOf t name =
     (case find (\<lambda>n. nt_Name n = name) (tt_Nodes t) of
        None \<Rightarrow> [] | Some n \<Rightarrow> nt_NodeType n)"

section \<open>Well-formed templates\<close>

definition node_names :: "TopologyTemplate \<Rightarrow> string list" where
  "node_names t = map nt_Name (tt_Nodes t)"

definition supported_types :: "string list" where
  "supported_types =
     [''iou'', ''dynamips'', ''qemu'', ''docker'', ''vpcs'', ''ethernet_hub'']"

text \<open>The (node, interface label) pairs of all link ends, as the port-conflict test lists them.\<close>

definition link_ends :: "TopologyTemplate \<Rightarrow> (string \<times> string) list" where
  "link_ends t =
     concat (map (\<lambda>l. [(lt_NodeA l, lt_IfaceA l), (lt_NodeB l, lt_IfaceB l)]) (tt_Links t))"

definition end_port :: "TopologyTemplate \<Rightarrow> string \<times> string \<Rightarrow> gerr + int \<times> int" where
  "end_port t e = interfaceToPort (nodeTypeOf t (fst e)) (snd e)"

text \<open>A link end together with the GNS3 port it is plugged into.\<close>

definition phys_ports :: "TopologyTemplate \<Rightarrow> (string \<times> (gerr + int \<times> int)) list" where
  "phys_ports t = map (\<lambda>e. (fst e, end_port t e)) (link_ends t)"

definition port_ok :: "gerr + int \<times> int \<Rightarrow> bool" where
  "port_ok r = (case r of Inl _ \<Rightarrow> False | Inr (a, p) \<Rightarrow> 0 \<le> a \<and> 0 \<le> p)"

definition template_ok :: "TopologyTemplate \<Rightarrow> bool" where
  "template_ok t =
     (distinct (node_names t)
      \<and> list_all (\<lambda>n. nt_NodeType n \<in> set supported_types) (tt_Nodes t)
      \<and> list_all (\<lambda>e. fst e \<in> set (node_names t)) (link_ends t)
      \<and> list_all (\<lambda>e. port_ok (end_port t e)) (link_ends t)
      \<and> distinct (phys_ports t))"

named_theorems template_oks "well-formedness of the lab templates, one fact per lab"

text \<open>No physical port is used twice, hence no (node, label) pair is.\<close>

lemma template_ok_no_label_conflict: "template_ok t \<Longrightarrow> distinct (link_ends t)"
  unfolding template_ok_def phys_ports_def
  by (simp add: distinct_map)

section \<open>Translation lemmas\<close>

lemma is_digit_not_space: "is_digit c \<Longrightarrow> \<not> is_space c"
  by (auto simp: is_digit_def is_space_def)

lemma digits_run:
  assumes "list_all is_digit ds" "r = [] \<or> \<not> is_digit (hd r)"
  shows "takeWhile is_digit (ds @ r) = ds" "dropWhile is_digit (ds @ r) = r"
proof -
  have "takeWhile is_digit r = []" "dropWhile is_digit r = r"
    using assms(2) by (cases r; simp)+
  moreover have "\<forall>c\<in>set ds. is_digit c"
    using assms(1) by (simp add: list_all_iff)
  ultimately show "takeWhile is_digit (ds @ r) = ds" "dropWhile is_digit (ds @ r) = r"
    by (simp_all add: takeWhile_append dropWhile_append)
qed

text \<open>Scanning a printed number gives the number and leaves what follows it.\<close>

lemma scan_int_itoa:
  assumes "int64_min \<le> v" "v \<le> int64_max" "r = [] \<or> \<not> is_digit (hd r)"
  shows "scan_int (itoa v @ r) = Some (v, r)"
proof -
  obtain d ds where dd: "nat_digits (nat \<bar>v\<bar>) = d # ds"
    by (cases "nat_digits (nat \<bar>v\<bar>)") auto
  have dig: "is_digit d" "list_all is_digit (d # ds)"
    using nat_digits_digit [of "nat \<bar>v\<bar>"] by (auto simp: dd)
  have nb: "\<not> scan_blank d" "d \<noteq> CHR ''-''" "d \<noteq> CHR ''+''" "\<not> scan_blank (CHR ''-'')"
    using is_digit_not_space [OF dig(1)] dig(1)
    by (auto simp: scan_blank_def is_space_def)
  note run = digits_run [OF dig(2) assms(3)]
  note at = atoi_itoa [OF assms(1,2)]
  show ?thesis
  proof (cases "v < 0")
    case True
    then have "itoa v = CHR ''-'' # d # ds" using dd by (simp add: itoa_def)
    then show ?thesis using nb run at by (simp add: scan_int_def)
  next
    case False
    then have "itoa v = d # ds" using dd by (simp add: itoa_def)
    then show ?thesis using nb run at by (simp add: scan_int_def)
  qed
qed

lemma cut_prefix_append [simp]: "cut_prefix (p @ s) p = Some s"
  by (simp add: cut_prefix_Some)

text \<open>The labels the templates use translate to the documented ports.\<close>

lemma sscanf_label:
  assumes "int64_min \<le> n" "n \<le> int64_max"
  shows "sscanf [Lit p, PercentD] (p @ itoa n) = Some [n]"
  using scan_int_itoa [OF assms, of "[]"] by simp

end
