(* ===== verification/Gns3Api.thy ===== *)
theory Gns3Api
  imports Topology
begin

text \<open>
  The orchestration interface \<open>GNS3Client\<close> (\<open>internal/labsession/gns3client.go\<close>) and the
  effects of calling it.  A Go interface value is a record of its methods.  A call changes the
  state of the outside world (of an arbitrary type \<open>'s\<close>), takes some time, and returns a value;
  time is counted in nanoseconds, the unit of \<open>time.Duration\<close>.
\<close>

section \<open>Effects\<close>

type_synonym ('s, 'a) io = "'s \<Rightarrow> 's \<times> nat \<times> 'a"

definition io_return :: "'a \<Rightarrow> ('s, 'a) io" where
  "io_return a s = (s, 0, a)"

definition io_bind :: "('s, 'a) io \<Rightarrow> ('a \<Rightarrow> ('s, 'b) io) \<Rightarrow> ('s, 'b) io" where
  "io_bind m f s =
     (let (s1, t1, a) = m s; (s2, t2, b) = f a s1 in (s2, t1 + t2, b))"

lemma io_return_bind [simp]: "io_bind (io_return a) f = f a"
  by (simp add: io_bind_def io_return_def fun_eq_iff split: prod.splits)

lemma io_bind_return [simp]: "io_bind m io_return = m"
  by (simp add: io_bind_def io_return_def fun_eq_iff split: prod.splits)

lemma io_bind_assoc: "io_bind (io_bind m f) g = io_bind m (\<lambda>a. io_bind (f a) g)"
  by (simp add: io_bind_def fun_eq_iff add.assoc split: prod.splits)

lemma io_bind_eq:
  "m s = (s1, t1, a) \<Longrightarrow> f a s1 = (s2, t2, b) \<Longrightarrow> io_bind m f s = (s2, t1 + t2, b)"
  by (simp add: io_bind_def)

section \<open>Provisioned nodes\<close>

record NodeInfo =
  ni_GNS3NodeID :: string
  ni_ConsolePort :: int
  ni_ConsoleType :: string
  ni_NodeType :: string
  ni_MAC :: string

type_synonym NodeMap = "(string, NodeInfo) gomap"

section \<open>The client interface\<close>

record 's GNS3Client =
  g_CreateProject :: "string \<Rightarrow> int \<Rightarrow> int \<Rightarrow> ('s, gerr + string) io"
  g_DeleteProject :: "string \<Rightarrow> ('s, gerr option) io"
  g_ProvisionTopology :: "string \<Rightarrow> TopologyTemplate \<Rightarrow> ('s, gerr + NodeMap) io"
  g_StartNodes :: "string \<Rightarrow> ('s, gerr option) io"
  g_StopNodes :: "string \<Rightarrow> ('s, gerr option) io"
  g_EnsureProjectRunning :: "string \<Rightarrow> ('s, gerr option) io"
  g_EnsureKaliImage :: "string \<Rightarrow> ('s, gerr option) io"
  g_PopulateNodeMACs :: "string \<Rightarrow> NodeMap \<Rightarrow> ('s, NodeMap \<times> gerr option) io"
  g_ProjectExists :: "string \<Rightarrow> ('s, gerr + bool) io"
  g_NodesStopped :: "string \<Rightarrow> ('s, gerr + bool) io"

section \<open>An example orchestrator\<close>

text \<open>
  A small concrete orchestrator that the witnesses of the development run against.  Its state says
  how many status polls the nodes still need to stop, and whether the project exists; when
  \<open>stuck\<close> is set, stopping nodes fails.
\<close>

record demo =
  d_polls :: nat
  d_exists :: bool
  d_stuck :: bool

definition demo_client :: "demo GNS3Client" where
  "demo_client =
     \<lparr>g_CreateProject = (\<lambda>c u l s. (s\<lparr>d_exists := True\<rparr>, 1, Inr ''p1'')),
      g_DeleteProject = (\<lambda>p s. (s\<lparr>d_exists := False\<rparr>, 1, None)),
      g_ProvisionTopology = (\<lambda>p t s. (s, 1, Inr [])),
      g_StartNodes = (\<lambda>p s. (s, 1, None)),
      g_StopNodes = (\<lambda>p s. (s, 1, if d_stuck s then Some (Errorf ''stop failed'') else None)),
      g_EnsureProjectRunning = (\<lambda>p s. (s, 1, None)),
      g_EnsureKaliImage = (\<lambda>c s. (s, 1, None)),
      g_PopulateNodeMACs = (\<lambda>p n s. (s, 1, (n, None))),
      g_ProjectExists = (\<lambda>p s. (s, 1, Inr (d_exists s))),
      g_NodesStopped = (\<lambda>p s. (s\<lparr>d_polls := d_polls s - 1\<rparr>, 1, Inr (d_polls s = 0)))\<rparr>"

end
