(* ===== verification/Regex.thy ===== *)
theory Regex
  imports Prelude
begin

text \<open>
  The part of Go's \<open>regexp\<close> the parsers use: leftmost match, alternatives in order, greedy and
  lazy repetition, captures, and the anchors \<open>^\<close>, \<open>(?m)^\<close>, \<open>$\<close> and \<open>\b\<close>.  The matcher is the usual
  backtracking one with a continuation; on expressions of this kind it finds the match RE2's
  leftmost-first rule prescribes.  It is related to a declarative matching relation below.
\<close>

section \<open>Expressions\<close>

datatype re =
    RChr "char \<Rightarrow> bool"
  | RBeginText
  | RBeginLine
  | REndText
  | REmpty
  | RCat re re
  | RAlt re re
  | RStar bool re
  | RCap nat re
  | RWordB

text \<open>A position: the byte before it, and the text after it.\<close>

type_synonym re_pos = "char option \<times> string"
type_synonym re_caps = "(nat \<times> string) list"

definition re_chr :: "char \<Rightarrow> re" where "re_chr c = RChr (\<lambda>d. d = c)"
definition re_chri :: "char \<Rightarrow> re" where "re_chri c = RChr (\<lambda>d. to_lower_char d = to_lower_char c)"

fun re_lit :: "string \<Rightarrow> re" where
  "re_lit [] = REmpty"
| "re_lit [c] = re_chr c"
| "re_lit (c # d # s) = RCat (re_chr c) (re_lit (d # s))"

fun re_liti :: "string \<Rightarrow> re" where
  "re_liti [] = REmpty"
| "re_liti [c] = re_chri c"
| "re_liti (c # d # s) = RCat (re_chri c) (re_liti (d # s))"

definition re_star :: "re \<Rightarrow> re" where "re_star r = RStar True r"
definition re_plus :: "re \<Rightarrow> re" where "re_plus r = RCat r (RStar True r)"
definition re_opt :: "re \<Rightarrow> re" where "re_opt r = RAlt r REmpty"

fun re_rep :: "nat \<Rightarrow> re \<Rightarrow> re" where
  "re_rep 0 r = REmpty"
| "re_rep (Suc n) r = RCat r (re_rep n r)"

fun re_seq :: "re list \<Rightarrow> re" where
  "re_seq [] = REmpty"
| "re_seq [r] = r"
| "re_seq (r # q # rs) = RCat r (re_seq (q # rs))"

text \<open>Perl classes are ASCII; \<open>\s\<close> leaves out the vertical tab, which \<open>is_space\<close> has.\<close>

definition is_re_space :: "char \<Rightarrow> bool" where
  "is_re_space c = (c \<in> {CHR '' '', CHR 0x09, CHR 0x0A, CHR 0x0C, CHR 0x0D})"

definition is_hexi :: "char \<Rightarrow> bool" where
  "is_hexi c = (is_digit c \<or> (97 \<le> (of_char (to_lower_char c) :: nat) \<and> (of_char (to_lower_char c) :: nat) \<le> 102))"

definition re_s :: re where "re_s = RChr is_re_space"
definition re_S :: re where "re_S = RChr (\<lambda>c. \<not> is_re_space c)"
definition re_d :: re where "re_d = RChr is_digit"
definition re_dot :: re where "re_dot = RChr (\<lambda>c. c \<noteq> CHR 0x0A)"
definition re_hexi :: re where "re_hexi = RChr is_hexi"

text \<open>\<open>\b\<close>: a word character on exactly one side of the position.\<close>

definition is_word :: "char \<Rightarrow> bool" where
  "is_word c = (is_digit c \<or> c = CHR ''_''
     \<or> 97 \<le> (of_char (to_lower_char c) :: nat) \<and> (of_char (to_lower_char c) :: nat) \<le> 122)"

definition word_edge :: "re_pos \<Rightarrow> bool" where
  "word_edge x =
     ((case fst x of None \<Rightarrow> False | Some c \<Rightarrow> is_word c)
      \<noteq> (case snd x of [] \<Rightarrow> False | c # _ \<Rightarrow> is_word c))"

section \<open>The matcher\<close>

function re_m ::
  "re \<Rightarrow> re_pos \<Rightarrow> re_caps \<Rightarrow> (re_pos \<Rightarrow> re_caps \<Rightarrow> 'r option) \<Rightarrow> 'r option" where
  "re_m (RChr P) x cs k =
     (case snd x of [] \<Rightarrow> None | c # t \<Rightarrow> if P c then k (Some c, t) cs else None)"
| "re_m RBeginText x cs k = (if fst x = None then k x cs else None)"
| "re_m RBeginLine x cs k = (if fst x = None \<or> fst x = Some (CHR 0x0A) then k x cs else None)"
| "re_m REndText x cs k = (if snd x = [] then k x cs else None)"
| "re_m REmpty x cs k = k x cs"
| "re_m (RCat a b) x cs k = re_m a x cs (\<lambda>y ds. re_m b y ds k)"
| "re_m (RAlt a b) x cs k =
     (case re_m a x cs k of Some v \<Rightarrow> Some v | None \<Rightarrow> re_m b x cs k)"
| "re_m (RStar g r) x cs k =
     (if g then
        (case re_m r x cs (\<lambda>y ds. if length (snd y) < length (snd x)
                                  then re_m (RStar g r) y ds k else None) of
           Some v \<Rightarrow> Some v | None \<Rightarrow> k x cs)
      else
        (case k x cs of
           Some v \<Rightarrow> Some v
         | None \<Rightarrow> re_m r x cs (\<lambda>y ds. if length (snd y) < length (snd x)
                                      then re_m (RStar g r) y ds k else None)))"
| "re_m (RCap i r) x cs k =
     re_m r x cs (\<lambda>y ds. k y ((i, take (length (snd x) - length (snd y)) (snd x)) # ds))"
| "re_m RWordB x cs k = (if word_edge x then k x cs else None)"
  by pat_completeness auto
termination
  by (relation "inv_image (less_than <*lex*> less_than) (\<lambda>(r, x, cs, k). (size r, length (snd x)))")
     auto

text \<open>The leftmost match: its captures (group 0 is the whole match) and the rest of the text.\<close>

fun re_search :: "re \<Rightarrow> char option \<Rightarrow> string \<Rightarrow> (re_caps \<times> re_pos) option" where
  "re_search r p [] = re_m (RCap 0 r) (p, []) [] (\<lambda>y ds. Some (ds, y))"
| "re_search r p (c # s) =
     (case re_m (RCap 0 r) (p, c # s) [] (\<lambda>y ds. Some (ds, y)) of
        Some v \<Rightarrow> Some v
      | None \<Rightarrow> re_search r (Some c) s)"

definition re_MatchString :: "re \<Rightarrow> string \<Rightarrow> bool" where
  "re_MatchString r s = (re_search r None s \<noteq> None)"

definition re_FindSubmatch :: "re \<Rightarrow> string \<Rightarrow> re_caps option" where
  "re_FindSubmatch r s = map_option fst (re_search r None s)"

text \<open>Successive matches, for expressions that match no empty text.\<close>

function re_FindAll_from :: "re \<Rightarrow> re_pos \<Rightarrow> re_caps list" where
  "re_FindAll_from r x =
     (case re_search r (fst x) (snd x) of
        None \<Rightarrow> []
      | Some (cs, y) \<Rightarrow> if length (snd y) < length (snd x) then cs # re_FindAll_from r y else [])"
  by pat_completeness auto
termination
  by (relation "measure (\<lambda>(r, x). length (snd x))") auto

definition re_FindAllSubmatch :: "re \<Rightarrow> string \<Rightarrow> re_caps list" where
  "re_FindAllSubmatch r s = re_FindAll_from r (None, s)"

text \<open>The text of a group; a group that took no part in the match is empty.\<close>

definition group :: "nat \<Rightarrow> re_caps \<Rightarrow> string" where
  "group i cs = (case map_of cs i of None \<Rightarrow> [] | Some t \<Rightarrow> t)"

section \<open>What the matcher decides\<close>

inductive re_mt :: "re \<Rightarrow> re_pos \<times> re_caps \<Rightarrow> re_pos \<times> re_caps \<Rightarrow> bool" where
  mt_chr: "P c \<Longrightarrow> re_mt (RChr P) ((p, c # t), cs) ((Some c, t), cs)"
| mt_btext: "re_mt RBeginText ((None, t), cs) ((None, t), cs)"
| mt_bline0: "re_mt RBeginLine ((None, t), cs) ((None, t), cs)"
| mt_bline: "re_mt RBeginLine ((Some (CHR 0x0A), t), cs) ((Some (CHR 0x0A), t), cs)"
| mt_etext: "re_mt REndText ((p, []), cs) ((p, []), cs)"
| mt_empty: "re_mt REmpty z z"
| mt_cat: "re_mt a u v \<Longrightarrow> re_mt b v z \<Longrightarrow> re_mt (RCat a b) u z"
| mt_altl: "re_mt a u v \<Longrightarrow> re_mt (RAlt a b) u v"
| mt_altr: "re_mt b u v \<Longrightarrow> re_mt (RAlt a b) u v"
| mt_star0: "re_mt (RStar g r) u u"
| mt_star: "re_mt r u v \<Longrightarrow> re_mt (RStar g r) v z \<Longrightarrow> re_mt (RStar g r) u z"
| mt_cap: "re_mt r (x, cs) (y, ds) \<Longrightarrow> re_mt (RCap i r) (x, cs)
     (y, (i, take (length (snd x) - length (snd y)) (snd x)) # ds)"
| mt_wordb: "word_edge x \<Longrightarrow> re_mt RWordB (x, cs) (x, cs)"

inductive_cases mt_catE: "re_mt (RCat a b) x y"
inductive_cases mt_chrE: "re_mt (RChr P) x y"
inductive_cases mt_starE: "re_mt (RStar g r) x y"
inductive_cases mt_capE: "re_mt (RCap i r) x y"
inductive_cases mt_emptyE: "re_mt REmpty x y"
inductive_cases mt_etextE: "re_mt REndText x y"
inductive_cases mt_btextE: "re_mt RBeginText x y"

declare re_m.simps [simp del]

lemma re_m_sound:
  "re_m r x cs k = Some v \<Longrightarrow> \<exists>y ds. re_mt r (x, cs) (y, ds) \<and> k y ds = Some v"
proof (induction r x cs k arbitrary: v rule: re_m.induct)
  case (1 P x cs k)
  then show ?case
    by (cases x) (auto simp: re_m.simps intro!: mt_chr split: list.splits if_splits)
next
  case (2 x cs k)
  then show ?case by (cases x) (auto simp: re_m.simps intro!: mt_btext split: if_splits)
next
  case (3 x cs k)
  then show ?case
    by (cases x) (auto simp: re_m.simps intro!: mt_bline mt_bline0 split: if_splits)
next
  case (4 x cs k)
  then show ?case by (cases x) (auto simp: re_m.simps intro!: mt_etext split: if_splits)
next
  case (5 x cs k)
  then show ?case using mt_empty [of "(x, cs)"] by (cases x) (auto simp: re_m.simps)
next
  case (6 a b x cs k)
  from 6(3) have "re_m a x cs (\<lambda>y ds. re_m b y ds k) = Some v" by (simp add: re_m.simps)
  from 6(2) [OF this] obtain y ds where a: "re_mt a (x, cs) (y, ds)" "re_m b y ds k = Some v" by blast
  from 6(1) [OF a(2)] mt_cat [OF a(1)] show ?case by blast
next
  case (7 a b x cs k)
  show ?case
  proof (cases "re_m a x cs k")
    case None
    with 7(3) have "re_m b x cs k = Some v" by (simp add: re_m.simps)
    from 7(2) [OF None this] mt_altr show ?thesis by blast
  next
    case (Some v')
    with 7(3) have "re_m a x cs k = Some v" by (simp add: re_m.simps)
    from 7(1) [OF this] mt_altl show ?thesis by blast
  qed
next
  case (8 g r x cs k)
  have body: "\<exists>y ds. re_mt (RStar g r) (x, cs) (y, ds) \<and> k y ds = Some v"
    if c: "g \<or> k x cs = None" and
      m: "re_m r x cs (\<lambda>y ds. if length (snd y) < length (snd x) then re_m (RStar g r) y ds k
          else None) = Some v" for v
  proof -
    obtain y ds where y: "re_mt r (x, cs) (y, ds)"
        "(if length (snd y) < length (snd x) then re_m (RStar g r) y ds k else None) = Some v"
      using c 8(2) [OF _ m] 8(4) [OF _ _ m] by blast
    then have l: "length (snd y) < length (snd x)" and s: "re_m (RStar g r) y ds k = Some v"
      by (auto split: if_splits)
    obtain z es where "re_mt (RStar g r) (y, ds) (z, es)" "k z es = Some v"
      using c 8(1) [OF _ l s] 8(3) [OF _ _ l s] by blast
    then show ?thesis using mt_star [OF y(1)] by blast
  qed
  show ?case
  proof (cases "re_m r x cs (\<lambda>y ds. if length (snd y) < length (snd x)
      then re_m (RStar g r) y ds k else None) = Some v \<and> (g \<or> k x cs = None)")
    case True
    then show ?thesis using body by blast
  next
    case False
    then have "k x cs = Some v"
      using 8(5) by (auto simp: re_m.simps(8) [of g] split: if_splits option.splits)
    then show ?thesis using mt_star0 [of g r "(x, cs)"] by (cases x) blast
  qed
next
  case (9 i r x cs k)
  from 9(2) have "re_m r x cs (\<lambda>y ds. k y ((i, take (length (snd x) - length (snd y)) (snd x)) # ds))
      = Some v" by (simp add: re_m.simps)
  from 9(1) [OF this] mt_cap show ?case by blast
next
  case (10 x cs k)
  then have "word_edge x" "k x cs = Some v" by (auto simp: re_m.simps split: if_splits)
  then show ?case using mt_wordb by blast
qed

text \<open>A match never moves backwards, and one that consumes nothing stays where it is.\<close>

lemma re_mt_progress:
  "re_mt r u v \<Longrightarrow> length (snd (fst v)) \<le> length (snd (fst u))
     \<and> (length (snd (fst v)) = length (snd (fst u)) \<longrightarrow> fst v = fst u)"
  by (induction rule: re_mt.induct) auto

lemma re_m_complete:
  "re_mt r u v \<Longrightarrow> (\<And>ds. k (fst v) ds \<noteq> None) \<Longrightarrow> re_m r (fst u) cs k \<noteq> None"
proof (induction arbitrary: cs k rule: re_mt.induct)
  case (mt_cat a x y b z)
  have "\<And>ds. re_m b (fst y) ds k \<noteq> None" using mt_cat.IH(2) mt_cat.prems by blast
  then show ?case using mt_cat.IH(1) by (simp add: re_m.simps)
next
  case (mt_altl a x y b)
  then have "re_m a (fst x) cs k \<noteq> None" by blast
  then show ?case by (auto simp: re_m.simps split: option.splits)
next
  case (mt_altr b x y a)
  then have "re_m b (fst x) cs k \<noteq> None" by blast
  then show ?case by (auto simp: re_m.simps split: option.splits)
next
  case (mt_star0 g r x)
  then show ?case by (auto simp: re_m.simps(8) [of g] split: option.splits)
next
  case (mt_star r x y g z)
  have IH: "\<And>cs. re_m (RStar g r) (fst y) cs k \<noteq> None"
    using mt_star.IH(2) mt_star.prems by blast
  show ?case
  proof (cases "length (snd (fst y)) < length (snd (fst x))")
    case True
    have "re_m r (fst x) cs (\<lambda>y ds. if length (snd y) < length (snd (fst x))
          then re_m (RStar g r) y ds k else None) \<noteq> None"
      by (rule mt_star.IH(1)) (use True IH in simp)
    then show ?thesis by (auto simp: re_m.simps(8) [of g] split: option.splits)
  next
    case False
    then have "fst y = fst x" using re_mt_progress [OF mt_star.hyps(1)] by simp
    then show ?thesis using IH by simp
  qed
next
  case (mt_cap r x cs' y ds i)
  have "re_m r (fst (x, cs')) cs
      (\<lambda>y ds. k y ((i, take (length (snd x) - length (snd y)) (snd x)) # ds)) \<noteq> None"
    by (rule mt_cap.IH) (use mt_cap.prems in simp)
  then show ?case by (simp add: re_m.simps)
qed (auto simp: re_m.simps)

text \<open>All positions of a text, from the left.\<close>

fun positions :: "char option \<Rightarrow> string \<Rightarrow> re_pos list" where
  "positions p [] = [(p, [])]"
| "positions p (c # s) = (p, c # s) # positions (Some c) s"

lemma re_m_iff:
  "(re_m (RCap 0 r) x [] (\<lambda>y ds. Some (ds, y)) \<noteq> None) = (\<exists>y. re_mt r (x, []) y)"
proof
  assume "re_m (RCap 0 r) x [] (\<lambda>y ds. Some (ds, y)) \<noteq> None"
  then obtain v where "re_m (RCap 0 r) x [] (\<lambda>y ds. Some (ds, y)) = Some v" by blast
  from re_m_sound [OF this] show "\<exists>y. re_mt r (x, []) y" by (blast elim: mt_capE)
next
  assume "\<exists>y. re_mt r (x, []) y"
  then obtain y where "re_mt (RCap 0 r) (x, []) y" using mt_cap by (metis surj_pair)
  from re_m_complete [OF this, of "\<lambda>y ds. Some (ds, y)" "[]"]
  show "re_m (RCap 0 r) x [] (\<lambda>y ds. Some (ds, y)) \<noteq> None" by simp
qed

lemma re_search_iff:
  "(re_search r p s \<noteq> None) = (\<exists>x\<in>set (positions p s). \<exists>y. re_mt r (x, []) y)"
proof (induction s arbitrary: p)
  case Nil
  show ?case using re_m_iff [of r "(p, [])"] by simp
next
  case (Cons c s)
  show ?case using re_m_iff [of r "(p, c # s)"] Cons [of "Some c"]
    by (auto split: option.splits)
qed

lemma re_MatchString_iff:
  "re_MatchString r s = (\<exists>x\<in>set (positions None s). \<exists>y. re_mt r (x, []) y)"
  unfolding re_MatchString_def by (rule re_search_iff)

lemma re_search_sound:
  "re_search r p s = Some (ds, y) \<Longrightarrow>
     \<exists>x\<in>set (positions p s). re_mt (RCap 0 r) (x, []) (y, ds)"
proof (induction s arbitrary: p)
  case Nil
  then show ?case using re_m_sound [of "RCap 0 r" "(p, [])" "[]"] by fastforce
next
  case (Cons c s)
  then show ?case using re_m_sound [of "RCap 0 r" "(p, c # s)" "[]"]
    by (fastforce split: option.splits)
qed

lemma submatch_sound:
  assumes "re_FindSubmatch r s = Some m"
  obtains u v w where "re_mt r u v" "m = (0, w) # snd v"
proof -
  from assms obtain y where "re_search r None s = Some (m, y)"
    by (auto simp: re_FindSubmatch_def)
  from re_search_sound [OF this] obtain x where "re_mt (RCap 0 r) (x, []) (y, m)" by blast
  then obtain ds where "re_mt r (x, []) (y, ds)" "m = (0, take (length (snd x) - length (snd y)) (snd x)) # ds"
    by (auto elim: mt_capE)
  then show ?thesis using that by fastforce
qed

section \<open>Fixed shapes\<close>

text \<open>
  An expression made of single characters only has a fixed length: it consumes exactly one
  character per predicate, and captures nothing.
\<close>

fun re_preds :: "re \<Rightarrow> (char \<Rightarrow> bool) list option" where
  "re_preds (RChr P) = Some [P]"
| "re_preds REmpty = Some []"
| "re_preds (RCat a b) =
     (case (re_preds a, re_preds b) of (Some ps, Some qs) \<Rightarrow> Some (ps @ qs) | _ \<Rightarrow> None)"
| "re_preds _ = None"

lemma re_preds_match:
  "re_preds r = Some ps \<Longrightarrow> re_mt r u v \<Longrightarrow>
     snd v = snd u \<and> (\<exists>w. snd (fst u) = w @ snd (fst v) \<and> list_all2 (\<lambda>P c. P c) ps w)"
proof (induction r arbitrary: ps u v)
  case (RChr P)
  then show ?case by (auto elim!: mt_chrE)
next
  case REmpty
  then show ?case by (auto elim!: mt_emptyE)
next
  case (RCat a b)
  from RCat.prems(1) obtain pa pb where p: "re_preds a = Some pa" "re_preds b = Some pb" "ps = pa @ pb"
    by (auto split: option.splits)
  from RCat.prems(2) obtain m where m: "re_mt a u m" "re_mt b m v" by (blast elim: mt_catE)
  from RCat.IH(1) [OF p(1) m(1)] RCat.IH(2) [OF p(2) m(2)]
  show ?case using p(3) by (auto intro: list_all2_appendI)
qed auto

text \<open>The capture of such an expression is the text it consumed.\<close>

lemma re_preds_capture:
  assumes "re_preds r = Some ps" "re_mt (RCap i r) u v"
  shows "\<exists>w. snd v = (i, w) # snd u \<and> snd (fst u) = w @ snd (fst v) \<and> list_all2 (\<lambda>P c. P c) ps w"
proof -
  from assms(2) obtain x cs y ds where u: "u = (x, cs)" "re_mt r (x, cs) (y, ds)"
      "v = (y, (i, take (length (snd x) - length (snd y)) (snd x)) # ds)"
    by (auto elim: mt_capE)
  from re_preds_match [OF assms(1) u(2)] show ?thesis using u by auto
qed

text \<open>Captures accumulate: a match only adds to them, and a group found last is in front.\<close>

lemma re_mt_caps: "re_mt r u v \<Longrightarrow> \<exists>ds. snd v = ds @ snd u"
  by (induction rule: re_mt.induct) auto

section \<open>Runs of a class\<close>

text \<open>
  Repetition of one character class: the text consumed is a word of the class, and every such word
  can be consumed.
\<close>

lemma star_word:
  "re_mt r u v \<Longrightarrow> r = RStar g (RChr P) \<Longrightarrow>
     snd v = snd u \<and> (\<exists>w. snd (fst u) = w @ snd (fst v) \<and> list_all P w)"
proof (induction rule: re_mt.induct)
  case (mt_star r u v g z)
  then have "re_mt (RChr P) u v" by simp
  then obtain c where "snd v = snd u" "snd (fst u) = c # snd (fst v)" "P c" by (auto elim: mt_chrE)
  then show ?case using mt_star by fastforce
qed auto

lemma plus_word:
  assumes "re_mt (re_plus (RChr P)) u v"
  shows "snd v = snd u \<and> (\<exists>w. w \<noteq> [] \<and> snd (fst u) = w @ snd (fst v) \<and> list_all P w)"
proof -
  from assms obtain m where m: "re_mt (RChr P) u m" "re_mt (RStar True (RChr P)) m v"
    by (auto simp: re_plus_def elim: mt_catE)
  from m(1) obtain c where "snd m = snd u" "snd (fst u) = c # snd (fst m)" "P c" by (auto elim: mt_chrE)
  then show ?thesis using star_word [OF m(2) refl] by fastforce
qed

lemma cap_word:
  assumes "re_mt (RCap i r) u v"
  obtains y ds where "re_mt r u (y, ds)" "v = (y, (i, take (length (snd (fst u)) - length (snd y)) (snd (fst u))) # ds)"
  using assms by (auto elim: mt_capE)

lemma cap_plus_word:
  assumes "re_mt (RCap i (re_plus (RChr P))) u v"
  shows "\<exists>w. w \<noteq> [] \<and> snd (fst u) = w @ snd (fst v) \<and> list_all P w \<and> snd v = (i, w) # snd u"
proof -
  from cap_word [OF assms] obtain y ds where y: "re_mt (re_plus (RChr P)) u (y, ds)"
     "v = (y, (i, take (length (snd (fst u)) - length (snd y)) (snd (fst u))) # ds)" by blast
  from plus_word [OF y(1)] show ?thesis using y(2) by auto
qed

lemma cap_star_word:
  assumes "re_mt (RCap i (RStar g (RChr P))) u v"
  shows "\<exists>w. snd (fst u) = w @ snd (fst v) \<and> list_all P w \<and> snd v = (i, w) # snd u"
proof -
  from cap_word [OF assms] obtain y ds where y: "re_mt (RStar g (RChr P)) u (y, ds)"
     "v = (y, (i, take (length (snd (fst u)) - length (snd y)) (snd (fst u))) # ds)" by blast
  from star_word [OF y(1) refl] show ?thesis using y(2) by auto
qed

text \<open>\<open>eats r w f\<close>: the expression can consume \<open>w\<close> anywhere, changing the captures by \<open>f\<close>.\<close>

definition eats :: "re \<Rightarrow> string \<Rightarrow> (re_caps \<Rightarrow> re_caps) \<Rightarrow> bool" where
  "eats r w f = (\<forall>p t cs. \<exists>p'. re_mt r ((p, w @ t), cs) ((p', t), f cs))"

lemma eats_chr: "P c \<Longrightarrow> eats (RChr P) [c] (\<lambda>cs. cs)"
  by (auto simp: eats_def intro: mt_chr)

lemma eats_empty: "eats REmpty [] (\<lambda>cs. cs)"
  by (auto simp: eats_def intro: mt_empty)

lemma eats_cat: "eats a v f \<Longrightarrow> eats b w g \<Longrightarrow> eats (RCat a b) (v @ w) (\<lambda>cs. g (f cs))"
  unfolding eats_def by (metis append.assoc mt_cat)

lemma eats_star: "list_all P w \<Longrightarrow> eats (RStar g (RChr P)) w (\<lambda>cs. cs)"
proof (induction w)
  case Nil
  then show ?case by (auto simp: eats_def intro: mt_star0)
next
  case (Cons c w)
  then have "eats (RChr P) [c] (\<lambda>cs. cs)" "eats (RStar g (RChr P)) w (\<lambda>cs. cs)"
    by (auto intro: eats_chr)
  then show ?case unfolding eats_def by (metis append_Cons append_Nil mt_star)
qed

lemma eats_plus: "list_all P w \<Longrightarrow> w \<noteq> [] \<Longrightarrow> eats (re_plus (RChr P)) w (\<lambda>cs. cs)"
  using eats_cat [OF eats_chr [of P "hd w"] eats_star [of P "tl w" True]]
  by (cases w) (auto simp: re_plus_def)

lemma eats_cap: "eats r w f \<Longrightarrow> eats (RCap i r) w (\<lambda>cs. (i, w) # f cs)"
  unfolding eats_def
proof (intro allI)
  fix p t cs
  assume "\<forall>p t cs. \<exists>p'. re_mt r ((p, w @ t), cs) ((p', t), f cs)"
  then obtain p' where "re_mt r ((p, w @ t), cs) ((p', t), f cs)" by blast
  from mt_cap [OF this, of i] show "\<exists>p'. re_mt (RCap i r) ((p, w @ t), cs) ((p', t), (i, w) # f cs)"
    by auto
qed

lemma eats_preds: "re_preds r = Some ps \<Longrightarrow> list_all2 (\<lambda>P c. P c) ps w \<Longrightarrow> eats r w (\<lambda>cs. cs)"
proof (induction r arbitrary: ps w)
  case (RChr P)
  then show ?case by (auto simp: list_all2_Cons1 intro: eats_chr)
next
  case REmpty
  then show ?case by (auto intro: eats_empty)
next
  case (RCat a b)
  from RCat.prems(1) obtain pa pb where p: "re_preds a = Some pa" "re_preds b = Some pb" "ps = pa @ pb"
    by (auto split: option.splits)
  with RCat.prems(2) obtain u v where w: "w = u @ v" "list_all2 (\<lambda>P c. P c) pa u"
      "list_all2 (\<lambda>P c. P c) pb v" by (auto simp: list_all2_append1)
  from eats_cat [OF RCat.IH(1) [OF p(1) w(2)] RCat.IH(2) [OF p(2) w(3)]] show ?case using w(1) by simp
qed auto

text \<open>A run of a class before a text that does not begin in the class is found exactly.\<close>

lemma run_unique:
  assumes "list_all P a" "list_all P a'" "a @ b = a' @ b'"
    "b = [] \<or> \<not> P (hd b)" "b' = [] \<or> \<not> P (hd b')"
  shows "a = a' \<and> b = b'"
proof -
  have t: "takeWhile P (x @ y) = x" if "list_all P x" "y = [] \<or> \<not> P (hd y)" for x y
    using that by (cases y) (auto simp: list_all_iff takeWhile_eq_all_conv takeWhile_tail)
  have "a = a'" using t [OF assms(1,4)] t [OF assms(2,5)] assms(3) by simp
  then show ?thesis using assms(3) by simp
qed

lemma positions_prev: "x \<in> set (positions (Some c) s) \<Longrightarrow> fst x \<noteq> None"
  by (induction s arbitrary: c) auto

lemma positions_begin: "x \<in> set (positions None s) \<Longrightarrow> fst x = None \<Longrightarrow> snd x = s"
  by (cases s) (auto dest: positions_prev)

definition ends :: "re \<Rightarrow> string \<Rightarrow> bool" where
  "ends r w = (\<forall>p cs. \<exists>y. re_mt r ((p, w), cs) y)"

lemma ends_etext: "ends REndText []"
  by (auto simp: ends_def intro: mt_etext)

lemma eats_ends: "eats a v f \<Longrightarrow> ends b w \<Longrightarrow> ends (RCat a b) (v @ w)"
  unfolding eats_def ends_def by (metis mt_cat)

lemma ends_btext: "ends r w \<Longrightarrow> \<exists>y. re_mt (RCat RBeginText r) ((None, w), cs) y"
  unfolding ends_def by (metis mt_btext mt_cat)

lemma btext: "re_mt RBeginText u v \<Longrightarrow> v = u \<and> fst (fst u) = None"
  by (auto elim: mt_btextE)
lemma etext: "re_mt REndText u v \<Longrightarrow> v = u \<and> snd (fst u) = []"
  by (auto elim: mt_etextE)

end
