(* ===== verification/MacResolver.thy ===== *)
theory MacResolver
  imports Gns3Api Regex
begin

text \<open>
  \<open>internal/labsession/mac_populator.go\<close>: how the MAC address of a provisioned node is found.  A
  TCP connection to a VPCS console is the list of results that the successive \<open>conn.Read\<close> calls
  give (elapsed time, data, error); past its end the peer has closed.  A context is the time left
  until its deadline, if it has one.
\<close>

record gns3NodeProperties =
  np_NodeType :: string
  np_MACAddress :: string
  np_MACAddr :: string
  np_Console :: int
  np_ConsoleHost :: string

datatype read_err = ReadTimeout gerr | ReadFailed gerr

type_synonym read_ev = "nat \<times> string \<times> read_err option"

record conn =
  cn_reads :: "read_ev list"
  cn_write_err :: "gerr option"

definition err_ctx :: gerr where "err_ctx = Sentinel ''context deadline exceeded''"
definition err_io_eof :: gerr where "err_io_eof = Sentinel ''EOF''"

section \<open>Reading the console\<close>

definition vpcsPromptRe :: re where
  "vpcsPromptRe = re_seq [re_plus re_S, re_chr (CHR ''>''), re_star re_s, REndText]"

definition ctx_spend :: "nat option \<Rightarrow> nat \<Rightarrow> nat option" where
  "ctx_spend left t = map_option (\<lambda>l. l - t) left"

text \<open>What \<open>readUntilVPCSDone\<close> returns when a read gave an error.\<close>

definition vpcs_read_error :: "nat option \<Rightarrow> string \<Rightarrow> read_err \<Rightarrow> string \<times> gerr option" where
  "vpcs_read_error left buf e =
     (case e of
        ReadTimeout err \<Rightarrow>
          if buf \<noteq> [] then (buf, None)
          else if left = Some 0 then (buf, Some err_ctx) else (buf, Some err)
      | ReadFailed err \<Rightarrow>
          if left = Some 0 \<and> buf = [] then (buf, Some err_ctx) else (buf, Some err))"

fun readUntilVPCSDone ::
  "nat option \<Rightarrow> string \<Rightarrow> read_ev list \<Rightarrow> (string \<times> gerr option) \<times> nat option \<times> read_ev list" where
  "readUntilVPCSDone left buf [] =
     (if left = Some 0 then (buf, Some err_ctx)
      else vpcs_read_error left buf (ReadFailed err_io_eof), left, [])"
| "readUntilVPCSDone left buf ((t, data, err) # evs) =
     (if left = Some 0 then ((buf, Some err_ctx), left, (t, data, err) # evs)
      else let left' = ctx_spend left t; buf' = buf @ data in
        if data \<noteq> [] \<and> re_MatchString vpcsPromptRe buf' then ((buf', None), left', evs)
        else case err of
          None \<Rightarrow> readUntilVPCSDone left' buf' evs
        | Some e \<Rightarrow> (vpcs_read_error left' buf' e, left', evs))"

definition readVPCSBanner ::
  "nat option \<Rightarrow> read_ev list \<Rightarrow> gerr option \<times> nat option \<times> read_ev list" where
  "readVPCSBanner left evs =
     (case readUntilVPCSDone left [] evs of ((_, e), left', evs') \<Rightarrow> (e, left', evs'))"

definition readVPCSOutput ::
  "nat option \<Rightarrow> read_ev list \<Rightarrow> (string \<times> gerr option) \<times> nat option \<times> read_ev list" where
  "readVPCSOutput left evs = readUntilVPCSDone left [] evs"

section \<open>Parsing the MAC address\<close>

definition re_mac :: re where
  "re_mac = re_seq [re_rep 2 re_hexi, re_chr (CHR '':''), re_rep 2 re_hexi, re_chr (CHR '':''),
     re_rep 2 re_hexi, re_chr (CHR '':''), re_rep 2 re_hexi, re_chr (CHR '':''),
     re_rep 2 re_hexi, re_chr (CHR '':''), re_rep 2 re_hexi]"

definition vpcsMACVerboseRe :: re where
  "vpcsMACVerboseRe =
     re_seq [re_liti ''MAC'', re_star re_s, re_chr (CHR '':''), re_star re_s, RCap 1 re_mac]"

definition vpcsMACTabularRe :: re where
  "vpcsMACTabularRe = RCap 1 re_mac"

definition parseVPCSMAC :: "string \<Rightarrow> string" where
  "parseVPCSMAC output =
     (case re_FindSubmatch vpcsMACVerboseRe output of
        Some m \<Rightarrow> group 1 m
      | None \<Rightarrow>
     (case re_FindSubmatch vpcsMACTabularRe output of
        Some m \<Rightarrow> group 1 m
      | None \<Rightarrow> []))"

section \<open>Strategies\<close>

definition resolveFromAPI :: "gns3NodeProperties \<Rightarrow> gerr + string" where
  "resolveFromAPI n =
     (if np_MACAddress n \<noteq> [] then Inr (np_MACAddress n)
      else Inl (Errorf (''mac_address not found in GNS3 node properties for '' @ np_NodeType n
                        @ '' node'')))"

definition resolveNoMAC :: "gerr + string" where
  "resolveNoMAC = Inr []"

text \<open>The console dialogue once the connection is open.\<close>

definition vpcs_dialogue :: "nat option \<Rightarrow> conn \<Rightarrow> gerr + string" where
  "vpcs_dialogue left cn =
     (case readVPCSBanner left (cn_reads cn) of
        (Some e, _, _) \<Rightarrow> Inl (Wrapf ''VPCS banner: '' e [])
      | (None, left1, evs) \<Rightarrow>
     (case cn_write_err cn of
        Some e \<Rightarrow> Inl (Wrapf ''VPCS write show: '' e [])
      | None \<Rightarrow>
     (case readVPCSOutput left1 evs of
        ((output, Some e), _, _) \<Rightarrow> Inl (Wrapf ''VPCS show output: '' e [])
      | ((output, None), _, _) \<Rightarrow>
          let mac = parseVPCSMAC output in
          if mac = [] then
            Inl (Errorf (''VPCS show output contained no MAC address:\<newline>'' @ output))
          else Inr mac)))"

type_synonym 's dialer = "string \<Rightarrow> int \<Rightarrow> ('s, gerr + conn) io"

definition resolveVPCS ::
  "'s dialer \<Rightarrow> nat option \<Rightarrow> gns3NodeProperties \<Rightarrow> ('s, gerr + string) io" where
  "resolveVPCS dial left n =
     (if np_Console n = 0 then
        io_return (Inl (Errorf ''VPCS node has no console port allocated''))
      else if np_ConsoleHost n = [] then
        io_return (Inl (Errorf ''VPCS node has no console host''))
      else io_bind (dial (np_ConsoleHost n) (np_Console n)) (\<lambda>r.
        case r of
          Inl e \<Rightarrow> io_return (Inl (Wrapf (''VPCS console dial '' @ np_ConsoleHost n @ '':''
                                        @ itoa (np_Console n) @ '': '') e []))
        | Inr cn \<Rightarrow> io_return (vpcs_dialogue left cn)))"

text \<open>The registry \<open>macResolvers\<close> and its dispatch.\<close>

datatype macStrategy = FromAPI | FromVPCS | NoMAC

definition macResolvers :: "(string, macStrategy) gomap" where
  "macResolvers =
     [(''docker'', FromAPI), (''qemu'', FromAPI), (''vpcs'', FromVPCS), (''iou'', NoMAC),
      (''dynamips'', NoMAC), (''ethernet_hub'', NoMAC), (''ethernet_switch'', NoMAC)]"

definition ErrMACNotSupported :: "string \<Rightarrow> gerr" where
  "ErrMACNotSupported ty =
     Errorf (''MAC resolution not supported for node type '' @ quote_str ty)"

definition ResolveMAC ::
  "'s dialer \<Rightarrow> nat option \<Rightarrow> gns3NodeProperties \<Rightarrow> ('s, gerr + string) io" where
  "ResolveMAC dial left n =
     (case mget macResolvers (np_NodeType n) of
        None \<Rightarrow> io_return (Inl (ErrMACNotSupported (np_NodeType n)))
      | Some FromAPI \<Rightarrow> io_return (resolveFromAPI n)
      | Some FromVPCS \<Rightarrow> resolveVPCS dial left n
      | Some NoMAC \<Rightarrow> io_return resolveNoMAC)"

section \<open>What a resolved address looks like\<close>

definition mac_shape :: "(char \<Rightarrow> bool) list" where
  "mac_shape =
     (let h = is_hexi; c = (\<lambda>d. d = CHR '':'') in
      [h, h, c, h, h, c, h, h, c, h, h, c, h, h, c, h, h])"

definition is_mac :: "string \<Rightarrow> bool" where
  "is_mac s = list_all2 (\<lambda>P c. P c) mac_shape s"

lemma re_mac_preds: "re_preds re_mac = Some mac_shape"
  by (simp add: re_mac_def mac_shape_def re_hexi_def re_chr_def numeral_2_eq_2 Let_def)

lemma mac_capture: "re_mt (RCap i re_mac) u v \<Longrightarrow> \<exists>w. snd v = (i, w) # snd u \<and> is_mac w"
  using re_preds_capture [OF re_mac_preds] unfolding is_mac_def by blast

lemma verbose_group:
  "re_mt vpcsMACVerboseRe u v \<Longrightarrow> \<exists>w cs. snd v = (1, w) # cs \<and> is_mac w"
  unfolding vpcsMACVerboseRe_def re_seq.simps
  by (elim mt_catE) (drule mac_capture, blast)

lemma tabular_group:
  "re_mt vpcsMACTabularRe u v \<Longrightarrow> \<exists>w cs. snd v = (1, w) # cs \<and> is_mac w"
  unfolding vpcsMACTabularRe_def by (drule mac_capture) blast

lemma parse_mac_shape: "parseVPCSMAC out = [] \<or> is_mac (parseVPCSMAC out)"
proof -
  have g: "is_mac (group 1 m)"
    if f: "re_FindSubmatch r out = Some m"
      and r: "\<And>u v. re_mt r u v \<Longrightarrow> \<exists>w cs. snd v = (1, w) # cs \<and> is_mac w" for r m
  proof -
    obtain u v w0 where m: "re_mt r u v" "m = (0, w0) # snd v" by (rule submatch_sound [OF f])
    from r [OF m(1)] m(2) show ?thesis by (auto simp: group_def)
  qed
  show ?thesis
    using g [OF _ verbose_group] g [OF _ tabular_group]
    by (auto simp: parseVPCSMAC_def split: option.splits)
qed

text \<open>
  MAC resolution is honest about its result.  A successful answer is the non-empty address
  GNS3 reports for a docker or qemu node, a well-formed MAC address read off the console of a
  VPCS node, or empty for the four node types that need none; every other type is an error.
\<close>

theorem resolve_mac_result:
  assumes "ResolveMAC dial left n s = (s', t, Inr mac)"
  shows "np_NodeType n \<in> {''docker'', ''qemu''} \<and> mac = np_MACAddress n \<and> mac \<noteq> []
       \<or> np_NodeType n = ''vpcs'' \<and> is_mac mac
       \<or> np_NodeType n \<in> {''iou'', ''dynamips'', ''ethernet_hub'', ''ethernet_switch''} \<and> mac = []"
proof -
  have vpcs: "is_mac m" if "vpcs_dialogue l cn = Inr m" for l cn m
    using that parse_mac_shape
    by (auto simp: vpcs_dialogue_def Let_def split: prod.splits option.splits if_splits)
  show ?thesis
    using assms vpcs
    by (auto simp: ResolveMAC_def macResolvers_def resolveVPCS_def resolveFromAPI_def
        resolveNoMAC_def io_return_def io_bind_def split: option.splits macStrategy.splits if_splits
        sum.splits prod.splits)
qed

definition demo_vpcs :: gns3NodeProperties where
  "demo_vpcs = \<lparr>np_NodeType = ''vpcs'', np_MACAddress = [], np_MACAddr = [],
     np_Console = 5004, np_ConsoleHost = ''10.0.0.5''\<rparr>"

definition demo_dial :: "demo dialer" where
  "demo_dial h p s =
     (s, 3, Inr \<lparr>cn_reads = [(1, ''Welcome to VPCS'', None), (1, ''PC1> '', None),
                 (2, ''NAME IP/MASK MAC'', None),
                 (1, ''PC1 10.0.0.1/24 00:50:79:66:68:00 20001'', None), (1, ''PC1> '', None)],
               cn_write_err = None\<rparr>)"

lemma demo_resolve:
  "ResolveMAC demo_dial None demo_vpcs s = (s, 3, Inr ''00:50:79:66:68:00'')"
proof -
  have "vpcs_dialogue None
      \<lparr>cn_reads = [(1, ''Welcome to VPCS'', None), (1, ''PC1> '', None),
                 (2, ''NAME IP/MASK MAC'', None),
                 (1, ''PC1 10.0.0.1/24 00:50:79:66:68:00 20001'', None), (1, ''PC1> '', None)],
               cn_write_err = None\<rparr> = Inr ''00:50:79:66:68:00''"
    by code_simp
  then show ?thesis
    by (simp add: ResolveMAC_def macResolvers_def demo_vpcs_def resolveVPCS_def demo_dial_def
        io_bind_def io_return_def)
qed

theorem resolve_mac_result_witness:
  "np_NodeType demo_vpcs \<in> {''docker'', ''qemu''} \<and> ''00:50:79:66:68:00'' = np_MACAddress demo_vpcs
     \<and> ''00:50:79:66:68:00'' \<noteq> []
   \<or> np_NodeType demo_vpcs = ''vpcs'' \<and> is_mac ''00:50:79:66:68:00''
   \<or> np_NodeType demo_vpcs \<in> {''iou'', ''dynamips'', ''ethernet_hub'', ''ethernet_switch''}
     \<and> ''00:50:79:66:68:00'' = []"
  by (rule resolve_mac_result [OF demo_resolve])

end
