(* ===== verification/Teardown.thy ===== *)
theory Teardown
  imports Gns3Api
begin

text \<open>
  \<open>internal/labsession/teardown_verifier.go\<close>: the gate the reaper waits on before it frees a
  capacity slot.  A context with a deadline is the time left until it; \<open>select\<close> on a timer and
  the context takes the timer when it fires no later than the deadline.
\<close>

definition err_deadline :: gerr where
  "err_deadline = Sentinel ''context deadline exceeded''"

definition teardownSettleDelay :: nat where "teardownSettleDelay = 2000000000"
definition teardownPollInterval :: nat where "teardownPollInterval = 500000000"

section \<open>Polling\<close>

text \<open>
  \<open>waitUntil cond left s\<close>: the result is the new state, the time spent, the time left and the
  returned error.  It terminates because every further round uses up one poll interval.
\<close>

function waitUntil ::
  "('s, gerr + bool) io \<Rightarrow> nat \<Rightarrow> 's \<Rightarrow> 's \<times> nat \<times> nat \<times> gerr option" where
  "waitUntil cond left s =
     (case cond s of (s1, t, r) \<Rightarrow>
       (case r of
          Inl e \<Rightarrow> (s1, t, left - t, Some e)
        | Inr ok \<Rightarrow>
            if ok then (s1, t, left - t, None)
            else if teardownPollInterval \<le> left - t
            then (case waitUntil cond (left - t - teardownPollInterval) s1 of
                    (s2, t2, l2, e) \<Rightarrow> (s2, t + teardownPollInterval + t2, l2, e))
            else (s1, t + (left - t), 0, Some err_deadline)))"
  by pat_completeness auto
termination
  by (relation "measure (\<lambda>(cond, left, s). left)") (auto simp: teardownPollInterval_def)

declare waitUntil.simps [simp del]

text \<open>Success is always a round in which the condition answered yes.\<close>

lemma waitUntil_ok:
  "waitUntil cond left s = (s', t, l, None) \<Longrightarrow> \<exists>s0 t0. cond s0 = (s', t0, Inr True)"
proof (induction cond left s arbitrary: s' t l rule: waitUntil.induct)
  case (1 cond left s)
  obtain s1 t1 r where c: "cond s = (s1, t1, r)" by (cases "cond s")
  show ?case
  proof (cases "\<exists>e. r = Inl e \<or> r = Inr True")
    case True
    with 1(2) c have "cond s = (s', t1, Inr True)"
      by (auto simp: waitUntil.simps [of cond left s])
    then show ?thesis by blast
  next
    case False
    then have r: "r = Inr False" by (cases r) auto
    show ?thesis
      using 1(2) c r "1.IH" [OF c [symmetric] refl r _ ]
      by (auto simp: waitUntil.simps [of cond left s] split: if_splits prod.splits)
  qed
qed

text \<open>A predicate that every call of the condition keeps is kept by the whole wait.\<close>

lemma waitUntil_keeps:
  assumes keep: "\<And>s s' t r. cond s = (s', t, r) \<Longrightarrow> P s \<Longrightarrow> P s'"
  shows "waitUntil cond left s = (s', t, l, e) \<Longrightarrow> P s \<Longrightarrow> P s'"
  using keep
proof (induction cond left s arbitrary: s' t l e rule: waitUntil.induct)
  case (1 cond left s)
  obtain s1 t1 r where c: "cond s = (s1, t1, r)" by (cases "cond s")
  have P1: "P s1" using 1(4) [OF c] 1(3) .
  show ?case
  proof (cases "r = Inr False \<and> teardownPollInterval \<le> left - t1")
    case False
    with 1(2) c P1 show ?thesis
      by (auto simp: waitUntil.simps [of cond left s] split: sum.splits if_splits)
  next
    case True
    then show ?thesis
      using 1(2) c P1 1(4) "1.IH" [OF c [symmetric] refl, of False]
      by (auto simp: waitUntil.simps [of cond left s] split: prod.splits)
  qed
qed

text \<open>
  Time: when a call takes at most \<open>m\<close>, the whole wait ends at most \<open>m\<close> after its deadline, and
  the time left never exceeds the time that was left at the start minus the time spent.
\<close>

lemma waitUntil_time:
  assumes "\<And>s. fst (snd (cond s)) \<le> m"
  shows "waitUntil cond left s = (s', t, l, e) \<Longrightarrow> t \<le> left + m \<and> l \<le> left - t"
  using assms
proof (induction cond left s arbitrary: s' t l e rule: waitUntil.induct)
  case (1 cond left s)
  obtain s1 t1 r where c: "cond s = (s1, t1, r)" by (cases "cond s")
  have m: "t1 \<le> m" using 1(3) [of s] c by simp
  show ?case
  proof (cases "r = Inr False \<and> teardownPollInterval \<le> left - t1")
    case False
    with 1(2) c m show ?thesis
      by (auto simp: waitUntil.simps [of cond left s] split: sum.splits if_splits)
  next
    case True
    then have ih: "\<And>s' t l e. waitUntil cond (left - t1 - teardownPollInterval) s1 = (s', t, l, e) \<Longrightarrow>
        t \<le> (left - t1 - teardownPollInterval) + m \<and> l \<le> (left - t1 - teardownPollInterval) - t"
      using "1.IH" [OF c [symmetric] refl, of False] 1(3) by simp
    obtain s2 t2 l2 e2 where
      w: "waitUntil cond (left - t1 - teardownPollInterval) s1 = (s2, t2, l2, e2)"
      by (cases "waitUntil cond (left - t1 - teardownPollInterval) s1") auto
    show ?thesis
      using 1(2) c True w ih [OF w]
      by (auto simp: waitUntil.simps [of cond left s] teardownPollInterval_def)
  qed
qed

section \<open>The verifier\<close>

definition gone_cond :: "'s GNS3Client \<Rightarrow> string \<Rightarrow> ('s, gerr + bool) io" where
  "gone_cond g projectID s =
     (case g_ProjectExists g projectID s of
        (s1, t, Inl e) \<Rightarrow> (s1, t, Inl e)
      | (s1, t, Inr exists) \<Rightarrow> (s1, t, Inr (\<not> exists)))"

definition WaitTeardownComplete ::
  "'s GNS3Client \<Rightarrow> nat \<Rightarrow> string \<Rightarrow> ('s, gerr option) io" where
  "WaitTeardownComplete g left projectID s =
     (case waitUntil (g_NodesStopped g projectID) left s of
        (s1, t1, l1, Some e) \<Rightarrow> (s1, t1, Some (Wrapf ''nodes not confirmed stopped: '' e []))
      | (s1, t1, l1, None) \<Rightarrow>
     (case g_DeleteProject g projectID s1 of
        (s2, t2, Some e) \<Rightarrow> (s2, t1 + t2, Some (Wrapf ''delete project: '' e []))
      | (s2, t2, None) \<Rightarrow>
     (case waitUntil (gone_cond g projectID) (l1 - t2) s2 of
        (s3, t3, l3, Some e) \<Rightarrow>
          (s3, t1 + t2 + t3, Some (Wrapf ''project not confirmed gone: '' e []))
      | (s3, t3, l3, None) \<Rightarrow>
          if teardownSettleDelay \<le> l3 then (s3, t1 + t2 + t3 + teardownSettleDelay, None)
          else (s3, t1 + t2 + t3 + l3, Some err_deadline))))"

text \<open>
  C4: fail closed.  The verifier answers without an error only after the three positive answers
  of the orchestrator, in order: all nodes stopped, delete accepted, project not there any more;
  and the last of them is the final state.
\<close>

theorem wait_teardown_positive_evidence:
  assumes "WaitTeardownComplete g left projectID s = (s', t, None)"
  shows "\<exists>s0 t0 s1 s2 t2 s3 t3.
           g_NodesStopped g projectID s0 = (s1, t0, Inr True) \<and>
           g_DeleteProject g projectID s1 = (s2, t2, None) \<and>
           g_ProjectExists g projectID s3 = (s', t3, Inr False)"
proof -
  obtain s1 t1 l1 e1 where w1: "waitUntil (g_NodesStopped g projectID) left s = (s1, t1, l1, e1)"
    by (cases "waitUntil (g_NodesStopped g projectID) left s") auto
  have e1: "e1 = None"
    using assms w1 by (cases e1) (auto simp: WaitTeardownComplete_def)
  obtain s2 t2 e2 where d: "g_DeleteProject g projectID s1 = (s2, t2, e2)"
    by (cases "g_DeleteProject g projectID s1") auto
  have e2: "e2 = None"
    using assms w1 e1 d by (cases e2) (auto simp: WaitTeardownComplete_def)
  obtain s3 t3 l3 e3 where w2: "waitUntil (gone_cond g projectID) (l1 - t2) s2 = (s3, t3, l3, e3)"
    by (cases "waitUntil (gone_cond g projectID) (l1 - t2) s2") auto
  have e3: "e3 = None" and s3: "s3 = s'"
    using assms w1 e1 d e2 w2
    by (cases e3; auto simp: WaitTeardownComplete_def split: if_splits)+
  obtain a ta where "gone_cond g projectID a = (s', ta, Inr True)"
    using waitUntil_ok w2 e3 s3 by metis
  then have "g_ProjectExists g projectID a = (s', ta, Inr False)"
    by (auto simp: gone_cond_def split: prod.splits sum.splits)
  with waitUntil_ok w1 e1 d e2 show ?thesis by metis
qed

lemma wait_teardown_keeps:
  assumes "\<And>s s' t r. g_NodesStopped g p s = (s', t, r) \<Longrightarrow> P s \<Longrightarrow> P s'"
    and "\<And>s s' t r. g_DeleteProject g p s = (s', t, r) \<Longrightarrow> P s \<Longrightarrow> P s'"
    and "\<And>s s' t r. g_ProjectExists g p s = (s', t, r) \<Longrightarrow> P s \<Longrightarrow> P s'"
    and "WaitTeardownComplete g left p s = (s', t, e)" "P s"
  shows "P s'"
proof -
  have gc: "\<And>s s' t r. gone_cond g p s = (s', t, r) \<Longrightarrow> P s \<Longrightarrow> P s'"
    using assms(3) by (auto simp: gone_cond_def split: prod.splits sum.splits)
  obtain s1 t1 l1 e1 where w1: "waitUntil (g_NodesStopped g p) left s = (s1, t1, l1, e1)"
    by (cases "waitUntil (g_NodesStopped g p) left s") auto
  obtain s2 t2 e2 where d: "g_DeleteProject g p s1 = (s2, t2, e2)"
    by (cases "g_DeleteProject g p s1") auto
  obtain s3 t3 l3 e3 where w2: "waitUntil (gone_cond g p) (l1 - t2) s2 = (s3, t3, l3, e3)"
    by (cases "waitUntil (gone_cond g p) (l1 - t2) s2") auto
  have P1: "P s1" by (rule waitUntil_keeps [where P = P, OF _ w1 assms(5)]) (rule assms(1))
  have P2: "P s2" by (rule assms(2) [OF d P1])
  have P3: "P s3" by (rule waitUntil_keeps [where P = P, OF _ w2 P2]) (rule gc)
  show ?thesis
    using assms(4) w1 d w2 P1 P2 P3
    by (auto simp: WaitTeardownComplete_def split: option.splits if_splits)
qed

text \<open>What an accepted delete establishes and later status reads keep, a completed wait has.\<close>

lemma wait_teardown_establishes:
  assumes "\<And>s s' t. g_DeleteProject g p s = (s', t, None) \<Longrightarrow> P s'"
    and "\<And>s s' t r. g_ProjectExists g p s = (s', t, r) \<Longrightarrow> P s \<Longrightarrow> P s'"
    and "WaitTeardownComplete g left p s = (s', t, None)"
  shows "P s'"
proof -
  have gc: "\<And>s s' t r. gone_cond g p s = (s', t, r) \<Longrightarrow> P s \<Longrightarrow> P s'"
    using assms(2) by (auto simp: gone_cond_def split: prod.splits sum.splits)
  obtain s1 t1 l1 e1 where w1: "waitUntil (g_NodesStopped g p) left s = (s1, t1, l1, e1)"
    by (cases "waitUntil (g_NodesStopped g p) left s") auto
  obtain s2 t2 e2 where d: "g_DeleteProject g p s1 = (s2, t2, e2)"
    by (cases "g_DeleteProject g p s1") auto
  obtain s3 t3 l3 e3 where w2: "waitUntil (gone_cond g p) (l1 - t2) s2 = (s3, t3, l3, e3)"
    by (cases "waitUntil (gone_cond g p) (l1 - t2) s2") auto
  have e: "e1 = None \<and> e2 = None \<and> s3 = s'"
    using assms(3) w1 d w2
    by (auto simp: WaitTeardownComplete_def split: option.splits if_splits)
  then have P2: "P s2" using assms(1) d by blast
  have "P s3" by (rule waitUntil_keeps [where P = P, OF _ w2 P2]) (rule gc)
  then show ?thesis using e by simp
qed

text \<open>One run of the verifier on the example orchestrator: two polls, delete, confirm, settle.\<close>

lemma demo_wait:
  "WaitTeardownComplete demo_client 20000000000 ''p1'' \<lparr>d_polls = 1, d_exists = True, d_stuck = False\<rparr>
   = (\<lparr>d_polls = 0, d_exists = False, d_stuck = False\<rparr>, 2500000004, None)"
  by (simp add: WaitTeardownComplete_def waitUntil.simps demo_client_def gone_cond_def
      teardownPollInterval_def teardownSettleDelay_def)

theorem wait_teardown_positive_evidence_witness:
  "\<exists>s0 t0 s1 s2 t2 s3 t3.
     g_NodesStopped demo_client ''p1'' s0 = (s1, t0, Inr True) \<and>
     g_DeleteProject demo_client ''p1'' s1 = (s2, t2, None) \<and>
     g_ProjectExists demo_client ''p1'' s3 =
       (\<lparr>d_polls = 0, d_exists = False, d_stuck = False\<rparr>, t3, Inr False)"
  by (rule wait_teardown_positive_evidence [OF demo_wait])

text \<open>
  The wait is bounded.  If no single orchestrator call takes longer than \<open>m\<close>, the verifier
  returns within the time left plus three calls.
\<close>

theorem wait_teardown_bounded:
  assumes "\<And>s. fst (snd (g_NodesStopped g p s)) \<le> m"
    and "\<And>s. fst (snd (g_DeleteProject g p s)) \<le> m"
    and "\<And>s. fst (snd (g_ProjectExists g p s)) \<le> m"
    and "WaitTeardownComplete g left p s = (s', t, e)"
  shows "t \<le> left + 3 * m"
proof -
  have gc: "fst (snd (gone_cond g p s)) \<le> m" for s
    using assms(3) [of s] by (auto simp: gone_cond_def split: prod.splits sum.splits)
  obtain s1 t1 l1 e1 where w1: "waitUntil (g_NodesStopped g p) left s = (s1, t1, l1, e1)"
    by (cases "waitUntil (g_NodesStopped g p) left s") auto
  obtain s2 t2 e2 where d: "g_DeleteProject g p s1 = (s2, t2, e2)"
    by (cases "g_DeleteProject g p s1") auto
  obtain s3 t3 l3 e3 where w2: "waitUntil (gone_cond g p) (l1 - t2) s2 = (s3, t3, l3, e3)"
    by (cases "waitUntil (gone_cond g p) (l1 - t2) s2") auto
  have b: "t1 \<le> left + m" "l1 \<le> left - t1" "t2 \<le> m" "t3 \<le> l1 - t2 + m" "l3 \<le> l1 - t2 - t3"
    using waitUntil_time [of "g_NodesStopped g p" m, OF assms(1) w1]
      waitUntil_time [of "gone_cond g p" m, OF gc w2] assms(2) [of s1] d by simp_all
  show ?thesis
    using assms(4) w1 d w2 b
    by (auto simp: WaitTeardownComplete_def split: option.splits if_splits)
qed

theorem wait_teardown_bounded_witness: "(2500000004 :: nat) \<le> 20000000000 + 3 * 1"
  by (rule wait_teardown_bounded [OF _ _ _ demo_wait]) (simp_all add: demo_client_def)

end
