(* ===== verification/Sessions.thy ===== *)
theory Sessions
  imports Gns3Api
begin

text \<open>
  Lab sessions and their table: \<open>internal/labsession/models.go\<close> and \<open>repository.go\<close>.  Each
  repository method is one SQL statement, hence one atomic step on the table.  A statement may
  fail before it takes effect, or take effect and have its acknowledgement lost; which one
  happens is read from a list of outcomes carried by the world.  The exclusion constraint of
  migration 024 (one active session per user and lab) is checked by the database on every write.
\<close>

section \<open>Model\<close>

datatype Status =
    StatusProvisioning
  | StatusRunning
  | StatusIdleStopped
  | StatusEnded
  | StatusFailed

definition status_text :: "Status \<Rightarrow> string" where
  "status_text st =
     (case st of
        StatusProvisioning \<Rightarrow> ''provisioning''
      | StatusRunning \<Rightarrow> ''running''
      | StatusIdleStopped \<Rightarrow> ''idle_stopped''
      | StatusEnded \<Rightarrow> ''ended''
      | StatusFailed \<Rightarrow> ''failed'')"

record Session =
  s_ID :: uuid
  s_UserID :: uuid
  s_LabID :: int
  s_ComputeID :: string
  s_GNS3ProjectID :: "string option"
  s_Status :: Status
  s_NodeMap :: NodeMap
  s_StartedAt :: int
  s_LastActiveAt :: int
  s_EndedAt :: "int option"

text \<open>\<open>status IN ('provisioning','running','idle_stopped')\<close>: the session holds a capacity slot.\<close>

definition active_status :: "Status \<Rightarrow> bool" where
  "active_status st = (st \<in> {StatusProvisioning, StatusRunning, StatusIdleStopped})"

abbreviation active :: "Session \<Rightarrow> bool" where
  "active s \<equiv> active_status (s_Status s)"

type_synonym table = "Session list"

definition slots_used :: "table \<Rightarrow> nat" where
  "slots_used t = length (filter active t)"

section \<open>The database\<close>

datatype db_outcome = DbOk | DbLost | DbUnacked

record 's world =
  w_rows :: table
  w_fresh :: uuid
  w_faults :: "db_outcome list"
  w_now :: int
  w_srv :: 's

definition err_db :: gerr where "err_db = Sentinel ''database error''"
definition err_exclusion :: gerr where
  "err_exclusion = Sentinel ''conflicting key value violates exclusion constraint''"
definition ErrNotFound :: gerr where "ErrNotFound = Sentinel ''lab session not found''"

definition next_outcome :: "'s world \<Rightarrow> db_outcome \<times> 's world" where
  "next_outcome w =
     (case w_faults w of
        [] \<Rightarrow> (DbOk, w)
      | f # fs \<Rightarrow> (f, w\<lparr>w_faults := fs\<rparr>))"

text \<open>The exclusion constraint \<open>one_active_session_per_user_lab\<close>.\<close>

definition excl_ok :: "table \<Rightarrow> bool" where
  "excl_ok t = distinct (map (\<lambda>s. (s_UserID s, s_LabID s)) (filter active t))"

text \<open>A write statement: refused when the new table would violate the constraint.\<close>

definition db_write :: "(table \<Rightarrow> table) \<Rightarrow> 's world \<Rightarrow> 's world \<times> gerr option" where
  "db_write f w =
     (case next_outcome w of
        (DbLost, w1) \<Rightarrow> (w1, Some err_db)
      | (o1, w1) \<Rightarrow>
          if excl_ok (f (w_rows w1))
          then (w1\<lparr>w_rows := f (w_rows w1)\<rparr>, if o1 = DbOk then None else Some err_db)
          else (w1, Some err_exclusion))"

definition db_read :: "(table \<Rightarrow> 'a) \<Rightarrow> 's world \<Rightarrow> 's world \<times> (gerr + 'a)" where
  "db_read q w =
     (case next_outcome w of
        (DbOk, w1) \<Rightarrow> (w1, Inr (q (w_rows w1)))
      | (_, w1) \<Rightarrow> (w1, Inl err_db))"

text \<open>\<open>UPDATE lab_sessions SET ... WHERE id = $1\<close>.\<close>

definition update_row :: "uuid \<Rightarrow> (Session \<Rightarrow> Session) \<Rightarrow> table \<Rightarrow> table" where
  "update_row i f t = map (\<lambda>s. if s_ID s = i then f s else s) t"

section \<open>Repository\<close>

definition ActiveCount :: "'s world \<Rightarrow> 's world \<times> (gerr + nat)" where
  "ActiveCount w = db_read slots_used w"

definition row_result :: "'s world \<times> (gerr + Session option) \<Rightarrow> 's world \<times> (gerr + Session)" where
  "row_result r =
     (case r of
        (w, Inl e) \<Rightarrow> (w, Inl e)
      | (w, Inr None) \<Rightarrow> (w, Inl ErrNotFound)
      | (w, Inr (Some s)) \<Rightarrow> (w, Inr s))"

definition FindActiveForUserLab ::
  "'s world \<Rightarrow> uuid \<Rightarrow> int \<Rightarrow> 's world \<times> (gerr + Session)" where
  "FindActiveForUserLab w userID labID =
     row_result (db_read (find (\<lambda>s. s_UserID s = userID \<and> s_LabID s = labID \<and> active s)) w)"

definition GetByID :: "'s world \<Rightarrow> uuid \<Rightarrow> 's world \<times> (gerr + Session)" where
  "GetByID w i = row_result (db_read (find (\<lambda>s. s_ID s = i)) w)"

definition new_session :: "uuid \<Rightarrow> uuid \<Rightarrow> int \<Rightarrow> string \<Rightarrow> int \<Rightarrow> Session" where
  "new_session i userID labID computeID now =
     \<lparr>s_ID = i, s_UserID = userID, s_LabID = labID, s_ComputeID = computeID,
      s_GNS3ProjectID = None, s_Status = StatusProvisioning, s_NodeMap = [],
      s_StartedAt = now, s_LastActiveAt = now, s_EndedAt = None\<rparr>"

text \<open>\<open>gen_random_uuid()\<close> is a supply of identifiers not used before.\<close>

definition Create ::
  "'s world \<Rightarrow> uuid \<Rightarrow> int \<Rightarrow> string \<Rightarrow> 's world \<times> (gerr + Session)" where
  "Create w userID labID computeID =
     (let s = new_session (w_fresh w) userID labID computeID (w_now w);
          (w1, e) = db_write (\<lambda>t. t @ [s]) (w\<lparr>w_fresh := Suc (w_fresh w)\<rparr>)
      in (w1, case e of Some err \<Rightarrow> Inl err | None \<Rightarrow> Inr s))"

definition SetProvisioned ::
  "'s world \<Rightarrow> uuid \<Rightarrow> string \<Rightarrow> NodeMap \<Rightarrow> 's world \<times> gerr option" where
  "SetProvisioned w i projectID nodeMap =
     db_write (update_row i (\<lambda>s. s\<lparr>s_GNS3ProjectID := Some projectID, s_NodeMap := nodeMap,
       s_Status := StatusRunning, s_LastActiveAt := w_now w\<rparr>)) w"

definition SetStatus :: "'s world \<Rightarrow> uuid \<Rightarrow> Status \<Rightarrow> 's world \<times> gerr option" where
  "SetStatus w i st = db_write (update_row i (\<lambda>s. s\<lparr>s_Status := st\<rparr>)) w"

definition Touch :: "'s world \<Rightarrow> uuid \<Rightarrow> 's world \<times> gerr option" where
  "Touch w i = db_write (update_row i (\<lambda>s. s\<lparr>s_LastActiveAt := w_now w\<rparr>)) w"

definition End :: "'s world \<Rightarrow> uuid \<Rightarrow> 's world \<times> gerr option" where
  "End w i =
     db_write (update_row i (\<lambda>s. s\<lparr>s_Status := StatusEnded, s_EndedAt := Some (w_now w)\<rparr>)) w"

text \<open>\<open>last_active_at < now() - make_interval(...)\<close>, in whole minutes and whole hours.\<close>

definition stale_running :: "int \<Rightarrow> int \<Rightarrow> Session \<Rightarrow> bool" where
  "stale_running now mins s =
     (s_Status s = StatusRunning \<and> s_LastActiveAt s < now - mins * 60000000000)"

definition stale_idle :: "int \<Rightarrow> int \<Rightarrow> Session \<Rightarrow> bool" where
  "stale_idle now hours s =
     (s_Status s = StatusIdleStopped \<and> s_LastActiveAt s < now - hours * 3600000000000)"

definition StaleRunning :: "'s world \<Rightarrow> int \<Rightarrow> 's world \<times> (gerr + Session list)" where
  "StaleRunning w idleMinutes = db_read (filter (stale_running (w_now w) idleMinutes)) w"

definition StaleIdle :: "'s world \<Rightarrow> int \<Rightarrow> 's world \<times> (gerr + Session list)" where
  "StaleIdle w ttlHours = db_read (filter (stale_idle (w_now w) ttlHours)) w"

lemmas repo_defs = ActiveCount_def FindActiveForUserLab_def GetByID_def Create_def
  SetProvisioned_def SetStatus_def Touch_def End_def StaleRunning_def StaleIdle_def

section \<open>Frame and effect lemmas\<close>

lemma next_outcome_frame:
  "next_outcome w = (o1, w1) \<Longrightarrow>
     w_rows w1 = w_rows w \<and> w_fresh w1 = w_fresh w \<and> w_now w1 = w_now w \<and> w_srv w1 = w_srv w"
  by (auto simp: next_outcome_def split: list.splits)

lemma db_read_frame:
  "db_read q w = (w1, r) \<Longrightarrow>
     w_rows w1 = w_rows w \<and> w_fresh w1 = w_fresh w \<and> w_now w1 = w_now w \<and> w_srv w1 = w_srv w"
  by (auto simp: db_read_def dest: next_outcome_frame split: prod.splits db_outcome.splits)

lemma db_read_value: "db_read q w = (w1, Inr a) \<Longrightarrow> a = q (w_rows w)"
  by (auto simp: db_read_def dest: next_outcome_frame split: prod.splits db_outcome.splits)

lemma db_write_frame:
  "db_write f w = (w1, r) \<Longrightarrow>
     w_fresh w1 = w_fresh w \<and> w_now w1 = w_now w \<and> w_srv w1 = w_srv w"
  by (auto simp: db_write_def dest: next_outcome_frame split: prod.splits db_outcome.splits if_splits)

lemma db_write_rows:
  "db_write f w = (w1, r) \<Longrightarrow>
     (w_rows w1 = f (w_rows w) \<and> excl_ok (f (w_rows w))) \<or> (w_rows w1 = w_rows w \<and> r \<noteq> None)"
  by (auto simp: db_write_def dest!: next_outcome_frame split: prod.splits db_outcome.splits if_splits)

lemma db_write_ok: "db_write f w = (w1, None) \<Longrightarrow> w_rows w1 = f (w_rows w) \<and> excl_ok (f (w_rows w))"
  by (auto dest: db_write_rows)

lemma row_result_frame:
  "row_result (db_read q w) = (w1, r) \<Longrightarrow>
     w_rows w1 = w_rows w \<and> w_fresh w1 = w_fresh w \<and> w_now w1 = w_now w \<and> w_srv w1 = w_srv w"
  by (auto simp: row_result_def dest!: db_read_frame split: prod.splits sum.splits option.splits)

lemma row_result_value:
  "row_result (db_read q w) = (w1, Inr s) \<Longrightarrow> q (w_rows w) = Some s"
  by (auto simp: row_result_def dest!: db_read_value split: prod.splits sum.splits option.splits)

lemma GetByID_frame: "GetByID w i = (w1, r) \<Longrightarrow> w_rows w1 = w_rows w \<and> w_srv w1 = w_srv w"
  unfolding GetByID_def by (auto dest: row_result_frame)

lemma GetByID_value:
  assumes "GetByID w i = (w1, Inr s)"
  shows "s \<in> set (w_rows w)" "s_ID s = i"
  using row_result_value [OF assms [unfolded GetByID_def]]
  by (auto simp: find_Some_iff)

lemma update_row_ids [simp]:
  "(\<And>s. s_ID (f s) = s_ID s) \<Longrightarrow> map s_ID (update_row i f t) = map s_ID t"
  by (simp add: update_row_def)

lemma update_row_other: "s \<in> set t \<Longrightarrow> s_ID s \<noteq> i \<Longrightarrow> s \<in> set (update_row i f t)"
  by (force simp: update_row_def)

section \<open>Table invariant\<close>

text \<open>
  What the repository keeps true however its statements are interleaved: identifiers are unique
  and below the supply, at most one active session per user and lab, and a session that runs or
  is suspended has a GNS3 project.
\<close>

definition project_set :: "Session \<Rightarrow> bool" where
  "project_set s = (s_Status s \<in> {StatusRunning, StatusIdleStopped} \<longrightarrow> s_GNS3ProjectID s \<noteq> None)"

definition table_ok :: "table \<Rightarrow> uuid \<Rightarrow> bool" where
  "table_ok t fresh =
     (distinct (map s_ID t) \<and> list_all (\<lambda>s. s_ID s < fresh) t \<and> excl_ok t
      \<and> list_all project_set t)"

definition world_ok :: "'s world \<Rightarrow> bool" where
  "world_ok w = table_ok (w_rows w) (w_fresh w)"

text \<open>
  The statements the program issues, with what the issuing code knows: \<open>'running'\<close> and
  \<open>'idle_stopped'\<close> are only written to a row that was read with a project id (which is never
  cleared again).
\<close>

inductive db_step :: "table \<times> uuid \<Rightarrow> table \<times> uuid \<Rightarrow> bool" where
  st_create: "excl_ok (t @ [new_session n u l c now]) \<Longrightarrow>
     db_step (t, n) (t @ [new_session n u l c now], Suc n)"
| st_skip_id: "db_step (t, n) (t, Suc n)"
| st_provisioned: "excl_ok t' \<Longrightarrow>
     t' = update_row i (\<lambda>s. s\<lparr>s_GNS3ProjectID := Some p, s_NodeMap := nm,
            s_Status := StatusRunning, s_LastActiveAt := now\<rparr>) t \<Longrightarrow>
     db_step (t, n) (t', n)"
| st_status: "excl_ok t' \<Longrightarrow> t' = update_row i (\<lambda>s. s\<lparr>s_Status := st\<rparr>) t \<Longrightarrow>
     st \<in> {StatusRunning, StatusIdleStopped} \<longrightarrow>
       (\<forall>s\<in>set t. s_ID s = i \<longrightarrow> s_GNS3ProjectID s \<noteq> None) \<Longrightarrow>
     db_step (t, n) (t', n)"
| st_touch: "t' = update_row i (\<lambda>s. s\<lparr>s_LastActiveAt := now\<rparr>) t \<Longrightarrow> excl_ok t' \<Longrightarrow>
     db_step (t, n) (t', n)"
| st_end: "t' = update_row i (\<lambda>s. s\<lparr>s_Status := StatusEnded, s_EndedAt := Some now\<rparr>) t \<Longrightarrow>
     excl_ok t' \<Longrightarrow> db_step (t, n) (t', n)"

inductive_cases db_stepE: "db_step (t, n) (t', n')"

lemma update_row_all:
  assumes "list_all P t" "\<And>s. s \<in> set t \<Longrightarrow> s_ID s = i \<Longrightarrow> P s \<Longrightarrow> P (f s)"
  shows "list_all P (update_row i f t)"
  using assms by (auto simp: update_row_def list_all_iff)

text \<open>Every statement of the repository preserves the table invariant.\<close>

lemma db_step_ok:
  assumes "db_step (t, n) (t', n')" "table_ok t n"
  shows "table_ok t' n'"
  using assms(1)
proof cases
  case st_create
  then show ?thesis
    using assms(2) by (auto simp: table_ok_def new_session_def project_set_def list_all_iff)
next
  case st_skip_id
  then show ?thesis using assms(2) by (auto simp: table_ok_def list_all_iff)
next
  case st_provisioned
  then show ?thesis using assms(2)
    by (auto simp: table_ok_def project_set_def intro!: update_row_all)
next
  case st_status
  then show ?thesis using assms(2)
    by (auto simp: table_ok_def project_set_def intro!: update_row_all)
next
  case st_touch
  then show ?thesis using assms(2)
    by (auto simp: table_ok_def project_set_def intro!: update_row_all)
next
  case st_end
  then show ?thesis using assms(2)
    by (auto simp: table_ok_def project_set_def intro!: update_row_all)
qed

abbreviation db_steps :: "table \<times> uuid \<Rightarrow> table \<times> uuid \<Rightarrow> bool" where
  "db_steps \<equiv> rtranclp db_step"

lemma db_steps_ok: "db_steps a b \<Longrightarrow> table_ok (fst a) (snd a) \<Longrightarrow> table_ok (fst b) (snd b)"
  by (induction rule: rtranclp_induct) (auto intro: db_step_ok)

end
