(* ===== verification/Reaper.thy ===== *)
theory Reaper
  imports Sessions Teardown
begin

text \<open>
  \<open>internal/labsession/reaper.go\<close>: the background sweep that suspends idle sessions and tears
  down long-idle ones, with bounded retries before a forced delete.  The reaper is modelled over
  any \<open>GNS3Client\<close> and any \<open>TeardownVerifier\<close>, the two interfaces it is written against.
  What it relies on is the locale \<open>compute_host\<close>.
\<close>

section \<open>State\<close>

definition maxStopAttempts :: int where "maxStopAttempts = 3"
definition maxTeardownAttempts :: int where "maxTeardownAttempts = 3"

record 's Reaper =
  rp_gns3 :: "'s GNS3Client"
  rp_idleTimeout :: int
  rp_sessionTTL :: int
  rp_tickInterval :: int
  rp_opTimeout :: int
  rp_verifier :: "nat \<Rightarrow> string \<Rightarrow> ('s, gerr option) io"
  rp_stopAttempts :: "(uuid, int) gomap"
  rp_teardownAttempts :: "(uuid, int) gomap"

text \<open>Division of a \<open>time.Duration\<close> by a positive one, truncated towards zero.\<close>

definition dur_div :: "int \<Rightarrow> int \<Rightarrow> int" where
  "dur_div d u = sgn d * (\<bar>d\<bar> div u)"

definition NewReaper :: "'s GNS3Client \<Rightarrow> int \<Rightarrow> int \<Rightarrow> int \<Rightarrow> int \<Rightarrow> 's Reaper" where
  "NewReaper g idleTimeout sessionTTL tickInterval opTimeout =
     \<lparr>rp_gns3 = g, rp_idleTimeout = idleTimeout, rp_sessionTTL = sessionTTL,
      rp_tickInterval = tickInterval,
      rp_opTimeout = (if opTimeout \<le> 0 \<or> opTimeout \<ge> tickInterval then dur_div tickInterval 2
                      else opTimeout),
      rp_verifier = WaitTeardownComplete g,
      rp_stopAttempts = [], rp_teardownAttempts = []\<rparr>"

text \<open>A call to the outside world: the server state changes and time passes.\<close>

definition gcall :: "('s, 'a) io \<Rightarrow> 's world \<Rightarrow> 's world \<times> 'a" where
  "gcall m w =
     (case m (w_srv w) of (s, t, a) \<Rightarrow> (w\<lparr>w_srv := s, w_now := w_now w + int t\<rparr>, a))"

section \<open>Operations\<close>

definition suspend :: "'s Reaper \<Rightarrow> 's world \<Rightarrow> Session \<Rightarrow> 's Reaper \<times> 's world" where
  "suspend r w sess =
     (case s_GNS3ProjectID sess of
        None \<Rightarrow>
          (r\<lparr>rp_stopAttempts := mdel (s_ID sess) (rp_stopAttempts r)\<rparr>,
           fst (SetStatus w (s_ID sess) StatusFailed))
      | Some projectID \<Rightarrow>
     (case gcall (g_StopNodes (rp_gns3 r) projectID) w of
        (w1, None) \<Rightarrow>
          (r\<lparr>rp_stopAttempts := mdel (s_ID sess) (rp_stopAttempts r)\<rparr>,
           fst (SetStatus w1 (s_ID sess) StatusIdleStopped))
      | (w1, Some err) \<Rightarrow>
     (let attempts = mget0 0 (rp_stopAttempts r) (s_ID sess) + 1;
          r1 = r\<lparr>rp_stopAttempts := mput (s_ID sess) attempts (rp_stopAttempts r)\<rparr>
      in if attempts \<ge> maxStopAttempts
         then (case gcall (g_DeleteProject (rp_gns3 r) projectID) w1 of
                 (w2, Some derr) \<Rightarrow> (r1, w2)
               | (w2, None) \<Rightarrow>
                   (r1\<lparr>rp_stopAttempts := mdel (s_ID sess) (rp_stopAttempts r1)\<rparr>,
                    fst (End w2 (s_ID sess))))
         else (r1, w1))))"

definition forget :: "uuid \<Rightarrow> 's Reaper \<Rightarrow> 's Reaper" where
  "forget i r =
     r\<lparr>rp_stopAttempts := mdel i (rp_stopAttempts r),
       rp_teardownAttempts := mdel i (rp_teardownAttempts r)\<rparr>"

definition teardown :: "'s Reaper \<Rightarrow> 's world \<Rightarrow> Session \<Rightarrow> 's Reaper \<times> 's world" where
  "teardown r w sess =
     (case s_GNS3ProjectID sess of
        None \<Rightarrow> (forget (s_ID sess) r, fst (End w (s_ID sess)))
      | Some projectID \<Rightarrow>
     (case gcall (rp_verifier r (nat (rp_opTimeout r)) projectID) w of
        (w1, Some err) \<Rightarrow>
          (let attempts = mget0 0 (rp_teardownAttempts r) (s_ID sess) + 1;
               r1 = r\<lparr>rp_teardownAttempts := mput (s_ID sess) attempts (rp_teardownAttempts r)\<rparr>
           in if attempts \<ge> maxTeardownAttempts
              then (case gcall (g_DeleteProject (rp_gns3 r) projectID) w1 of
                      (w2, Some derr) \<Rightarrow> (r1, w2)
                    | (w2, None) \<Rightarrow> (forget (s_ID sess) r1, fst (End w2 (s_ID sess))))
              else (r1, w1))
      | (w1, None) \<Rightarrow> (forget (s_ID sess) r, fst (End w1 (s_ID sess)))))"

fun for_sessions ::
  "('s Reaper \<Rightarrow> 's world \<Rightarrow> Session \<Rightarrow> 's Reaper \<times> 's world) \<Rightarrow>
   's Reaper \<times> 's world \<Rightarrow> Session list \<Rightarrow> 's Reaper \<times> 's world" where
  "for_sessions body rw [] = rw"
| "for_sessions body rw (s # ss) = for_sessions body (body (fst rw) (snd rw) s) ss"

definition tier1 :: "'s Reaper \<Rightarrow> 's world \<Rightarrow> 's Reaper \<times> 's world" where
  "tier1 r w =
     (case StaleRunning w (dur_div (rp_idleTimeout r) 60000000000) of
        (w1, Inl err) \<Rightarrow> (r, w1)
      | (w1, Inr staleRunning) \<Rightarrow> for_sessions suspend (r, w1) staleRunning)"

definition tier2 :: "'s Reaper \<Rightarrow> 's world \<Rightarrow> 's Reaper \<times> 's world" where
  "tier2 r w =
     (case StaleIdle w (dur_div (rp_sessionTTL r) 3600000000000) of
        (w1, Inl err) \<Rightarrow> (r, w1)
      | (w1, Inr staleIdle) \<Rightarrow> for_sessions teardown (r, w1) staleIdle)"

definition sweep :: "'s Reaper \<Rightarrow> 's world \<Rightarrow> 's Reaper \<times> 's world" where
  "sweep r w = (case tier1 r w of (r1, w1) \<Rightarrow> tier2 r1 w1)"

section \<open>What the reaper relies on\<close>

text \<open>
  \<open>gone p s\<close>: the compute host has confirmed, at or before state \<open>s\<close>, that the project is
  deleted.  The provider promises that an accepted delete and a completed verified teardown
  establish it, and that none of the calls the reaper makes takes it back.
\<close>

locale compute_host =
  fixes g :: "'s GNS3Client"
    and verify_gone :: "nat \<Rightarrow> string \<Rightarrow> ('s, gerr option) io"
    and gone :: "string \<Rightarrow> 's \<Rightarrow> bool"
  assumes delete_gone: "g_DeleteProject g p s = (s', t, None) \<Longrightarrow> gone p s'"
    and verify_gone: "verify_gone b p s = (s', t, None) \<Longrightarrow> gone p s'"
    and stop_keeps: "g_StopNodes g q s = (s', t, e) \<Longrightarrow> gone p s \<Longrightarrow> gone p s'"
    and delete_keeps: "g_DeleteProject g q s = (s', t, e) \<Longrightarrow> gone p s \<Longrightarrow> gone p s'"
    and verify_keeps: "verify_gone b q s = (s', t, e) \<Longrightarrow> gone p s \<Longrightarrow> gone p s'"

text \<open>
  How a table may change while slots stay honestly counted: rows keep their identity and project,
  and an active row becomes inactive only when it has no project or its project is gone.
\<close>

definition row_honest :: "(string \<Rightarrow> bool) \<Rightarrow> Session \<Rightarrow> Session \<Rightarrow> bool" where
  "row_honest gn s s' =
     (s_ID s' = s_ID s \<and> s_UserID s' = s_UserID s \<and> s_LabID s' = s_LabID s
      \<and> s_GNS3ProjectID s' = s_GNS3ProjectID s
      \<and> (active s \<longrightarrow> active s' \<or> (case s_GNS3ProjectID s of None \<Rightarrow> True | Some p \<Rightarrow> gn p)))"

definition honest :: "(string \<Rightarrow> 's \<Rightarrow> bool) \<Rightarrow> 's world \<Rightarrow> 's world \<Rightarrow> bool" where
  "honest gone w w' =
     (list_all2 (row_honest (\<lambda>p. gone p (w_srv w'))) (w_rows w) (w_rows w')
      \<and> (\<forall>p. gone p (w_srv w) \<longrightarrow> gone p (w_srv w')))"

text \<open>The session argument agrees with the row of the same identifier.\<close>

definition matches :: "'s world \<Rightarrow> Session \<Rightarrow> bool" where
  "matches w sess =
     (\<forall>s\<in>set (w_rows w). s_ID s = s_ID sess \<longrightarrow> s_GNS3ProjectID s = s_GNS3ProjectID sess)"

lemma row_honest_refl [simp]: "row_honest gn s s"
  by (simp add: row_honest_def)

lemma honest_refl [simp]: "honest gone w w"
  by (simp add: honest_def list_all2_refl)

lemma row_honest_trans:
  "row_honest gn s s' \<Longrightarrow> row_honest gn' s' s'' \<Longrightarrow> (\<And>p. gn p \<Longrightarrow> gn' p) \<Longrightarrow> row_honest gn' s s''"
  by (auto simp: row_honest_def split: option.splits)

lemma honest_trans:
  assumes "honest gone w w'" "honest gone w' w''"
  shows "honest gone w w''"
proof -
  have 1: "list_all2 (row_honest (\<lambda>p. gone p (w_srv w'))) (w_rows w) (w_rows w')"
    and 2: "list_all2 (row_honest (\<lambda>p. gone p (w_srv w''))) (w_rows w') (w_rows w'')"
    and k: "\<And>p. gone p (w_srv w') \<Longrightarrow> gone p (w_srv w'')"
    using assms by (auto simp: honest_def)
  have "list_all2 (row_honest (\<lambda>p. gone p (w_srv w''))) (w_rows w) (w_rows w'')"
    by (rule list_all2_trans [OF _ 1 2]) (erule row_honest_trans, assumption, erule k)
  then show ?thesis using assms by (simp add: honest_def)
qed

lemma honest_matches: "honest gone w w' \<Longrightarrow> matches w sess \<Longrightarrow> matches w' sess"
  by (fastforce simp: honest_def matches_def row_honest_def list_all2_conv_all_nth in_set_conv_nth)

lemma honest_same_rows:
  "w_rows w' = w_rows w \<Longrightarrow> (\<And>p. gone p (w_srv w) \<Longrightarrow> gone p (w_srv w')) \<Longrightarrow> honest gone w w'"
  by (simp add: honest_def list_all2_refl)

lemma honest_update:
  assumes "w_srv w' = w_srv w" "w_rows w' = update_row i f (w_rows w)"
    and "\<And>s. s \<in> set (w_rows w) \<Longrightarrow> s_ID s = i \<Longrightarrow> row_honest (\<lambda>p. gone p (w_srv w)) s (f s)"
  shows "honest gone w w'"
  using assms by (auto simp: honest_def update_row_def list_all2_conv_all_nth)

lemma honest_write:
  assumes "db_write (update_row i f) w = (w', e)"
    and "\<And>s. s \<in> set (w_rows w) \<Longrightarrow> s_ID s = i \<Longrightarrow> row_honest (\<lambda>p. gone p (w_srv w)) s (f s)"
  shows "honest gone w w'"
  using db_write_rows [OF assms(1)] db_write_frame [OF assms(1)] assms(2)
  by (auto intro: honest_update honest_same_rows)

lemma gcall_frame:
  "gcall m w = (w', a) \<Longrightarrow>
     w_rows w' = w_rows w \<and> w_fresh w' = w_fresh w \<and> w_faults w' = w_faults w \<and>
     (\<exists>t. m (w_srv w) = (w_srv w', t, a))"
  by (auto simp: gcall_def split: prod.splits)

lemma matches_rows: "w_rows w' = w_rows w \<Longrightarrow> matches w' sess = matches w sess"
  by (simp add: matches_def)

text \<open>A status write that keeps the slot, and the three ways a slot may be given up.\<close>

lemma honest_SetStatus:
  assumes "matches w sess" "active_status st \<or> s_GNS3ProjectID sess = None"
  shows "honest gone w (fst (SetStatus w (s_ID sess) st))"
  using assms
  by (cases "SetStatus w (s_ID sess) st")
     (auto simp: SetStatus_def matches_def row_honest_def intro!: honest_write)

lemma honest_End:
  assumes "matches w sess" "\<And>p. s_GNS3ProjectID sess = Some p \<Longrightarrow> gone p (w_srv w)"
  shows "honest gone w (fst (End w (s_ID sess)))"
  using assms
  by (cases "End w (s_ID sess)")
     (auto simp: End_def matches_def row_honest_def intro!: honest_write split: option.splits)

text \<open>The sessions of a fresh query agree with their rows.\<close>

lemma query_matches:
  assumes "distinct (map s_ID (w_rows w))" "w_rows w1 = w_rows w" "sess \<in> set (w_rows w)"
  shows "matches w1 sess"
  using assms by (auto simp: matches_def distinct_map inj_on_def)

lemma honest_ids: "honest gone w w' \<Longrightarrow> map s_ID (w_rows w') = map s_ID (w_rows w)"
  by (auto simp: honest_def row_honest_def list_all2_conv_all_nth list_eq_iff_nth_eq)

context compute_host
begin

lemma honest_stop: "gcall (g_StopNodes g p) w = (w', e) \<Longrightarrow> honest gone w w'"
  by (auto dest!: gcall_frame intro!: honest_same_rows dest: stop_keeps)

lemma honest_delete: "gcall (g_DeleteProject g p) w = (w', e) \<Longrightarrow> honest gone w w'"
  by (auto dest!: gcall_frame intro!: honest_same_rows dest: delete_keeps)

lemma honest_verify: "gcall (verify_gone b p) w = (w', e) \<Longrightarrow> honest gone w w'"
  by (auto dest!: gcall_frame intro!: honest_same_rows dest: verify_keeps)

lemma gcall_delete_gone: "gcall (g_DeleteProject g p) w = (w', None) \<Longrightarrow> gone p (w_srv w')"
  by (auto dest!: gcall_frame intro: delete_gone)

lemma gcall_verify_gone: "gcall (verify_gone b p) w = (w', None) \<Longrightarrow> gone p (w_srv w')"
  by (auto dest!: gcall_frame intro: verify_gone)

lemma suspend_honest:
  assumes "rp_gns3 r = g" "suspend r w sess = (r', w')" "matches w sess"
  shows "honest gone w w'"
proof (cases "s_GNS3ProjectID sess")
  case None
  with assms show ?thesis by (auto simp: suspend_def intro: honest_SetStatus)
next
  case (Some p)
  obtain w1 e1 where s: "gcall (g_StopNodes g p) w = (w1, e1)" by fastforce
  obtain w2 e2 where d: "gcall (g_DeleteProject g p) w1 = (w2, e2)" by fastforce
  have h1: "honest gone w w1" by (rule honest_stop [OF s])
  have h2: "honest gone w1 w2" by (rule honest_delete [OF d])
  have m: "matches w1 sess" "matches w2 sess"
    using honest_matches h1 h2 assms(3) by blast+
  have idle: "honest gone w1 (fst (SetStatus w1 (s_ID sess) StatusIdleStopped))"
    using m by (intro honest_SetStatus) (simp_all add: active_status_def)
  have ends: "e2 = None \<Longrightarrow> honest gone w2 (fst (End w2 (s_ID sess)))"
    using m Some gcall_delete_gone d by (intro honest_End) auto
  show ?thesis
    using assms(1,2) Some s d h1 honest_trans [OF h1 h2] honest_trans [OF h1 idle]
      honest_trans [OF honest_trans [OF h1 h2] ends]
    by (auto simp: suspend_def Let_def split: option.splits if_splits)
qed

lemma teardown_honest:
  assumes "rp_gns3 r = g" "rp_verifier r = verify_gone"
    "teardown r w sess = (r', w')" "matches w sess"
  shows "honest gone w w'"
proof (cases "s_GNS3ProjectID sess")
  case None
  with assms show ?thesis by (auto simp: teardown_def intro: honest_End)
next
  case (Some p)
  obtain w1 e1 where v: "gcall (verify_gone (nat (rp_opTimeout r)) p) w = (w1, e1)" by fastforce
  obtain w2 e2 where d: "gcall (g_DeleteProject g p) w1 = (w2, e2)" by fastforce
  have h1: "honest gone w w1" by (rule honest_verify [OF v])
  have h2: "honest gone w1 w2" by (rule honest_delete [OF d])
  have m: "matches w1 sess" "matches w2 sess"
    using honest_matches h1 h2 assms(4) by blast+
  have ends1: "e1 = None \<Longrightarrow> honest gone w1 (fst (End w1 (s_ID sess)))"
    using m Some gcall_verify_gone v by (intro honest_End) auto
  have ends2: "e2 = None \<Longrightarrow> honest gone w2 (fst (End w2 (s_ID sess)))"
    using m Some gcall_delete_gone d by (intro honest_End) auto
  show ?thesis
    using assms(1-3) Some v d h1 honest_trans [OF h1 h2] honest_trans [OF h1 ends1]
      honest_trans [OF honest_trans [OF h1 h2] ends2]
    by (auto simp: teardown_def Let_def split: option.splits if_splits)
qed

lemma for_sessions_honest:
  assumes "\<And>r w s r' w'. body r w s = (r', w') \<Longrightarrow> I r \<Longrightarrow> matches w s \<Longrightarrow> I r' \<and> honest gone w w'"
  shows "for_sessions body rw ss = rw' \<Longrightarrow> I (fst rw) \<Longrightarrow> (\<forall>s\<in>set ss. matches (snd rw) s) \<Longrightarrow>
    I (fst rw') \<and> honest gone (snd rw) (snd rw')"
proof (induction ss arbitrary: rw)
  case (Cons s ss)
  obtain r1 w1 where b: "body (fst rw) (snd rw) s = (r1, w1)" by fastforce
  have h: "I r1 \<and> honest gone (snd rw) w1" using assms [OF b] Cons.prems by simp
  then have "\<forall>s\<in>set ss. matches w1 s"
    using Cons.prems honest_matches [of gone "snd rw" w1] by auto
  then have "I (fst rw') \<and> honest gone w1 (snd rw')"
    using Cons.IH [of "(r1, w1)"] Cons.prems b h by simp
  then show ?case using h honest_trans by blast
qed auto

definition wired :: "'s Reaper \<Rightarrow> bool" where
  "wired r = (rp_gns3 r = g \<and> rp_verifier r = verify_gone)"

lemma suspend_wired: "suspend r w s = (r', w') \<Longrightarrow> wired r \<Longrightarrow> wired r'"
  by (auto simp: suspend_def wired_def Let_def split: option.splits prod.splits if_splits)

lemma teardown_wired: "teardown r w s = (r', w') \<Longrightarrow> wired r \<Longrightarrow> wired r'"
  by (auto simp: teardown_def forget_def wired_def Let_def
      split: option.splits prod.splits if_splits)

lemma suspend_body:
  "suspend r w s = (r', w') \<Longrightarrow> wired r \<Longrightarrow> matches w s \<Longrightarrow> wired r' \<and> honest gone w w'"
  using suspend_wired [of r w s r' w'] suspend_honest [of r w s r' w']
  by (simp add: wired_def)

lemma teardown_body:
  "teardown r w s = (r', w') \<Longrightarrow> wired r \<Longrightarrow> matches w s \<Longrightarrow> wired r' \<and> honest gone w w'"
  using teardown_wired [of r w s r' w'] teardown_honest [of r w s r' w']
  by (simp add: wired_def)

lemma tier1_honest:
  assumes "tier1 r w = (r', w')" "wired r" "distinct (map s_ID (w_rows w))"
  shows "wired r' \<and> honest gone w w'"
proof -
  obtain w1 q where q: "StaleRunning w (dur_div (rp_idleTimeout r) 60000000000) = (w1, q)"
    by fastforce
  then have f: "w_rows w1 = w_rows w" "w_srv w1 = w_srv w"
    by (auto simp: StaleRunning_def dest: db_read_frame)
  show ?thesis
  proof (cases q)
    case (Inl e)
    with q assms f show ?thesis by (auto simp: tier1_def intro: honest_same_rows)
  next
    case (Inr ss)
    then have "set ss \<subseteq> set (w_rows w)"
      using q by (auto simp: StaleRunning_def dest!: db_read_value)
    then have "\<forall>s\<in>set ss. matches w1 s" using query_matches assms(3) f by blast
    moreover have "for_sessions suspend (r, w1) ss = (r', w')"
      using assms(1) q Inr by (simp add: tier1_def)
    ultimately have "wired r' \<and> honest gone w1 w'"
      using for_sessions_honest [where I = wired and rw = "(r, w1)" and ss = ss
          and rw' = "(r', w')", OF suspend_body]
        assms(2) by simp
    then show ?thesis
      using honest_same_rows [where gone = gone, of w1 w] f honest_trans by fastforce
  qed
qed

lemma tier2_honest:
  assumes "tier2 r w = (r', w')" "wired r" "distinct (map s_ID (w_rows w))"
  shows "wired r' \<and> honest gone w w'"
proof -
  obtain w1 q where q: "StaleIdle w (dur_div (rp_sessionTTL r) 3600000000000) = (w1, q)"
    by fastforce
  then have f: "w_rows w1 = w_rows w" "w_srv w1 = w_srv w"
    by (auto simp: StaleIdle_def dest: db_read_frame)
  show ?thesis
  proof (cases q)
    case (Inl e)
    with q assms f show ?thesis by (auto simp: tier2_def intro: honest_same_rows)
  next
    case (Inr ss)
    then have "set ss \<subseteq> set (w_rows w)"
      using q by (auto simp: StaleIdle_def dest!: db_read_value)
    then have "\<forall>s\<in>set ss. matches w1 s" using query_matches assms(3) f by blast
    moreover have "for_sessions teardown (r, w1) ss = (r', w')"
      using assms(1) q Inr by (simp add: tier2_def)
    ultimately have "wired r' \<and> honest gone w1 w'"
      using for_sessions_honest [where I = wired and rw = "(r, w1)" and ss = ss
          and rw' = "(r', w')", OF teardown_body]
        assms(2) by simp
    then show ?thesis
      using honest_same_rows [where gone = gone, of w1 w] f honest_trans by fastforce
  qed
qed

lemma sweep_honest:
  assumes "sweep r w = (r', w')" "wired r" "distinct (map s_ID (w_rows w))"
  shows "wired r' \<and> honest gone w w'"
proof -
  obtain r1 w1 where t1: "tier1 r w = (r1, w1)" by fastforce
  have h1: "wired r1 \<and> honest gone w w1" by (rule tier1_honest [OF t1 assms(2,3)])
  have "tier2 r1 w1 = (r', w')" using assms(1) t1 by (simp add: sweep_def)
  then have "wired r' \<and> honest gone w1 w'"
    by (rule tier2_honest) (use h1 honest_ids [of gone w w1] assms(3) in auto)
  then show ?thesis using h1 honest_trans by blast
qed

end

text \<open>Without any knowledge about projects the frame part of \<open>honest\<close> remains.\<close>

interpretation any_host: compute_host g v "\<lambda>_ _. True" for g v
  by unfold_locales simp_all

section \<open>The reaper only issues repository statements\<close>

definition db_view :: "'s world \<Rightarrow> table \<times> uuid" where
  "db_view w = (w_rows w, w_fresh w)"

lemma db_view_cong: "w_rows w' = w_rows w \<Longrightarrow> w_fresh w' = w_fresh w \<Longrightarrow> db_view w' = db_view w"
  by (simp add: db_view_def)

lemma gcall_view: "gcall m w = (w', a) \<Longrightarrow> db_view w' = db_view w"
  by (auto simp: db_view_def dest: gcall_frame)

lemma SetStatus_steps:
  assumes "SetStatus w i st = (w', e)"
    and "st \<in> {StatusRunning, StatusIdleStopped} \<longrightarrow>
           (\<forall>s\<in>set (w_rows w). s_ID s = i \<longrightarrow> s_GNS3ProjectID s \<noteq> None)"
  shows "db_steps (db_view w) (db_view w')"
proof -
  note d = db_write_rows [OF assms(1) [unfolded SetStatus_def]]
    db_write_frame [OF assms(1) [unfolded SetStatus_def]]
  from d(1) show ?thesis
  proof
    assume "w_rows w' = update_row i (\<lambda>s. s\<lparr>s_Status := st\<rparr>) (w_rows w) \<and>
        excl_ok (update_row i (\<lambda>s. s\<lparr>s_Status := st\<rparr>) (w_rows w))"
    then show ?thesis
      using d(2) assms(2) st_status [of "w_rows w'" i st "w_rows w" "w_fresh w"]
      by (auto simp: db_view_def)
  next
    assume "w_rows w' = w_rows w \<and> e \<noteq> None"
    then show ?thesis using d(2) by (simp add: db_view_def)
  qed
qed

lemma End_steps:
  assumes "End w i = (w', e)"
  shows "db_steps (db_view w) (db_view w')"
proof -
  note d = db_write_rows [OF assms [unfolded End_def]]
    db_write_frame [OF assms [unfolded End_def]]
  from d(1) show ?thesis
  proof
    assume "w_rows w' = update_row i
        (\<lambda>s. s\<lparr>s_Status := StatusEnded, s_EndedAt := Some (w_now w)\<rparr>) (w_rows w) \<and>
      excl_ok (update_row i
        (\<lambda>s. s\<lparr>s_Status := StatusEnded, s_EndedAt := Some (w_now w)\<rparr>) (w_rows w))"
    then show ?thesis
      using d(2) st_end [of "w_rows w'" i "w_now w" "w_rows w" "w_fresh w"]
      by (auto simp: db_view_def)
  next
    assume "w_rows w' = w_rows w \<and> e \<noteq> None"
    then show ?thesis using d(2) by (simp add: db_view_def)
  qed
qed

lemma SetStatus_fst: "st \<notin> {StatusRunning, StatusIdleStopped} \<Longrightarrow>
    db_steps (db_view w) (db_view (fst (SetStatus w i st)))"
  by (rule SetStatus_steps [where e = "snd (SetStatus w i st)"]) auto

lemma End_fst: "db_steps (db_view w) (db_view (fst (End w i)))"
  by (rule End_steps [where e = "snd (End w i)"]) simp

lemma idle_fst:
  assumes "matches w sess" "s_GNS3ProjectID sess = Some p"
  shows "db_steps (db_view w) (db_view (fst (SetStatus w (s_ID sess) StatusIdleStopped)))"
  by (rule SetStatus_steps [where e = "snd (SetStatus w (s_ID sess) StatusIdleStopped)"])
     (use assms in \<open>auto simp: matches_def\<close>)

lemma suspend_steps:
  assumes "suspend r w sess = (r', w')" "matches w sess"
  shows "db_steps (db_view w) (db_view w')"
proof (cases "s_GNS3ProjectID sess")
  case None
  with assms show ?thesis by (auto simp: suspend_def intro: SetStatus_fst)
next
  case (Some p)
  obtain w1 e1 where s: "gcall (g_StopNodes (rp_gns3 r) p) w = (w1, e1)" by fastforce
  obtain w2 e2 where d: "gcall (g_DeleteProject (rp_gns3 r) p) w1 = (w2, e2)" by fastforce
  have v: "db_view w1 = db_view w" "db_view w2 = db_view w"
    using gcall_view [OF s] gcall_view [OF d] by simp_all
  have "matches w1 sess"
    using gcall_frame [OF s] assms(2) matches_rows by blast
  note i = idle_fst [OF this Some] and n = End_fst [of w2 "s_ID sess"]
  show ?thesis
    using assms(1) Some s d i n v
    by (auto simp: suspend_def Let_def split: option.splits if_splits)
qed

lemma teardown_steps:
  assumes "teardown r w sess = (r', w')"
  shows "db_steps (db_view w) (db_view w')"
proof (cases "s_GNS3ProjectID sess")
  case None
  with assms show ?thesis by (auto simp: teardown_def intro: End_fst)
next
  case (Some p)
  obtain w1 e1 where s: "gcall (rp_verifier r (nat (rp_opTimeout r)) p) w = (w1, e1)" by fastforce
  obtain w2 e2 where d: "gcall (g_DeleteProject (rp_gns3 r) p) w1 = (w2, e2)" by fastforce
  have v: "db_view w1 = db_view w" "db_view w2 = db_view w"
    using gcall_view [OF s] gcall_view [OF d] by simp_all
  show ?thesis
    using assms Some s d End_fst [of w1 "s_ID sess"] End_fst [of w2 "s_ID sess"] v
    by (auto simp: teardown_def Let_def split: option.splits if_splits)
qed

lemma suspend_matches:
  assumes "suspend r w sess = (r', w')" "matches w sess" "matches w s"
  shows "matches w' s"
  using any_host.suspend_honest [OF refl assms(1,2)] assms(3) honest_matches by blast

lemma teardown_matches:
  assumes "teardown r w sess = (r', w')" "matches w sess" "matches w s"
  shows "matches w' s"
  using any_host.teardown_honest [OF refl refl assms(1,2)] assms(3) honest_matches by blast

lemma for_sessions_steps:
  assumes "\<And>r w s r' w'. body r w s = (r', w') \<Longrightarrow> matches w s \<Longrightarrow>
             db_steps (db_view w) (db_view w')"
    and "\<And>r w s r' w' s'. body r w s = (r', w') \<Longrightarrow> matches w s \<Longrightarrow> matches w s' \<Longrightarrow> matches w' s'"
  shows "for_sessions body rw ss = rw' \<Longrightarrow> (\<forall>s\<in>set ss. matches (snd rw) s) \<Longrightarrow>
    db_steps (db_view (snd rw)) (db_view (snd rw'))"
proof (induction ss arbitrary: rw)
  case (Cons s ss)
  obtain r1 w1 where b: "body (fst rw) (snd rw) s = (r1, w1)" by fastforce
  have "\<forall>s\<in>set ss. matches w1 s" using Cons.prems assms(2) [OF b] by auto
  then have "db_steps (db_view w1) (db_view (snd rw'))"
    using Cons.IH [of "(r1, w1)"] Cons.prems b by simp
  then show ?case using assms(1) [OF b] Cons.prems by simp
qed auto

lemma tier1_steps:
  assumes "tier1 r w = (r', w')" "distinct (map s_ID (w_rows w))"
  shows "db_steps (db_view w) (db_view w')"
proof -
  obtain w1 q where q: "StaleRunning w (dur_div (rp_idleTimeout r) 60000000000) = (w1, q)"
    by fastforce
  then have f: "w_rows w1 = w_rows w" "db_view w1 = db_view w"
    by (auto simp: StaleRunning_def db_view_def dest: db_read_frame)
  show ?thesis
  proof (cases q)
    case (Inl e)
    with q assms f show ?thesis by (auto simp: tier1_def)
  next
    case (Inr ss)
    then have "set ss \<subseteq> set (w_rows w)"
      using q by (auto simp: StaleRunning_def dest!: db_read_value)
    then have "\<forall>s\<in>set ss. matches w1 s" using query_matches assms(2) f by blast
    moreover have "for_sessions suspend (r, w1) ss = (r', w')"
      using assms(1) q Inr by (simp add: tier1_def)
    ultimately show ?thesis
      using for_sessions_steps [where rw = "(r, w1)" and ss = ss and rw' = "(r', w')",
          OF suspend_steps suspend_matches] f by simp
  qed
qed

lemma tier2_steps:
  assumes "tier2 r w = (r', w')" "distinct (map s_ID (w_rows w))"
  shows "db_steps (db_view w) (db_view w')"
proof -
  obtain w1 q where q: "StaleIdle w (dur_div (rp_sessionTTL r) 3600000000000) = (w1, q)"
    by fastforce
  then have f: "w_rows w1 = w_rows w" "db_view w1 = db_view w"
    by (auto simp: StaleIdle_def db_view_def dest: db_read_frame)
  show ?thesis
  proof (cases q)
    case (Inl e)
    with q assms f show ?thesis by (auto simp: tier2_def)
  next
    case (Inr ss)
    then have "set ss \<subseteq> set (w_rows w)"
      using q by (auto simp: StaleIdle_def dest!: db_read_value)
    then have "\<forall>s\<in>set ss. matches w1 s" using query_matches assms(2) f by blast
    moreover have "for_sessions teardown (r, w1) ss = (r', w')"
      using assms(1) q Inr by (simp add: tier2_def)
    ultimately show ?thesis
      using for_sessions_steps [where rw = "(r, w1)" and ss = ss and rw' = "(r', w')",
          OF teardown_steps teardown_matches] f by simp
  qed
qed

lemma sweep_steps:
  assumes "sweep r w = (r', w')" "distinct (map s_ID (w_rows w))"
  shows "db_steps (db_view w) (db_view w')"
proof -
  obtain r1 w1 where t1: "tier1 r w = (r1, w1)" by fastforce
  have "map s_ID (w_rows w1) = map s_ID (w_rows w)"
    using any_host.tier1_honest [where g = "rp_gns3 r" and v = "rp_verifier r", OF t1 _ assms(2)]
      honest_ids by (auto simp: any_host.wired_def)
  then show ?thesis
    using tier1_steps [OF t1 assms(2)] tier2_steps [of r1 w1 r' w'] assms t1
    by (simp add: sweep_def)
qed

section \<open>Escalation\<close>

lemma deactivate_keys:
  assumes "\<And>s. \<not> active (f s)"
  shows "set (map (\<lambda>s. (s_UserID s, s_LabID s)) (filter active (update_row i f t)))
    \<subseteq> set (map (\<lambda>s. (s_UserID s, s_LabID s)) (filter active t))"
  using assms by (auto simp: update_row_def split: if_splits)

text \<open>Giving a slot up never violates the exclusion constraint.\<close>

lemma excl_ok_deactivate:
  assumes "\<And>s. \<not> active (f s)" "excl_ok t"
  shows "excl_ok (update_row i f t)"
  using assms(2)
proof (induction t)
  case (Cons s t)
  then have "excl_ok (update_row i f t)" by (auto simp: excl_ok_def split: if_splits)
  then show ?case
    using deactivate_keys [OF assms(1), where i = i and t = t] Cons.prems assms(1)
    by (auto simp: excl_ok_def update_row_def split: if_splits)
qed (simp add: excl_ok_def update_row_def)

lemma End_no_faults:
  assumes "w_faults w = []" "excl_ok (w_rows w)"
  shows "End w i =
    (w\<lparr>w_rows := update_row i (\<lambda>s. s\<lparr>s_Status := StatusEnded, s_EndedAt := Some (w_now w)\<rparr>)
       (w_rows w)\<rparr>, None)"
  using assms excl_ok_deactivate [of "\<lambda>s. s\<lparr>s_Status := StatusEnded, s_EndedAt := Some (w_now w)\<rparr>"]
  by (simp add: End_def db_write_def next_outcome_def active_status_def)

definition suspend_times :: "nat \<Rightarrow> 's Reaper \<Rightarrow> 's world \<Rightarrow> Session \<Rightarrow> 's Reaper \<times> 's world" where
  "suspend_times k r w sess = ((\<lambda>rw. suspend (fst rw) (snd rw) sess) ^^ k) (r, w)"

definition teardown_times :: "nat \<Rightarrow> 's Reaper \<Rightarrow> 's world \<Rightarrow> Session \<Rightarrow> 's Reaper \<times> 's world" where
  "teardown_times k r w sess = ((\<lambda>rw. teardown (fst rw) (snd rw) sess) ^^ k) (r, w)"

lemma suspend_failed:
  assumes "s_GNS3ProjectID sess = Some p"
    and "\<And>s. \<exists>s' t e. g_StopNodes (rp_gns3 r) p s = (s', t, Some e)"
    and "mget0 0 (rp_stopAttempts r) (s_ID sess) = n" "n + 1 < maxStopAttempts"
  shows "\<exists>r' w'. suspend r w sess = (r', w') \<and> w_rows w' = w_rows w \<and> w_faults w' = w_faults w
    \<and> rp_gns3 r' = rp_gns3 r \<and> mget0 0 (rp_stopAttempts r') (s_ID sess) = n + 1"
proof -
  obtain s' t e where c: "g_StopNodes (rp_gns3 r) p (w_srv w) = (s', t, Some e)"
    using assms(2) by blast
  show ?thesis
    using assms(1,3,4) c by (auto simp: suspend_def gcall_def mget0_def)
qed

lemma suspend_forced:
  assumes "s_GNS3ProjectID sess = Some p"
    and "\<And>s. \<exists>s' t e. g_StopNodes (rp_gns3 r) p s = (s', t, Some e)"
    and "\<And>s. \<exists>s' t. g_DeleteProject (rp_gns3 r) p s = (s', t, None)"
    and "mget0 0 (rp_stopAttempts r) (s_ID sess) = n" "n + 1 \<ge> maxStopAttempts"
    and "w_faults w = []" "excl_ok (w_rows w)"
    and "suspend r w sess = (r', w')"
  shows "(\<forall>row\<in>set (w_rows w'). s_ID row = s_ID sess \<longrightarrow> s_Status row = StatusEnded)
    \<and> mget (rp_stopAttempts r') (s_ID sess) = None"
proof -
  obtain s1 t1 e where c: "g_StopNodes (rp_gns3 r) p (w_srv w) = (s1, t1, Some e)"
    using assms(2) by blast
  obtain s2 t2 where d: "g_DeleteProject (rp_gns3 r) p s1 = (s2, t2, None)"
    using assms(3) by blast
  show ?thesis
    using assms(1,4-8) c d
    by (auto simp: suspend_def gcall_def End_no_faults update_row_def split: if_splits)
qed

text \<open>
  C7: a wedged session is always released.  When stopping the nodes fails every time but the
  forced delete succeeds, the first two attempts leave the table as it is and the third one ends
  the session and clears its failure counter.
\<close>

theorem wedged_session_force_ended:
  assumes "s_GNS3ProjectID sess = Some p"
    and "\<And>s. \<exists>s' t e. g_StopNodes (rp_gns3 r) p s = (s', t, Some e)"
    and "\<And>s. \<exists>s' t. g_DeleteProject (rp_gns3 r) p s = (s', t, None)"
    and "mget (rp_stopAttempts r) (s_ID sess) = None"
    and "w_faults w = []" "excl_ok (w_rows w)"
  shows "w_rows (snd (suspend_times 1 r w sess)) = w_rows w
    \<and> w_rows (snd (suspend_times 2 r w sess)) = w_rows w
    \<and> (\<forall>row\<in>set (w_rows (snd (suspend_times 3 r w sess))).
           s_ID row = s_ID sess \<longrightarrow> s_Status row = StatusEnded)
    \<and> mget (rp_stopAttempts (fst (suspend_times 3 r w sess))) (s_ID sess) = None"
proof -
  have "mget0 0 (rp_stopAttempts r) (s_ID sess) = 0" using assms(4) by (simp add: mget0_def)
  from suspend_failed [OF assms(1,2) this, of w]
  obtain r1 w1 where 1: "suspend r w sess = (r1, w1)" "w_rows w1 = w_rows w" "w_faults w1 = []"
    "rp_gns3 r1 = rp_gns3 r" "mget0 0 (rp_stopAttempts r1) (s_ID sess) = 1"
    using assms(5) by (auto simp: maxStopAttempts_def)
  from suspend_failed [OF assms(1), of r1 1 w1]
  obtain r2 w2 where 2: "suspend r1 w1 sess = (r2, w2)" "w_rows w2 = w_rows w" "w_faults w2 = []"
    "rp_gns3 r2 = rp_gns3 r" "mget0 0 (rp_stopAttempts r2) (s_ID sess) = 2"
    using 1 assms(2) by (auto simp: maxStopAttempts_def)
  obtain r3 w3 where 3: "suspend r2 w2 sess = (r3, w3)" by fastforce
  have it: "suspend_times 1 r w sess = (r1, w1)" "suspend_times 2 r w sess = (r2, w2)"
    "suspend_times 3 r w sess = (r3, w3)"
    using 1(1) 2(1) 3 by (simp_all add: suspend_times_def numeral_2_eq_2 numeral_3_eq_3)
  have "(\<forall>row\<in>set (w_rows w3). s_ID row = s_ID sess \<longrightarrow> s_Status row = StatusEnded)
      \<and> mget (rp_stopAttempts r3) (s_ID sess) = None"
    by (rule suspend_forced [OF assms(1) _ _ 2(5) _ 2(3) _ 3])
       (use 2 assms in \<open>simp_all add: maxStopAttempts_def\<close>)
  then show ?thesis using it 1(2) 2(2) by simp
qed

text \<open>A running session on the example orchestrator whose nodes cannot be stopped.\<close>

definition demo_session :: Session where
  "demo_session = (new_session 7 1 1 ''local'' 0)
     \<lparr>s_GNS3ProjectID := Some ''p1'', s_Status := StatusRunning\<rparr>"

definition demo_world :: "demo world" where
  "demo_world =
     \<lparr>w_rows = [demo_session], w_fresh = 8, w_faults = [], w_now = 100000000000000,
      w_srv = \<lparr>d_polls = 0, d_exists = True, d_stuck = True\<rparr>\<rparr>"

definition stuck_client :: "demo GNS3Client" where
  "stuck_client = demo_client
     \<lparr>g_StopNodes := (\<lambda>p s. (s, 1, Some (Errorf ''stop failed'')))\<rparr>"

definition demo_reaper :: "demo Reaper" where
  "demo_reaper = NewReaper stuck_client 1800000000000 7200000000000 60000000000 20000000000"

theorem wedged_session_force_ended_witness:
  "w_rows (snd (suspend_times 2 demo_reaper demo_world demo_session)) = w_rows demo_world
   \<and> list_all (\<lambda>row. s_ID row \<noteq> s_ID demo_session \<or> s_Status row = StatusEnded)
       (w_rows (snd (suspend_times 3 demo_reaper demo_world demo_session)))"
proof -
  have "w_rows (snd (suspend_times 1 demo_reaper demo_world demo_session)) = w_rows demo_world
     \<and> w_rows (snd (suspend_times 2 demo_reaper demo_world demo_session)) = w_rows demo_world
     \<and> (\<forall>row\<in>set (w_rows (snd (suspend_times 3 demo_reaper demo_world demo_session))).
           s_ID row = s_ID demo_session \<longrightarrow> s_Status row = StatusEnded)
     \<and> mget (rp_stopAttempts (fst (suspend_times 3 demo_reaper demo_world demo_session)))
         (s_ID demo_session) = None"
    by (rule wedged_session_force_ended)
       (auto simp: demo_session_def demo_reaper_def stuck_client_def demo_client_def NewReaper_def
          demo_world_def excl_ok_def new_session_def)
  then show ?thesis by (auto simp: list_all_iff)
qed

section \<open>Which sessions a sweep picks\<close>





end
