(* ===== verification/Gns3Http.thy ===== *)
theory Gns3Http
  imports Json MacResolver Teardown Reaper
begin

text \<open>
  \<open>HTTPGNS3Client\<close> (\<open>internal/labsession/gns3client_impl.go\<close>).  The HTTP round trip (request out,
  status and body back, with a possible error while the body is read) is a parameter of the
  client, as are the console dialer and the wall clock.  Every exchange is recorded in the state
  the client runs on, so that what the server has acknowledged can be talked about.
\<close>

section \<open>Transport\<close>

datatype tr_result =
    TErr gerr
  | TResp int string "gerr option"

record request =
  rq_method :: string
  rq_url :: string
  rq_auth :: "(string \<times> string) option"
  rq_body :: "json option"

record 's wire =
  wr_srv :: 's
  wr_log :: "(request \<times> tr_result) list"

record 's HTTPGNS3Client =
  hc_baseURL :: string
  hc_username :: string
  hc_password :: string
  hc_http :: "request \<Rightarrow> ('s, tr_result) io"
  hc_kaliPinnedTag :: string
  hc_dial :: "'s dialer"
  hc_unix :: "'s \<Rightarrow> int"

definition NewHTTPGNS3Client ::
  "(request \<Rightarrow> ('s, tr_result) io) \<Rightarrow> 's dialer \<Rightarrow> ('s \<Rightarrow> int) \<Rightarrow>
   string \<Rightarrow> string \<Rightarrow> string \<Rightarrow> string \<Rightarrow> 's HTTPGNS3Client" where
  "NewHTTPGNS3Client http dial unix baseURL username password kaliPinnedTag =
     \<lparr>hc_baseURL = baseURL, hc_username = username, hc_password = password, hc_http = http,
      hc_kaliPinnedTag = kaliPinnedTag, hc_dial = dial, hc_unix = unix\<rparr>"

definition mk_request :: "'s HTTPGNS3Client \<Rightarrow> string \<Rightarrow> string \<Rightarrow> json option \<Rightarrow> request" where
  "mk_request c m path body =
     \<lparr>rq_method = m, rq_url = hc_baseURL c @ path,
      rq_auth = (if hc_username c \<noteq> [] then Some (hc_username c, hc_password c) else None),
      rq_body = body\<rparr>"

definition send ::
  "'s HTTPGNS3Client \<Rightarrow> string \<Rightarrow> string \<Rightarrow> json option \<Rightarrow> ('s wire, tr_result) io" where
  "send c m path body w =
     (let req = mk_request c m path body in
      case hc_http c req (wr_srv w) of
        (s, t, res) \<Rightarrow> (w\<lparr>wr_srv := s, wr_log := wr_log w @ [(req, res)]\<rparr>, t, res))"

section \<open>\<open>do\<close> and \<open>doStatus\<close>\<close>

definition gns3_label :: "string \<Rightarrow> string \<Rightarrow> string" where
  "gns3_label m path = ''gns3 '' @ m @ '' '' @ path @ '': ''"

text \<open>
  The \<open>out\<close> argument is a decoder and the initial value of the destination; \<open>None\<close> is \<open>nil\<close>.
\<close>

definition do_result ::
  "string \<Rightarrow> string \<Rightarrow> 'a json_dest option \<Rightarrow> 'a \<Rightarrow> tr_result \<Rightarrow> gerr + 'a" where
  "do_result m path out z res =
     (case res of
        TErr e \<Rightarrow> Inl e
      | TResp status body rerr \<Rightarrow>
          (case rerr of
             Some e \<Rightarrow> Inl (Wrapf (gns3_label m path @ ''read response body: '') e [])
           | None \<Rightarrow>
               if status \<ge> 400 then
                 Inl (Errorf (gns3_label m path @ ''status '' @ itoa status @ '': '' @ body))
               else (case out of
                   None \<Rightarrow> Inr z
                 | Some d \<Rightarrow>
                     if body = [] then Inr z
                     else (case decodeStrict d body z of
                         Inl e \<Rightarrow> Inl (Wrapf (gns3_label m path @ ''decode response: '') e [])
                       | Inr a \<Rightarrow> Inr a))))"

definition do_req ::
  "'s HTTPGNS3Client \<Rightarrow> string \<Rightarrow> string \<Rightarrow> json option \<Rightarrow> 'a json_dest option \<Rightarrow> 'a
     \<Rightarrow> ('s wire, gerr + 'a) io" where
  "do_req c m path body out z =
     io_bind (send c m path body) (\<lambda>res. io_return (do_result m path out z res))"

definition do_unit ::
  "'s HTTPGNS3Client \<Rightarrow> string \<Rightarrow> string \<Rightarrow> json option \<Rightarrow> ('s wire, gerr option) io" where
  "do_unit c m path body =
     io_bind (do_req c m path body None ()) (\<lambda>r.
       io_return (case r of Inl e \<Rightarrow> Some e | Inr _ \<Rightarrow> None))"

definition status_result ::
  "string \<Rightarrow> string \<Rightarrow> 'a json_dest option \<Rightarrow> 'a \<Rightarrow> tr_result \<Rightarrow> int \<times> 'a \<times> gerr option" where
  "status_result m path out z res =
     (case res of
        TErr e \<Rightarrow> (0, z, Some e)
      | TResp status body _ \<Rightarrow>
          (case out of
             None \<Rightarrow> (status, z, None)
           | Some d \<Rightarrow>
               if status < 400 \<and> body \<noteq> [] then
                 (case Unmarshal d body z of
                    Inl e \<Rightarrow> (status, z, Some (Wrapf (gns3_label m path @ ''decode: '') e []))
                  | Inr a \<Rightarrow> (status, a, None))
               else (status, z, None)))"

definition doStatus ::
  "'s HTTPGNS3Client \<Rightarrow> string \<Rightarrow> string \<Rightarrow> 'a json_dest option \<Rightarrow> 'a
     \<Rightarrow> ('s wire, int \<times> 'a \<times> gerr option) io" where
  "doStatus c m path out z =
     io_bind (send c m path None) (\<lambda>res. io_return (status_result m path out z res))"

section \<open>Kali image and project creation\<close>

definition json_image :: "string json_dest" where
  "json_image = dest_struct [field ''image'' (\<lambda>a. a) (\<lambda>b _. b) dest_string]"

definition EnsureKaliImage :: "'s HTTPGNS3Client \<Rightarrow> string \<Rightarrow> ('s wire, gerr option) io" where
  "EnsureKaliImage c computeID =
     io_bind (do_req c ''GET'' (''/v2/computes/'' @ computeID @ ''/docker/images'') None
                (Some (dest_slice json_image [])) [])
       (\<lambda>r. io_return (case r of
          Inl e \<Rightarrow> Some (Wrapf (''cannot list docker images on compute '' @ quote_str computeID
                               @ '': '') e ''; is GNS3 reachable?'')
        | Inr images \<Rightarrow>
            if hc_kaliPinnedTag c \<in> set images then None
            else Some (Errorf (''kali image '' @ quote_str (hc_kaliPinnedTag c)
                   @ '' not found on Falcon compute '' @ quote_str computeID
                   @ ''; run ~/netbreaker/docker/kali/build.sh on Falcon to rebuild''))))"

record gns3Project =
  gp_ProjectID :: string
  gp_Name :: string

definition json_project :: "gns3Project json_dest" where
  "json_project = dest_struct
     [field ''project_id'' gp_ProjectID (\<lambda>b a. a\<lparr>gp_ProjectID := b\<rparr>) dest_string,
      field ''name'' gp_Name (\<lambda>b a. a\<lparr>gp_Name := b\<rparr>) dest_string]"

definition project_name :: "int \<Rightarrow> int \<Rightarrow> int \<Rightarrow> string" where
  "project_name userID labID unix =
     ''nb-u'' @ itoa userID @ ''-l'' @ itoa labID @ ''-'' @ itoa unix"

definition CreateProject ::
  "'s HTTPGNS3Client \<Rightarrow> string \<Rightarrow> int \<Rightarrow> int \<Rightarrow> ('s wire, gerr + string) io" where
  "CreateProject c computeID userID labID w =
     io_bind (do_req c ''POST'' ''/v2/projects''
                (Some (JObj [(''name'', JStr (project_name userID labID (hc_unix c (wr_srv w)))),
                             (''auto_close'', JBool False)]))
                (Some json_project) \<lparr>gp_ProjectID = [], gp_Name = []\<rparr>)
       (\<lambda>r. io_return (case r of Inl e \<Rightarrow> Inl e | Inr proj \<Rightarrow> Inr (gp_ProjectID proj))) w"

section \<open>Topology provisioning\<close>

record gns3Node =
  gn_NodeID :: string
  gn_Name :: string
  gn_Console :: int
  gn_ConsoleType :: string
  gn_Status :: string

definition gns3Node0 :: gns3Node where
  "gns3Node0 = \<lparr>gn_NodeID = [], gn_Name = [], gn_Console = 0, gn_ConsoleType = [], gn_Status = []\<rparr>"

definition json_node :: "gns3Node json_dest" where
  "json_node = dest_struct
     [field ''node_id'' gn_NodeID (\<lambda>b a. a\<lparr>gn_NodeID := b\<rparr>) dest_string,
      field ''name'' gn_Name (\<lambda>b a. a\<lparr>gn_Name := b\<rparr>) dest_string,
      field ''console'' gn_Console (\<lambda>b a. a\<lparr>gn_Console := b\<rparr>) dest_int,
      field ''console_type'' gn_ConsoleType (\<lambda>b a. a\<lparr>gn_ConsoleType := b\<rparr>) dest_string,
      field ''status'' gn_Status (\<lambda>b a. a\<lparr>gn_Status := b\<rparr>) dest_string]"

definition json_gval :: "gval \<Rightarrow> json" where
  "json_gval v = (case v of GStr s \<Rightarrow> JStr s | GInt i \<Rightarrow> JNum (itoa i))"

text \<open>The members of the properties object are in map order; \<open>json.Marshal\<close> sorts them.\<close>

definition node_payload :: "TopologyTemplate \<Rightarrow> NodeTemplate \<Rightarrow> (string, gval) gomap \<Rightarrow> json" where
  "node_payload t nt props =
     JObj ([(''name'', JStr (nt_Name nt)), (''node_type'', JStr (nt_NodeType nt)),
            (''compute_id'', JStr (tt_ComputeID t))]
         @ (if nt_TemplateID nt = [] then [] else [(''template_id'', JStr (nt_TemplateID nt))])
         @ (if props = [] then []
            else [(''properties'', JObj (map (\<lambda>(k, v). (k, json_gval v)) props))]))"

definition ios_base :: string where
  "ios_base = ''line con 0\<newline>exec-timeout 0 0\<newline>line vty 0 4\<newline>exec-timeout 0 0\<newline>''"

definition put_missing :: "string \<Rightarrow> gval \<Rightarrow> (string, gval) gomap \<Rightarrow> (string, gval) gomap" where
  "put_missing k v m = (if mget m k = None then mput k v m else m)"

text \<open>The properties sent for a node; \<open>None\<close> for an unsupported node type.\<close>

definition node_props :: "string \<Rightarrow> NodeTemplate \<Rightarrow> (string, gval) gomap option" where
  "node_props kaliTag nt =
     (let props = nt_Properties nt; ty = nt_NodeType nt in
      if ty = ''iou'' \<or> ty = ''dynamips'' then
        Some (mput ''startup_config_content''
                (GStr (if nt_StartupConfig nt \<noteq> [] then ios_base @ nt_StartupConfig nt else ios_base))
                props)
      else if ty = ''qemu'' then
        Some (put_missing ''qemu_path'' (GStr ''/usr/bin/qemu-system-x86_64'') props)
      else if ty = ''docker'' then
        Some (put_missing ''console_type'' (GStr ''telnet'')
               (put_missing ''image'' (GStr kaliTag) props))
      else if ty = ''vpcs'' \<or> ty = ''ethernet_hub'' then Some props
      else None)"

type_synonym created = "(string, gns3Node) gomap"

definition project_path :: "string \<Rightarrow> string \<Rightarrow> string" where
  "project_path projectID rest = ''/v2/projects/'' @ projectID @ rest"

fun create_nodes ::
  "'s HTTPGNS3Client \<Rightarrow> string \<Rightarrow> TopologyTemplate \<Rightarrow> NodeTemplate list \<Rightarrow> created \<times> NodeMap
     \<Rightarrow> ('s wire, gerr + created \<times> NodeMap) io" where
  "create_nodes c projectID t [] acc = io_return (Inr acc)"
| "create_nodes c projectID t (nt # nts) acc =
     (case node_props (hc_kaliPinnedTag c) nt of
        None \<Rightarrow> io_return (Inl (Errorf (''unsupported node type '' @ quote_str (nt_NodeType nt)
                  @ '' for node '' @ quote_str (nt_Name nt))))
      | Some props \<Rightarrow>
          io_bind (do_req c ''POST'' (project_path projectID ''/nodes'')
                     (Some (node_payload t nt props)) (Some json_node) gns3Node0)
            (\<lambda>r. case r of
               Inl e \<Rightarrow> io_return (Inl (Wrapf (''create node '' @ quote_str (nt_Name nt) @ '': '') e []))
             | Inr node \<Rightarrow>
                 create_nodes c projectID t nts
                   (mput (nt_Name nt) node (fst acc),
                    mput (nt_Name nt)
                      \<lparr>ni_GNS3NodeID = gn_NodeID node, ni_ConsolePort = gn_Console node,
                       ni_ConsoleType = gn_ConsoleType node, ni_NodeType = nt_NodeType nt,
                       ni_MAC = []\<rparr> (snd acc))))"

definition link_end_json :: "string \<Rightarrow> int \<times> int \<Rightarrow> json" where
  "link_end_json nodeID ap =
     JObj [(''node_id'', JStr nodeID), (''adapter_number'', JNum (itoa (fst ap))),
           (''port_number'', JNum (itoa (snd ap)))]"

text \<open>The request body for one link, or why it cannot be built.\<close>

definition link_payload :: "TopologyTemplate \<Rightarrow> created \<Rightarrow> LinkTemplate \<Rightarrow> gerr + json" where
  "link_payload t created l =
     (case mget created (lt_NodeA l) of
        None \<Rightarrow> Inl (Errorf (''link references unknown node '' @ quote_str (lt_NodeA l)))
      | Some nodeA \<Rightarrow>
     (case mget created (lt_NodeB l) of
        None \<Rightarrow> Inl (Errorf (''link references unknown node '' @ quote_str (lt_NodeB l)))
      | Some nodeB \<Rightarrow>
     (case interfaceToPort (nodeTypeOf t (lt_NodeA l)) (lt_IfaceA l) of
        Inl e \<Rightarrow> Inl (Wrapf (''link '' @ lt_NodeA l @ '':'' @ lt_IfaceA l @ '': '') e [])
      | Inr pa \<Rightarrow>
     (case interfaceToPort (nodeTypeOf t (lt_NodeB l)) (lt_IfaceB l) of
        Inl e \<Rightarrow> Inl (Wrapf (''link '' @ lt_NodeB l @ '':'' @ lt_IfaceB l @ '': '') e [])
      | Inr pb \<Rightarrow>
          Inr (JObj [(''nodes'', JArr [link_end_json (gn_NodeID nodeA) pa,
                                       link_end_json (gn_NodeID nodeB) pb])])))))"

text \<open>The bytes of the arrow in the error text.\<close>

definition arrow :: string where
  "arrow = [CHR '' '', CHR 0xE2, CHR 0x87, CHR 0x84, CHR '' '']"

fun create_links ::
  "'s HTTPGNS3Client \<Rightarrow> string \<Rightarrow> TopologyTemplate \<Rightarrow> created \<Rightarrow> LinkTemplate list
     \<Rightarrow> ('s wire, gerr option) io" where
  "create_links c projectID t created [] = io_return None"
| "create_links c projectID t created (l # ls) =
     (case link_payload t created l of
        Inl e \<Rightarrow> io_return (Some e)
      | Inr payload \<Rightarrow>
          io_bind (do_unit c ''POST'' (project_path projectID ''/links'') (Some payload))
            (\<lambda>r. case r of
               Some e \<Rightarrow> io_return (Some (Wrapf (''create link '' @ lt_NodeA l @ '':'' @ lt_IfaceA l
                          @ arrow @ lt_NodeB l @ '':'' @ lt_IfaceB l @ '': '') e []))
             | None \<Rightarrow> create_links c projectID t created ls))"

definition createLinks ::
  "'s HTTPGNS3Client \<Rightarrow> string \<Rightarrow> TopologyTemplate \<Rightarrow> created \<Rightarrow> ('s wire, gerr option) io" where
  "createLinks c projectID t created = create_links c projectID t created (tt_Links t)"

definition ProvisionTopology ::
  "'s HTTPGNS3Client \<Rightarrow> string \<Rightarrow> TopologyTemplate \<Rightarrow> ('s wire, gerr + NodeMap) io" where
  "ProvisionTopology c projectID t =
     io_bind (create_nodes c projectID t (tt_Nodes t) ([], []))
       (\<lambda>r. case r of
          Inl e \<Rightarrow> io_return (Inl e)
        | Inr (created, nodes) \<Rightarrow>
            io_bind (createLinks c projectID t created)
              (\<lambda>e. io_return (case e of Some err \<Rightarrow> Inl err | None \<Rightarrow> Inr nodes)))"

section \<open>Node control\<close>

definition StartNodes :: "'s HTTPGNS3Client \<Rightarrow> string \<Rightarrow> ('s wire, gerr option) io" where
  "StartNodes c projectID = do_unit c ''POST'' (project_path projectID ''/nodes/start'') None"

definition EnsureProjectRunning :: "'s HTTPGNS3Client \<Rightarrow> string \<Rightarrow> ('s wire, gerr option) io" where
  "EnsureProjectRunning c projectID =
     io_bind (do_unit c ''POST'' (project_path projectID ''/open'') None)
       (\<lambda>e. case e of Some err \<Rightarrow> io_return (Some err) | None \<Rightarrow> StartNodes c projectID)"

definition accept_404 :: "string \<Rightarrow> int \<times> unit \<times> gerr option \<Rightarrow> gerr option" where
  "accept_404 what r =
     (case r of
        (status, _, Some e) \<Rightarrow> Some e
      | (status, _, None) \<Rightarrow>
          if status = 404 then None
          else if status \<ge> 400 then Some (Errorf (what @ '': status '' @ itoa status)) else None)"

definition StopNodes :: "'s HTTPGNS3Client \<Rightarrow> string \<Rightarrow> ('s wire, gerr option) io" where
  "StopNodes c projectID =
     io_bind (doStatus c ''POST'' (project_path projectID ''/nodes/stop'') None ())
       (\<lambda>r. io_return (accept_404 (''gns3 stop nodes '' @ projectID) r))"

definition ProjectExists :: "'s HTTPGNS3Client \<Rightarrow> string \<Rightarrow> ('s wire, gerr + bool) io" where
  "ProjectExists c projectID =
     io_bind (doStatus c ''GET'' (project_path projectID []) None ())
       (\<lambda>r. io_return (case r of
          (status, _, Some e) \<Rightarrow> Inl e
        | (status, _, None) \<Rightarrow>
            if status = 404 then Inr False
            else if status \<ge> 200 \<and> status < 300 then Inr True
            else Inl (Errorf (''gns3 get project '' @ projectID @ '': status '' @ itoa status))))"

definition json_node_status :: "string json_dest" where
  "json_node_status = dest_struct [field ''status'' (\<lambda>a. a) (\<lambda>b _. b) dest_string]"

definition NodesStopped :: "'s HTTPGNS3Client \<Rightarrow> string \<Rightarrow> ('s wire, gerr + bool) io" where
  "NodesStopped c projectID =
     io_bind (doStatus c ''GET'' (project_path projectID ''/nodes'')
                (Some (dest_slice json_node_status [])) [])
       (\<lambda>r. io_return (case r of
          (status, _, Some e) \<Rightarrow> Inl e
        | (status, nodes, None) \<Rightarrow>
            if status = 404 then Inr True
            else if status < 200 \<or> status \<ge> 300 then
              Inl (Errorf (''gns3 list nodes '' @ projectID @ '': status '' @ itoa status))
            else Inr (list_all (\<lambda>st. st = ''stopped'') nodes)))"

definition DeleteProject :: "'s HTTPGNS3Client \<Rightarrow> string \<Rightarrow> ('s wire, gerr option) io" where
  "DeleteProject c projectID =
     io_bind (doStatus c ''DELETE'' (project_path projectID []) None ())
       (\<lambda>r. io_return (accept_404 (''gns3 delete project '' @ projectID) r))"

section \<open>MAC population\<close>

text \<open>\<open>strings.IndexAny(s, ":/")\<close> cuts the host off the base URL.\<close>

definition computeHost :: "'s HTTPGNS3Client \<Rightarrow> string" where
  "computeHost c =
     (let s = hc_baseURL c;
          s1 = (case cut_prefix s ''http://'' of Some a \<Rightarrow> a
                | None \<Rightarrow> (case cut_prefix s ''https://'' of Some a \<Rightarrow> a | None \<Rightarrow> s))
      in takeWhile (\<lambda>ch. ch \<noteq> CHR '':'' \<and> ch \<noteq> CHR ''/'') s1)"

record rawNode =
  rw_NodeType :: string
  rw_Console :: int
  rw_ConsoleHost :: string
  rw_Properties :: "string \<times> string"

definition rawNode0 :: rawNode where
  "rawNode0 = \<lparr>rw_NodeType = [], rw_Console = 0, rw_ConsoleHost = [], rw_Properties = ([], [])\<rparr>"

definition json_raw_node :: "rawNode json_dest" where
  "json_raw_node = dest_struct
     [field ''node_type'' rw_NodeType (\<lambda>b a. a\<lparr>rw_NodeType := b\<rparr>) dest_string,
      field ''console'' rw_Console (\<lambda>b a. a\<lparr>rw_Console := b\<rparr>) dest_int,
      field ''console_host'' rw_ConsoleHost (\<lambda>b a. a\<lparr>rw_ConsoleHost := b\<rparr>) dest_string,
      field ''properties'' rw_Properties (\<lambda>b a. a\<lparr>rw_Properties := b\<rparr>)
        (dest_struct
          [field ''mac_address'' fst (\<lambda>b a. (b, snd a)) dest_string,
           field ''mac_addr'' snd (\<lambda>b a. (fst a, b)) dest_string])]"

definition getNodeProperties ::
  "'s HTTPGNS3Client \<Rightarrow> string \<Rightarrow> string \<Rightarrow> ('s wire, gerr + gns3NodeProperties) io" where
  "getNodeProperties c projectID nodeID =
     io_bind (do_req c ''GET'' (project_path projectID (''/nodes/'' @ nodeID)) None
                (Some json_raw_node) rawNode0)
       (\<lambda>r. io_return (case r of
          Inl e \<Rightarrow> Inl (Wrapf (''get node '' @ nodeID @ '': '') e [])
        | Inr raw \<Rightarrow>
            Inr \<lparr>np_NodeType = rw_NodeType raw, np_MACAddress = fst (rw_Properties raw),
                 np_MACAddr = snd (rw_Properties raw), np_Console = rw_Console raw,
                 np_ConsoleHost =
                   (if rw_ConsoleHost raw \<in> {[], ''0.0.0.0'', ''::''} then computeHost c
                    else rw_ConsoleHost raw)\<rparr>))"

text \<open>Dialing a console acts on the outside world without an HTTP exchange.\<close>

definition wire_dial :: "'s dialer \<Rightarrow> 's wire dialer" where
  "wire_dial d host port w =
     (case d host port (wr_srv w) of (s, t, r) \<Rightarrow> (w\<lparr>wr_srv := s\<rparr>, t, r))"

fun populate_macs ::
  "'s HTTPGNS3Client \<Rightarrow> string \<Rightarrow> (string \<times> NodeInfo) list \<Rightarrow> NodeMap \<times> gerr list
     \<Rightarrow> ('s wire, NodeMap \<times> gerr list) io" where
  "populate_macs c projectID [] acc = io_return acc"
| "populate_macs c projectID ((name, info) # rest) (nodes, errs) =
     io_bind (getNodeProperties c projectID (ni_GNS3NodeID info)) (\<lambda>r.
       case r of
         Inl e \<Rightarrow> populate_macs c projectID rest (nodes, errs @ [Wrapf (name @ '': '') e []])
       | Inr props \<Rightarrow>
           io_bind (ResolveMAC (wire_dial (hc_dial c)) None props) (\<lambda>m.
             case m of
               Inl e \<Rightarrow> populate_macs c projectID rest
                  (nodes, errs @ [Wrapf (name @ '' (type='' @ ni_NodeType info @ ''): '') e []])
             | Inr mac \<Rightarrow> populate_macs c projectID rest
                  (if mac \<noteq> [] then mput name (info\<lparr>ni_MAC := mac\<rparr>) nodes else nodes, errs)))"

text \<open>\<open>errors.Join\<close>: nil without errors, otherwise their texts on lines of their own.\<close>

definition errors_join :: "gerr list \<Rightarrow> gerr option" where
  "errors_join es = (if es = [] then None else Some (Errorf (join ''\<newline>'' (map err_text es))))"

definition PopulateNodeMACs ::
  "'s HTTPGNS3Client \<Rightarrow> string \<Rightarrow> NodeMap \<Rightarrow> ('s wire, NodeMap \<times> gerr option) io" where
  "PopulateNodeMACs c projectID nodes =
     io_bind (populate_macs c projectID nodes (nodes, []))
       (\<lambda>r. io_return (fst r, errors_join (snd r)))"

section \<open>The client as a \<open>GNS3Client\<close>\<close>

definition http_client :: "'s HTTPGNS3Client \<Rightarrow> 's wire GNS3Client" where
  "http_client c =
     \<lparr>g_CreateProject = CreateProject c, g_DeleteProject = DeleteProject c,
      g_ProvisionTopology = ProvisionTopology c, g_StartNodes = StartNodes c,
      g_StopNodes = StopNodes c, g_EnsureProjectRunning = EnsureProjectRunning c,
      g_EnsureKaliImage = EnsureKaliImage c, g_PopulateNodeMACs = PopulateNodeMACs c,
      g_ProjectExists = ProjectExists c, g_NodesStopped = NodesStopped c\<rparr>"

text \<open>The server has acknowledged the deletion of a project: the exchange is in the log.\<close>

definition acknowledged :: "tr_result \<Rightarrow> bool" where
  "acknowledged r =
     (case r of TErr _ \<Rightarrow> False | TResp status _ _ \<Rightarrow> status = 404 \<or> status < 400)"

definition delete_acked :: "'s HTTPGNS3Client \<Rightarrow> string \<Rightarrow> 's wire \<Rightarrow> bool" where
  "delete_acked c p w =
     list_ex (\<lambda>(req, res). req = mk_request c ''DELETE'' (project_path p []) None
                           \<and> acknowledged res) (wr_log w)"

definition log_grows :: "('s wire, 'a) io \<Rightarrow> bool" where
  "log_grows m = (\<forall>w w' t a. m w = (w', t, a) \<longrightarrow> (\<exists>l. wr_log w' = wr_log w @ l))"

lemma log_grows_return [intro]: "log_grows (io_return a)"
  by (simp add: log_grows_def io_return_def)

lemma log_grows_send [intro]: "log_grows (send c m p b)"
  by (auto simp: log_grows_def send_def Let_def split: prod.splits)

lemma log_grows_bind [intro]:
  assumes "log_grows m" "\<And>a. log_grows (f a)"
  shows "log_grows (io_bind m f)"
  unfolding log_grows_def
proof (intro allI impI)
  fix w w' t b
  assume b: "io_bind m f w = (w', t, b)"
  obtain w1 t1 a where m: "m w = (w1, t1, a)" by (cases "m w")
  obtain w2 t2 c where f: "f a w1 = (w2, t2, c)" by (cases "f a w1")
  from m f b have "w' = w2" by (simp add: io_bind_def)
  then show "\<exists>l. wr_log w' = wr_log w @ l"
    using m f assms unfolding log_grows_def by (metis append.assoc)
qed

lemma log_grows_status [intro]: "log_grows (doStatus c m p out z)"
  unfolding doStatus_def by (intro log_grows_bind log_grows_send log_grows_return)

lemma delete_acked_grows:
  "log_grows m \<Longrightarrow> m w = (w', t, a) \<Longrightarrow> delete_acked c p w \<Longrightarrow> delete_acked c p w'"
  unfolding log_grows_def delete_acked_def by (metis list_ex_append)

lemma log_grows_control [intro]:
  "log_grows (StopNodes c p)" "log_grows (DeleteProject c p)" "log_grows (ProjectExists c p)"
  "log_grows (NodesStopped c p)"
  unfolding StopNodes_def DeleteProject_def ProjectExists_def NodesStopped_def
  by (intro log_grows_bind log_grows_status log_grows_return)+

lemma delete_ok_acked:
  assumes "DeleteProject c p w = (w', t, None)"
  shows "delete_acked c p w'"
proof -
  obtain s t' res where h: "hc_http c (mk_request c ''DELETE'' (project_path p []) None) (wr_srv w)
      = (s, t', res)" by (metis prod_cases3)
  then show ?thesis
    using assms
    by (auto simp: DeleteProject_def doStatus_def send_def io_bind_def io_return_def Let_def
        accept_404_def status_result_def delete_acked_def acknowledged_def
        split: tr_result.splits if_splits)
qed

text \<open>The reaper's contract, discharged for this client.\<close>

interpretation http_host: compute_host "http_client c" "WaitTeardownComplete (http_client c)"
    "delete_acked c" for c
proof unfold_locales
  fix b p s s' t
  assume w: "WaitTeardownComplete (http_client c) b p s = (s', t, None)"
  show "delete_acked c p s'"
    by (rule wait_teardown_establishes [where P = "delete_acked c p", OF _ _ w])
       (auto simp: http_client_def dest: delete_ok_acked delete_acked_grows [OF log_grows_control(3)])
next
  fix b q p s s' t e
  assume w: "WaitTeardownComplete (http_client c) b q s = (s', t, e)" and a: "delete_acked c p s"
  show "delete_acked c p s'"
    by (rule wait_teardown_keeps [where P = "delete_acked c p", OF _ _ _ w a])
       (auto simp: http_client_def dest: delete_acked_grows [OF log_grows_control(2)]
          delete_acked_grows [OF log_grows_control(3)] delete_acked_grows [OF log_grows_control(4)])
qed (auto simp: http_client_def dest: delete_ok_acked delete_acked_grows [OF log_grows_control(1)]
       delete_acked_grows [OF log_grows_control(2)])

section \<open>Properties of the client\<close>

lemma send_result:
  "send c m p b w = (w', t, res) \<Longrightarrow>
     wr_log w' = wr_log w @ [(mk_request c m p b, res)]
     \<and> hc_http c (mk_request c m p b) (wr_srv w) = (wr_srv w', t, res)"
  by (auto simp: send_def Let_def split: prod.splits)

lemma send_ex: "\<exists>w' t res. send c m p b w = (w', t, res)"
  by (metis prod_cases3)

text \<open>
  C1: the reaper over the HTTP client never frees a capacity slot on hope.  In one sweep, whatever
  the server and the database do, rows keep their identity and project, and a session that was
  active before the sweep and is not active after it either had no project or its project's
  deletion has been acknowledged by the server (status below 400, or 404), on record in the log.
\<close>

theorem reaper_slot_honesty:
  assumes "sweep r w = (r', w')" "rp_gns3 r = http_client c"
    and "rp_verifier r = WaitTeardownComplete (http_client c)"
    and "distinct (map s_ID (w_rows w))"
  shows "list_all2 (row_honest (\<lambda>p. delete_acked c p (w_srv w'))) (w_rows w) (w_rows w')"
  using http_host.sweep_honest [OF assms(1) _ assms(4), of c] assms(2,3)
  by (auto simp: http_host.wired_def honest_def)

text \<open>A server that answers every request with one fixed response.\<close>

definition fixed_client :: "int \<Rightarrow> string \<Rightarrow> gerr option \<Rightarrow> nat HTTPGNS3Client" where
  "fixed_client status body rerr =
     NewHTTPGNS3Client (\<lambda>req s. (s, 1, TResp status body rerr))
       (\<lambda>h p s. (s, 1, Inl (Errorf ''connection refused''))) (\<lambda>s. 1700000000)
       ''http://10.0.0.5:3080'' ''admin'' ''secret'' ''netbreaker/kali:1''"

definition wire0 :: "nat wire" where
  "wire0 = \<lparr>wr_srv = 0, wr_log = []\<rparr>"

definition http_world :: "nat wire world" where
  "http_world =
     \<lparr>w_rows = [demo_session], w_fresh = 8, w_faults = [], w_now = 100000000000000,
      w_srv = wire0\<rparr>"

definition http_reaper :: "nat wire Reaper" where
  "http_reaper =
     NewReaper (http_client (fixed_client 500 [] None)) 1800000000000 7200000000000
       60000000000 20000000000"

lemma http_reaper_wired:
  "rp_gns3 http_reaper = http_client (fixed_client 500 [] None)"
  "rp_verifier http_reaper = WaitTeardownComplete (http_client (fixed_client 500 [] None))"
  by (simp_all add: http_reaper_def NewReaper_def)

theorem reaper_slot_honesty_witness:
  "list_all2 (row_honest (\<lambda>p. delete_acked (fixed_client 500 [] None) p
       (w_srv (snd (sweep http_reaper http_world)))))
     (w_rows http_world) (w_rows (snd (sweep http_reaper http_world)))"
  by (rule reaper_slot_honesty [OF surjective_pairing http_reaper_wired])
     (simp add: http_world_def)

text \<open>
  What \<open>NodesStopped\<close> has seen when it answers yes.  The project is unknown to the server, or
  the server answered 2xx and either listed only stopped nodes in one complete JSON document, or
  no byte of the body arrived.
\<close>

theorem nodes_stopped_evidence:
  assumes "NodesStopped c p w = (w', t, Inr True)"
  shows "\<exists>status body rerr.
           wr_log w' = wr_log w @ [(mk_request c ''GET'' (project_path p ''/nodes'') None,
                                    TResp status body rerr)]
           \<and> (status = 404
              \<or> 200 \<le> status \<and> status < 300 \<and>
                (body = [] \<or> (\<exists>nodes. decodeStrict (dest_slice json_node_status []) body [] = Inr nodes
                                     \<and> list_all (\<lambda>st. st = ''stopped'') nodes)))"
proof -
  obtain w1 t1 res where s: "send c ''GET'' (project_path p ''/nodes'') None w = (w1, t1, res)"
    using send_ex by blast
  note r = send_result [OF s]
  show ?thesis
    using assms s r
    by (cases res)
       (auto simp: NodesStopped_def doStatus_def io_bind_def io_return_def status_result_def
          decodeStrict_Inr Unmarshal_Inr split: if_splits sum.splits)
qed

theorem nodes_stopped_evidence_witness:
  "\<exists>status body rerr.
     wr_log (fst (NodesStopped (fixed_client 404 [] None) ''p1'' wire0)) = wr_log wire0 @
       [(mk_request (fixed_client 404 [] None) ''GET'' (project_path ''p1'' ''/nodes'') None,
         TResp status body rerr)]
     \<and> (status = 404
        \<or> 200 \<le> status \<and> status < 300 \<and>
          (body = [] \<or> (\<exists>nodes. decodeStrict (dest_slice json_node_status []) body [] = Inr nodes
                               \<and> list_all (\<lambda>st. st = ''stopped'') nodes)))"
  by (rule nodes_stopped_evidence [where t = 1])
     (simp add: NodesStopped_def doStatus_def io_bind_def io_return_def send_def fixed_client_def
        NewHTTPGNS3Client_def status_result_def wire0_def)

text \<open>
  The read error that \<open>doStatus\<close> drops.  When the server answers 200 and the connection
  breaks before any byte of the body has arrived, \<open>NodesStopped\<close> answers that all nodes have
  stopped, while \<open>do\<close> reports the same exchange as an error.
\<close>

theorem dropped_body_reads_as_stopped:
  "snd (snd (NodesStopped (fixed_client 200 [] (Some err_io_eof)) p w)) = Inr True
   \<and> \<not> is_ok (do_result ''GET'' path out z (TResp 200 [] (Some err_io_eof)))"
  by (simp add: NodesStopped_def doStatus_def io_bind_def io_return_def send_def fixed_client_def
      NewHTTPGNS3Client_def status_result_def do_result_def Let_def)

text \<open>
  Delete and stop are idempotent by status.  Each succeeds exactly when the server answered
  below 400 or with 404; a transport error or any other status is returned to the caller.
\<close>

theorem delete_stop_success:
  "(snd (snd (DeleteProject c p w)) = None \<longleftrightarrow>
      acknowledged (snd (snd (send c ''DELETE'' (project_path p []) None w))))
   \<and> (snd (snd (StopNodes c p w)) = None \<longleftrightarrow>
      acknowledged (snd (snd (send c ''POST'' (project_path p ''/nodes/stop'') None w))))"
proof -
  have "(snd (snd (io_bind (doStatus c m q None ()) (\<lambda>r. io_return (accept_404 what r)) w)) = None)
      = acknowledged (snd (snd (send c m q None w)))" for m q what
    by (cases "send c m q None w")
       (auto simp: doStatus_def io_bind_def io_return_def status_result_def accept_404_def
          acknowledged_def split: tr_result.splits)
  then show ?thesis by (simp add: DeleteProject_def StopNodes_def)
qed

text \<open>
  The image check fails closed.  \<open>EnsureKaliImage\<close> passes exactly when the listing was
  read completely with a status below 400, decodes as a list of images (no body counts as the
  empty list), and contains the pinned tag.
\<close>

theorem ensure_kali_image_iff:
  "snd (snd (EnsureKaliImage c computeID w)) = None \<longleftrightarrow>
     (\<exists>status body images.
        snd (snd (send c ''GET'' (''/v2/computes/'' @ computeID @ ''/docker/images'') None w))
          = TResp status body None
        \<and> status < 400 \<and> body \<noteq> []
        \<and> decodeStrict (dest_slice json_image []) body [] = Inr images
        \<and> hc_kaliPinnedTag c \<in> set images)"
  by (cases "send c ''GET'' (''/v2/computes/'' @ computeID @ ''/docker/images'') None w")
     (auto simp: EnsureKaliImage_def do_req_def io_bind_def io_return_def do_result_def
        split: tr_result.splits option.splits sum.splits if_splits)

end
