(* ===== verification/LabTopologies1.thy ===== *)
theory LabTopologies1
  imports Topology
begin

text \<open>
  The topology templates of labs 01 to 11, one definition per literal of
  \<open>internal/labsession/labNN_topology.go\<close>, and the proof that each is well formed.
\<close>

definition lab01SW1Startup :: string where
  "lab01SW1Startup =
     ''hostname SW1\<newline>!\<newline>end''"

definition lab01SW2Startup :: string where
  "lab01SW2Startup =
     ''hostname SW2\<newline>!\<newline>end''"

definition sw1Startup :: string where
  "sw1Startup =
     ''hostname SW1\<newline>!\<newline>interface Vlan1\<newline> ip address 192.168.1.11 255.255.255.0\<newline> no shutdown\<newline>!\<newline>ip default-gateway 192.168.1.1\<newline>!\<newline>end''"

definition sw2Startup :: string where
  "sw2Startup =
     ''hostname SW2\<newline>!\<newline>interface Vlan1\<newline> ip address 192.168.1.12 255.255.255.0\<newline> no shutdown\<newline>!\<newline>ip default-gateway 192.168.1.1\<newline>!\<newline>end''"

definition sw3Startup :: string where
  "sw3Startup =
     ''hostname SW3\<newline>!\<newline>interface Vlan1\<newline> ip address 192.168.1.13 255.255.255.0\<newline> no shutdown\<newline>!\<newline>ip default-gateway 192.168.1.1\<newline>!\<newline>end''"

definition Lab01Topology :: TopologyTemplate where
  "Lab01Topology =
   \<lparr>tt_LabID = 0, tt_ComputeID = ''local'',
    tt_Nodes = [
      (node0 ''R1'' ''dynamips'')
        \<lparr>nt_Properties := [
          (''platform'', GStr ''c3725''),
          (''image'', GStr ''/home/kobayashi/GNS3/images/IOS/c3725-adventerprisek9-mz.124-15.T14.image''),
          (''ram'', GInt 256),
          (''slot0'', GStr ''GT96100-FE'')]\<rparr>,
      (node0 ''SW1'' ''iou'')
        \<lparr>nt_TemplateID := ''26f0cc8d-debb-4897-b042-cd55978710cd'',
         nt_StartupConfig := lab01SW1Startup,
         nt_Properties := [
          (''path'', GStr ''i86bi-linux-l2-upk9-12.2.bin'')]\<rparr>,
      (node0 ''SW2'' ''iou'')
        \<lparr>nt_TemplateID := ''26f0cc8d-debb-4897-b042-cd55978710cd'',
         nt_StartupConfig := lab01SW2Startup,
         nt_Properties := [
          (''path'', GStr ''i86bi-linux-l2-upk9-12.2.bin'')]\<rparr>,
      node0 ''PC1'' ''vpcs'',
      (node0 ''KALI'' ''docker'')
        \<lparr>nt_TemplateID := ''efcdd6aa-8a18-4028-ae77-331d9e6d921b'',
         nt_Properties := [
          (''adapters'', GInt 2)]\<rparr>,
      node0 ''SRV1'' ''vpcs''],
    tt_Links = [
      link ''R1'' ''Fa0/0'' ''SW1'' ''Et0/0'',
      link ''PC1'' ''eth0'' ''SW1'' ''Et0/1'',
      link ''SW1'' ''Et0/2'' ''SW2'' ''Et0/1'',
      link ''KALI'' ''eth0'' ''SW1'' ''Et0/3'',
      link ''SRV1'' ''eth0'' ''SW2'' ''Et0/2'']\<rparr>"

definition Lab02Topology :: TopologyTemplate where
  "Lab02Topology =
   \<lparr>tt_LabID = 2, tt_ComputeID = ''local'',
    tt_Nodes = [
      (node0 ''SW1'' ''iou'')
        \<lparr>nt_StartupConfig := sw1Startup,
         nt_Properties := [
          (''path'', GStr ''i86bi-linux-l2-adventerprisek9-15.1a.bin'')]\<rparr>,
      (node0 ''SW2'' ''iou'')
        \<lparr>nt_StartupConfig := sw2Startup,
         nt_Properties := [
          (''path'', GStr ''i86bi-linux-l2-adventerprisek9-15.1a.bin'')]\<rparr>,
      (node0 ''SW3'' ''iou'')
        \<lparr>nt_StartupConfig := sw3Startup,
         nt_Properties := [
          (''path'', GStr ''i86bi-linux-l2-adventerprisek9-15.1a.bin'')]\<rparr>,
      node0 ''PC1'' ''vpcs'',
      (node0 ''KALI'' ''docker'')
        \<lparr>nt_TemplateID := ''efcdd6aa-8a18-4028-ae77-331d9e6d921b'',
         nt_Properties := [
          (''adapters'', GInt 2)]\<rparr>],
    tt_Links = [
      link ''SW1'' ''Et0/0'' ''SW2'' ''Et0/1'',
      link ''SW1'' ''Et0/2'' ''SW3'' ''Et0/1'',
      link ''SW2'' ''Et0/2'' ''SW3'' ''Et0/3'',
      link ''SW1'' ''Et0/1'' ''PC1'' ''eth0'',
      link ''SW3'' ''Et0/2'' ''KALI'' ''eth0'']\<rparr>"

definition Lab03Topology :: TopologyTemplate where
  "Lab03Topology =
   \<lparr>tt_LabID = 0, tt_ComputeID = ''local'',
    tt_Nodes = [
      (node0 ''SW1'' ''iou'')
        \<lparr>nt_Properties := [
          (''path'', GStr ''i86bi-linux-l2-adventerprisek9-15.1a.bin'')]\<rparr>,
      node0 ''PC1'' ''vpcs'',
      node0 ''PC2'' ''vpcs'',
      (node0 ''KALI'' ''docker'')
        \<lparr>nt_TemplateID := ''efcdd6aa-8a18-4028-ae77-331d9e6d921b'',
         nt_Properties := [
          (''adapters'', GInt 2)]\<rparr>],
    tt_Links = [
      link ''PC1'' ''eth0'' ''SW1'' ''Et0/1'',
      link ''PC2'' ''eth0'' ''SW1'' ''Et0/2'',
      link ''KALI'' ''eth0'' ''SW1'' ''Et0/3'']\<rparr>"

definition Lab04Topology :: TopologyTemplate where
  "Lab04Topology =
   \<lparr>tt_LabID = 0, tt_ComputeID = ''local'',
    tt_Nodes = [
      (node0 ''SW1'' ''iou'')
        \<lparr>nt_Properties := [
          (''path'', GStr ''i86bi-linux-l2-adventerprisek9-15.1a.bin'')]\<rparr>,
      (node0 ''R1'' ''dynamips'')
        \<lparr>nt_Properties := [
          (''platform'', GStr ''c3725''),
          (''image'', GStr ''/home/kobayashi/GNS3/images/IOS/c3725-adventerprisek9-mz.124-15.T14.image''),
          (''ram'', GInt 256),
          (''slot0'', GStr ''GT96100-FE''),
          (''slot2'', GStr ''NM-1FE-TX'')]\<rparr>,
      (node0 ''R2'' ''dynamips'')
        \<lparr>nt_Properties := [
          (''platform'', GStr ''c3725''),
          (''image'', GStr ''/home/kobayashi/GNS3/images/IOS/c3725-adventerprisek9-mz.124-15.T14.image''),
          (''ram'', GInt 256),
          (''slot0'', GStr ''GT96100-FE''),
          (''slot2'', GStr ''NM-1FE-TX'')]\<rparr>,
      (node0 ''KALI'' ''docker'')
        \<lparr>nt_TemplateID := ''efcdd6aa-8a18-4028-ae77-331d9e6d921b'',
         nt_Properties := [
          (''adapters'', GInt 2)]\<rparr>],
    tt_Links = [
      link ''R1'' ''Fa0/0'' ''SW1'' ''Et0/0'',
      link ''R2'' ''Fa0/0'' ''SW1'' ''Et0/1'',
      link ''KALI'' ''eth0'' ''SW1'' ''Et0/2'']\<rparr>"

definition Lab05Topology :: TopologyTemplate where
  "Lab05Topology =
   \<lparr>tt_LabID = 0, tt_ComputeID = ''local'',
    tt_Nodes = [
      (node0 ''SW1'' ''iou'')
        \<lparr>nt_Properties := [
          (''path'', GStr ''i86bi-linux-l2-adventerprisek9-15.1a.bin'')]\<rparr>,
      (node0 ''R1'' ''dynamips'')
        \<lparr>nt_Properties := [
          (''platform'', GStr ''c3725''),
          (''image'', GStr ''/home/kobayashi/GNS3/images/IOS/c3725-adventerprisek9-mz.124-15.T14.image''),
          (''ram'', GInt 256),
          (''slot0'', GStr ''GT96100-FE''),
          (''slot2'', GStr ''NM-1FE-TX'')]\<rparr>,
      (node0 ''R2'' ''dynamips'')
        \<lparr>nt_Properties := [
          (''platform'', GStr ''c3725''),
          (''image'', GStr ''/home/kobayashi/GNS3/images/IOS/c3725-adventerprisek9-mz.124-15.T14.image''),
          (''ram'', GInt 256),
          (''slot0'', GStr ''GT96100-FE''),
          (''slot2'', GStr ''NM-1FE-TX'')]\<rparr>,
      (node0 ''KALI'' ''docker'')
        \<lparr>nt_TemplateID := ''efcdd6aa-8a18-4028-ae77-331d9e6d921b'',
         nt_Properties := [
          (''adapters'', GInt 2)]\<rparr>],
    tt_Links = [
      link ''R1'' ''Fa0/0'' ''SW1'' ''Et0/0'',
      link ''R2'' ''Fa0/0'' ''SW1'' ''Et0/1'',
      link ''KALI'' ''eth0'' ''SW1'' ''Et0/2'']\<rparr>"

definition Lab06Topology :: TopologyTemplate where
  "Lab06Topology =
   \<lparr>tt_LabID = 0, tt_ComputeID = ''local'',
    tt_Nodes = [
      (node0 ''R1'' ''dynamips'')
        \<lparr>nt_Properties := [
          (''platform'', GStr ''c3725''),
          (''image'', GStr ''/home/kobayashi/GNS3/images/IOS/c3725-adventerprisek9-mz.124-15.T14.image''),
          (''ram'', GInt 256),
          (''slot0'', GStr ''GT96100-FE''),
          (''slot2'', GStr ''NM-1FE-TX'')]\<rparr>,
      (node0 ''SW1'' ''iou'')
        \<lparr>nt_Properties := [
          (''path'', GStr ''i86bi-linux-l2-adventerprisek9-15.1a.bin'')]\<rparr>,
      node0 ''SERVER'' ''vpcs'',
      (node0 ''KALI'' ''docker'')
        \<lparr>nt_TemplateID := ''efcdd6aa-8a18-4028-ae77-331d9e6d921b'',
         nt_Properties := [
          (''adapters'', GInt 2)]\<rparr>],
    tt_Links = [
      link ''R1'' ''Fa0/0'' ''SW1'' ''Et0/0'',
      link ''KALI'' ''eth0'' ''SW1'' ''Et0/1'',
      link ''R1'' ''Fa0/1'' ''SERVER'' ''eth0'']\<rparr>"

definition Lab07Topology :: TopologyTemplate where
  "Lab07Topology =
   \<lparr>tt_LabID = 0, tt_ComputeID = ''local'',
    tt_Nodes = [
      (node0 ''R1'' ''dynamips'')
        \<lparr>nt_Properties := [
          (''platform'', GStr ''c3725''),
          (''image'', GStr ''/home/kobayashi/GNS3/images/IOS/c3725-adventerprisek9-mz.124-15.T14.image''),
          (''ram'', GInt 256),
          (''slot0'', GStr ''GT96100-FE''),
          (''slot1'', GStr ''NM-16ESW'')]\<rparr>,
      (node0 ''SW1'' ''iou'')
        \<lparr>nt_Properties := [
          (''path'', GStr ''i86bi-linux-l2-adventerprisek9-15.1a.bin'')]\<rparr>,
      (node0 ''KALI'' ''docker'')
        \<lparr>nt_TemplateID := ''efcdd6aa-8a18-4028-ae77-331d9e6d921b'',
         nt_Properties := [
          (''adapters'', GInt 2)]\<rparr>],
    tt_Links = [
      link ''R1'' ''Fa0/0'' ''SW1'' ''Et0/1'',
      link ''KALI'' ''eth0'' ''SW1'' ''Et0/2'']\<rparr>"

definition Lab08Topology :: TopologyTemplate where
  "Lab08Topology =
   \<lparr>tt_LabID = 0, tt_ComputeID = ''local'',
    tt_Nodes = [
      (node0 ''R1'' ''dynamips'')
        \<lparr>nt_Properties := [
          (''platform'', GStr ''c3725''),
          (''image'', GStr ''/home/kobayashi/GNS3/images/IOS/c3725-adventerprisek9-mz.124-15.T14.image''),
          (''ram'', GInt 256),
          (''slot0'', GStr ''GT96100-FE'')]\<rparr>,
      (node0 ''SW1'' ''iou'')
        \<lparr>nt_Properties := [
          (''path'', GStr ''i86bi-linux-l2-adventerprisek9-15.1a.bin'')]\<rparr>,
      node0 ''PC1'' ''vpcs'',
      (node0 ''KALI'' ''docker'')
        \<lparr>nt_TemplateID := ''efcdd6aa-8a18-4028-ae77-331d9e6d921b'',
         nt_Properties := [
          (''adapters'', GInt 2)]\<rparr>],
    tt_Links = [
      link ''R1'' ''Fa0/0'' ''SW1'' ''Et0/0'',
      link ''PC1'' ''eth0'' ''SW1'' ''Et0/1'',
      link ''KALI'' ''eth0'' ''SW1'' ''Et0/3'']\<rparr>"

definition Lab09Topology :: TopologyTemplate where
  "Lab09Topology =
   \<lparr>tt_LabID = 0, tt_ComputeID = ''local'',
    tt_Nodes = [
      (node0 ''R1'' ''dynamips'')
        \<lparr>nt_Properties := [
          (''platform'', GStr ''c3725''),
          (''image'', GStr ''/home/kobayashi/GNS3/images/IOS/c3725-adventerprisek9-mz.124-15.T14.image''),
          (''ram'', GInt 256),
          (''slot0'', GStr ''GT96100-FE'')]\<rparr>,
      (node0 ''R2'' ''dynamips'')
        \<lparr>nt_Properties := [
          (''platform'', GStr ''c3725''),
          (''image'', GStr ''/home/kobayashi/GNS3/images/IOS/c3725-adventerprisek9-mz.124-15.T14.image''),
          (''ram'', GInt 256),
          (''slot0'', GStr ''GT96100-FE'')]\<rparr>,
      (node0 ''SW1'' ''iou'')
        \<lparr>nt_Properties := [
          (''path'', GStr ''i86bi-linux-l2-adventerprisek9-15.1a.bin'')]\<rparr>,
      (node0 ''SW2'' ''iou'')
        \<lparr>nt_Properties := [
          (''path'', GStr ''i86bi-linux-l2-adventerprisek9-15.1a.bin'')]\<rparr>,
      node0 ''PC1'' ''vpcs'',
      node0 ''PC2'' ''vpcs'',
      (node0 ''KALI'' ''docker'')
        \<lparr>nt_TemplateID := ''efcdd6aa-8a18-4028-ae77-331d9e6d921b'',
         nt_Properties := [
          (''adapters'', GInt 2)]\<rparr>],
    tt_Links = [
      link ''R1'' ''Fa0/0'' ''SW1'' ''Et0/0'',
      link ''PC1'' ''eth0'' ''SW1'' ''Et0/1'',
      link ''R1'' ''Fa0/1'' ''SW2'' ''Et0/0'',
      link ''R2'' ''Fa0/0'' ''SW2'' ''Et0/1'',
      link ''KALI'' ''eth0'' ''SW2'' ''Et0/2'',
      link ''R2'' ''Fa0/1'' ''PC2'' ''eth0'']\<rparr>"

definition Lab10Topology :: TopologyTemplate where
  "Lab10Topology =
   \<lparr>tt_LabID = 0, tt_ComputeID = ''local'',
    tt_Nodes = [
      (node0 ''R1'' ''dynamips'')
        \<lparr>nt_Properties := [
          (''platform'', GStr ''c3725''),
          (''image'', GStr ''/home/kobayashi/GNS3/images/IOS/c3725-adventerprisek9-mz.124-15.T14.image''),
          (''ram'', GInt 256),
          (''slot0'', GStr ''GT96100-FE'')]\<rparr>,
      (node0 ''SW1'' ''iou'')
        \<lparr>nt_Properties := [
          (''path'', GStr ''i86bi-linux-l2-adventerprisek9-15.1a.bin'')]\<rparr>,
      node0 ''PC-A'' ''vpcs'',
      node0 ''PC-B'' ''vpcs'',
      (node0 ''KALI'' ''docker'')
        \<lparr>nt_TemplateID := ''efcdd6aa-8a18-4028-ae77-331d9e6d921b'',
         nt_Properties := [
          (''adapters'', GInt 2)]\<rparr>],
    tt_Links = [
      link ''R1'' ''Fa0/0'' ''SW1'' ''Et0/0'',
      link ''PC-A'' ''eth0'' ''SW1'' ''Et0/1'',
      link ''PC-B'' ''eth0'' ''SW1'' ''Et0/2'',
      link ''KALI'' ''eth0'' ''SW1'' ''Et0/3'']\<rparr>"

definition Lab11Topology :: TopologyTemplate where
  "Lab11Topology =
   \<lparr>tt_LabID = 0, tt_ComputeID = ''local'',
    tt_Nodes = [
      (node0 ''R1'' ''dynamips'')
        \<lparr>nt_Properties := [
          (''platform'', GStr ''c3725''),
          (''image'', GStr ''/home/kobayashi/GNS3/images/IOS/c3725-adventerprisek9-mz.124-15.T14.image''),
          (''ram'', GInt 256),
          (''slot0'', GStr ''GT96100-FE''),
          (''slot1'', GStr ''NM-16ESW'')]\<rparr>,
      (node0 ''SW1'' ''iou'')
        \<lparr>nt_Properties := [
          (''path'', GStr ''i86bi-linux-l2-adventerprisek9-15.1a.bin'')]\<rparr>,
      (node0 ''KALI'' ''docker'')
        \<lparr>nt_TemplateID := ''efcdd6aa-8a18-4028-ae77-331d9e6d921b'',
         nt_Properties := [
          (''adapters'', GInt 2)]\<rparr>],
    tt_Links = [
      link ''R1'' ''Fa0/0'' ''SW1'' ''Et0/1'',
      link ''KALI'' ''eth0'' ''SW1'' ''Et0/2'']\<rparr>"

lemma Lab01Topology_ok [template_oks]: "template_ok Lab01Topology"
  by code_simp

lemma Lab02Topology_ok [template_oks]: "template_ok Lab02Topology"
  by code_simp

lemma Lab03Topology_ok [template_oks]: "template_ok Lab03Topology"
  by code_simp

lemma Lab04Topology_ok [template_oks]: "template_ok Lab04Topology"
  by code_simp

lemma Lab05Topology_ok [template_oks]: "template_ok Lab05Topology"
  by code_simp

lemma Lab06Topology_ok [template_oks]: "template_ok Lab06Topology"
  by code_simp

lemma Lab07Topology_ok [template_oks]: "template_ok Lab07Topology"
  by code_simp

lemma Lab08Topology_ok [template_oks]: "template_ok Lab08Topology"
  by code_simp

lemma Lab09Topology_ok [template_oks]: "template_ok Lab09Topology"
  by code_simp

lemma Lab10Topology_ok [template_oks]: "template_ok Lab10Topology"
  by code_simp

lemma Lab11Topology_ok [template_oks]: "template_ok Lab11Topology"
  by code_simp

end
