(* ===== verification/LabTopologies2.thy ===== *)
theory LabTopologies2
  imports Topology
begin

text \<open>
  The topology templates of labs 12 to 24, one definition per literal of
  \<open>internal/labsession/labNN_topology.go\<close>, and the proof that each is well formed.
\<close>

definition lab20SW1Startup :: string where
  "lab20SW1Startup =
     ''hostname SW1\<newline>!\<newline>end''"

definition lab24SW1Startup :: string where
  "lab24SW1Startup =
     ''hostname SW1\<newline>!\<newline>end''"

definition lab24SW2Startup :: string where
  "lab24SW2Startup =
     ''hostname SW2\<newline>!\<newline>end''"

definition Lab12Topology :: TopologyTemplate where
  "Lab12Topology =
   \<lparr>tt_LabID = 0, tt_ComputeID = ''local'',
    tt_Nodes = [
      (node0 ''R1'' ''dynamips'')
        \<lparr>nt_Properties := [
          (''platform'', GStr ''c3725''),
          (''image'', GStr ''/home/kobayashi/GNS3/images/IOS/c3725-adventerprisek9-mz.124-15.T14.image''),
          (''ram'', GInt 256),
          (''slot0'', GStr ''GT96100-FE'')]\<rparr>,
      (node0 ''SW1'' ''iou'')
        \<lparr>nt_Properties := [
          (''path'', GStr ''i86bi-linux-l2-adventerprisek9-15.1a.bin'')]\<rparr>,
      node0 ''PC1'' ''vpcs'',
      node0 ''PC2'' ''vpcs'',
      (node0 ''KALI'' ''docker'')
        \<lparr>nt_TemplateID := ''efcdd6aa-8a18-4028-ae77-331d9e6d921b'',
         nt_Properties := [
          (''adapters'', GInt 2)]\<rparr>],
    tt_Links = [
      link ''R1'' ''Fa0/0'' ''SW1'' ''Et0/0'',
      link ''PC1'' ''eth0'' ''SW1'' ''Et0/1'',
      link ''KALI'' ''eth0'' ''SW1'' ''Et0/2'',
      link ''PC2'' ''eth0'' ''SW1'' ''Et0/3'']\<rparr>"

definition Lab13Topology :: TopologyTemplate where
  "Lab13Topology =
   \<lparr>tt_LabID = 0, tt_ComputeID = ''local'',
    tt_Nodes = [
      (node0 ''R1'' ''dynamips'')
        \<lparr>nt_Properties := [
          (''platform'', GStr ''c3725''),
          (''image'', GStr ''/home/kobayashi/GNS3/images/IOS/c3725-adventerprisek9-mz.124-15.T14.image''),
          (''ram'', GInt 256),
          (''slot0'', GStr ''GT96100-FE'')]\<rparr>,
      (node0 ''SW1'' ''iou'')
        \<lparr>nt_Properties := [
          (''path'', GStr ''i86bi-linux-l2-adventerprisek9-15.1a.bin'')]\<rparr>,
      (node0 ''AP1'' ''iou'')
        \<lparr>nt_Properties := [
          (''path'', GStr ''i86bi-linux-l2-adventerprisek9-15.1a.bin'')]\<rparr>,
      node0 ''PC1'' ''vpcs'',
      (node0 ''KALI'' ''docker'')
        \<lparr>nt_TemplateID := ''efcdd6aa-8a18-4028-ae77-331d9e6d921b'',
         nt_Properties := [
          (''adapters'', GInt 2)]\<rparr>],
    tt_Links = [
      link ''R1'' ''Fa0/0'' ''SW1'' ''Et0/0'',
      link ''AP1'' ''Et0/0'' ''SW1'' ''Et0/1'',
      link ''PC1'' ''eth0'' ''SW1'' ''Et0/2'',
      link ''KALI'' ''eth0'' ''SW1'' ''Et0/3'']\<rparr>"

definition Lab14Topology :: TopologyTemplate where
  "Lab14Topology =
   \<lparr>tt_LabID = 0, tt_ComputeID = ''local'',
    tt_Nodes = [
      (node0 ''R1'' ''dynamips'')
        \<lparr>nt_Properties := [
          (''platform'', GStr ''c3725''),
          (''image'', GStr ''/home/kobayashi/GNS3/images/IOS/c3725-adventerprisek9-mz.124-15.T14.image''),
          (''ram'', GInt 256),
          (''slot0'', GStr ''GT96100-FE'')]\<rparr>,
      (node0 ''SW1'' ''iou'')
        \<lparr>nt_Properties := [
          (''path'', GStr ''i86bi-linux-l2-adventerprisek9-15.1a.bin'')]\<rparr>,
      node0 ''PC1'' ''vpcs'',
      node0 ''PC2'' ''vpcs'',
      (node0 ''KALI'' ''docker'')
        \<lparr>nt_TemplateID := ''efcdd6aa-8a18-4028-ae77-331d9e6d921b'',
         nt_Properties := [
          (''adapters'', GInt 2)]\<rparr>],
    tt_Links = [
      link ''R1'' ''Fa0/0'' ''SW1'' ''Et0/0'',
      link ''PC1'' ''eth0'' ''SW1'' ''Et0/1'',
      link ''PC2'' ''eth0'' ''SW1'' ''Et0/2'',
      link ''KALI'' ''eth0'' ''SW1'' ''Et0/3'']\<rparr>"

definition Lab15Topology :: TopologyTemplate where
  "Lab15Topology =
   \<lparr>tt_LabID = 0, tt_ComputeID = ''local'',
    tt_Nodes = [
      node0 ''H1'' ''ethernet_hub'',
      (node0 ''SW1'' ''iou'')
        \<lparr>nt_Properties := [
          (''path'', GStr ''i86bi-linux-l2-adventerprisek9-15.1a.bin''),
          (''ethernet_adapters'', GInt 5)]\<rparr>,
      (node0 ''R1'' ''iou'')
        \<lparr>nt_Properties := [
          (''path'', GStr ''/home/kobayashi/GNS3/images/IOU/i86bi-linux-l3-jk9s-15.0.1.bin''),
          (''ethernet_adapters'', GInt 6),
          (''ram'', GInt 256)]\<rparr>,
      (node0 ''FW1'' ''qemu'')
        \<lparr>nt_TemplateID := ''bea8738c-f896-4bd8-9f28-fe4643ad0882'',
         nt_Properties := [
          (''hda_disk_image'', GStr ''asa-915-k8.qcow2''),
          (''hda_disk_interface'', GStr ''ide''),
          (''ram'', GInt 2048),
          (''qemu_path'', GStr ''/usr/bin/qemu-system-x86_64'')]\<rparr>,
      node0 ''PC1'' ''vpcs'',
      node0 ''PC2'' ''vpcs'',
      node0 ''PC3'' ''vpcs'',
      (node0 ''KALI'' ''docker'')
        \<lparr>nt_TemplateID := ''efcdd6aa-8a18-4028-ae77-331d9e6d921b'',
         nt_Properties := [
          (''adapters'', GInt 1)]\<rparr>,
      (node0 ''KALI2'' ''docker'')
        \<lparr>nt_TemplateID := ''efcdd6aa-8a18-4028-ae77-331d9e6d921b'',
         nt_Properties := [
          (''adapters'', GInt 1)]\<rparr>],
    tt_Links = [
      link ''PC1'' ''eth0'' ''H1'' ''e0'',
      link ''PC2'' ''eth0'' ''H1'' ''e1'',
      link ''KALI2'' ''eth0'' ''H1'' ''e3'',
      link ''H1'' ''e2'' ''SW1'' ''Et0/0'',
      link ''PC3'' ''eth0'' ''SW1'' ''Et0/1'',
      link ''KALI'' ''eth0'' ''SW1'' ''Et0/2'',
      link ''SW1'' ''Et0/3'' ''R1'' ''Et0/0'',
      link ''R1'' ''Et0/1'' ''FW1'' ''Ethernet0'']\<rparr>"

definition Lab16Topology :: TopologyTemplate where
  "Lab16Topology =
   \<lparr>tt_LabID = 0, tt_ComputeID = ''local'',
    tt_Nodes = [
      (node0 ''SW1'' ''iou'')
        \<lparr>nt_Properties := [
          (''path'', GStr ''i86bi-linux-l2-adventerprisek9-15.1a.bin'')]\<rparr>,
      (node0 ''SW2'' ''iou'')
        \<lparr>nt_Properties := [
          (''path'', GStr ''i86bi-linux-l2-adventerprisek9-15.1a.bin'')]\<rparr>,
      (node0 ''R1'' ''dynamips'')
        \<lparr>nt_Properties := [
          (''platform'', GStr ''c3725''),
          (''image'', GStr ''/home/kobayashi/GNS3/images/IOS/c3725-adventerprisek9-mz.124-15.T14.image''),
          (''ram'', GInt 256),
          (''slot0'', GStr ''GT96100-FE'')]\<rparr>,
      node0 ''PC1'' ''vpcs'',
      node0 ''PC2'' ''vpcs'',
      (node0 ''KALI'' ''docker'')
        \<lparr>nt_TemplateID := ''efcdd6aa-8a18-4028-ae77-331d9e6d921b'',
         nt_Properties := [
          (''adapters'', GInt 2)]\<rparr>],
    tt_Links = [
      link ''PC1'' ''eth0'' ''SW1'' ''Et0/0'',
      link ''R1'' ''Fa0/0'' ''SW1'' ''Et0/1'',
      link ''SW1'' ''Et0/2'' ''SW2'' ''Et0/1'',
      link ''KALI'' ''eth0'' ''SW2'' ''Et0/0'',
      link ''PC2'' ''eth0'' ''SW2'' ''Et0/2'']\<rparr>"

definition Lab17Topology :: TopologyTemplate where
  "Lab17Topology =
   \<lparr>tt_LabID = 0, tt_ComputeID = ''local'',
    tt_Nodes = [
      (node0 ''R1'' ''dynamips'')
        \<lparr>nt_Properties := [
          (''platform'', GStr ''c3725''),
          (''image'', GStr ''/home/kobayashi/GNS3/images/IOS/c3725-adventerprisek9-mz.124-15.T14.image''),
          (''ram'', GInt 256),
          (''slot0'', GStr ''GT96100-FE'')]\<rparr>,
      (node0 ''SW1'' ''iou'')
        \<lparr>nt_Properties := [
          (''path'', GStr ''i86bi-linux-l2-adventerprisek9-15.1a.bin'')]\<rparr>,
      node0 ''PC1'' ''vpcs'',
      node0 ''PC2'' ''vpcs'',
      (node0 ''KALI'' ''docker'')
        \<lparr>nt_TemplateID := ''efcdd6aa-8a18-4028-ae77-331d9e6d921b'',
         nt_Properties := [
          (''adapters'', GInt 2)]\<rparr>],
    tt_Links = [
      link ''R1'' ''Fa0/0'' ''SW1'' ''Et0/0'',
      link ''PC1'' ''eth0'' ''SW1'' ''Et0/1'',
      link ''PC2'' ''eth0'' ''SW1'' ''Et0/2'',
      link ''KALI'' ''eth0'' ''SW1'' ''Et0/3'']\<rparr>"

definition Lab18Topology :: TopologyTemplate where
  "Lab18Topology =
   \<lparr>tt_LabID = 0, tt_ComputeID = ''local'',
    tt_Nodes = [
      (node0 ''R1'' ''dynamips'')
        \<lparr>nt_Properties := [
          (''platform'', GStr ''c3725''),
          (''image'', GStr ''/home/kobayashi/GNS3/images/IOS/c3725-adventerprisek9-mz.124-15.T14.image''),
          (''ram'', GInt 256),
          (''slot0'', GStr ''GT96100-FE'')]\<rparr>,
      (node0 ''SW1'' ''iou'')
        \<lparr>nt_Properties := [
          (''path'', GStr ''i86bi-linux-l2-adventerprisek9-15.1a.bin'')]\<rparr>,
      node0 ''PC1'' ''vpcs'',
      (node0 ''KALI'' ''docker'')
        \<lparr>nt_TemplateID := ''efcdd6aa-8a18-4028-ae77-331d9e6d921b'',
         nt_Properties := [
          (''adapters'', GInt 2)]\<rparr>],
    tt_Links = [
      link ''R1'' ''Fa0/0'' ''SW1'' ''Et0/0'',
      link ''PC1'' ''eth0'' ''SW1'' ''Et0/1'',
      link ''KALI'' ''eth0'' ''SW1'' ''Et0/2'']\<rparr>"

definition Lab19Topology :: TopologyTemplate where
  "Lab19Topology =
   \<lparr>tt_LabID = 0, tt_ComputeID = ''local'',
    tt_Nodes = [
      (node0 ''R1'' ''dynamips'')
        \<lparr>nt_Properties := [
          (''platform'', GStr ''c3725''),
          (''image'', GStr ''/home/kobayashi/GNS3/images/IOS/c3725-adventerprisek9-mz.124-15.T14.image''),
          (''ram'', GInt 256),
          (''slot0'', GStr ''GT96100-FE''),
          (''slot2'', GStr ''NM-1FE-TX'')]\<rparr>,
      (node0 ''R2'' ''dynamips'')
        \<lparr>nt_Properties := [
          (''platform'', GStr ''c3725''),
          (''image'', GStr ''/home/kobayashi/GNS3/images/IOS/c3725-adventerprisek9-mz.124-15.T14.image''),
          (''ram'', GInt 256),
          (''slot0'', GStr ''GT96100-FE'')]\<rparr>,
      (node0 ''SW1'' ''iou'')
        \<lparr>nt_Properties := [
          (''path'', GStr ''i86bi-linux-l2-adventerprisek9-15.1a.bin'')]\<rparr>,
      node0 ''PC1'' ''vpcs'',
      node0 ''PC2'' ''vpcs'',
      node0 ''PC3'' ''vpcs'',
      (node0 ''KALI'' ''docker'')
        \<lparr>nt_TemplateID := ''efcdd6aa-8a18-4028-ae77-331d9e6d921b'',
         nt_Properties := [
          (''adapters'', GInt 2)]\<rparr>],
    tt_Links = [
      link ''R1'' ''Fa0/0'' ''SW1'' ''Et0/0'',
      link ''PC1'' ''eth0'' ''SW1'' ''Et0/1'',
      link ''PC2'' ''eth0'' ''SW1'' ''Et0/2'',
      link ''KALI'' ''eth0'' ''SW1'' ''Et0/3'',
      link ''R1'' ''Fa0/1'' ''PC3'' ''eth0'',
      link ''R1'' ''Fa2/0'' ''R2'' ''Fa0/0'']\<rparr>"

definition Lab20Topology :: TopologyTemplate where
  "Lab20Topology =
   \<lparr>tt_LabID = 0, tt_ComputeID = ''local'',
    tt_Nodes = [
      (node0 ''SW1'' ''iou'')
        \<lparr>nt_TemplateID := ''26f0cc8d-debb-4897-b042-cd55978710cd'',
         nt_StartupConfig := lab20SW1Startup,
         nt_Properties := [
          (''path'', GStr ''i86bi-linux-l2-upk9-12.2.bin'')]\<rparr>,
      node0 ''PC1'' ''vpcs'',
      (node0 ''R1'' ''dynamips'')
        \<lparr>nt_Properties := [
          (''platform'', GStr ''c3725''),
          (''image'', GStr ''/home/kobayashi/GNS3/images/IOS/c3725-adventerprisek9-mz.124-15.T14.image''),
          (''ram'', GInt 256),
          (''slot0'', GStr ''GT96100-FE''),
          (''slot1'', GStr ''NM-16ESW'')]\<rparr>,
      (node0 ''KALI'' ''docker'')
        \<lparr>nt_TemplateID := ''efcdd6aa-8a18-4028-ae77-331d9e6d921b'',
         nt_Properties := [
          (''adapters'', GInt 2)]\<rparr>],
    tt_Links = [
      link ''PC1'' ''eth0'' ''SW1'' ''Et0/1'',
      link ''KALI'' ''eth0'' ''SW1'' ''Et0/2'',
      link ''R1'' ''Fa0/0'' ''SW1'' ''Et0/3'']\<rparr>"

definition Lab21Topology :: TopologyTemplate where
  "Lab21Topology =
   \<lparr>tt_LabID = 0, tt_ComputeID = ''local'',
    tt_Nodes = [
      (node0 ''R1'' ''dynamips'')
        \<lparr>nt_Properties := [
          (''platform'', GStr ''c3725''),
          (''image'', GStr ''/home/kobayashi/GNS3/images/IOS/c3725-adventerprisek9-mz.124-15.T14.image''),
          (''ram'', GInt 256),
          (''slot0'', GStr ''GT96100-FE''),
          (''slot1'', GStr ''NM-16ESW'')]\<rparr>,
      (node0 ''R2'' ''dynamips'')
        \<lparr>nt_Properties := [
          (''platform'', GStr ''c3725''),
          (''image'', GStr ''/home/kobayashi/GNS3/images/IOS/c3725-adventerprisek9-mz.124-15.T14.image''),
          (''ram'', GInt 256),
          (''slot0'', GStr ''GT96100-FE''),
          (''slot1'', GStr ''NM-16ESW'')]\<rparr>,
      (node0 ''R3'' ''dynamips'')
        \<lparr>nt_Properties := [
          (''platform'', GStr ''c3725''),
          (''image'', GStr ''/home/kobayashi/GNS3/images/IOS/c3725-adventerprisek9-mz.124-15.T14.image''),
          (''ram'', GInt 256),
          (''slot0'', GStr ''GT96100-FE''),
          (''slot1'', GStr ''NM-16ESW'')]\<rparr>,
      node0 ''PC1'' ''vpcs'',
      node0 ''PC2'' ''vpcs'',
      node0 ''PC3'' ''vpcs'',
      (node0 ''KALI'' ''docker'')
        \<lparr>nt_TemplateID := ''efcdd6aa-8a18-4028-ae77-331d9e6d921b'',
         nt_Properties := [
          (''adapters'', GInt 2)]\<rparr>],
    tt_Links = [
      link ''R1'' ''Fa0/0'' ''R2'' ''Fa0/0'',
      link ''R2'' ''Fa0/1'' ''R3'' ''Fa0/0'',
      link ''R3'' ''Fa0/1'' ''R1'' ''Fa0/1'',
      link ''R1'' ''Gi1/1'' ''PC1'' ''eth0'',
      link ''R1'' ''Gi1/2'' ''KALI'' ''eth0'',
      link ''R2'' ''Gi1/1'' ''PC2'' ''eth0'',
      link ''R3'' ''Gi1/1'' ''PC3'' ''eth0'']\<rparr>"

definition Lab24Topology :: TopologyTemplate where
  "Lab24Topology =
   \<lparr>tt_LabID = 0, tt_ComputeID = ''local'',
    tt_Nodes = [
      (node0 ''SW1'' ''iou'')
        \<lparr>nt_TemplateID := ''26f0cc8d-debb-4897-b042-cd55978710cd'',
         nt_StartupConfig := lab24SW1Startup,
         nt_Properties := [
          (''path'', GStr ''i86bi-linux-l2-upk9-12.2.bin'')]\<rparr>,
      (node0 ''SW2'' ''iou'')
        \<lparr>nt_TemplateID := ''26f0cc8d-debb-4897-b042-cd55978710cd'',
         nt_StartupConfig := lab24SW2Startup,
         nt_Properties := [
          (''path'', GStr ''i86bi-linux-l2-upk9-12.2.bin'')]\<rparr>,
      node0 ''PC1'' ''vpcs'',
      (node0 ''KALI'' ''docker'')
        \<lparr>nt_TemplateID := ''efcdd6aa-8a18-4028-ae77-331d9e6d921b'',
         nt_Properties := [
          (''adapters'', GInt 2)]\<rparr>],
    tt_Links = [
      link ''SW1'' ''Et0/0'' ''SW2'' ''Et0/0'',
      link ''KALI'' ''eth0'' ''SW1'' ''Et0/1'',
      link ''PC1'' ''eth0'' ''SW1'' ''Et0/2'']\<rparr>"

lemma Lab12Topology_ok [template_oks]: "template_ok Lab12Topology"
  by code_simp

lemma Lab13Topology_ok [template_oks]: "template_ok Lab13Topology"
  by code_simp

lemma Lab14Topology_ok [template_oks]: "template_ok Lab14Topology"
  by code_simp

lemma Lab15Topology_ok [template_oks]: "template_ok Lab15Topology"
  by code_simp

lemma Lab16Topology_ok [template_oks]: "template_ok Lab16Topology"
  by code_simp

lemma Lab17Topology_ok [template_oks]: "template_ok Lab17Topology"
  by code_simp

lemma Lab18Topology_ok [template_oks]: "template_ok Lab18Topology"
  by code_simp

lemma Lab19Topology_ok [template_oks]: "template_ok Lab19Topology"
  by code_simp

lemma Lab20Topology_ok [template_oks]: "template_ok Lab20Topology"
  by code_simp

lemma Lab21Topology_ok [template_oks]: "template_ok Lab21Topology"
  by code_simp

lemma Lab24Topology_ok [template_oks]: "template_ok Lab24Topology"
  by code_simp

end
