(* ===== verification/LabTopologies3.thy ===== *)
theory LabTopologies3
  imports Topology
begin

text \<open>
  The topology templates of labs 25 to 36, one definition per literal of
  \<open>internal/labsession/labNN_topology.go\<close>, and the proof that each is well formed.
\<close>

definition Lab25Topology :: TopologyTemplate where
  "Lab25Topology =
   \<lparr>tt_LabID = 0, tt_ComputeID = ''local'',
    tt_Nodes = [
      (node0 ''SW1'' ''iou'')
        \<lparr>nt_Properties := [
          (''path'', GStr ''i86bi-linux-l2-adventerprisek9-15.1a.bin'')]\<rparr>,
      (node0 ''SW2'' ''iou'')
        \<lparr>nt_Properties := [
          (''path'', GStr ''i86bi-linux-l2-adventerprisek9-15.1a.bin'')]\<rparr>,
      (node0 ''SW3'' ''iou'')
        \<lparr>nt_Properties := [
          (''path'', GStr ''i86bi-linux-l2-adventerprisek9-15.1a.bin'')]\<rparr>,
      node0 ''PC1'' ''vpcs'',
      node0 ''PC2'' ''vpcs'',
      (node0 ''KALI'' ''docker'')
        \<lparr>nt_TemplateID := ''efcdd6aa-8a18-4028-ae77-331d9e6d921b'',
         nt_Properties := [
          (''adapters'', GInt 2)]\<rparr>],
    tt_Links = [
      link ''SW1'' ''Et0/0'' ''SW2'' ''Et0/0'',
      link ''SW1'' ''Et0/1'' ''SW3'' ''Et0/0'',
      link ''SW2'' ''Et0/1'' ''SW3'' ''Et0/1'',
      link ''KALI'' ''eth0'' ''SW1'' ''Et0/2'',
      link ''PC1'' ''eth0'' ''SW1'' ''Et0/3'',
      link ''PC2'' ''eth0'' ''SW3'' ''Et0/2'']\<rparr>"

definition Lab26Topology :: TopologyTemplate where
  "Lab26Topology =
   \<lparr>tt_LabID = 0, tt_ComputeID = ''local'',
    tt_Nodes = [
      (node0 ''SW1'' ''iou'')
        \<lparr>nt_Properties := [
          (''path'', GStr ''i86bi-linux-l2-adventerprisek9-15.1a.bin'')]\<rparr>,
      (node0 ''SW2'' ''iou'')
        \<lparr>nt_Properties := [
          (''path'', GStr ''i86bi-linux-l2-adventerprisek9-15.1a.bin'')]\<rparr>,
      node0 ''PC1'' ''vpcs'',
      (node0 ''KALI'' ''docker'')
        \<lparr>nt_TemplateID := ''efcdd6aa-8a18-4028-ae77-331d9e6d921b'',
         nt_Properties := [
          (''adapters'', GInt 2)]\<rparr>],
    tt_Links = [
      link ''SW1'' ''Et0/0'' ''SW2'' ''Et0/0'',
      link ''SW1'' ''Et0/1'' ''SW2'' ''Et0/1'',
      link ''KALI'' ''eth0'' ''SW1'' ''Et0/2'',
      link ''PC1'' ''eth0'' ''SW1'' ''Et0/3'']\<rparr>"

definition Lab27Topology :: TopologyTemplate where
  "Lab27Topology =
   \<lparr>tt_LabID = 0, tt_ComputeID = ''local'',
    tt_Nodes = [
      (node0 ''R1'' ''dynamips'')
        \<lparr>nt_Properties := [
          (''platform'', GStr ''c3725''),
          (''image'', GStr ''/home/kobayashi/GNS3/images/IOS/c3725-adventerprisek9-mz.124-15.T14.image''),
          (''ram'', GInt 256),
          (''slot0'', GStr ''GT96100-FE'')]\<rparr>,
      (node0 ''R2'' ''dynamips'')
        \<lparr>nt_Properties := [
          (''platform'', GStr ''c3725''),
          (''image'', GStr ''/home/kobayashi/GNS3/images/IOS/c3725-adventerprisek9-mz.124-15.T14.image''),
          (''ram'', GInt 256),
          (''slot0'', GStr ''GT96100-FE'')]\<rparr>,
      (node0 ''R3'' ''dynamips'')
        \<lparr>nt_Properties := [
          (''platform'', GStr ''c3725''),
          (''image'', GStr ''/home/kobayashi/GNS3/images/IOS/c3725-adventerprisek9-mz.124-15.T14.image''),
          (''ram'', GInt 256),
          (''slot0'', GStr ''GT96100-FE'')]\<rparr>,
      (node0 ''SW1'' ''iou'')
        \<lparr>nt_Properties := [
          (''path'', GStr ''i86bi-linux-l2-adventerprisek9-15.1a.bin'')]\<rparr>,
      node0 ''PC1'' ''vpcs'',
      node0 ''PC2'' ''vpcs'',
      (node0 ''KALI'' ''docker'')
        \<lparr>nt_TemplateID := ''efcdd6aa-8a18-4028-ae77-331d9e6d921b'',
         nt_Properties := [
          (''adapters'', GInt 2)]\<rparr>],
    tt_Links = [
      link ''R1'' ''Fa0/0'' ''SW1'' ''Et0/0'',
      link ''R1'' ''Fa0/1'' ''R2'' ''Fa0/0'',
      link ''R2'' ''Fa0/1'' ''R3'' ''Fa0/0'',
      link ''R3'' ''Fa0/1'' ''PC2'' ''eth0'',
      link ''PC1'' ''eth0'' ''SW1'' ''Et0/1'',
      link ''KALI'' ''eth0'' ''SW1'' ''Et0/2'']\<rparr>"

definition Lab28Topology :: TopologyTemplate where
  "Lab28Topology =
   \<lparr>tt_LabID = 0, tt_ComputeID = ''local'',
    tt_Nodes = [
      (node0 ''R1'' ''dynamips'')
        \<lparr>nt_Properties := [
          (''platform'', GStr ''c3725''),
          (''image'', GStr ''/home/kobayashi/GNS3/images/IOS/c3725-adventerprisek9-mz.124-15.T14.image''),
          (''ram'', GInt 256),
          (''slot0'', GStr ''GT96100-FE'')]\<rparr>,
      (node0 ''SW1'' ''iou'')
        \<lparr>nt_Properties := [
          (''path'', GStr ''i86bi-linux-l2-adventerprisek9-15.1a.bin'')]\<rparr>,
      node0 ''PC1'' ''vpcs'',
      node0 ''PC2'' ''vpcs'',
      (node0 ''KALI'' ''docker'')
        \<lparr>nt_TemplateID := ''efcdd6aa-8a18-4028-ae77-331d9e6d921b'',
         nt_Properties := [
          (''adapters'', GInt 2)]\<rparr>],
    tt_Links = [
      link ''R1'' ''Fa0/0'' ''SW1'' ''Et0/0'',
      link ''PC1'' ''eth0'' ''SW1'' ''Et0/1'',
      link ''KALI'' ''eth0'' ''SW1'' ''Et0/2'',
      link ''PC2'' ''eth0'' ''SW1'' ''Et0/3'']\<rparr>"

definition Lab29Topology :: TopologyTemplate where
  "Lab29Topology =
   \<lparr>tt_LabID = 0, tt_ComputeID = ''local'',
    tt_Nodes = [
      (node0 ''R1'' ''dynamips'')
        \<lparr>nt_Properties := [
          (''platform'', GStr ''c3725''),
          (''image'', GStr ''/home/kobayashi/GNS3/images/IOS/c3725-adventerprisek9-mz.124-15.T14.image''),
          (''ram'', GInt 256),
          (''slot0'', GStr ''GT96100-FE'')]\<rparr>,
      (node0 ''SW1'' ''iou'')
        \<lparr>nt_Properties := [
          (''path'', GStr ''i86bi-linux-l2-adventerprisek9-15.1a.bin'')]\<rparr>,
      node0 ''PC1'' ''vpcs'',
      node0 ''PC2'' ''vpcs'',
      (node0 ''KALI'' ''docker'')
        \<lparr>nt_TemplateID := ''efcdd6aa-8a18-4028-ae77-331d9e6d921b'',
         nt_Properties := [
          (''adapters'', GInt 2)]\<rparr>],
    tt_Links = [
      link ''R1'' ''Fa0/0'' ''SW1'' ''Et0/0'',
      link ''PC1'' ''eth0'' ''SW1'' ''Et0/1'',
      link ''KALI'' ''eth0'' ''SW1'' ''Et0/2'',
      link ''PC2'' ''eth0'' ''SW1'' ''Et0/3'']\<rparr>"

definition Lab31Topology :: TopologyTemplate where
  "Lab31Topology =
   \<lparr>tt_LabID = 0, tt_ComputeID = ''local'',
    tt_Nodes = [
      (node0 ''R1'' ''dynamips'')
        \<lparr>nt_Properties := [
          (''platform'', GStr ''c3725''),
          (''image'', GStr ''/home/kobayashi/GNS3/images/IOS/c3725-adventerprisek9-mz.124-15.T14.image''),
          (''ram'', GInt 256),
          (''slot0'', GStr ''GT96100-FE'')]\<rparr>,
      (node0 ''R2'' ''dynamips'')
        \<lparr>nt_Properties := [
          (''platform'', GStr ''c3725''),
          (''image'', GStr ''/home/kobayashi/GNS3/images/IOS/c3725-adventerprisek9-mz.124-15.T14.image''),
          (''ram'', GInt 256),
          (''slot0'', GStr ''GT96100-FE'')]\<rparr>,
      (node0 ''SW1'' ''iou'')
        \<lparr>nt_Properties := [
          (''path'', GStr ''i86bi-linux-l2-adventerprisek9-15.1a.bin'')]\<rparr>,
      node0 ''PC1'' ''vpcs'',
      (node0 ''KALI'' ''docker'')
        \<lparr>nt_TemplateID := ''efcdd6aa-8a18-4028-ae77-331d9e6d921b'',
         nt_Properties := [
          (''adapters'', GInt 2)]\<rparr>],
    tt_Links = [
      link ''R1'' ''Fa0/0'' ''SW1'' ''Et0/0'',
      link ''R1'' ''Fa0/1'' ''R2'' ''Fa0/0'',
      link ''KALI'' ''eth0'' ''SW1'' ''Et0/1'',
      link ''PC1'' ''eth0'' ''SW1'' ''Et0/2'']\<rparr>"

definition Lab32Topology :: TopologyTemplate where
  "Lab32Topology =
   \<lparr>tt_LabID = 0, tt_ComputeID = ''local'',
    tt_Nodes = [
      (node0 ''R1'' ''dynamips'')
        \<lparr>nt_Properties := [
          (''platform'', GStr ''c3725''),
          (''image'', GStr ''/home/kobayashi/GNS3/images/IOS/c3725-adventerprisek9-mz.124-15.T14.image''),
          (''ram'', GInt 256),
          (''slot0'', GStr ''GT96100-FE'')]\<rparr>,
      (node0 ''SW1'' ''iou'')
        \<lparr>nt_Properties := [
          (''path'', GStr ''i86bi-linux-l2-adventerprisek9-15.1a.bin'')]\<rparr>,
      node0 ''PC1'' ''vpcs'',
      (node0 ''KALI'' ''docker'')
        \<lparr>nt_TemplateID := ''efcdd6aa-8a18-4028-ae77-331d9e6d921b'',
         nt_Properties := [
          (''adapters'', GInt 2)]\<rparr>],
    tt_Links = [
      link ''R1'' ''Fa0/0'' ''SW1'' ''Et0/0'',
      link ''KALI'' ''eth0'' ''SW1'' ''Et0/1'',
      link ''PC1'' ''eth0'' ''SW1'' ''Et0/2'']\<rparr>"

definition Lab33Topology :: TopologyTemplate where
  "Lab33Topology =
   \<lparr>tt_LabID = 0, tt_ComputeID = ''local'',
    tt_Nodes = [
      (node0 ''R1'' ''dynamips'')
        \<lparr>nt_Properties := [
          (''platform'', GStr ''c3725''),
          (''image'', GStr ''/home/kobayashi/GNS3/images/IOS/c3725-adventerprisek9-mz.124-15.T14.image''),
          (''ram'', GInt 256),
          (''slot0'', GStr ''GT96100-FE'')]\<rparr>,
      (node0 ''SW1'' ''iou'')
        \<lparr>nt_Properties := [
          (''path'', GStr ''i86bi-linux-l2-adventerprisek9-15.1a.bin'')]\<rparr>,
      node0 ''PC1'' ''vpcs'',
      (node0 ''KALI'' ''docker'')
        \<lparr>nt_TemplateID := ''efcdd6aa-8a18-4028-ae77-331d9e6d921b'',
         nt_Properties := [
          (''adapters'', GInt 2)]\<rparr>],
    tt_Links = [
      link ''R1'' ''Fa0/0'' ''SW1'' ''Et0/0'',
      link ''KALI'' ''eth0'' ''SW1'' ''Et0/1'',
      link ''PC1'' ''eth0'' ''SW1'' ''Et0/2'']\<rparr>"

definition Lab34Topology :: TopologyTemplate where
  "Lab34Topology =
   \<lparr>tt_LabID = 0, tt_ComputeID = ''local'',
    tt_Nodes = [
      (node0 ''R1'' ''dynamips'')
        \<lparr>nt_Properties := [
          (''platform'', GStr ''c3725''),
          (''image'', GStr ''/home/kobayashi/GNS3/images/IOS/c3725-adventerprisek9-mz.124-15.T14.image''),
          (''ram'', GInt 256),
          (''slot0'', GStr ''GT96100-FE'')]\<rparr>,
      (node0 ''SW1'' ''iou'')
        \<lparr>nt_Properties := [
          (''path'', GStr ''i86bi-linux-l2-adventerprisek9-15.1a.bin'')]\<rparr>,
      (node0 ''KALI'' ''docker'')
        \<lparr>nt_TemplateID := ''efcdd6aa-8a18-4028-ae77-331d9e6d921b'',
         nt_Properties := [
          (''adapters'', GInt 2)]\<rparr>],
    tt_Links = [
      link ''R1'' ''Fa0/0'' ''SW1'' ''Et0/0'',
      link ''KALI'' ''eth0'' ''SW1'' ''Et0/1'']\<rparr>"

definition Lab35Topology :: TopologyTemplate where
  "Lab35Topology =
   \<lparr>tt_LabID = 0, tt_ComputeID = ''local'',
    tt_Nodes = [
      (node0 ''R1'' ''dynamips'')
        \<lparr>nt_Properties := [
          (''platform'', GStr ''c3725''),
          (''image'', GStr ''/home/kobayashi/GNS3/images/IOS/c3725-adventerprisek9-mz.124-15.T14.image''),
          (''ram'', GInt 256),
          (''slot0'', GStr ''GT96100-FE'')]\<rparr>,
      (node0 ''R2'' ''dynamips'')
        \<lparr>nt_Properties := [
          (''platform'', GStr ''c3725''),
          (''image'', GStr ''/home/kobayashi/GNS3/images/IOS/c3725-adventerprisek9-mz.124-15.T14.image''),
          (''ram'', GInt 256),
          (''slot0'', GStr ''GT96100-FE'')]\<rparr>,
      (node0 ''SW1'' ''iou'')
        \<lparr>nt_Properties := [
          (''path'', GStr ''i86bi-linux-l2-adventerprisek9-15.1a.bin'')]\<rparr>,
      node0 ''PC1'' ''vpcs'',
      (node0 ''KALI'' ''docker'')
        \<lparr>nt_TemplateID := ''efcdd6aa-8a18-4028-ae77-331d9e6d921b'',
         nt_Properties := [
          (''adapters'', GInt 2)]\<rparr>],
    tt_Links = [
      link ''R1'' ''Fa0/0'' ''SW1'' ''Et0/0'',
      link ''R1'' ''Fa0/1'' ''R2'' ''Fa0/0'',
      link ''PC1'' ''eth0'' ''SW1'' ''Et0/1'',
      link ''KALI'' ''eth0'' ''SW1'' ''Et0/2'']\<rparr>"

definition Lab36Topology :: TopologyTemplate where
  "Lab36Topology =
   \<lparr>tt_LabID = 0, tt_ComputeID = ''local'',
    tt_Nodes = [
      (node0 ''SW1'' ''iou'')
        \<lparr>nt_Properties := [
          (''path'', GStr ''i86bi-linux-l2-adventerprisek9-15.1a.bin'')]\<rparr>,
      node0 ''PC1'' ''vpcs'',
      node0 ''PC2'' ''vpcs'',
      (node0 ''KALI'' ''docker'')
        \<lparr>nt_TemplateID := ''efcdd6aa-8a18-4028-ae77-331d9e6d921b'',
         nt_Properties := [
          (''adapters'', GInt 2)]\<rparr>],
    tt_Links = [
      link ''PC1'' ''eth0'' ''SW1'' ''Et0/0'',
      link ''PC2'' ''eth0'' ''SW1'' ''Et0/2'',
      link ''KALI'' ''eth0'' ''SW1'' ''Et0/1'']\<rparr>"

lemma Lab25Topology_ok [template_oks]: "template_ok Lab25Topology"
  by code_simp

lemma Lab26Topology_ok [template_oks]: "template_ok Lab26Topology"
  by code_simp

lemma Lab27Topology_ok [template_oks]: "template_ok Lab27Topology"
  by code_simp

lemma Lab28Topology_ok [template_oks]: "template_ok Lab28Topology"
  by code_simp

lemma Lab29Topology_ok [template_oks]: "template_ok Lab29Topology"
  by code_simp

lemma Lab31Topology_ok [template_oks]: "template_ok Lab31Topology"
  by code_simp

lemma Lab32Topology_ok [template_oks]: "template_ok Lab32Topology"
  by code_simp

lemma Lab33Topology_ok [template_oks]: "template_ok Lab33Topology"
  by code_simp

lemma Lab34Topology_ok [template_oks]: "template_ok Lab34Topology"
  by code_simp

lemma Lab35Topology_ok [template_oks]: "template_ok Lab35Topology"
  by code_simp

lemma Lab36Topology_ok [template_oks]: "template_ok Lab36Topology"
  by code_simp

end
