(* ===== verification/LabTopologies4.thy ===== *)
theory LabTopologies4
  imports Topology
begin

text \<open>
  The topology templates of labs 37 to 47, one definition per literal of
  \<open>internal/labsession/labNN_topology.go\<close>, and the proof that each is well formed.
\<close>

definition Lab37Topology :: TopologyTemplate where
  "Lab37Topology =
   \<lparr>tt_LabID = 0, tt_ComputeID = ''local'',
    tt_Nodes = [
      (node0 ''R1'' ''dynamips'')
        \<lparr>nt_Properties := [
          (''platform'', GStr ''c3725''),
          (''image'', GStr ''/home/kobayashi/GNS3/images/IOS/c3725-adventerprisek9-mz.124-15.T14.image''),
          (''ram'', GInt 256),
          (''slot0'', GStr ''GT96100-FE'')]\<rparr>,
      (node0 ''SW1'' ''iou'')
        \<lparr>nt_Properties := [
          (''path'', GStr ''i86bi-linux-l2-adventerprisek9-15.1a.bin'')]\<rparr>,
      node0 ''PC1'' ''vpcs'',
      (node0 ''KALI'' ''docker'')
        \<lparr>nt_TemplateID := ''efcdd6aa-8a18-4028-ae77-331d9e6d921b'',
         nt_Properties := [
          (''adapters'', GInt 2)]\<rparr>],
    tt_Links = [
      link ''R1'' ''Fa0/0'' ''SW1'' ''Et0/0'',
      link ''KALI'' ''eth0'' ''SW1'' ''Et0/1'',
      link ''PC1'' ''eth0'' ''SW1'' ''Et0/2'']\<rparr>"

definition Lab38Topology :: TopologyTemplate where
  "Lab38Topology =
   \<lparr>tt_LabID = 0, tt_ComputeID = ''local'',
    tt_Nodes = [
      (node0 ''R1'' ''dynamips'')
        \<lparr>nt_Properties := [
          (''platform'', GStr ''c3725''),
          (''image'', GStr ''/home/kobayashi/GNS3/images/IOS/c3725-adventerprisek9-mz.124-15.T14.image''),
          (''ram'', GInt 256),
          (''slot0'', GStr ''GT96100-FE'')]\<rparr>,
      (node0 ''SW1'' ''iou'')
        \<lparr>nt_Properties := [
          (''path'', GStr ''i86bi-linux-l2-adventerprisek9-15.1a.bin'')]\<rparr>,
      node0 ''PC-A'' ''vpcs'',
      (node0 ''KALI'' ''docker'')
        \<lparr>nt_TemplateID := ''efcdd6aa-8a18-4028-ae77-331d9e6d921b'',
         nt_Properties := [
          (''adapters'', GInt 2)]\<rparr>],
    tt_Links = [
      link ''R1'' ''Fa0/0'' ''SW1'' ''Et0/0'',
      link ''PC-A'' ''eth0'' ''SW1'' ''Et0/1'',
      link ''KALI'' ''eth0'' ''SW1'' ''Et0/2'']\<rparr>"

definition Lab39Topology :: TopologyTemplate where
  "Lab39Topology =
   \<lparr>tt_LabID = 0, tt_ComputeID = ''local'',
    tt_Nodes = [
      (node0 ''R1'' ''dynamips'')
        \<lparr>nt_Properties := [
          (''platform'', GStr ''c3725''),
          (''image'', GStr ''/home/kobayashi/GNS3/images/IOS/c3725-adventerprisek9-mz.124-15.T14.image''),
          (''ram'', GInt 256),
          (''slot0'', GStr ''GT96100-FE'')]\<rparr>,
      (node0 ''R2'' ''dynamips'')
        \<lparr>nt_Properties := [
          (''platform'', GStr ''c3725''),
          (''image'', GStr ''/home/kobayashi/GNS3/images/IOS/c3725-adventerprisek9-mz.124-15.T14.image''),
          (''ram'', GInt 256),
          (''slot0'', GStr ''GT96100-FE'')]\<rparr>,
      (node0 ''R3'' ''dynamips'')
        \<lparr>nt_Properties := [
          (''platform'', GStr ''c3725''),
          (''image'', GStr ''/home/kobayashi/GNS3/images/IOS/c3725-adventerprisek9-mz.124-15.T14.image''),
          (''ram'', GInt 256),
          (''slot0'', GStr ''GT96100-FE'')]\<rparr>,
      (node0 ''SW1'' ''iou'')
        \<lparr>nt_Properties := [
          (''path'', GStr ''i86bi-linux-l2-adventerprisek9-15.1a.bin'')]\<rparr>,
      (node0 ''SW2'' ''iou'')
        \<lparr>nt_Properties := [
          (''path'', GStr ''i86bi-linux-l2-adventerprisek9-15.1a.bin'')]\<rparr>,
      node0 ''PC1'' ''vpcs'',
      node0 ''PC2'' ''vpcs'',
      node0 ''PC3'' ''vpcs'',
      (node0 ''KALI'' ''docker'')
        \<lparr>nt_TemplateID := ''efcdd6aa-8a18-4028-ae77-331d9e6d921b'',
         nt_Properties := [
          (''adapters'', GInt 2)]\<rparr>],
    tt_Links = [
      link ''R1'' ''Fa0/0'' ''SW1'' ''Et0/0'',
      link ''R1'' ''Fa0/1'' ''R2'' ''Fa0/0'',
      link ''R2'' ''Fa0/1'' ''R3'' ''Fa0/0'',
      link ''R3'' ''Fa0/1'' ''SW2'' ''Et0/0'',
      link ''PC1'' ''eth0'' ''SW1'' ''Et0/1'',
      link ''PC2'' ''eth0'' ''SW1'' ''Et0/2'',
      link ''PC3'' ''eth0'' ''SW2'' ''Et0/1'',
      link ''KALI'' ''eth0'' ''SW1'' ''Et0/3'']\<rparr>"

definition Lab43Topology :: TopologyTemplate where
  "Lab43Topology =
   \<lparr>tt_LabID = 0, tt_ComputeID = ''local'',
    tt_Nodes = [
      (node0 ''R1'' ''dynamips'')
        \<lparr>nt_Properties := [
          (''platform'', GStr ''c3725''),
          (''image'', GStr ''/home/kobayashi/GNS3/images/IOS/c3725-adventerprisek9-mz.124-15.T14.image''),
          (''ram'', GInt 256),
          (''slot0'', GStr ''GT96100-FE'')]\<rparr>,
      (node0 ''SW1'' ''iou'')
        \<lparr>nt_Properties := [
          (''path'', GStr ''i86bi-linux-l2-adventerprisek9-15.1a.bin'')]\<rparr>,
      (node0 ''KALI'' ''docker'')
        \<lparr>nt_TemplateID := ''efcdd6aa-8a18-4028-ae77-331d9e6d921b'',
         nt_Properties := [
          (''adapters'', GInt 2)]\<rparr>],
    tt_Links = [
      link ''R1'' ''Fa0/0'' ''SW1'' ''Et0/0'',
      link ''KALI'' ''eth0'' ''SW1'' ''Et0/1'']\<rparr>"

definition Lab44Topology :: TopologyTemplate where
  "Lab44Topology =
   \<lparr>tt_LabID = 0, tt_ComputeID = ''local'',
    tt_Nodes = [
      (node0 ''R1'' ''dynamips'')
        \<lparr>nt_Properties := [
          (''platform'', GStr ''c3725''),
          (''image'', GStr ''/home/kobayashi/GNS3/images/IOS/c3725-adventerprisek9-mz.124-15.T14.image''),
          (''ram'', GInt 256),
          (''slot0'', GStr ''GT96100-FE'')]\<rparr>,
      (node0 ''SW1'' ''iou'')
        \<lparr>nt_Properties := [
          (''path'', GStr ''i86bi-linux-l2-adventerprisek9-15.1a.bin'')]\<rparr>,
      (node0 ''KALI'' ''docker'')
        \<lparr>nt_TemplateID := ''efcdd6aa-8a18-4028-ae77-331d9e6d921b'',
         nt_Properties := [
          (''adapters'', GInt 2)]\<rparr>],
    tt_Links = [
      link ''R1'' ''Fa0/0'' ''SW1'' ''Et0/0'',
      link ''KALI'' ''eth0'' ''SW1'' ''Et0/1'']\<rparr>"

definition Lab45Topology :: TopologyTemplate where
  "Lab45Topology =
   \<lparr>tt_LabID = 0, tt_ComputeID = ''local'',
    tt_Nodes = [
      (node0 ''R1'' ''dynamips'')
        \<lparr>nt_Properties := [
          (''platform'', GStr ''c3725''),
          (''image'', GStr ''/home/kobayashi/GNS3/images/IOS/c3725-adventerprisek9-mz.124-15.T14.image''),
          (''ram'', GInt 256),
          (''slot0'', GStr ''GT96100-FE'')]\<rparr>,
      (node0 ''SW1'' ''iou'')
        \<lparr>nt_Properties := [
          (''path'', GStr ''i86bi-linux-l2-adventerprisek9-15.1a.bin'')]\<rparr>,
      (node0 ''KALI'' ''docker'')
        \<lparr>nt_TemplateID := ''efcdd6aa-8a18-4028-ae77-331d9e6d921b'',
         nt_Properties := [
          (''adapters'', GInt 2)]\<rparr>],
    tt_Links = [
      link ''R1'' ''Fa0/0'' ''SW1'' ''Et0/0'',
      link ''KALI'' ''eth0'' ''SW1'' ''Et0/1'']\<rparr>"

definition Lab46Topology :: TopologyTemplate where
  "Lab46Topology =
   \<lparr>tt_LabID = 0, tt_ComputeID = ''local'',
    tt_Nodes = [
      (node0 ''SW1'' ''iou'')
        \<lparr>nt_Properties := [
          (''path'', GStr ''i86bi-linux-l2-adventerprisek9-15.1a.bin'')]\<rparr>,
      node0 ''PC-A'' ''vpcs'',
      node0 ''PC-B'' ''vpcs'',
      (node0 ''KALI'' ''docker'')
        \<lparr>nt_TemplateID := ''efcdd6aa-8a18-4028-ae77-331d9e6d921b'',
         nt_Properties := [
          (''adapters'', GInt 2)]\<rparr>],
    tt_Links = [
      link ''PC-A'' ''eth0'' ''SW1'' ''Et0/1'',
      link ''PC-B'' ''eth0'' ''SW1'' ''Et0/2'',
      link ''KALI'' ''eth0'' ''SW1'' ''Et0/3'']\<rparr>"

definition Lab47Topology :: TopologyTemplate where
  "Lab47Topology =
   \<lparr>tt_LabID = 0, tt_ComputeID = ''local'',
    tt_Nodes = [
      (node0 ''R1'' ''dynamips'')
        \<lparr>nt_Properties := [
          (''platform'', GStr ''c2691''),
          (''image'', GStr ''/home/kobayashi/GNS3/images/IOS/c2691-entservicesk9-mz.124-13b_2.bin''),
          (''ram'', GInt 256),
          (''slot0'', GStr ''GT96100-FE'')]\<rparr>,
      (node0 ''FW'' ''qemu'')
        \<lparr>nt_TemplateID := ''b5de120f-0889-4945-bd05-942a3aae6455'',
         nt_Properties := [
          (''hda_disk_image'', GStr ''fortios.qcow2''),
          (''hda_disk_interface'', GStr ''ide''),
          (''ram'', GInt 2048),
          (''cpus'', GInt 1),
          (''qemu_path'', GStr ''/usr/bin/qemu-system-x86_64''),
          (''adapter_type'', GStr ''e1000''),
          (''adapters'', GInt 4),
          (''console_type'', GStr ''vnc'')]\<rparr>,
      (node0 ''R2'' ''dynamips'')
        \<lparr>nt_Properties := [
          (''platform'', GStr ''c7200''),
          (''image'', GStr ''/home/kobayashi/GNS3/images/IOS/c7200-advipservicesk9-mz.152-4.S5.bin''),
          (''ram'', GInt 512),
          (''npe'', GStr ''npe-400''),
          (''midplane'', GStr ''vxr''),
          (''slot0'', GStr ''C7200-IO-FE''),
          (''slot1'', GStr ''PA-FE-TX''),
          (''slot2'', GStr ''PA-2FE-TX'')]\<rparr>,
      (node0 ''SW1'' ''iou'')
        \<lparr>nt_Properties := [
          (''path'', GStr ''i86bi-linux-l2-ipbasek9-15.1g.bin''),
          (''ethernet_adapters'', GInt 4)]\<rparr>,
      node0 ''PC1'' ''vpcs'',
      node0 ''PC2'' ''vpcs'',
      (node0 ''KALI'' ''docker'')
        \<lparr>nt_TemplateID := ''efcdd6aa-8a18-4028-ae77-331d9e6d921b'',
         nt_Properties := [
          (''adapters'', GInt 2)]\<rparr>],
    tt_Links = [
      link ''KALI'' ''eth0'' ''R1'' ''Fa0/0'',
      link ''R1'' ''Fa0/1'' ''FW'' ''Ethernet0'',
      link ''FW'' ''Ethernet1'' ''R2'' ''Fa0/0'',
      link ''R2'' ''Fa1/0'' ''SW1'' ''Et0/0'',
      link ''PC1'' ''eth0'' ''SW1'' ''Et0/1'',
      link ''PC2'' ''eth0'' ''SW1'' ''Et0/2'']\<rparr>"

lemma Lab37Topology_ok [template_oks]: "template_ok Lab37Topology"
  by code_simp

lemma Lab38Topology_ok [template_oks]: "template_ok Lab38Topology"
  by code_simp

lemma Lab39Topology_ok [template_oks]: "template_ok Lab39Topology"
  by code_simp

lemma Lab43Topology_ok [template_oks]: "template_ok Lab43Topology"
  by code_simp

lemma Lab44Topology_ok [template_oks]: "template_ok Lab44Topology"
  by code_simp

lemma Lab45Topology_ok [template_oks]: "template_ok Lab45Topology"
  by code_simp

lemma Lab46Topology_ok [template_oks]: "template_ok Lab46Topology"
  by code_simp

lemma Lab47Topology_ok [template_oks]: "template_ok Lab47Topology"
  by code_simp

end
