(* ===== verification/LabCatalog.thy ===== *)
theory LabCatalog
  imports LabTopologies1 LabTopologies2 LabTopologies3 LabTopologies4
begin

text \<open>
  The registry of lab templates: \<open>lookupTopologyTemplate\<close>, \<open>HasLiveSession\<close> and
  \<open>TopologyForLab\<close> of \<open>internal/labsession/service.go\<close>, and the catalogue-wide facts.
\<close>

definition topology_switch :: "(int \<times> TopologyTemplate) list" where
  "topology_switch =
    [(1, Lab01Topology), (2, Lab02Topology), (3, Lab03Topology),
     (4, Lab04Topology), (5, Lab05Topology), (6, Lab06Topology),
     (7, Lab07Topology), (8, Lab08Topology), (9, Lab09Topology),
     (10, Lab10Topology), (11, Lab11Topology), (12, Lab12Topology),
     (13, Lab13Topology), (14, Lab14Topology), (15, Lab15Topology),
     (16, Lab16Topology), (17, Lab17Topology), (18, Lab18Topology),
     (19, Lab19Topology), (20, Lab20Topology), (21, Lab21Topology),
     (24, Lab24Topology), (25, Lab25Topology), (26, Lab26Topology),
     (27, Lab27Topology), (28, Lab28Topology), (29, Lab29Topology),
     (31, Lab31Topology), (32, Lab32Topology), (33, Lab33Topology),
     (34, Lab34Topology), (35, Lab35Topology), (36, Lab36Topology),
     (37, Lab37Topology), (38, Lab38Topology), (39, Lab39Topology),
     (43, Lab43Topology), (44, Lab44Topology), (45, Lab45Topology),
     (46, Lab46Topology), (47, Lab47Topology)]"

definition lookupTopologyTemplate :: "int \<Rightarrow> TopologyTemplate" where
  "lookupTopologyTemplate labID =
     (case map_of topology_switch labID of
        Some t \<Rightarrow> t
      | None \<Rightarrow> \<lparr>tt_LabID = labID, tt_ComputeID = [], tt_Nodes = [], tt_Links = []\<rparr>)"

definition HasLiveSession :: "int \<Rightarrow> bool" where
  "HasLiveSession labID = (length (tt_Nodes (lookupTopologyTemplate labID)) > 0)"

definition TopologyForLab :: "int \<Rightarrow> TopologyTemplate" where
  "TopologyForLab labID = lookupTopologyTemplate labID"

definition live_labs :: "int list" where
  "live_labs = map fst topology_switch"

lemma switch_ok: "list_all (\<lambda>e. template_ok (snd e)) topology_switch"
  by (simp add: topology_switch_def template_oks)

lemma switch_nodes: "list_all (\<lambda>e. tt_Nodes (snd e) \<noteq> []) topology_switch"
  by code_simp

lemma empty_template_ok [simp]:
  "template_ok \<lparr>tt_LabID = l, tt_ComputeID = c, tt_Nodes = [], tt_Links = []\<rparr>"
  by (simp add: template_ok_def node_names_def link_ends_def phys_ports_def)

lemma catalog_ok: "template_ok (lookupTopologyTemplate labID)"
  using switch_ok
  by (auto simp: lookupTopologyTemplate_def list_all_iff split: option.splits dest!: map_of_SomeD)

text \<open>
  C6: every topology the service can launch is well formed: node names are distinct, node types
  are ones the provisioner supports, every link end is a declared node whose interface label
  translates to a non-negative adapter and port, and no physical port carries two links.
\<close>

theorem catalog_templates_ok: "template_ok (lookupTopologyTemplate labID)"
  by (rule catalog_ok)

text \<open>
  Exactly the labs 1-21, 24-29, 31-39 and 43-47 have a live session; every other lab number
  (including negative ones) is content-only.
\<close>

theorem has_live_session_iff:
  "HasLiveSession labID \<longleftrightarrow>
     labID \<in> {1..21} \<union> {24..29} \<union> {31..39} \<union> {43..47}"
proof -
  have "set live_labs = {1..21} \<union> {24..29} \<union> {31..39} \<union> {43..47}"
    by code_simp
  moreover have "HasLiveSession labID \<longleftrightarrow> labID \<in> set live_labs"
    using switch_nodes
    by (auto simp: HasLiveSession_def lookupTopologyTemplate_def live_labs_def list_all_iff
        map_of_eq_None_iff split: option.splits dest!: map_of_SomeD intro: rev_image_eqI)
  ultimately show ?thesis by simp
qed

end
