(* ===== verification/Provisioning.thy ===== *)
theory Provisioning
  imports Gns3Http LabCatalog
begin

text \<open>
  Provisioning a well-formed template (\<open>ProvisionTopology\<close> and \<open>createLinks\<close> of
  \<open>internal/labsession/gns3client_impl.go\<close>): against a server that accepts what it is sent, every
  node and every link is created, in the order of the template.
\<close>

section \<open>An accepting server\<close>

definition accepts :: "'s HTTPGNS3Client \<Rightarrow> bool" where
  "accepts c =
     (\<forall>req s. rq_method req = ''POST'' \<longrightarrow>
        (\<exists>s' t status body.
           hc_http c req s = (s', t, TResp status body None) \<and> status < 400
           \<and> (body = [] \<or> (\<exists>n. decodeStrict json_node body gns3Node0 = Inr n))))"

lemma send_accepted:
  assumes "accepts c" "send c ''POST'' path body w = (w', t, res)"
  shows "\<exists>status b. res = TResp status b None \<and> status < 400
           \<and> (b = [] \<or> (\<exists>n. decodeStrict json_node b gns3Node0 = Inr n))"
proof -
  have "hc_http c (mk_request c ''POST'' path body) (wr_srv w) = (wr_srv w', t, res)"
    using send_result [OF assms(2)] by simp
  moreover have "rq_method (mk_request c ''POST'' path body) = ''POST''"
    by (simp add: mk_request_def)
  ultimately show ?thesis
    using assms(1) [unfolded accepts_def, rule_format, of "mk_request c ''POST'' path body" "wr_srv w"]
    by auto
qed

lemma post_node:
  assumes "accepts c"
  shows "\<exists>w' t n res. do_req c ''POST'' path body (Some json_node) gns3Node0 w = (w', t, Inr n)
           \<and> wr_log w' = wr_log w @ [(mk_request c ''POST'' path body, res)]"
proof -
  obtain w' t res where s: "send c ''POST'' path body w = (w', t, res)" using send_ex by blast
  from send_accepted [OF assms s] send_result [OF s] s show ?thesis
    by (auto simp: do_req_def io_bind_def io_return_def do_result_def)
qed

lemma post_unit:
  assumes "accepts c"
  shows "\<exists>w' t res. do_unit c ''POST'' path body w = (w', t, None)
           \<and> wr_log w' = wr_log w @ [(mk_request c ''POST'' path body, res)]"
proof -
  obtain w' t res where s: "send c ''POST'' path body w = (w', t, res)" using send_ex by blast
  from send_accepted [OF assms s] send_result [OF s] s show ?thesis
    by (auto simp: do_unit_def do_req_def io_bind_def io_return_def do_result_def)
qed

section \<open>Nodes\<close>

lemma node_props_supported:
  "nt_NodeType nt \<in> set supported_types \<Longrightarrow> \<exists>props. node_props tag nt = Some props"
  by (auto simp: supported_types_def node_props_def Let_def)

definition node_info :: "NodeTemplate \<Rightarrow> gns3Node \<Rightarrow> NodeInfo" where
  "node_info nt n =
     \<lparr>ni_GNS3NodeID = gn_NodeID n, ni_ConsolePort = gn_Console n,
      ni_ConsoleType = gn_ConsoleType n, ni_NodeType = nt_NodeType nt, ni_MAC = []\<rparr>"

definition node_request ::
  "'s HTTPGNS3Client \<Rightarrow> string \<Rightarrow> TopologyTemplate \<Rightarrow> NodeTemplate \<Rightarrow> request" where
  "node_request c pid t nt =
     mk_request c ''POST'' (project_path pid ''/nodes'')
       (Some (node_payload t nt (the (node_props (hc_kaliPinnedTag c) nt))))"

lemma mput_new: "k \<notin> set (map fst m) \<Longrightarrow> mput k v m = m @ [(k, v)]"
  by (induction m) auto

text \<open>Nodes not seen before are appended to both maps, one request each.\<close>

lemma create_nodes_ok:
  assumes "accepts c"
  shows "list_all (\<lambda>n. nt_NodeType n \<in> set supported_types) nts \<Longrightarrow>
    distinct (map fst (fst acc) @ map nt_Name nts) \<Longrightarrow> map fst (snd acc) = map fst (fst acc) \<Longrightarrow>
    \<exists>w' tm ns log.
      create_nodes c pid t nts acc w =
        (w', tm, Inr (fst acc @ zip (map nt_Name nts) ns,
                      snd acc @ zip (map nt_Name nts) (map2 node_info nts ns)))
      \<and> length ns = length nts
      \<and> wr_log w' = wr_log w @ log \<and> map fst log = map (node_request c pid t) nts"
proof (induction nts arbitrary: acc w)
  case Nil
  show ?case by (rule exI [of _ w]) (simp add: io_return_def)
next
  case (Cons nt nts)
  obtain props where p: "node_props (hc_kaliPinnedTag c) nt = Some props"
    using node_props_supported Cons.prems(1) by fastforce
  obtain w1 t1 n res where r:
    "do_req c ''POST'' (project_path pid ''/nodes'') (Some (node_payload t nt props))
       (Some json_node) gns3Node0 w = (w1, t1, Inr n)"
    "wr_log w1 = wr_log w @ [(mk_request c ''POST'' (project_path pid ''/nodes'')
       (Some (node_payload t nt props)), res)]"
    using post_node [OF assms] by blast
  define acc1 where "acc1 = (fst acc @ [(nt_Name nt, n)], snd acc @ [(nt_Name nt, node_info nt n)])"
  have new: "(mput (nt_Name nt) n (fst acc), mput (nt_Name nt) (node_info nt n) (snd acc)) = acc1"
    using Cons.prems(2,3) by (simp add: acc1_def mput_new)
  obtain w' tm ns log where ih:
    "create_nodes c pid t nts acc1 w1 =
       (w', tm, Inr (fst acc1 @ zip (map nt_Name nts) ns,
                     snd acc1 @ zip (map nt_Name nts) (map2 node_info nts ns)))"
    "length ns = length nts" "wr_log w' = wr_log w1 @ log"
    "map fst log = map (node_request c pid t) nts"
    using Cons.IH [of acc1 w1] Cons.prems by (auto simp: acc1_def)
  have "create_nodes c pid t (nt # nts) acc w =
       (w', t1 + tm, Inr (fst acc @ zip (map nt_Name (nt # nts)) (n # ns),
          snd acc @ zip (map nt_Name (nt # nts)) (map2 node_info (nt # nts) (n # ns))))"
    using p r(1) ih(1) new by (simp add: io_bind_def acc1_def node_info_def)
  moreover have "wr_log w' = wr_log w @ (node_request c pid t nt, res) # log"
    using r(2) ih(3) p by (simp add: node_request_def)
  ultimately show ?case using ih(2,4)
    by (intro exI [of _ w'] exI [of _ "t1 + tm"] exI [of _ "n # ns"]
        exI [of _ "(node_request c pid t nt, res) # log"]) simp
qed

section \<open>Links\<close>

text \<open>A link of a well-formed template can always be built once its nodes exist.\<close>

lemma link_payload_ok:
  assumes "template_ok t" "l \<in> set (tt_Links t)" "set (node_names t) \<subseteq> set (map fst created)"
  shows "\<exists>j. link_payload t created l = Inr j"
proof -
  have ends: "(lt_NodeA l, lt_IfaceA l) \<in> set (link_ends t)" "(lt_NodeB l, lt_IfaceB l) \<in> set (link_ends t)"
    using assms(2) by (auto simp: link_ends_def)
  have "\<exists>n. mget created (fst e) = Some n" "\<exists>p. end_port t e = Inr p" if "e \<in> set (link_ends t)" for e
  proof -
    have "fst e \<in> set (node_names t)" "port_ok (end_port t e)"
      using that assms(1) by (auto simp: template_ok_def list_all_iff)
    then show "\<exists>n. mget created (fst e) = Some n" "\<exists>p. end_port t e = Inr p"
      using assms(3) map_of_eq_None_iff [of created "fst e"]
      by (auto simp: port_ok_def split: sum.splits)
  qed
  from this [OF ends(1)] this [OF ends(2)] show ?thesis
    by (auto simp: link_payload_def end_port_def)
qed

definition link_request ::
  "'s HTTPGNS3Client \<Rightarrow> string \<Rightarrow> TopologyTemplate \<Rightarrow> created \<Rightarrow> LinkTemplate \<Rightarrow> request" where
  "link_request c pid t created l =
     mk_request c ''POST'' (project_path pid ''/links'')
       (case link_payload t created l of Inr j \<Rightarrow> Some j | Inl _ \<Rightarrow> None)"

lemma create_links_ok:
  assumes "accepts c"
  shows "(\<forall>l\<in>set ls. \<exists>j. link_payload t created l = Inr j) \<Longrightarrow>
    \<exists>w' tm log. create_links c pid t created ls w = (w', tm, None)
      \<and> wr_log w' = wr_log w @ log \<and> map fst log = map (link_request c pid t created) ls"
proof (induction ls arbitrary: w)
  case Nil
  show ?case by (rule exI [of _ w]) (simp add: io_return_def)
next
  case (Cons l ls)
  obtain j where j: "link_payload t created l = Inr j" using Cons.prems by auto
  obtain w1 t1 res where r:
    "do_unit c ''POST'' (project_path pid ''/links'') (Some j) w = (w1, t1, None)"
    "wr_log w1 = wr_log w @ [(mk_request c ''POST'' (project_path pid ''/links'') (Some j), res)]"
    using post_unit [OF assms] by blast
  obtain w' tm log where ih: "create_links c pid t created ls w1 = (w', tm, None)"
    "wr_log w' = wr_log w1 @ log" "map fst log = map (link_request c pid t created) ls"
    using Cons.IH [of w1] Cons.prems by auto
  have "create_links c pid t created (l # ls) w = (w', t1 + tm, None)"
    using j r(1) ih(1) by (simp add: io_bind_def)
  moreover have "wr_log w' = wr_log w @ (link_request c pid t created l, res) # log"
    using r(2) ih(2) j by (simp add: link_request_def)
  ultimately show ?case using ih(3)
    by (intro exI [of _ w'] exI [of _ "t1 + tm"]
        exI [of _ "(link_request c pid t created l, res) # log"]) simp
qed

section \<open>Whole templates\<close>

lemma provision_ok:
  assumes "accepts c" "template_ok t"
  shows "\<exists>w' tm nodes created log.
    ProvisionTopology c pid t w = (w', tm, Inr nodes)
    \<and> map fst nodes = node_names t \<and> map fst created = node_names t
    \<and> wr_log w' = wr_log w @ log
    \<and> map fst log = map (node_request c pid t) (tt_Nodes t)
                    @ map (link_request c pid t created) (tt_Links t)"
proof -
  have ok: "list_all (\<lambda>n. nt_NodeType n \<in> set supported_types) (tt_Nodes t)"
    "distinct (map nt_Name (tt_Nodes t))"
    using assms(2) by (simp_all add: template_ok_def node_names_def)
  obtain w1 t1 ns log1 where n:
    "create_nodes c pid t (tt_Nodes t) ([], []) w =
       (w1, t1, Inr (zip (node_names t) ns, zip (node_names t) (map2 node_info (tt_Nodes t) ns)))"
    "length ns = length (tt_Nodes t)" "wr_log w1 = wr_log w @ log1"
    "map fst log1 = map (node_request c pid t) (tt_Nodes t)"
    using create_nodes_ok [OF assms(1) ok(1), where acc = "([], [])" and w = w and pid = pid and t = t]
      ok(2)
    by (auto simp: node_names_def)
  define created where "created = zip (node_names t) ns"
  have names: "map fst created = node_names t"
    using n(2) by (simp add: created_def node_names_def)
  have "\<forall>l\<in>set (tt_Links t). \<exists>j. link_payload t created l = Inr j"
  proof
    fix l
    assume "l \<in> set (tt_Links t)"
    then show "\<exists>j. link_payload t created l = Inr j"
      by (rule link_payload_ok [OF assms(2)]) (simp only: names)
  qed
  from create_links_ok [OF assms(1) this, where pid = pid and w = w1] obtain w' t2 log2 where l:
    "create_links c pid t created (tt_Links t) w1 = (w', t2, None)"
    "wr_log w' = wr_log w1 @ log2" "map fst log2 = map (link_request c pid t created) (tt_Links t)"
    by blast
  have "ProvisionTopology c pid t w =
      (w', t1 + t2, Inr (zip (node_names t) (map2 node_info (tt_Nodes t) ns)))"
    using n(1) l(1)
    by (simp add: ProvisionTopology_def io_bind_def createLinks_def io_return_def created_def)
  moreover have "map fst (zip (node_names t) (map2 node_info (tt_Nodes t) ns)) = node_names t"
    using n(2) by (simp add: node_names_def)
  ultimately show ?thesis using names n(3,4) l(2,3)
    by (intro exI [of _ w'] exI [of _ "t1 + t2"]
        exI [of _ "zip (node_names t) (map2 node_info (tt_Nodes t) ns)"] exI [of _ created]
        exI [of _ "log1 @ log2"]) simp
qed

text \<open>
  C3: every lab of the catalogue can be provisioned.  Against a server that accepts each POST,
  \<open>ProvisionTopology\<close> succeeds for the template of every lab number; the node map it returns has
  exactly the template's nodes, in order; and the requests on the wire are one per node followed
  by one per link, with the template's properties and the translated ports as bodies.
\<close>

theorem catalog_provisions:
  assumes "accepts c"
  shows "\<exists>w' tm nodes created log.
    ProvisionTopology c pid (lookupTopologyTemplate labID) w = (w', tm, Inr nodes)
    \<and> map fst nodes = node_names (lookupTopologyTemplate labID)
    \<and> map fst created = node_names (lookupTopologyTemplate labID)
    \<and> wr_log w' = wr_log w @ log
    \<and> map fst log =
        map (node_request c pid (lookupTopologyTemplate labID)) (tt_Nodes (lookupTopologyTemplate labID))
        @ map (link_request c pid (lookupTopologyTemplate labID) created)
              (tt_Links (lookupTopologyTemplate labID))"
  by (rule provision_ok [OF assms catalog_ok])

lemma fixed_accepts: "accepts (fixed_client 201 [] None)"
  by (simp add: accepts_def fixed_client_def NewHTTPGNS3Client_def)

theorem catalog_provisions_witness:
  "\<exists>w' tm nodes created log.
    ProvisionTopology (fixed_client 201 [] None) ''p1'' (lookupTopologyTemplate 1) wire0
      = (w', tm, Inr nodes)
    \<and> map fst nodes = node_names (lookupTopologyTemplate 1)
    \<and> map fst created = node_names (lookupTopologyTemplate 1)
    \<and> wr_log w' = wr_log wire0 @ log
    \<and> map fst log =
        map (node_request (fixed_client 201 [] None) ''p1'' (lookupTopologyTemplate 1))
            (tt_Nodes (lookupTopologyTemplate 1))
        @ map (link_request (fixed_client 201 [] None) ''p1'' (lookupTopologyTemplate 1) created)
              (tt_Links (lookupTopologyTemplate 1))"
  by (rule catalog_provisions [OF fixed_accepts])

end
