(* ===== verification/LegacyVerify.thy ===== *)
theory LegacyVerify
  imports Prelude
begin

text \<open>
  The client-trust verifiers of \<open>internal/verification\<close>: \<open>types.go\<close>, \<open>verifier.go\<close>, \<open>lab01.go\<close>,
  \<open>lab02.go\<close> and \<open>lab03.go\<close>.  A configuration the browser sends is a map of devices; a missing key
  reads as the zero value.  Loops over maps follow the order of the association list.
\<close>

section \<open>Types\<close>

record InterfaceState =
  if_Mode :: string
  if_VLAN :: int
  if_NativeVLAN :: int
  if_AllowedVLANs :: "int list"
  if_IP :: string
  if_Mask :: string
  if_Encap :: int
  if_Negotiation :: bool
  if_State :: string

record DeviceConfig =
  dc_Type :: string
  dc_VLANs :: "(int, string) gomap"
  dc_Interfaces :: "(string, InterfaceState) gomap"

type_synonym device_configs = "(string, DeviceConfig) gomap"

record GradeResult =
  gr_Passed :: bool
  gr_Score :: int
  gr_Failures :: "string list"
  gr_Hints :: "string list"
  gr_Message :: string

definition zero_if :: InterfaceState where
  "zero_if = \<lparr>if_Mode = [], if_VLAN = 0, if_NativeVLAN = 0, if_AllowedVLANs = [], if_IP = [],
     if_Mask = [], if_Encap = 0, if_Negotiation = False, if_State = []\<rparr>"

definition zero_dc :: DeviceConfig where
  "zero_dc = \<lparr>dc_Type = [], dc_VLANs = [], dc_Interfaces = []\<rparr>"

definition refusal :: "string \<Rightarrow> GradeResult" where
  "refusal msg = \<lparr>gr_Passed = False, gr_Score = 0, gr_Failures = [], gr_Hints = [], gr_Message = msg\<rparr>"

definition full_marks :: "string \<Rightarrow> GradeResult" where
  "full_marks msg = \<lparr>gr_Passed = True, gr_Score = 100, gr_Failures = [], gr_Hints = [], gr_Message = msg\<rparr>"

text \<open>\<open>LabVerifier\<close>: the method \<open>Verify\<close>.\<close>

type_synonym LabVerifier = "string \<Rightarrow> device_configs \<Rightarrow> GradeResult"

text \<open>A finding is a failure with its hint.\<close>

type_synonym finding = "string \<times> string"

definition result_of :: "finding list \<Rightarrow> GradeResult" where
  "result_of fs =
     (let n = int (length fs); total = n + 1; score = ((total - n) * 100) div total in
      if fs = [] then full_marks (''All objectives met '' @ em_dash @ '' phase complete!'')
      else \<lparr>gr_Passed = False, gr_Score = score, gr_Failures = map fst fs, gr_Hints = map snd fs,
            gr_Message = itoa n @ '' objective(s) not yet complete.''\<rparr>)"

definition check :: "bool \<Rightarrow> string \<Rightarrow> string \<Rightarrow> finding list" where
  "check bad failure hint = (if bad then [(failure, hint)] else [])"

section \<open>Lab 1\<close>

definition vlan_findings :: "string \<Rightarrow> DeviceConfig \<Rightarrow> finding list" where
  "vlan_findings sw dev = concat (map (\<lambda>vlan. check (mget (dc_VLANs dev) vlan = None)
     (sw @ '': VLAN '' @ itoa vlan @ '' not configured'') (sw @ ''(config)# vlan '' @ itoa vlan)) [10, 20, 99])"

definition subif_findings :: "DeviceConfig \<Rightarrow> int \<Rightarrow> finding list" where
  "subif_findings r1 vlan =
     (let v = itoa vlan; sub = mget0 zero_if (dc_Interfaces r1) (''GigabitEthernet0/0.'' @ v) in
      check (if_Encap sub \<noteq> vlan) (''R1: G0/0.'' @ v @ '' must have encapsulation dot1Q '' @ v)
        (''R1(config-subif)# encapsulation dot1Q '' @ v)
      @ check (if_IP sub = []) (''R1: G0/0.'' @ v @ '' must have an IP address (gateway for VLAN '' @ v @ '')'')
        (''R1(config-subif)# ip address 192.168.'' @ v @ ''.1 255.255.255.0''))"

definition lab1_build :: "device_configs \<Rightarrow> GradeResult" where
  "lab1_build cfg =
     (let sw1 = mget0 zero_dc cfg ''SW1''; sw2 = mget0 zero_dc cfg ''SW2''; r1 = mget0 zero_dc cfg ''R1'';
          sw1g01 = mget0 zero_if (dc_Interfaces sw1) ''GigabitEthernet0/1'';
          sw2g00 = mget0 zero_if (dc_Interfaces sw2) ''GigabitEthernet0/0''
      in result_of
          (vlan_findings ''SW1'' sw1 @ vlan_findings ''SW2'' sw2
           @ (if if_Mode sw1g01 \<noteq> ''trunk''
              then [(''SW1: G0/1 must be in trunk mode'', ''SW1(config-if)# switchport mode trunk'')]
              else check (if_NativeVLAN sw1g01 \<noteq> 999)
                ''SW1: G0/1 native VLAN must be 999 (prevents double-tag attacks)''
                ''SW1(config-if)# switchport trunk native vlan 999'')
           @ check (if_Mode sw2g00 \<noteq> ''trunk'') ''SW2: G0/0 must be in trunk mode (link toward SW1)''
                ''SW2(config-if)# switchport mode trunk''
           @ subif_findings r1 10 @ subif_findings r1 20))"

definition access_negotiates :: "InterfaceState \<Rightarrow> bool" where
  "access_negotiates i = (if_Mode i = ''access'' \<and> if_Negotiation i)"

definition right_arrow :: string where "right_arrow = [CHR 0xE2, CHR 0x86, CHR 0x92]"

definition lab1_harden :: "device_configs \<Rightarrow> GradeResult" where
  "lab1_harden cfg =
     (let sw2 = mget0 zero_dc cfg ''SW2'';
          f02 = mget0 zero_if (dc_Interfaces sw2) ''FastEthernet0/2'';
          sw1 = mget0 zero_dc cfg ''SW1''
      in result_of
          (check (if_Mode f02 = ''dynamic'' \<or> if_Mode f02 = ''trunk'')
             (''SW2: F0/2 (attacker port) is still vulnerable '' @ em_dash
                @ '' DTP enabled or in trunk mode'')
             ''SW2(config-if)# switchport mode access''
           @ check (if_Negotiation f02)
             (''SW2: F0/2 DTP negotiation still active '' @ em_dash @ '' attacker can re-negotiate trunk'')
             ''SW2(config-if)# switchport nonegotiate''
           @ concat (map (\<lambda>(name, i). check (access_negotiates i)
               (''SW1: '' @ name @ '' is access mode but DTP still active'')
               (''SW1(config-if)# interface '' @ name @ '' '' @ right_arrow @ '' switchport nonegotiate''))
             (dc_Interfaces sw1))))"

definition Lab1Verifier :: LabVerifier where
  "Lab1Verifier phase cfg =
     (if phase = ''build'' then lab1_build cfg
      else if phase = ''attack'' then full_marks ''Attack simulation complete.''
      else if phase = ''harden'' then lab1_harden cfg
      else refusal (''unknown phase: '' @ phase))"

section \<open>Labs 2 and 3\<close>

definition lab2_build :: "device_configs \<Rightarrow> GradeResult" where
  "lab2_build cfg =
     (let sw1 = mget0 zero_dc cfg ''SW1'';
          fs = concat (map (\<lambda>name.
            check (case mget (dc_Interfaces sw1) name of None \<Rightarrow> True | Some i \<Rightarrow> if_Mode i \<noteq> ''trunk'')
              (''SW1: '' @ name @ '' must be in trunk mode (inter-switch link)'')
              ''SW1(config-if)# switchport mode trunk'') [''GigabitEthernet0/0'', ''GigabitEthernet0/1''])
      in if fs = [] then full_marks ''STP topology configured. SW1 is root bridge.''
         else result_of fs)"

definition lab2_harden :: "device_configs \<Rightarrow> GradeResult" where
  "lab2_harden cfg = result_of (concat (map (\<lambda>(devName, dev).
     if dc_Type dev \<noteq> ''switch'' then []
     else concat (map (\<lambda>(ifName, i). check (access_negotiates i)
            (devName @ '': '' @ ifName @ '' needs BPDU Guard (nonegotiate)'')
            (devName @ ''(config-if)# spanning-tree bpduguard enable'')) (dc_Interfaces dev))) cfg))"

definition Lab2Verifier :: LabVerifier where
  "Lab2Verifier phase cfg =
     (if phase = ''build'' then lab2_build cfg
      else if phase = ''attack'' then full_marks ''Root bridge hijack simulation complete.''
      else if phase = ''harden'' then lab2_harden cfg
      else refusal (''unknown phase: '' @ phase))"

definition lab3_harden :: "device_configs \<Rightarrow> GradeResult" where
  "lab3_harden cfg =
     (let sw1 = mget0 zero_dc cfg ''SW1'';
          access = filter (\<lambda>e. if_Mode (snd e) = ''access'') (dc_Interfaces sw1)
      in result_of
          (concat (map (\<lambda>(ifName, i). check (if_Negotiation i)
             (''SW1: '' @ ifName @ '' '' @ em_dash @ '' port security / nonegotiate not configured'')
             (''SW1(config-if)# switchport port-security'' @ [CHR 0x0A]
                @ ''  switchport port-security maximum 2'' @ [CHR 0x0A]
                @ ''  switchport port-security violation shutdown'')) access)
           @ check (access = [])
             (''SW1: No access ports configured '' @ em_dash
                @ '' configure port security on all user-facing ports'')
             (''SW1(config-if)# switchport mode access'' @ [CHR 0x0A] @ ''  switchport port-security'')))"

definition Lab3Verifier :: LabVerifier where
  "Lab3Verifier phase cfg =
     (if phase = ''build''
      then full_marks ''Baseline topology ready. CAM table behavior understood.''
      else if phase = ''attack''
      then full_marks ''MAC flood simulation complete. CAM table overflow demonstrated.''
      else if phase = ''harden'' then lab3_harden cfg
      else refusal (''unknown phase: '' @ phase))"

section \<open>The registry\<close>

definition suspendedVerifier :: "LabVerifier \<Rightarrow> int \<Rightarrow> string \<Rightarrow> LabVerifier" where
  "suspendedVerifier inner labID title phase cfg =
     (inner phase cfg)\<lparr>gr_Passed := False, gr_Score := 0,
        gr_Message := ''Lab '' @ itoa labID @ '' ('' @ title @ '') '' @ em_dash @ '' '' @ phase
          @ '' phase: verification is temporarily suspended while the platform migrates to a new ''
          @ ''grading engine. Your existing work is preserved but new progress will not be recorded yet.''\<rparr>"

definition GenericVerifier :: "int \<Rightarrow> string \<Rightarrow> LabVerifier" where
  "GenericVerifier labID title phase cfg =
     refusal (''Lab '' @ itoa labID @ '' ('' @ title @ '') '' @ em_dash @ '' '' @ phase
       @ '' phase: verification is temporarily suspended. Your progress will not be recorded. ''
       @ ''Full verification is being migrated to a new engine '' @ em_dash @ '' check back soon.'')"

definition legacy_registry :: "(int, LabVerifier) gomap" where
  "legacy_registry =
    [(1, suspendedVerifier Lab1Verifier 1 ''VLAN Warfare''),
     (2, suspendedVerifier Lab2Verifier 2 ''STP Sabotage''),
     (3, suspendedVerifier Lab3Verifier 3 ''MAC Flood Chaos''),
     (4, GenericVerifier 4 ''OSPF Infiltration''), (5, GenericVerifier 5 ''HSRP Takeover''),
     (6, GenericVerifier 6 ''ACL Bypass Mission''), (7, GenericVerifier 7 ''CDP/LLDP Espionage''),
     (8, GenericVerifier 8 ''DHCP Starvation''), (9, GenericVerifier 9 ''NAT Unmasked''),
     (10, GenericVerifier 10 ''DNS Poisoning''), (11, GenericVerifier 11 ''SSH vs Telnet Autopsy''),
     (12, GenericVerifier 12 ''802.1X Port Lockdown''), (13, GenericVerifier 13 ''Wireless Evil Twin''),
     (14, GenericVerifier 14 ''IPv6 Neighbor Spoof'')]"

definition legacy_Get :: "int \<Rightarrow> gerr + LabVerifier" where
  "legacy_Get labID =
     (case mget legacy_registry labID of
        None \<Rightarrow> Inl (Errorf (''no verifier registered for lab '' @ itoa labID))
      | Some v \<Rightarrow> Inr v)"

lemma legacy_never_passes:
  "legacy_Get labID = Inr v \<Longrightarrow> \<not> gr_Passed (v phase cfg) \<and> gr_Score (v phase cfg) = 0"
  by (auto simp: legacy_Get_def legacy_registry_def suspendedVerifier_def GenericVerifier_def
      refusal_def split: if_splits option.splits)

text \<open>The grading of the inner verifiers: passed, full marks and an empty list of failures agree.\<close>

lemma result_of_score:
  "gr_Passed (result_of fs) = (fs = []) \<and> (gr_Score (result_of fs) = 100) = (fs = [])
   \<and> 0 \<le> gr_Score (result_of fs) \<and> gr_Score (result_of fs) \<le> 100
   \<and> length (gr_Failures (result_of fs)) = length (gr_Hints (result_of fs))"
proof (cases "fs = []")
  case False
  then have n: "1 \<le> int (length fs)" by (cases fs) auto
  have s: "gr_Score (result_of fs) = 100 div (int (length fs) + 1)"
    using False by (simp add: result_of_def Let_def)
  have "100 div (int (length fs) + 1) \<le> 100 div 2"
    by (rule zdiv_mono2) (use n in auto)
  moreover have "0 \<le> 100 div (int (length fs) + 1)" by (simp add: pos_imp_zdiv_nonneg_iff)
  ultimately show ?thesis using False s by (simp add: result_of_def Let_def)
qed (simp add: result_of_def full_marks_def)

end
