(* ===== verification/IosParse.thy ===== *)
theory IosParse
  imports Regex
begin

text \<open>
  \<open>internal/verify/parse.go\<close> and \<open>stp_parser.go\<close>: typed data out of the text of IOS \<open>show\<close>
  commands.  Ports, MAC addresses and duplex modes are strings in the source, too.
\<close>

section \<open>Typed evidence\<close>

record MACEntry =
  me_MAC :: string
  me_Port :: string
  me_VLAN :: int

type_synonym MACTable = "MACEntry list"

record InterfaceStatus =
  is_Name :: string
  is_AdminUp :: bool
  is_LinkUp :: bool
  is_ErrDisabled :: bool
  is_SpeedMbps :: int
  is_Duplex :: string
  is_Description :: string

record ErrdisableConfig =
  ec_Enabled :: bool
  ec_IntervalSec :: int
  ec_Causes :: "string list"

record STPInfo =
  st_IsRoot :: bool
  st_RootMAC :: string
  st_BridgeMAC :: string
  st_PortRoles :: "(string, string) gomap"

record PortSecurityInfo =
  ps_Enabled :: bool
  ps_MaxMACs :: int
  ps_ViolationCount :: int
  ps_ViolationMode :: string
  ps_StickyMACs :: "string list"

definition DuplexFull :: string where "DuplexFull = ''full''"
definition DuplexHalf :: string where "DuplexHalf = ''half''"

section \<open>MAC table\<close>

definition re_cisco :: "(char \<Rightarrow> bool) \<Rightarrow> re" where
  "re_cisco h = re_seq [re_rep 4 (RChr h), re_chr (CHR ''.''), re_rep 4 (RChr h),
     re_chr (CHR ''.''), re_rep 4 (RChr h)]"

definition macTableLineRe :: re where
  "macTableLineRe = re_seq
     [RBeginText, re_star re_s, RCap 1 (re_plus re_d), re_plus re_s, RCap 2 (re_cisco is_hexi),
      re_plus re_s, re_plus re_S, re_plus re_s, RCap 3 (re_plus re_S), re_star re_s, REndText]"

text \<open>\<open>hex[i:i+2]\<close> in steps of two; a last odd digit is dropped.\<close>

fun pairs_of :: "string \<Rightarrow> string list" where
  "pairs_of (a # b # s) = [a, b] # pairs_of s"
| "pairs_of _ = []"

definition normalizeMAC :: "string \<Rightarrow> string" where
  "normalizeMAC cisco = to_lower (join '':'' (pairs_of (remove_char (CHR ''.'') cisco)))"

definition mac_line :: "string \<Rightarrow> MACEntry option" where
  "mac_line line =
     (case re_FindSubmatch macTableLineRe line of
        None \<Rightarrow> None
      | Some m \<Rightarrow> Some \<lparr>me_MAC = normalizeMAC (group 2 m), me_Port = group 3 m,
                        me_VLAN = fst (atoi (group 1 m))\<rparr>)"

definition parseMACTable :: "string \<Rightarrow> MACTable" where
  "parseMACTable out = List.map_filter mac_line (split_on (CHR 0x0A) out)"

section \<open>Interfaces, errdisable, VLANs, ping\<close>

definition adminStateRe :: re where "adminStateRe = re_liti ''administratively down''"
definition lineProtoRe :: re where
  "lineProtoRe = re_seq [re_liti ''line protocol is '', RCap 1 (RAlt (re_liti ''up'') (re_liti ''down''))]"
definition errDisableRe :: re where "errDisableRe = re_liti ''err-disabled''"
definition speedRe :: re where
  "speedRe = re_seq [RCap 1 (re_plus re_d), re_star re_s, re_liti ''Mb'', re_opt (re_chr (CHR ''/'')),
     re_chri (CHR ''s'')]"
definition duplexRe :: re where
  "duplexRe = re_seq [RCap 1 (RAlt (re_liti ''full'') (re_liti ''half'')), re_liti ''-duplex'']"
definition descRe :: re where
  "descRe = re_seq [re_liti ''Description:'', re_star re_s, RCap 1 (re_plus re_dot)]"

definition parseInterfaceStatus :: "string \<Rightarrow> string \<Rightarrow> InterfaceStatus" where
  "parseInterfaceStatus out port =
     \<lparr>is_Name = port,
      is_AdminUp = (\<not> re_MatchString adminStateRe out),
      is_LinkUp = (case re_FindSubmatch lineProtoRe out of
                     Some m \<Rightarrow> equal_fold (group 1 m) ''up'' | None \<Rightarrow> False),
      is_ErrDisabled = re_MatchString errDisableRe out,
      is_SpeedMbps = (case re_FindSubmatch speedRe out of
                        Some m \<Rightarrow> fst (atoi (group 1 m)) | None \<Rightarrow> 0),
      is_Duplex = (case re_FindSubmatch duplexRe out of
                     Some m \<Rightarrow> to_lower (group 1 m) | None \<Rightarrow> []),
      is_Description = (case re_FindSubmatch descRe out of
                          Some m \<Rightarrow> trim_space (group 1 m) | None \<Rightarrow> [])\<rparr>"

definition errdisableIntervalRe :: re where
  "errdisableIntervalRe = re_seq [re_liti ''Timer interval:'', re_star re_s, RCap 1 (re_plus re_d),
     re_star re_s, re_liti ''seconds'']"

definition parseErrdisableRecovery :: "string \<Rightarrow> ErrdisableConfig" where
  "parseErrdisableRecovery out =
     \<lparr>ec_Enabled = (contains_str (to_lower out) ''enabled'' \<or> contains_str out ''Timer interval:''),
      ec_IntervalSec = (case re_FindSubmatch errdisableIntervalRe out of
                          Some m \<Rightarrow> fst (atoi (group 1 m)) | None \<Rightarrow> 0),
      ec_Causes = []\<rparr>"

definition pingSuccessRe :: re where
  "pingSuccessRe = re_seq [re_liti ''Success rate is '', RCap 1 (re_plus re_d), re_liti '' percent'']"

definition vlanRowRe :: re where
  "vlanRowRe = re_seq [RBeginText, RCap 1 (re_plus re_d), re_plus re_s, re_plus re_S, re_plus re_s,
     re_plus re_S, re_plus re_s, RCap 2 (re_star re_dot), REndText]"

definition assignPorts ::
  "(string, int) gomap \<Rightarrow> string \<Rightarrow> int \<Rightarrow> (string, int) gomap" where
  "assignPorts result portsField vlan =
     foldl (\<lambda>m p. let q = trim_space p in if q = [] then m else mput q vlan m)
       result (split_on (CHR '','') portsField)"

text \<open>One line of \<open>show vlan brief\<close>: the map and the VLAN that continuation lines belong to.\<close>

definition vlan_line :: "(string, int) gomap \<times> int \<Rightarrow> string \<Rightarrow> (string, int) gomap \<times> int" where
  "vlan_line st line =
     (let trimmed = trim_right (\<lambda>c. c = CHR '' '' \<or> c = CHR 0x0D) line in
      if trimmed = [] then st
      else case re_FindSubmatch vlanRowRe trimmed of
        Some m \<Rightarrow>
          (case atoi (group 1 m) of
             (_, Some e) \<Rightarrow> st
           | (vlan, None) \<Rightarrow> (assignPorts (fst st) (group 2 m) vlan, vlan))
      | None \<Rightarrow>
          if snd st \<ge> 0 \<and> contains_str trimmed ''Et''
          then (assignPorts (fst st) (trim_space trimmed) (snd st), snd st) else st)"

definition parseVlanBrief :: "string \<Rightarrow> (string, int) gomap" where
  "parseVlanBrief out = fst (foldl vlan_line ([], -1) (split_on (CHR 0x0A) out))"

definition parsePingResult :: "string \<Rightarrow> bool" where
  "parsePingResult out =
     (case re_FindSubmatch pingSuccessRe out of
        None \<Rightarrow> False
      | Some m \<Rightarrow> fst (atoi (group 1 m)) \<ge> 66)"

section \<open>Spanning tree and port security\<close>

definition is_hexl :: "char \<Rightarrow> bool" where
  "is_hexl c = (is_digit c \<or> (97 \<le> (of_char c :: nat) \<and> (of_char c :: nat) \<le> 102))"

definition re_bridge_block :: "string \<Rightarrow> re" where
  "re_bridge_block title = re_seq
     [RBeginLine, re_star re_s, re_lit title, RStar False re_dot, re_chr (CHR 0x0A),
      RStar False (re_seq [re_plus re_s, re_S, re_star re_dot, re_chr (CHR 0x0A)]),
      re_plus re_s, re_lit ''Address'', re_plus re_s, RCap 1 (re_cisco is_hexl)]"

definition rootAddrRe :: re where "rootAddrRe = re_bridge_block ''Root ID''"
definition isRootRe :: re where "isRootRe = re_lit ''This bridge is the root''"
definition bridgeAddrRe :: re where "bridgeAddrRe = re_bridge_block ''Bridge ID''"
definition stpRowRe :: re where
  "stpRowRe = re_seq [RBeginLine, RCap 1 (re_plus re_S), re_plus re_s, RCap 2 (re_plus re_S),
     re_plus re_s, RCap 3 (re_plus re_S), re_plus re_s, re_plus re_d, re_plus re_s,
     re_plus (RChr (\<lambda>c. is_digit c \<or> c = CHR ''.'')), re_plus re_s, re_plus re_S]"

definition normalizeSTPMAC :: "string \<Rightarrow> string" where
  "normalizeSTPMAC cisco = to_lower (join '':'' (pairs_of (remove_char (CHR ''.'') cisco)))"

definition stp_row :: "(string, string) gomap \<Rightarrow> re_caps \<Rightarrow> (string, string) gomap" where
  "stp_row roles m =
     (let iface = group 1 m; l = to_lower iface in
      if \<not> has_prefix l ''et'' \<and> \<not> has_prefix l ''gi'' \<and> \<not> has_prefix l ''fa'' then roles
      else mput iface (group 2 m) roles)"

definition ParseSTP :: "string \<Rightarrow> gerr + STPInfo" where
  "ParseSTP output = Inr
     \<lparr>st_IsRoot = re_MatchString isRootRe output,
      st_RootMAC = (case re_FindSubmatch rootAddrRe output of
                      Some m \<Rightarrow> normalizeSTPMAC (group 1 m) | None \<Rightarrow> []),
      st_BridgeMAC = (case re_FindSubmatch bridgeAddrRe output of
                        Some m \<Rightarrow> normalizeSTPMAC (group 1 m) | None \<Rightarrow> []),
      st_PortRoles = foldl stp_row [] (re_FindAllSubmatch stpRowRe output)\<rparr>"

definition port_security_field :: "PortSecurityInfo \<Rightarrow> string \<Rightarrow> string \<Rightarrow> PortSecurityInfo" where
  "port_security_field info key val =
     (if key = ''Port Security'' then info\<lparr>ps_Enabled := equal_fold val ''Enabled''\<rparr>
      else if key = ''Maximum MAC Addresses'' then info\<lparr>ps_MaxMACs := fst (atoi val)\<rparr>
      else if key = ''Security Violation Count'' then info\<lparr>ps_ViolationCount := fst (atoi val)\<rparr>
      else if key = ''Violation Mode'' then info\<lparr>ps_ViolationMode := to_lower val\<rparr>
      else if key = ''Sticky MAC Addresses'' then
        (if fst (atoi val) > 0 then info\<lparr>ps_StickyMACs := []\<rparr> else info)
      else info)"

definition port_security_line :: "PortSecurityInfo \<Rightarrow> string \<Rightarrow> PortSecurityInfo" where
  "port_security_line info rawline =
     (let line = trim_space rawline in
      if line = [] then info
      else case split2 (CHR '':'') line of
        [k, v] \<Rightarrow> port_security_field info (trim_space k) (trim_space v)
      | _ \<Rightarrow> info)"

definition ParsePortSecurity :: "string \<Rightarrow> gerr + PortSecurityInfo" where
  "ParsePortSecurity output = Inr
     (foldl port_security_line
       \<lparr>ps_Enabled = False, ps_MaxMACs = 0, ps_ViolationCount = 0, ps_ViolationMode = [],
        ps_StickyMACs = []\<rparr>
       (split_on (CHR 0x0A) output))"

section \<open>What a line of the MAC table is\<close>

definition cisco_mac :: "(char \<Rightarrow> bool) \<Rightarrow> string \<Rightarrow> bool" where
  "cisco_mac h s = list_all2 (\<lambda>P c. P c)
     [h, h, h, h, \<lambda>c. c = CHR ''.'', h, h, h, h, \<lambda>c. c = CHR ''.'', h, h, h, h] s"

lemma re_cisco_preds: "re_preds (re_cisco h) =
    Some [h, h, h, h, \<lambda>c. c = CHR ''.'', h, h, h, h, \<lambda>c. c = CHR ''.'', h, h, h, h]"
  by (simp add: re_cisco_def re_chr_def eval_nat_numeral)

lemma cap_cisco:
  "re_mt (RCap i (re_cisco h)) u v \<Longrightarrow>
     \<exists>w. snd v = (i, w) # snd u \<and> snd (fst u) = w @ snd (fst v) \<and> cisco_mac h w"
  unfolding cisco_mac_def by (rule re_preds_capture [OF re_cisco_preds])

lemma eats_cisco: "cisco_mac h w \<Longrightarrow> eats (re_cisco h) w (\<lambda>cs. cs)"
  unfolding cisco_mac_def by (rule eats_preds [OF re_cisco_preds])

text \<open>The columns of a line: blanks, VLAN, address, type, port, and the blanks between them.\<close>

record mac_row =
  mr_indent :: string
  mr_vlan :: string
  mr_sp1 :: string
  mr_mac :: string
  mr_sp2 :: string
  mr_type :: string
  mr_sp3 :: string
  mr_port :: string
  mr_trail :: string

definition mac_row_ok :: "mac_row \<Rightarrow> bool" where
  "mac_row_ok r =
     (list_all is_re_space (mr_indent r)
      \<and> mr_vlan r \<noteq> [] \<and> list_all is_digit (mr_vlan r)
      \<and> mr_sp1 r \<noteq> [] \<and> list_all is_re_space (mr_sp1 r)
      \<and> cisco_mac is_hexi (mr_mac r)
      \<and> mr_sp2 r \<noteq> [] \<and> list_all is_re_space (mr_sp2 r)
      \<and> mr_type r \<noteq> [] \<and> list_all (\<lambda>c. \<not> is_re_space c) (mr_type r)
      \<and> mr_sp3 r \<noteq> [] \<and> list_all is_re_space (mr_sp3 r)
      \<and> mr_port r \<noteq> [] \<and> list_all (\<lambda>c. \<not> is_re_space c) (mr_port r)
      \<and> list_all is_re_space (mr_trail r))"

definition mac_row_text :: "mac_row \<Rightarrow> string" where
  "mac_row_text r = mr_indent r @ mr_vlan r @ mr_sp1 r @ mr_mac r @ mr_sp2 r @ mr_type r @ mr_sp3 r
     @ mr_port r @ mr_trail r"

definition mac_row_entry :: "mac_row \<Rightarrow> MACEntry" where
  "mac_row_entry r = \<lparr>me_MAC = normalizeMAC (mr_mac r), me_Port = mr_port r,
                      me_VLAN = fst (atoi (mr_vlan r))\<rparr>"

lemma mac_line_sound:
  assumes "re_mt macTableLineRe u v"
  shows "\<exists>r. mac_row_ok r \<and> snd (fst u) = mac_row_text r
    \<and> snd v = [(3, mr_port r), (2, mr_mac r), (1, mr_vlan r)] @ snd u \<and> fst (fst u) = None"
proof -
  from assms obtain a b c d e f g h i j where m:
    "re_mt RBeginText u a" "re_mt (RStar True (RChr is_re_space)) a b"
    "re_mt (RCap 1 (re_plus (RChr is_digit))) b c" "re_mt (re_plus (RChr is_re_space)) c d"
    "re_mt (RCap 2 (re_cisco is_hexi)) d e" "re_mt (re_plus (RChr is_re_space)) e f"
    "re_mt (re_plus (RChr (\<lambda>c. \<not> is_re_space c))) f g" "re_mt (re_plus (RChr is_re_space)) g h"
    "re_mt (RCap 3 (re_plus (RChr (\<lambda>c. \<not> is_re_space c)))) h i"
    "re_mt (RStar True (RChr is_re_space)) i j" "re_mt REndText j v"
    unfolding macTableLineRe_def re_seq.simps re_star_def re_s_def re_S_def re_d_def
    by (elim mt_catE)
  from btext [OF m(1)] star_word [OF m(2) refl] obtain w0 where w0:
    "snd (fst u) = w0 @ snd (fst b)" "list_all is_re_space w0" "snd b = snd u" "fst (fst u) = None" by auto
  from cap_plus_word [OF m(3)] obtain w1 where w1: "w1 \<noteq> []" "snd (fst b) = w1 @ snd (fst c)"
    "list_all is_digit w1" "snd c = (1, w1) # snd b" by auto
  from plus_word [OF m(4)] obtain w2 where w2: "w2 \<noteq> []" "snd (fst c) = w2 @ snd (fst d)"
    "list_all is_re_space w2" "snd d = snd c" by auto
  from cap_cisco [OF m(5)] obtain w3 where w3: "snd (fst d) = w3 @ snd (fst e)"
    "cisco_mac is_hexi w3" "snd e = (2, w3) # snd d" by auto
  from plus_word [OF m(6)] obtain w4 where w4: "w4 \<noteq> []" "snd (fst e) = w4 @ snd (fst f)"
    "list_all is_re_space w4" "snd f = snd e" by auto
  from plus_word [OF m(7)] obtain w5 where w5: "w5 \<noteq> []" "snd (fst f) = w5 @ snd (fst g)"
    "list_all (\<lambda>c. \<not> is_re_space c) w5" "snd g = snd f" by auto
  from plus_word [OF m(8)] obtain w6 where w6: "w6 \<noteq> []" "snd (fst g) = w6 @ snd (fst h)"
    "list_all is_re_space w6" "snd h = snd g" by auto
  from cap_plus_word [OF m(9)] obtain w7 where w7: "w7 \<noteq> []" "snd (fst h) = w7 @ snd (fst i)"
    "list_all (\<lambda>c. \<not> is_re_space c) w7" "snd i = (3, w7) # snd h" by auto
  from star_word [OF m(10) refl] etext [OF m(11)] obtain w8 where w8:
    "snd (fst i) = w8" "list_all is_re_space w8" "snd v = snd i" by auto
  show ?thesis
    by (rule exI [of _ "\<lparr>mr_indent = w0, mr_vlan = w1, mr_sp1 = w2, mr_mac = w3, mr_sp2 = w4,
          mr_type = w5, mr_sp3 = w6, mr_port = w7, mr_trail = w8\<rparr>"])
       (simp add: mac_row_ok_def mac_row_text_def w0 w1 w2 w3 w4 w5 w6 w7 w8)
qed

lemma mac_line_complete:
  assumes "mac_row_ok r"
  shows "\<exists>v. re_mt macTableLineRe ((None, mac_row_text r), []) v"
proof -
  note o = assms [unfolded mac_row_ok_def]
  have e: "eats (RStar True (RChr is_re_space)) (mr_indent r) (\<lambda>cs. cs)"
      "eats (RCap 1 (re_plus (RChr is_digit))) (mr_vlan r) (\<lambda>cs. (1, mr_vlan r) # cs)"
      "eats (re_plus (RChr is_re_space)) (mr_sp1 r) (\<lambda>cs. cs)"
      "eats (RCap 2 (re_cisco is_hexi)) (mr_mac r) (\<lambda>cs. (2, mr_mac r) # cs)"
      "eats (re_plus (RChr is_re_space)) (mr_sp2 r) (\<lambda>cs. cs)"
      "eats (re_plus (RChr (\<lambda>c. \<not> is_re_space c))) (mr_type r) (\<lambda>cs. cs)"
      "eats (re_plus (RChr is_re_space)) (mr_sp3 r) (\<lambda>cs. cs)"
      "eats (RCap 3 (re_plus (RChr (\<lambda>c. \<not> is_re_space c)))) (mr_port r) (\<lambda>cs. (3, mr_port r) # cs)"
      "eats (RStar True (RChr is_re_space)) (mr_trail r) (\<lambda>cs. cs)"
    by (intro eats_star eats_plus eats_cap eats_cisco; use o in simp)+
  note ee = eats_ends [OF e(1) eats_ends [OF e(2) eats_ends [OF e(3) eats_ends [OF e(4)
    eats_ends [OF e(5) eats_ends [OF e(6) eats_ends [OF e(7) eats_ends [OF e(8)
    eats_ends [OF e(9) ends_etext]]]]]]]]]
  from ends_btext [OF ee] show ?thesis
    by (simp add: macTableLineRe_def re_star_def re_s_def re_S_def re_d_def mac_row_text_def)
qed

lemma class_disjoint:
  "is_digit c \<Longrightarrow> \<not> is_re_space c" "is_hexi c \<Longrightarrow> \<not> is_re_space c"
  by (auto simp: is_digit_def is_re_space_def is_hexi_def to_lower_char_def)

lemma list_all_hd: "list_all P s \<Longrightarrow> s \<noteq> [] \<Longrightarrow> P (hd s)"
  by (cases s) auto

lemma cisco_len: "cisco_mac h s \<Longrightarrow> length s = 14"
  by (auto simp: cisco_mac_def dest: list_all2_lengthD)

lemma cisco_hd: "cisco_mac is_hexi s \<Longrightarrow> s \<noteq> [] \<and> \<not> is_re_space (hd s)"
  by (auto simp: cisco_mac_def list_all2_Cons1 class_disjoint)

lemma mac_row_unique:
  assumes "mac_row_ok r" "mac_row_ok q" "mac_row_text r = mac_row_text q"
  shows "r = q"
proof -
  let ?sp = is_re_space and ?ns = "\<lambda>c. \<not> is_re_space c"
  note o = assms(1) [unfolded mac_row_ok_def] and o' = assms(2) [unfolded mac_row_ok_def]
  have b: "\<not> ?sp (hd (x @ y))" if "x \<noteq> []" "list_all ?ns x" for x y
    using that by (cases x) auto
  have d: "\<not> ?sp (hd (x @ y))" if "x \<noteq> []" "list_all is_digit x" for x y
    using that class_disjoint(1) by (cases x) auto
  have g: "\<not> is_digit (hd (x @ y))" "\<not> ?ns (hd (x @ y))" if "x \<noteq> []" "list_all ?sp x" for x y
    using that class_disjoint(1) by (cases x; auto)+
  have n: "\<not> ?sp (hd (x @ y))" if "cisco_mac is_hexi x" for x y
    using cisco_hd [OF that] by (cases x) auto
  have 1: "mr_indent r = mr_indent q \<and> mr_vlan r @ mr_sp1 r @ mr_mac r @ mr_sp2 r @ mr_type r @ mr_sp3 r @ mr_port r @ mr_trail r
      = mr_vlan q @ mr_sp1 q @ mr_mac q @ mr_sp2 q @ mr_type q @ mr_sp3 q @ mr_port q @ mr_trail q"
    by (rule run_unique [of ?sp]) (use o o' assms(3) d in \<open>auto simp: mac_row_text_def\<close>)
  have 2: "mr_vlan r = mr_vlan q \<and> mr_sp1 r @ mr_mac r @ mr_sp2 r @ mr_type r @ mr_sp3 r @ mr_port r @ mr_trail r
      = mr_sp1 q @ mr_mac q @ mr_sp2 q @ mr_type q @ mr_sp3 q @ mr_port q @ mr_trail q"
    by (rule run_unique [of is_digit]) (use o o' 1 g in auto)
  have 3: "mr_sp1 r = mr_sp1 q \<and> mr_mac r @ mr_sp2 r @ mr_type r @ mr_sp3 r @ mr_port r @ mr_trail r
      = mr_mac q @ mr_sp2 q @ mr_type q @ mr_sp3 q @ mr_port q @ mr_trail q"
    by (rule run_unique [of ?sp]) (use o o' 2 n in auto)
  have 4: "mr_mac r = mr_mac q \<and> mr_sp2 r @ mr_type r @ mr_sp3 r @ mr_port r @ mr_trail r
      = mr_sp2 q @ mr_type q @ mr_sp3 q @ mr_port q @ mr_trail q"
    using 3 cisco_len [of is_hexi "mr_mac r"] cisco_len [of is_hexi "mr_mac q"] o o'
    by (simp add: append_eq_append_conv)
  have 5: "mr_sp2 r = mr_sp2 q \<and> mr_type r @ mr_sp3 r @ mr_port r @ mr_trail r
      = mr_type q @ mr_sp3 q @ mr_port q @ mr_trail q"
    by (rule run_unique [of ?sp]) (use o o' 4 b in auto)
  have 6: "mr_type r = mr_type q \<and> mr_sp3 r @ mr_port r @ mr_trail r = mr_sp3 q @ mr_port q @ mr_trail q"
    by (rule run_unique [of ?ns]) (use o o' 5 g in auto)
  have 7: "mr_sp3 r = mr_sp3 q \<and> mr_port r @ mr_trail r = mr_port q @ mr_trail q"
    by (rule run_unique [of ?sp]) (use o o' 6 b in auto)
  have 8: "mr_port r = mr_port q \<and> mr_trail r = mr_trail q"
    by (rule run_unique [of ?ns]) (use o o' 7 list_all_hd in auto)
  show ?thesis using 1 2 3 4 5 6 7 8 by simp
qed

text \<open>A line parses exactly if it has these columns, and then to what they say.\<close>

lemma mac_line_iff:
  "mac_line line = Some e \<longleftrightarrow> (\<exists>r. mac_row_ok r \<and> line = mac_row_text r \<and> e = mac_row_entry r)"
proof
  assume "mac_line line = Some e"
  then obtain m where m: "re_FindSubmatch macTableLineRe line = Some m"
      "e = \<lparr>me_MAC = normalizeMAC (group 2 m), me_Port = group 3 m, me_VLAN = fst (atoi (group 1 m))\<rparr>"
    by (auto simp: mac_line_def split: option.splits)
  from m(1) obtain x y ds where x: "x \<in> set (positions None line)" "re_mt macTableLineRe (x, []) (y, ds)"
     "m = (0, take (length (snd x) - length (snd y)) (snd x)) # ds"
    unfolding re_FindSubmatch_def using re_search_sound [of macTableLineRe None line]
    by (fastforce elim!: mt_capE)
  from mac_line_sound [OF x(2)] obtain r where r: "mac_row_ok r" "snd x = mac_row_text r"
    "ds = [(3, mr_port r), (2, mr_mac r), (1, mr_vlan r)]" "fst x = None" by auto
  have "snd x = line" using x(1) r(4) positions_begin by blast
  then show "\<exists>r. mac_row_ok r \<and> line = mac_row_text r \<and> e = mac_row_entry r"
    using r m(2) x(3) by (auto simp: mac_row_entry_def group_def)
next
  assume "\<exists>r. mac_row_ok r \<and> line = mac_row_text r \<and> e = mac_row_entry r"
  then obtain r where r: "mac_row_ok r" "line = mac_row_text r" "e = mac_row_entry r" by blast
  have "(None, line) \<in> set (positions None line)" by (cases line) auto
  then have "re_search macTableLineRe None line \<noteq> None"
    using mac_line_complete [OF r(1)] r(2) re_search_iff by blast
  then obtain m where m: "re_FindSubmatch macTableLineRe line = Some m"
    by (auto simp: re_FindSubmatch_def)
  from m obtain x y ds where x: "x \<in> set (positions None line)" "re_mt macTableLineRe (x, []) (y, ds)"
     "m = (0, take (length (snd x) - length (snd y)) (snd x)) # ds"
    unfolding re_FindSubmatch_def using re_search_sound [of macTableLineRe None line]
    by (fastforce elim!: mt_capE)
  from mac_line_sound [OF x(2)] obtain q where q: "mac_row_ok q" "snd x = mac_row_text q"
    "ds = [(3, mr_port q), (2, mr_mac q), (1, mr_vlan q)]" "fst x = None" by auto
  have "snd x = line" using x(1) q(4) positions_begin by blast
  then have "q = r" using mac_row_unique [OF q(1) r(1)] q(2) r(2) by simp
  then show "mac_line line = Some e"
    using m x(3) q(3) r(3) by (simp add: mac_line_def mac_row_entry_def group_def)
qed

definition mac_noise :: "string \<Rightarrow> bool" where
  "mac_noise line = (case dropWhile is_re_space line of [] \<Rightarrow> True | c # cs \<Rightarrow> \<not> is_digit c)"

lemma mac_noise_line: "mac_noise line \<Longrightarrow> mac_line line = None"
proof (rule ccontr)
  assume n: "mac_noise line" and "mac_line line \<noteq> None"
  then obtain r where r: "mac_row_ok r" "line = mac_row_text r" using mac_line_iff by blast
  then obtain c cs where c: "mr_vlan r = c # cs" "is_digit c" "list_all is_re_space (mr_indent r)"
    by (cases "mr_vlan r") (auto simp: mac_row_ok_def)
  then have "dropWhile is_re_space line = c # cs @ mr_sp1 r @ mr_mac r @ mr_sp2 r @ mr_type r
      @ mr_sp3 r @ mr_port r @ mr_trail r"
    using r(2) class_disjoint(1) [OF c(2)] by (simp add: mac_row_text_def list_all_iff)
  then show False using n c(2) by (simp add: mac_noise_def)
qed

lemma mac_line_row: "mac_row_ok r \<Longrightarrow> mac_line (mac_row_text r) = Some (mac_row_entry r)"
  using mac_line_iff by blast

text \<open>The canonical form of addresses: six pairs of lower-case hexadecimal digits.\<close>

definition canonical_mac :: "string \<Rightarrow> bool" where
  "canonical_mac s = list_all2 (\<lambda>P c. P c)
     [is_hexl, is_hexl, \<lambda>c. c = CHR '':'', is_hexl, is_hexl, \<lambda>c. c = CHR '':'',
      is_hexl, is_hexl, \<lambda>c. c = CHR '':'', is_hexl, is_hexl, \<lambda>c. c = CHR '':'',
      is_hexl, is_hexl, \<lambda>c. c = CHR '':'', is_hexl, is_hexl] s"

lemma hexi_lower: "is_hexi c \<Longrightarrow> is_hexl (to_lower_char c)"
  by (auto simp: is_hexi_def is_hexl_def is_digit_def to_lower_char_def Let_def)

lemma hexi_not_dot [simp]: "is_hexi c \<Longrightarrow> c \<noteq> CHR ''.''"
  by (auto simp: is_hexi_def is_digit_def to_lower_char_def)

lemma normalizeMAC_canonical: "cisco_mac is_hexi s \<Longrightarrow> canonical_mac (normalizeMAC s)"
  by (auto simp: cisco_mac_def list_all2_Cons1 normalizeMAC_def remove_char_def canonical_mac_def
      to_lower_def hexi_lower) (simp_all add: to_lower_char_def)

lemma atoi_digits_nonneg: "list_all is_digit s \<Longrightarrow> 0 \<le> fst (atoi s)"
  by (cases s) (auto simp: atoi_def Let_def int64_max_def int64_min_def)

section \<open>Properties\<close>

lemma mac_line_ok:
  assumes "mac_line line = Some e"
  shows "canonical_mac (me_MAC e) \<and> me_Port e \<noteq> [] \<and> list_all (\<lambda>c. \<not> is_re_space c) (me_Port e)
    \<and> 0 \<le> me_VLAN e"
proof -
  from assms obtain r where "mac_row_ok r" "e = mac_row_entry r" using mac_line_iff by blast
  then show ?thesis
    by (simp add: mac_row_ok_def mac_row_entry_def normalizeMAC_canonical atoi_digits_nonneg)
qed

lemma parseMACTable_canonical: "list_all (\<lambda>e. canonical_mac (me_MAC e)) (parseMACTable out)"
  using mac_line_ok by (auto simp: parseMACTable_def map_filter_def list_all_iff)

text \<open>
  C12: every entry read from a MAC table has a canonical address, a port name without blanks and a
  VLAN number that is not negative, whatever the text is.
\<close>

theorem mac_table_entries_ok:
  "list_all (\<lambda>e. canonical_mac (me_MAC e) \<and> me_Port e \<noteq> []
       \<and> list_all (\<lambda>c. \<not> is_re_space c) (me_Port e) \<and> 0 \<le> me_VLAN e) (parseMACTable out)"
  using mac_line_ok by (auto simp: parseMACTable_def map_filter_def list_all_iff)

text \<open>
  C11: a table printed in the IOS layout, with heading and prompt lines around it, is read back row
  by row and in order.
\<close>

theorem mac_table_roundtrip:
  assumes "list_all mac_row_ok rows" "list_all mac_noise (pre @ post)"
    and "list_all (\<lambda>l. CHR 0x0A \<notin> set l) (pre @ map mac_row_text rows @ post)"
    and "pre @ map mac_row_text rows @ post \<noteq> []"
  shows "parseMACTable (join [CHR 0x0A] (pre @ map mac_row_text rows @ post)) = map mac_row_entry rows"
proof -
  have n: "List.map_filter mac_line ls = []" if "list_all mac_noise ls" for ls
    using that by (induction ls) (auto simp: List.map_filter_simps mac_noise_line)
  have r: "List.map_filter mac_line (map mac_row_text rs) = map mac_row_entry rs"
    if "list_all mac_row_ok rs" for rs
    using that by (induction rs) (auto simp: List.map_filter_simps mac_line_row)
  have a: "List.map_filter mac_line (xs @ ys) = List.map_filter mac_line xs @ List.map_filter mac_line ys"
    for xs ys by (simp add: map_filter_def)
  have "parseMACTable (join [CHR 0x0A] (pre @ map mac_row_text rows @ post))
      = List.map_filter mac_line (pre @ map mac_row_text rows @ post)"
    unfolding parseMACTable_def using assms(3,4) by (subst split_on_join) (auto simp: list_all_iff)
  then show ?thesis using assms(1,2) n r by (simp add: a)
qed

definition demo_row :: mac_row where
  "demo_row = \<lparr>mr_indent = ''   '', mr_vlan = ''1'', mr_sp1 = ''    '', mr_mac = ''AABB.cc00.0c10'',
     mr_sp2 = ''    '', mr_type = ''DYNAMIC'', mr_sp3 = ''     '', mr_port = ''Et0/1'', mr_trail = [CHR 0x0D]\<rparr>"

theorem mac_table_roundtrip_witness:
  "parseMACTable (join [CHR 0x0A] ([''Vlan    Mac Address''] @ map mac_row_text [demo_row] @ [''SW1#'']))
     = [\<lparr>me_MAC = ''aa:bb:cc:00:0c:10'', me_Port = ''Et0/1'', me_VLAN = 1\<rparr>]"
proof -
  have "list_all mac_row_ok [demo_row]" by code_simp
  moreover have "list_all mac_noise ([''Vlan    Mac Address''] @ [''SW1#''])" by code_simp
  moreover have "list_all (\<lambda>l. CHR 0x0A \<notin> set l)
      ([''Vlan    Mac Address''] @ map mac_row_text [demo_row] @ [''SW1#''])" by code_simp
  moreover have "map mac_row_entry [demo_row]
      = [\<lparr>me_MAC = ''aa:bb:cc:00:0c:10'', me_Port = ''Et0/1'', me_VLAN = 1\<rparr>]" by code_simp
  ultimately show ?thesis
    using mac_table_roundtrip [of "[demo_row]" "[''Vlan    Mac Address'']" "[''SW1#'']"] by simp
qed

end
