(* ===== verification/VerifyEvidence.thy ===== *)
theory VerifyEvidence
  imports IosParse
begin

text \<open>
  \<open>internal/verify/evidence.go\<close>, \<open>evidence_additions.go\<close> and \<open>ios_collector.go\<close>: the collector
  interface, the per-run cache in front of it, and the collector that speaks IOS.  A collector works
  on an outside state \<open>'s\<close> (the devices and the network); every call threads it.  The run holds the
  store's mutex around each read, so a read is one step.
\<close>

section \<open>Evidence\<close>

record Evidence =
  ev_MACTable :: MACTable
  ev_Interfaces :: "(string, InterfaceStatus) gomap"
  ev_RunningConfig :: string
  ev_Errdisable :: ErrdisableConfig
  ev_Reachability :: "(string, bool) gomap"
  ev_STP :: "STPInfo option"
  ev_PortSecurities :: "(string, PortSecurityInfo) gomap"
  ev_VLANs :: "(string, int) gomap"

fun PortFor :: "MACTable \<Rightarrow> string \<Rightarrow> string option" where
  "PortFor [] mac = None"
| "PortFor (e # t) mac = (if me_MAC e = mac then Some (me_Port e) else PortFor t mac)"

definition zero_iface :: InterfaceStatus where
  "zero_iface = \<lparr>is_Name = [], is_AdminUp = False, is_LinkUp = False, is_ErrDisabled = False,
     is_SpeedMbps = 0, is_Duplex = [], is_Description = []\<rparr>"

definition zero_stp :: STPInfo where
  "zero_stp = \<lparr>st_IsRoot = False, st_RootMAC = [], st_BridgeMAC = [], st_PortRoles = []\<rparr>"

definition zero_ps :: PortSecurityInfo where
  "zero_ps = \<lparr>ps_Enabled = False, ps_MaxMACs = 0, ps_ViolationCount = 0, ps_ViolationMode = [],
     ps_StickyMACs = []\<rparr>"

definition zero_evidence :: Evidence where
  "zero_evidence = \<lparr>ev_MACTable = [], ev_Interfaces = [], ev_RunningConfig = [],
     ev_Errdisable = \<lparr>ec_Enabled = False, ec_IntervalSec = 0, ec_Causes = []\<rparr>,
     ev_Reachability = [], ev_STP = None, ev_PortSecurities = [], ev_VLANs = []\<rparr>"

section \<open>The collector interface\<close>

record 's Collector =
  co_MACTable :: "'s \<Rightarrow> 's \<times> (gerr + MACTable)"
  co_Interfaces :: "string list \<Rightarrow> 's \<Rightarrow> 's \<times> (gerr + (string, InterfaceStatus) gomap)"
  co_RunningConfig :: "'s \<Rightarrow> 's \<times> (gerr + string)"
  co_Errdisable :: "'s \<Rightarrow> 's \<times> (gerr + ErrdisableConfig)"
  co_Reachability :: "string list \<Rightarrow> 's \<Rightarrow> 's \<times> (gerr + (string, bool) gomap)"
  co_VLANs :: "'s \<Rightarrow> 's \<times> (gerr + (string, int) gomap)"
  co_STP :: "'s \<Rightarrow> 's \<times> (gerr + STPInfo)"
  co_PortSecurity :: "string \<Rightarrow> 's \<Rightarrow> 's \<times> (gerr + PortSecurityInfo)"

section \<open>The evidence store\<close>

record EvidenceStore =
  es_evidence :: Evidence
  es_fetched :: "(string, bool) gomap"

definition NewEvidenceStore :: EvidenceStore where
  "NewEvidenceStore = \<lparr>es_evidence = zero_evidence, es_fetched = []\<rparr>"

type_synonym 's vst = "EvidenceStore \<times> 's"

definition fetched :: "EvidenceStore \<Rightarrow> string \<Rightarrow> bool" where
  "fetched es key = mget0 False (es_fetched es) key"

definition remember :: "string \<Rightarrow> (Evidence \<Rightarrow> Evidence) \<Rightarrow> EvidenceStore \<Rightarrow> EvidenceStore" where
  "remember key f es =
     es\<lparr>es_evidence := f (es_evidence es), es_fetched := mput key True (es_fetched es)\<rparr>"

text \<open>\<open>for k, v := range got { m[k] = v }\<close>\<close>

definition merge_into :: "('k, 'v) gomap \<Rightarrow> ('k, 'v) gomap \<Rightarrow> ('k, 'v) gomap" where
  "merge_into m got = foldl (\<lambda>a kv. mput (fst kv) (snd kv) a) m got"

definition evMACTable :: "'s Collector \<Rightarrow> 's vst \<Rightarrow> 's vst \<times> (gerr + MACTable)" where
  "evMACTable c st =
     (case st of (es, s) \<Rightarrow>
      if fetched es ''mac_table'' then (st, Inr (ev_MACTable (es_evidence es)))
      else (case co_MACTable c s of
              (s1, Inl e) \<Rightarrow> ((es, s1), Inl (Wrapf ''collect mac table: '' e []))
            | (s1, Inr t) \<Rightarrow> ((remember ''mac_table'' (ev_MACTable_update (\<lambda>_. t)) es, s1), Inr t)))"

definition evInterface :: "'s Collector \<Rightarrow> string \<Rightarrow> 's vst \<Rightarrow> 's vst \<times> (gerr + InterfaceStatus)" where
  "evInterface c port st =
     (case st of (es, s) \<Rightarrow>
      case mget (ev_Interfaces (es_evidence es)) port of
        Some iface \<Rightarrow> (st, Inr iface)
      | None \<Rightarrow>
          (case co_Interfaces c [port] s of
             (s1, Inl e) \<Rightarrow> ((es, s1), Inl (Wrapf (''collect interface '' @ port @ '': '') e []))
           | (s1, Inr got) \<Rightarrow>
               let m = merge_into (ev_Interfaces (es_evidence es)) got in
               ((es\<lparr>es_evidence := (es_evidence es)\<lparr>ev_Interfaces := m\<rparr>\<rparr>, s1),
                Inr (mget0 zero_iface m port))))"

definition evErrdisableRecovery :: "'s Collector \<Rightarrow> 's vst \<Rightarrow> 's vst \<times> (gerr + ErrdisableConfig)" where
  "evErrdisableRecovery c st =
     (case st of (es, s) \<Rightarrow>
      if fetched es ''errdisable'' then (st, Inr (ev_Errdisable (es_evidence es)))
      else (case co_Errdisable c s of
              (s1, Inl e) \<Rightarrow> ((es, s1), Inl (Wrapf ''collect errdisable recovery: '' e []))
            | (s1, Inr t) \<Rightarrow> ((remember ''errdisable'' (ev_Errdisable_update (\<lambda>_. t)) es, s1), Inr t)))"

definition evVLANFor :: "'s Collector \<Rightarrow> string \<Rightarrow> 's vst \<Rightarrow> 's vst \<times> (gerr + int option)" where
  "evVLANFor c port st =
     (case st of (es, s) \<Rightarrow>
      if fetched es ''vlans'' then (st, Inr (mget (ev_VLANs (es_evidence es)) port))
      else (case co_VLANs c s of
              (s1, Inl e) \<Rightarrow> ((es, s1), Inl (Wrapf ''collect vlans: '' e []))
            | (s1, Inr t) \<Rightarrow>
                ((remember ''vlans'' (ev_VLANs_update (\<lambda>_. t)) es, s1), Inr (mget t port))))"

definition evReachable :: "'s Collector \<Rightarrow> string \<Rightarrow> 's vst \<Rightarrow> 's vst \<times> (gerr + bool)" where
  "evReachable c target st =
     (case st of (es, s) \<Rightarrow>
      case mget (ev_Reachability (es_evidence es)) target of
        Some v \<Rightarrow> (st, Inr v)
      | None \<Rightarrow>
          (case co_Reachability c [target] s of
             (s1, Inl e) \<Rightarrow> ((es, s1), Inl (Wrapf (''collect reachability '' @ target @ '': '') e []))
           | (s1, Inr got) \<Rightarrow>
               let m = merge_into (ev_Reachability (es_evidence es)) got in
               ((es\<lparr>es_evidence := (es_evidence es)\<lparr>ev_Reachability := m\<rparr>\<rparr>, s1),
                Inr (mget0 False m target))))"

text \<open>The pointers the collector returns are not nil when its error is nil.\<close>

definition evSTPTable :: "'s Collector \<Rightarrow> 's vst \<Rightarrow> 's vst \<times> (gerr + STPInfo)" where
  "evSTPTable c st =
     (case st of (es, s) \<Rightarrow>
      if fetched es ''stp''
      then (st, Inr (case ev_STP (es_evidence es) of Some i \<Rightarrow> i | None \<Rightarrow> zero_stp))
      else (case co_STP c s of
              (s1, Inl e) \<Rightarrow> ((es, s1), Inl (Wrapf ''collect stp: '' e []))
            | (s1, Inr t) \<Rightarrow> ((remember ''stp'' (ev_STP_update (\<lambda>_. Some t)) es, s1), Inr t)))"

definition evPortSecurity ::
  "'s Collector \<Rightarrow> string \<Rightarrow> 's vst \<Rightarrow> 's vst \<times> (gerr + PortSecurityInfo)" where
  "evPortSecurity c iface st =
     (case st of (es, s) \<Rightarrow>
      let key = ''portsec:'' @ iface in
      if fetched es key
      then (st, Inr (mget0 zero_ps (ev_PortSecurities (es_evidence es)) iface))
      else (case co_PortSecurity c iface s of
              (s1, Inl e) \<Rightarrow> ((es, s1), Inl (Wrapf (''collect port-security '' @ iface @ '': '') e []))
            | (s1, Inr t) \<Rightarrow> ((remember key (ev_PortSecurities_update (mput iface t)) es, s1), Inr t)))"

section \<open>The IOS collector\<close>

text \<open>\<open>ConsoleRunner\<close>: run one command on a node and give the text before the next prompt.\<close>

type_synonym 's ConsoleRunner = "string \<Rightarrow> string \<Rightarrow> 's \<Rightarrow> 's \<times> (gerr + string)"

definition ios_run :: "'s ConsoleRunner \<Rightarrow> string \<Rightarrow> string \<Rightarrow> 's \<Rightarrow> 's \<times> (gerr + string)" where
  "ios_run r node cmd s =
     (case r node cmd s of
        (s1, Inl e) \<Rightarrow> (s1, Inl (Wrapf (''run '' @ quote_str cmd @ '' on '' @ node @ '': '') e []))
      | (s1, Inr out) \<Rightarrow> (s1, Inr out))"

definition cmd_mac :: string where "cmd_mac = ''show mac address-table''"
definition cmd_interfaces :: "string \<Rightarrow> string" where "cmd_interfaces p = ''show interfaces '' @ p"
definition cmd_config :: string where "cmd_config = ''show running-config''"
definition cmd_errdisable :: string where "cmd_errdisable = ''show errdisable recovery''"
definition cmd_vlan :: string where "cmd_vlan = ''show vlan brief''"
definition cmd_ping :: "string \<Rightarrow> string" where "cmd_ping t = ''ping '' @ t @ '' repeat 3''"
definition cmd_stp :: string where "cmd_stp = ''show spanning-tree vlan 1''"
definition cmd_portsec :: "string \<Rightarrow> string" where "cmd_portsec i = ''show port-security interface '' @ i"

definition map_ok :: "('a \<Rightarrow> 'b) \<Rightarrow> 's \<times> (gerr + 'a) \<Rightarrow> 's \<times> (gerr + 'b)" where
  "map_ok f r = (case r of (s, Inl e) \<Rightarrow> (s, Inl e) | (s, Inr x) \<Rightarrow> (s, Inr (f x)))"

fun collect_each ::
  "('k \<Rightarrow> 's \<Rightarrow> 's \<times> (gerr + string)) \<Rightarrow> ('k \<Rightarrow> string \<Rightarrow> 'v) \<Rightarrow> 'k list \<Rightarrow> ('k, 'v) gomap \<Rightarrow> 's
     \<Rightarrow> 's \<times> (gerr + ('k, 'v) gomap)" where
  "collect_each run parse [] acc s = (s, Inr acc)"
| "collect_each run parse (k # ks) acc s =
     (case run k s of
        (s1, Inl e) \<Rightarrow> (s1, Inl e)
      | (s1, Inr out) \<Rightarrow> collect_each run parse ks (mput k (parse k out) acc) s1)"

definition IOSCollector :: "'s ConsoleRunner \<Rightarrow> string \<Rightarrow> 's Collector" where
  "IOSCollector r node =
     \<lparr>co_MACTable = (\<lambda>s. map_ok parseMACTable (ios_run r node cmd_mac s)),
      co_Interfaces = (\<lambda>ports. collect_each (\<lambda>p. ios_run r node (cmd_interfaces p))
                                  (\<lambda>p out. parseInterfaceStatus out p) ports []),
      co_RunningConfig = ios_run r node cmd_config,
      co_Errdisable = (\<lambda>s. map_ok parseErrdisableRecovery (ios_run r node cmd_errdisable s)),
      co_Reachability = (\<lambda>ts. collect_each (\<lambda>t. ios_run r node (cmd_ping t))
                                  (\<lambda>t out. parsePingResult out) ts []),
      co_VLANs = (\<lambda>s. map_ok parseVlanBrief (ios_run r node cmd_vlan s)),
      co_STP = (\<lambda>s. case ios_run r node cmd_stp s of
                       (s1, Inl e) \<Rightarrow> (s1, Inl e) | (s1, Inr out) \<Rightarrow> (s1, ParseSTP out)),
      co_PortSecurity = (\<lambda>i s. case ios_run r node (cmd_portsec i) s of
                       (s1, Inl e) \<Rightarrow> (s1, Inl e) | (s1, Inr out) \<Rightarrow> (s1, ParsePortSecurity out))\<rparr>"

section \<open>Reads as steps\<close>

lemma fetched_remember [simp]:
  "fetched (remember k f es) key = (key = k \<or> fetched es key)"
  by (auto simp: fetched_def remember_def mget0_def)

lemma remember_evidence [simp]: "es_evidence (remember k f es) = f (es_evidence es)"
  by (simp add: remember_def)

lemma fetched_evidence_update [simp]:
  "fetched (es\<lparr>es_evidence := e\<rparr>) key = fetched es key"
  by (simp add: fetched_def)

text \<open>The seven reads of the store.\<close>

inductive store_step :: "'s Collector \<Rightarrow> 's vst \<Rightarrow> 's vst \<Rightarrow> bool" for c where
  read_mac: "evMACTable c st = (st', r) \<Longrightarrow> store_step c st st'"
| read_iface: "evInterface c p st = (st', r1) \<Longrightarrow> store_step c st st'"
| read_errdisable: "evErrdisableRecovery c st = (st', r2) \<Longrightarrow> store_step c st st'"
| read_vlan: "evVLANFor c p st = (st', r3) \<Longrightarrow> store_step c st st'"
| read_reach: "evReachable c t st = (st', r4) \<Longrightarrow> store_step c st st'"
| read_stp: "evSTPTable c st = (st', r5) \<Longrightarrow> store_step c st st'"
| read_portsec: "evPortSecurity c i st = (st', r6) \<Longrightarrow> store_step c st st'"

abbreviation store_steps :: "'s Collector \<Rightarrow> 's vst \<Rightarrow> 's vst \<Rightarrow> bool" where
  "store_steps c \<equiv> (store_step c)\<^sup>*\<^sup>*"

lemma store_steps_invariant:
  assumes "store_steps c st st'" "I st" "\<And>x y. I x \<Longrightarrow> store_step c x y \<Longrightarrow> I y"
  shows "I st'"
  using assms(1,2) by (induction rule: rtranclp_induct) (auto intro: assms(3))

section \<open>One console round trip per command\<close>

text \<open>A console runner that also logs the commands that were answered.\<close>

definition logged :: "'s ConsoleRunner \<Rightarrow> ('s \<times> string list) ConsoleRunner" where
  "logged r node cmd sl =
     (case r node cmd (fst sl) of
        (s1, Inl e) \<Rightarrow> ((s1, snd sl), Inl e)
      | (s1, Inr out) \<Rightarrow> ((s1, snd sl @ [cmd]), Inr out))"

definition cached :: "EvidenceStore \<Rightarrow> string \<Rightarrow> bool" where
  "cached es cmd =
     ((cmd = cmd_mac \<and> fetched es ''mac_table'')
      \<or> (\<exists>p. cmd = cmd_interfaces p \<and> mget (ev_Interfaces (es_evidence es)) p \<noteq> None)
      \<or> (cmd = cmd_errdisable \<and> fetched es ''errdisable'')
      \<or> (cmd = cmd_vlan \<and> fetched es ''vlans'')
      \<or> (\<exists>t. cmd = cmd_ping t \<and> mget (ev_Reachability (es_evidence es)) t \<noteq> None)
      \<or> (cmd = cmd_stp \<and> fetched es ''stp'')
      \<or> (\<exists>i. cmd = cmd_portsec i \<and> fetched es (''portsec:'' @ i)))"

lemmas cmd_defs = cmd_mac_def cmd_interfaces_def cmd_errdisable_def cmd_vlan_def cmd_ping_def
  cmd_stp_def cmd_portsec_def

lemma cached_simps:
  "cached es cmd_mac = fetched es ''mac_table''"
  "cached es (cmd_interfaces p) = (mget (ev_Interfaces (es_evidence es)) p \<noteq> None)"
  "cached es cmd_errdisable = fetched es ''errdisable''"
  "cached es cmd_vlan = fetched es ''vlans''"
  "cached es (cmd_ping t) = (mget (ev_Reachability (es_evidence es)) t \<noteq> None)"
  "cached es cmd_stp = fetched es ''stp''"
  "cached es (cmd_portsec i) = fetched es (''portsec:'' @ i)"
  by (auto simp: cached_def cmd_defs)

definition log_ok :: "('s \<times> string list) vst \<Rightarrow> bool" where
  "log_ok st = (distinct (snd (snd st)) \<and> list_all (cached (fst st)) (snd (snd st)))"

text \<open>What a read does to store and log: nothing new, or one command that was not cached before.\<close>

definition one_read :: "('s \<times> string list) vst \<Rightarrow> ('s \<times> string list) vst \<Rightarrow> bool" where
  "one_read st st' =
     ((fst st' = fst st \<and> snd (snd st') = snd (snd st))
      \<or> (\<exists>cmd. \<not> cached (fst st) cmd \<and> cached (fst st') cmd
           \<and> snd (snd st') = snd (snd st) @ [cmd]
           \<and> (\<forall>x. cached (fst st) x \<longrightarrow> cached (fst st') x)))"

lemma one_read_log: "log_ok st \<Longrightarrow> one_read st st' \<Longrightarrow> log_ok st'"
  by (auto simp: log_ok_def one_read_def list_all_iff)

lemma mget_merge_one [simp]: "merge_into m [(k, v)] = mput k v m"
  by (simp add: merge_into_def)

lemma ios_logged:
  "ios_run (logged r) node cmd sl = (sl', q) \<Longrightarrow>
     (\<exists>e. q = Inl e \<and> snd sl' = snd sl) \<or> (\<exists>out. q = Inr out \<and> snd sl' = snd sl @ [cmd])"
  by (auto simp: ios_run_def logged_def split: prod.splits sum.splits)

lemma cached_mono:
  assumes "cached es x" "\<And>k. fetched es k \<Longrightarrow> fetched es' k"
    "\<And>p. mget (ev_Interfaces (es_evidence es)) p \<noteq> None
       \<Longrightarrow> mget (ev_Interfaces (es_evidence es')) p \<noteq> None"
    "\<And>t. mget (ev_Reachability (es_evidence es)) t \<noteq> None
       \<Longrightarrow> mget (ev_Reachability (es_evidence es')) t \<noteq> None"
  shows "cached es' x"
  using assms(1) unfolding cached_def by (elim disjE conjE exE) (use assms(2-4) in blast)+

lemma one_read_via:
  assumes "ios_run (logged r) node cmd (snd st) = (sl', q)"
    and "\<And>e. q = Inl e \<Longrightarrow> st' = (fst st, sl')"
    and "\<And>out. q = Inr out \<Longrightarrow> snd st' = sl' \<and> \<not> cached (fst st) cmd \<and> cached (fst st') cmd
           \<and> (\<forall>x. cached (fst st) x \<longrightarrow> cached (fst st') x)"
  shows "one_read st st'"
  using ios_logged [OF assms(1)] assms(2,3) by (auto simp: one_read_def)

lemma one_read_refl: "one_read st st"
  by (simp add: one_read_def)

lemmas store_reads = evMACTable_def evInterface_def evErrdisableRecovery_def evVLANFor_def
  evReachable_def evSTPTable_def evPortSecurity_def

lemma one_read_mac:
  assumes "evMACTable (IOSCollector (logged r) node) st = (st', q)"
  shows "one_read st st'"
proof -
  obtain sl a where u: "ios_run (logged r) node cmd_mac (snd st) = (sl, a)" by fastforce
  show ?thesis
  proof (cases "fetched (fst st) ''mac_table''")
    case True
    with assms show ?thesis by (cases st) (simp add: store_reads one_read_refl)
  next
    case False
    show ?thesis
      by (rule one_read_via [OF u]; use assms False u in \<open>cases st; cases st';
          auto simp: store_reads IOSCollector_def map_ok_def cached_simps elim!: cached_mono\<close>)
  qed
qed

lemma one_read_iface:
  assumes "evInterface (IOSCollector (logged r) node) p st = (st', q)"
  shows "one_read st st'"
proof -
  obtain sl a where u: "ios_run (logged r) node (cmd_interfaces p) (snd st) = (sl, a)" by fastforce
  show ?thesis
  proof (cases "mget (ev_Interfaces (es_evidence (fst st))) p")
    case (Some i)
    with assms show ?thesis by (cases st) (simp add: store_reads one_read_refl)
  next
    case None
    show ?thesis
      by (rule one_read_via [OF u]; use assms None u in \<open>cases st; cases st';
          auto simp: store_reads IOSCollector_def Let_def cached_simps elim!: cached_mono\<close>)
  qed
qed

lemma one_read_errdisable:
  assumes "evErrdisableRecovery (IOSCollector (logged r) node) st = (st', q)"
  shows "one_read st st'"
proof -
  obtain sl a where u: "ios_run (logged r) node cmd_errdisable (snd st) = (sl, a)" by fastforce
  show ?thesis
  proof (cases "fetched (fst st) ''errdisable''")
    case True
    with assms show ?thesis by (cases st) (simp add: store_reads one_read_refl)
  next
    case False
    show ?thesis
      by (rule one_read_via [OF u]; use assms False u in \<open>cases st; cases st';
          auto simp: store_reads IOSCollector_def map_ok_def cached_simps elim!: cached_mono\<close>)
  qed
qed

lemma one_read_vlan:
  assumes "evVLANFor (IOSCollector (logged r) node) p st = (st', q)"
  shows "one_read st st'"
proof -
  obtain sl a where u: "ios_run (logged r) node cmd_vlan (snd st) = (sl, a)" by fastforce
  show ?thesis
  proof (cases "fetched (fst st) ''vlans''")
    case True
    with assms show ?thesis by (cases st) (simp add: store_reads one_read_refl)
  next
    case False
    show ?thesis
      by (rule one_read_via [OF u]; use assms False u in \<open>cases st; cases st';
          auto simp: store_reads IOSCollector_def map_ok_def cached_simps elim!: cached_mono\<close>)
  qed
qed

lemma one_read_reach:
  assumes "evReachable (IOSCollector (logged r) node) t st = (st', q)"
  shows "one_read st st'"
proof -
  obtain sl a where u: "ios_run (logged r) node (cmd_ping t) (snd st) = (sl, a)" by fastforce
  show ?thesis
  proof (cases "mget (ev_Reachability (es_evidence (fst st))) t")
    case (Some i)
    with assms show ?thesis by (cases st) (simp add: store_reads one_read_refl)
  next
    case None
    show ?thesis
      by (rule one_read_via [OF u]; use assms None u in \<open>cases st; cases st';
          auto simp: store_reads IOSCollector_def Let_def cached_simps elim!: cached_mono\<close>)
  qed
qed

lemma one_read_stp:
  assumes "evSTPTable (IOSCollector (logged r) node) st = (st', q)"
  shows "one_read st st'"
proof -
  obtain sl a where u: "ios_run (logged r) node cmd_stp (snd st) = (sl, a)" by fastforce
  show ?thesis
  proof (cases "fetched (fst st) ''stp''")
    case True
    with assms show ?thesis by (cases st) (simp add: store_reads one_read_refl)
  next
    case False
    show ?thesis
      by (rule one_read_via [OF u]; use assms False u in \<open>cases st; cases st';
          auto simp: store_reads IOSCollector_def ParseSTP_def cached_simps elim!: cached_mono\<close>)
  qed
qed

lemma one_read_portsec:
  assumes "evPortSecurity (IOSCollector (logged r) node) i st = (st', q)"
  shows "one_read st st'"
proof -
  obtain sl a where u: "ios_run (logged r) node (cmd_portsec i) (snd st) = (sl, a)" by fastforce
  show ?thesis
  proof (cases "fetched (fst st) (''portsec:'' @ i)")
    case True
    with assms show ?thesis by (cases st) (simp add: store_reads one_read_refl)
  next
    case False
    show ?thesis
      by (rule one_read_via [OF u]; use assms False u in \<open>cases st; cases st';
          auto simp: store_reads IOSCollector_def ParsePortSecurity_def Let_def cached_simps elim!: cached_mono\<close>)
  qed
qed

lemma store_step_one_read:
  "store_step (IOSCollector (logged r) node) st st' \<Longrightarrow> one_read st st'"
  by (erule store_step.cases) (auto intro: one_read_mac one_read_iface one_read_errdisable one_read_vlan one_read_reach one_read_stp one_read_portsec)

lemma store_steps_log:
  "store_steps (IOSCollector (logged r) node) st st' \<Longrightarrow> log_ok st \<Longrightarrow> log_ok st'"
  by (rule store_steps_invariant [where I = log_ok]) (auto intro: one_read_log store_step_one_read)

section \<open>A device whose answers do not change\<close>

text \<open>What is the case on the device, and a collector that reports it.\<close>

record Device =
  dv_mac :: MACTable
  dv_iface :: "string \<Rightarrow> InterfaceStatus"
  dv_errdisable :: ErrdisableConfig
  dv_vlan :: "string \<Rightarrow> int option"
  dv_reach :: "string \<Rightarrow> bool"
  dv_stp :: STPInfo
  dv_portsec :: "string \<Rightarrow> PortSecurityInfo"

locale steady_source =
  fixes c :: "'s Collector" and d :: Device
  assumes mac_law: "\<exists>s'. co_MACTable c s = (s', Inr (dv_mac d))"
    and iface_law: "\<exists>s'. co_Interfaces c [p] s = (s', Inr [(p, dv_iface d p)])"
    and errdisable_law: "\<exists>s'. co_Errdisable c s = (s', Inr (dv_errdisable d))"
    and reach_law: "\<exists>s'. co_Reachability c [t] s = (s', Inr [(t, dv_reach d t)])"
    and vlan_law: "\<exists>s' m. co_VLANs c s = (s', Inr m) \<and> (\<forall>p. mget m p = dv_vlan d p)"
    and stp_law: "\<exists>s'. co_STP c s = (s', Inr (dv_stp d))"
    and portsec_law: "\<exists>s'. co_PortSecurity c i s = (s', Inr (dv_portsec d i))"
begin

definition coherent :: "EvidenceStore \<Rightarrow> bool" where
  "coherent es =
     ((fetched es ''mac_table'' \<longrightarrow> ev_MACTable (es_evidence es) = dv_mac d)
      \<and> (\<forall>p i. mget (ev_Interfaces (es_evidence es)) p = Some i \<longrightarrow> i = dv_iface d p)
      \<and> (fetched es ''errdisable'' \<longrightarrow> ev_Errdisable (es_evidence es) = dv_errdisable d)
      \<and> (\<forall>t b. mget (ev_Reachability (es_evidence es)) t = Some b \<longrightarrow> b = dv_reach d t)
      \<and> (fetched es ''vlans'' \<longrightarrow> (\<forall>p. mget (ev_VLANs (es_evidence es)) p = dv_vlan d p))
      \<and> (fetched es ''stp'' \<longrightarrow> ev_STP (es_evidence es) = Some (dv_stp d))
      \<and> (\<forall>i. fetched es (''portsec:'' @ i)
             \<longrightarrow> mget (ev_PortSecurities (es_evidence es)) i = Some (dv_portsec d i)))"

lemma coherent_new: "coherent NewEvidenceStore"
  by (simp add: coherent_def NewEvidenceStore_def zero_evidence_def fetched_def mget0_def)

text \<open>Every read gives what is the case, cached or not, and keeps the store coherent.\<close>

lemma read_mac_law:
  assumes "coherent es"
  shows "\<exists>es' s'. evMACTable c (es, s) = ((es', s'), Inr (dv_mac d)) \<and> coherent es'"
  using assms mac_law [of s] by (auto simp: evMACTable_def coherent_def)

lemma read_iface_law:
  assumes "coherent es"
  shows "\<exists>es' s'. evInterface c p (es, s) = ((es', s'), Inr (dv_iface d p)) \<and> coherent es'"
  using assms iface_law [of p s]
  by (auto simp: evInterface_def coherent_def Let_def mget0_def split: option.splits)

lemma read_errdisable_law:
  assumes "coherent es"
  shows "\<exists>es' s'. evErrdisableRecovery c (es, s) = ((es', s'), Inr (dv_errdisable d)) \<and> coherent es'"
  using assms errdisable_law [of s] by (auto simp: evErrdisableRecovery_def coherent_def)

lemma read_vlan_law:
  assumes "coherent es"
  shows "\<exists>es' s'. evVLANFor c p (es, s) = ((es', s'), Inr (dv_vlan d p)) \<and> coherent es'"
  using assms vlan_law [of s] by (auto simp: evVLANFor_def coherent_def)

lemma read_reach_law:
  assumes "coherent es"
  shows "\<exists>es' s'. evReachable c t (es, s) = ((es', s'), Inr (dv_reach d t)) \<and> coherent es'"
  using assms reach_law [of t s]
  by (auto simp: evReachable_def coherent_def Let_def mget0_def split: option.splits)

lemma read_stp_law:
  assumes "coherent es"
  shows "\<exists>es' s'. evSTPTable c (es, s) = ((es', s'), Inr (dv_stp d)) \<and> coherent es'"
  using assms stp_law [of s] by (auto simp: evSTPTable_def coherent_def)

lemma read_portsec_law:
  assumes "coherent es"
  shows "\<exists>es' s'. evPortSecurity c i (es, s) = ((es', s'), Inr (dv_portsec d i)) \<and> coherent es'"
  using assms portsec_law [of i s] by (auto simp: evPortSecurity_def coherent_def Let_def mget0_def)

end

text \<open>
  A console that always gives the same text to the same command, and the device it shows: the IOS
  collector on such a console is a steady source.
\<close>

definition steady_console :: "(string \<Rightarrow> string) \<Rightarrow> 's ConsoleRunner" where
  "steady_console f node cmd s = (s, Inr (f cmd))"

definition shown_device :: "(string \<Rightarrow> string) \<Rightarrow> Device" where
  "shown_device f =
     \<lparr>dv_mac = parseMACTable (f cmd_mac),
      dv_iface = (\<lambda>p. parseInterfaceStatus (f (cmd_interfaces p)) p),
      dv_errdisable = parseErrdisableRecovery (f cmd_errdisable),
      dv_vlan = (\<lambda>p. mget (parseVlanBrief (f cmd_vlan)) p),
      dv_reach = (\<lambda>t. parsePingResult (f (cmd_ping t))),
      dv_stp = projr (ParseSTP (f cmd_stp)),
      dv_portsec = (\<lambda>i. projr (ParsePortSecurity (f (cmd_portsec i))))\<rparr>"

interpretation ios: steady_source "IOSCollector (steady_console f) node" "shown_device f"
  by unfold_locales
     (simp_all add: IOSCollector_def shown_device_def ios_run_def steady_console_def map_ok_def
        ParseSTP_def ParsePortSecurity_def)

end
