(* ===== verification/TelnetConsole.thy ===== *)
theory TelnetConsole
  imports VerifyEvidence
begin

text \<open>
  \<open>internal/verify/console_runner.go\<close>: running one command over the telnet console of a node.  The
  network and the clock are an outside state \<open>'s\<close> with operations \<open>'s net\<close>; times are nanoseconds.
  The read loop may run for ever, so it has fuel; \<open>None\<close> is a loop that has not ended.
\<close>

section \<open>Connections\<close>

record NodeAddr =
  na_Host :: string
  na_Port :: int

datatype read_err = ReadTimeout gerr | ReadEOF | ReadFailed gerr

record 's net =
  nt_dial :: "string \<Rightarrow> 's \<Rightarrow> 's \<times> gerr option"
  nt_write :: "string \<Rightarrow> 's \<Rightarrow> 's \<times> gerr option"
  nt_read :: "int \<Rightarrow> 's \<Rightarrow> 's \<times> string \<times> read_err option"
  nt_sleep :: "int \<Rightarrow> 's \<Rightarrow> 's"
  nt_now :: "'s \<Rightarrow> int"

text \<open>A context: its deadline, if it has one, and \<open>ctx.Err()\<close>.\<close>

record 's ctx =
  cx_deadline :: "int option"
  cx_Err :: "'s \<Rightarrow> gerr option"

definition defaultReadTimeout :: int where "defaultReadTimeout = 15000000000"
definition settle_pause :: int where "settle_pause = 300000000"
definition crlf :: string where "crlf = [CHR 0x0D, CHR 0x0A]"

text \<open>The prompt of IOS devices, from \<open>internal/verification/handler.go\<close>.\<close>

definition iosPromptRe :: re where
  "iosPromptRe = re_seq [re_plus re_S, RChr (\<lambda>c. c = CHR ''#'' \<or> c = CHR ''>''), re_star re_s, REndText]"

text \<open>\<open>MatchString\<close>, then the text before \<open>FindStringIndex\<close>.\<close>

definition prompt_cut :: "re \<Rightarrow> string \<Rightarrow> string option" where
  "prompt_cut promptRe raw =
     (case re_search promptRe None raw of
        None \<Rightarrow> None
      | Some (ds, y) \<Rightarrow> Some (take (length raw - length (snd y) - length (group 0 ds)) raw))"

section \<open>Reading up to the prompt\<close>

definition read_timeout :: "'s net \<Rightarrow> 's ctx \<Rightarrow> 's \<Rightarrow> int option" where
  "read_timeout io ctx s =
     (case cx_deadline ctx of
        None \<Rightarrow> Some defaultReadTimeout
      | Some d \<Rightarrow>
          let remaining = d - nt_now io s in
          if remaining \<le> 0 then None
          else Some (if remaining < defaultReadTimeout then remaining else defaultReadTimeout))"

definition read_failure :: "'s ctx \<Rightarrow> 's \<Rightarrow> string \<Rightarrow> read_err \<Rightarrow> gerr" where
  "read_failure ctx s acc e =
     (case (e, acc, cx_Err ctx s) of
        (ReadTimeout t, c # cs, _) \<Rightarrow>
          Errorf (''read timeout after '' @ itoa (int (length acc))
            @ '' bytes (pagination blocking? terminal length 0 may not have been applied)'')
      | (_, [], Some x) \<Rightarrow> x
      | (ReadEOF, _, _) \<Rightarrow>
          Errorf (''connection closed (accumulated '' @ itoa (int (length acc)) @ '' bytes)'')
      | (ReadTimeout t, _, _) \<Rightarrow> t
      | (ReadFailed f, _, _) \<Rightarrow> f)"

fun read_loop ::
  "nat \<Rightarrow> 's net \<Rightarrow> 's ctx \<Rightarrow> re \<Rightarrow> string \<Rightarrow> 's \<Rightarrow> ('s \<times> string \<times> gerr option) option" where
  "read_loop 0 io ctx promptRe acc s = None"
| "read_loop (Suc n) io ctx promptRe acc s =
     (case read_timeout io ctx s of
        None \<Rightarrow> Some (s, acc, cx_Err ctx s)
      | Some tmo \<Rightarrow>
          (case nt_read io tmo s of (s1, chunk, err) \<Rightarrow>
             let acc1 = acc @ chunk in
             case (if chunk = [] then None else prompt_cut promptRe acc1) of
               Some out \<Rightarrow> Some (s1, out, None)
             | None \<Rightarrow>
                 (case err of
                    Some e \<Rightarrow> Some (s1, acc1, Some (read_failure ctx s1 acc1 e))
                  | None \<Rightarrow> read_loop n io ctx promptRe acc1 s1)))"

definition readUntilPrompt ::
  "nat \<Rightarrow> 's net \<Rightarrow> 's ctx \<Rightarrow> re \<Rightarrow> 's \<Rightarrow> ('s \<times> string \<times> gerr option) option" where
  "readUntilPrompt n io ctx promptRe s = read_loop n io ctx promptRe [] s"

section \<open>Running a command\<close>

text \<open>The three nudges that are to drain the console.\<close>

fun drain ::
  "nat \<Rightarrow> nat \<Rightarrow> 's net \<Rightarrow> 's ctx \<Rightarrow> re \<Rightarrow> string \<Rightarrow> 's \<Rightarrow> ('s \<times> gerr option) option" where
  "drain 0 n io ctx promptRe nodeID s = Some (s, None)"
| "drain (Suc k) n io ctx promptRe nodeID s =
     (case readUntilPrompt n io ctx promptRe (fst (nt_write io crlf s)) of
        None \<Rightarrow> None
      | Some (s1, out, Some e) \<Rightarrow>
          Some (s1, Some (Wrapf (''verify: drain console on '' @ nodeID @ '': '') e []))
      | Some (s1, out, None) \<Rightarrow> drain k n io ctx promptRe nodeID (nt_sleep io settle_pause s1))"

text \<open>\<open>conn.Close()\<close> leaves nothing behind that a later call could see.\<close>

definition run_on_conn ::
  "nat \<Rightarrow> 's net \<Rightarrow> 's ctx \<Rightarrow> re \<Rightarrow> string \<Rightarrow> string \<Rightarrow> 's \<Rightarrow> ('s \<times> (gerr + string)) option" where
  "run_on_conn n io ctx promptRe nodeID cmd s =
     (case drain 3 n io ctx promptRe nodeID s of
        None \<Rightarrow> None
      | Some (s1, Some e) \<Rightarrow> Some (s1, Inl e)
      | Some (s1, None) \<Rightarrow>
     (case readUntilPrompt n io ctx promptRe (fst (nt_write io (''terminal length 0'' @ crlf) s1)) of
        None \<Rightarrow> None
      | Some (s2, out, Some e) \<Rightarrow>
          Some (s2, Inl (Wrapf (''verify: terminal length 0 on '' @ nodeID @ '': '') e []))
      | Some (s2, out, None) \<Rightarrow>
     (case nt_write io (cmd @ crlf) s2 of
        (s3, Some e) \<Rightarrow> Some (s3, Inl (Wrapf (''verify: send command to '' @ nodeID @ '': '') e []))
      | (s3, None) \<Rightarrow>
     (case readUntilPrompt n io ctx promptRe s3 of
        None \<Rightarrow> None
      | Some (s4, out, Some e) \<Rightarrow>
          Some (s4, Inl (Wrapf (''verify: read output from '' @ nodeID @ '': '') e []))
      | Some (s4, out, None) \<Rightarrow> Some (s4, Inr out)))))"

definition RunCommand ::
  "nat \<Rightarrow> 's net \<Rightarrow> 's ctx \<Rightarrow> (string, NodeAddr) gomap \<Rightarrow> re \<Rightarrow> string \<Rightarrow> string \<Rightarrow> 's
     \<Rightarrow> ('s \<times> (gerr + string)) option" where
  "RunCommand n io ctx nodeMap promptRe nodeID cmd s =
     (case mget nodeMap nodeID of
        None \<Rightarrow> Some (s, Inl (Errorf (''verify: node '' @ quote_str nodeID @ '' not found in console map'')))
      | Some addr \<Rightarrow>
          let address = na_Host addr @ '':'' @ itoa (na_Port addr) in
          (case nt_dial io address s of
             (s1, Some e) \<Rightarrow> Some (s1, Inl (Wrapf (''verify: dial '' @ address @ '': '') e []))
           | (s1, None) \<Rightarrow> run_on_conn n io ctx promptRe nodeID cmd s1))"

section \<open>The loop ends by the deadline\<close>

text \<open>A network whose reads take some time, but not longer than the time they were given.\<close>

definition timely :: "'s net \<Rightarrow> bool" where
  "timely io = (\<forall>tmo s. tmo > 0 \<longrightarrow>
     nt_now io s < nt_now io (fst (nt_read io tmo s))
     \<and> nt_now io (fst (nt_read io tmo s)) \<le> nt_now io s + tmo)"

lemma read_loop_deadline:
  assumes "timely io" "cx_deadline ctx = Some d"
  shows "nat (d - nt_now io s) < n \<Longrightarrow>
     \<exists>s' out e. read_loop n io ctx promptRe acc s = Some (s', out, e)
       \<and> nt_now io s \<le> nt_now io s' \<and> nt_now io s' \<le> max d (nt_now io s)"
proof (induction n arbitrary: acc s)
  case (Suc n)
  show ?case
  proof (cases "d - nt_now io s \<le> 0")
    case True
    then show ?thesis using assms(2) by (simp add: read_timeout_def)
  next
    case False
    define tmo where "tmo = (if d - nt_now io s < defaultReadTimeout then d - nt_now io s
      else defaultReadTimeout)"
    obtain s1 chunk err where r: "nt_read io tmo s = (s1, chunk, err)" by (metis surj_pair)
    have t: "tmo > 0" "tmo \<le> d - nt_now io s" using False by (auto simp: tmo_def defaultReadTimeout_def)
    then have now: "nt_now io s < nt_now io s1" "nt_now io s1 \<le> d"
      using assms(1) [unfolded timely_def, rule_format, OF t(1), of s] r by simp_all
    have rt: "read_timeout io ctx s = Some tmo"
      using False assms(2) by (simp add: read_timeout_def tmo_def Let_def)
    have "\<exists>s' out e. read_loop n io ctx promptRe (acc @ chunk) s1 = Some (s', out, e)
       \<and> nt_now io s1 \<le> nt_now io s' \<and> nt_now io s' \<le> max d (nt_now io s1)"
      by (rule Suc.IH) (use Suc.prems now in simp)
    then show ?thesis using now rt r by (auto simp: Let_def split: option.splits)
  qed
qed simp

lemma readUntilPrompt_deadline:
  assumes "timely io" "cx_deadline ctx = Some d" "nat (d - t0) < n" "t0 \<le> nt_now io s"
  shows "\<exists>s' out e. readUntilPrompt n io ctx promptRe s = Some (s', out, e)
     \<and> nt_now io s \<le> nt_now io s' \<and> nt_now io s' \<le> max d (nt_now io s)"
  unfolding readUntilPrompt_def by (rule read_loop_deadline [OF assms(1,2)]) (use assms(3,4) in simp)

text \<open>Writing and sleeping take what they take; sleeping is exact.\<close>

definition quick_writes :: "'s net \<Rightarrow> bool" where
  "quick_writes io = ((\<forall>x s. nt_now io (fst (nt_write io x s)) = nt_now io s)
     \<and> (\<forall>t s. nt_now io (nt_sleep io t s) = nt_now io s + t))"

lemma drain_deadline:
  assumes "timely io" "quick_writes io" "cx_deadline ctx = Some d" "nat (d - t0) < n"
  shows "t0 \<le> nt_now io s \<Longrightarrow> \<exists>s' e. drain k n io ctx promptRe nodeID s = Some (s', e)
     \<and> nt_now io s \<le> nt_now io s' \<and> nt_now io s' \<le> max d (nt_now io s) + int k * settle_pause"
proof (induction k arbitrary: s)
  case (Suc k)
  let ?s = "fst (nt_write io crlf s)"
  have w: "nt_now io ?s = nt_now io s" using assms(2) by (simp add: quick_writes_def)
  obtain s1 out e where r: "readUntilPrompt n io ctx promptRe ?s = Some (s1, out, e)"
      "nt_now io s \<le> nt_now io s1" "nt_now io s1 \<le> max d (nt_now io s)"
    using readUntilPrompt_deadline [OF assms(1,3,4), of ?s promptRe] Suc.prems w by auto
  show ?case
  proof (cases e)
    case None
    have p: "nt_now io (nt_sleep io settle_pause s1) = nt_now io s1 + settle_pause" "0 \<le> settle_pause"
      using assms(2) by (simp_all add: quick_writes_def settle_pause_def)
    obtain s' e' where "drain k n io ctx promptRe nodeID (nt_sleep io settle_pause s1) = Some (s', e')"
        "nt_now io s1 + settle_pause \<le> nt_now io s'"
        "nt_now io s' \<le> max d (nt_now io s1 + settle_pause) + int k * settle_pause"
      using Suc.IH [of "nt_sleep io settle_pause s1"] Suc.prems r(2) p by auto
    then show ?thesis using r None p by (auto simp: distrib_right max_def split: if_splits)
  next
    case (Some x)
    then show ?thesis using r by (auto simp: settle_pause_def)
  qed
qed auto

lemma RunCommand_deadline:
  assumes "timely io" "quick_writes io" "cx_deadline ctx = Some d"
    and "nt_dial io address s = (s1, dialed)" "nt_now io s \<le> nt_now io s1"
    and "nat (d - nt_now io s) < n"
    and "mget nodeMap nodeID = Some addr" "address = na_Host addr @ '':'' @ itoa (na_Port addr)"
  shows "\<exists>s' r. RunCommand n io ctx nodeMap promptRe nodeID cmd s = Some (s', r)
     \<and> nt_now io s \<le> nt_now io s' \<and> nt_now io s' \<le> max d (nt_now io s1) + 3 * settle_pause"
proof (cases dialed)
  case (Some e)
  then show ?thesis using assms by (auto simp: RunCommand_def Let_def settle_pause_def)
next
  case None
  have W: "nt_now io (fst (nt_write io x y)) = nt_now io y" for x y
    using assms(2) by (simp add: quick_writes_def)
  note R = readUntilPrompt_deadline [OF assms(1,3,6)]
  obtain a ea where a: "drain 3 n io ctx promptRe nodeID s1 = Some (a, ea)" "nt_now io s1 \<le> nt_now io a"
      "nt_now io a \<le> max d (nt_now io s1) + 3 * settle_pause"
    using drain_deadline [OF assms(1-3,6,5), of 3 promptRe nodeID] by auto
  obtain b out eb where b: "readUntilPrompt n io ctx promptRe (fst (nt_write io (''terminal length 0'' @ crlf) a))
      = Some (b, out, eb)" "nt_now io a \<le> nt_now io b" "nt_now io b \<le> max d (nt_now io a)"
    using R [of "fst (nt_write io (''terminal length 0'' @ crlf) a)" promptRe] a(2) assms(5) W by auto
  obtain c ec where c: "nt_write io (cmd @ crlf) b = (c, ec)" by fastforce
  have cn: "nt_now io c = nt_now io b" using W [of "cmd @ crlf" b] c by simp
  obtain z out' ez where z: "readUntilPrompt n io ctx promptRe c = Some (z, out', ez)"
      "nt_now io z \<le> max d (nt_now io c)" "nt_now io c \<le> nt_now io z"
    using R [of c promptRe] a(2) b(2) assms(5) cn by auto
  have p: "0 \<le> settle_pause" by (simp add: settle_pause_def)
  have bb: "nt_now io b \<le> max d (nt_now io s1) + 3 * settle_pause" using a(3) b(3) p by linarith
  have zz: "nt_now io z \<le> max d (nt_now io s1) + 3 * settle_pause" using bb z(2) cn p by linarith
  have m: "nt_now io s \<le> nt_now io a" "nt_now io s \<le> nt_now io b" "nt_now io s \<le> nt_now io z"
    using assms(5) a(2) b(2) z(3) cn by linarith+
  show ?thesis
    using None a b c z bb zz cn m assms(4,7,8)
    by (cases ea; cases eb; cases ec; cases ez) (simp_all add: RunCommand_def run_on_conn_def Let_def)
qed

text \<open>
  A command on the console comes back by the deadline of its context.  If reads take no longer
  than they are allowed and writes are quick, running a command ends, at most three settling pauses
  (0.9 s) after the deadline or, with the deadline passed already, after the start.
\<close>

theorem run_command_bounded:
  assumes "timely io" "quick_writes io" "cx_deadline ctx = Some d"
    and "nt_dial io address s = (s1, dialed)" "nt_now io s \<le> nt_now io s1"
    and "nat (d - nt_now io s) < n"
    and "mget nodeMap nodeID = Some addr" "address = na_Host addr @ '':'' @ itoa (na_Port addr)"
  shows "\<exists>s' r. RunCommand n io ctx nodeMap promptRe nodeID cmd s = Some (s', r)
     \<and> nt_now io s' \<le> max d (nt_now io s1) + 3 * settle_pause"
  using RunCommand_deadline [OF assms] by blast

definition silent_net :: "int net" where
  "silent_net = \<lparr>nt_dial = (\<lambda>a s. (s, None)), nt_write = (\<lambda>x s. (s, None)),
     nt_read = (\<lambda>t s. (s + t, [], Some (ReadTimeout (Sentinel ''i/o timeout'')))),
     nt_sleep = (\<lambda>t s. s + t), nt_now = (\<lambda>s. s)\<rparr>"

theorem run_command_bounded_witness:
  "\<exists>s' r. RunCommand (Suc (nat 25000000000)) silent_net
       \<lparr>cx_deadline = Some 25000000000, cx_Err = (\<lambda>s. None)\<rparr>
       [(''SW1'', \<lparr>na_Host = ''10.0.0.1'', na_Port = 5000\<rparr>)] iosPromptRe ''SW1'' ''show vlan brief'' 0
     = Some (s', r) \<and> s' \<le> 25900000000"
proof -
  have t: "timely silent_net" "quick_writes silent_net"
    by (simp_all add: timely_def quick_writes_def silent_net_def)
  have "\<exists>s' r. RunCommand (Suc (nat 25000000000)) silent_net
       \<lparr>cx_deadline = Some 25000000000, cx_Err = (\<lambda>s. None)\<rparr>
       [(''SW1'', \<lparr>na_Host = ''10.0.0.1'', na_Port = 5000\<rparr>)] iosPromptRe ''SW1'' ''show vlan brief'' 0
     = Some (s', r) \<and> nt_now silent_net s' \<le> max 25000000000 (nt_now silent_net 0) + 3 * settle_pause"
    by (rule run_command_bounded [OF t, where ?s1.0 = 0 and dialed = None]) (simp_all add: silent_net_def)
  then show ?thesis by (simp add: silent_net_def settle_pause_def)
qed

section \<open>Which answer a command gets\<close>

text \<open>
  A console that answers every line with one chunk ending in a prompt, and the chunks waiting to be
  read.  \<open>RunCommand\<close> reads one chunk per prompt.
\<close>

definition line_device :: "(string \<Rightarrow> string) \<Rightarrow> (string list) net" where
  "line_device reply =
     \<lparr>nt_dial = (\<lambda>a q. (q, None)),
      nt_write = (\<lambda>x q. (q @ [reply x], None)),
      nt_read = (\<lambda>t q. case q of [] \<Rightarrow> ([], [], Some (ReadTimeout (Sentinel ''i/o timeout'')))
                        | c # cs \<Rightarrow> (cs, c, None)),
      nt_sleep = (\<lambda>t q. q), nt_now = (\<lambda>q. 0)\<rparr>"

definition background :: "'s ctx" where
  "background = \<lparr>cx_deadline = None, cx_Err = (\<lambda>s. None)\<rparr>"

lemma line_device_simps [simp]:
  "nt_dial (line_device reply) a q = (q, None)"
  "nt_write (line_device reply) x q = (q @ [reply x], None)"
  "nt_sleep (line_device reply) t q = q"
  by (simp_all add: line_device_def)

text \<open>The clock of the device stands at 0: a context without a deadline, or with one ahead.\<close>

definition ahead :: "'s ctx \<Rightarrow> bool" where
  "ahead ctx = (case cx_deadline ctx of None \<Rightarrow> True | Some d \<Rightarrow> 0 < d)"

lemma ahead_background [simp]: "ahead background"
  by (simp add: ahead_def background_def)

lemma read_chunk:
  assumes "ahead ctx" "prompt_cut p c = Some out" "c \<noteq> []"
  shows "readUntilPrompt (Suc n) (line_device reply) ctx p (c # cs) = Some (cs, out, None)"
  using assms
  by (auto simp: readUntilPrompt_def read_timeout_def ahead_def line_device_def Let_def split: option.splits)

definition prompted :: "re \<Rightarrow> string \<Rightarrow> string \<Rightarrow> bool" where
  "prompted p c out = (c \<noteq> [] \<and> prompt_cut p c = Some out)"

lemma drain_chunks:
  assumes "ahead ctx" "prompted p (reply crlf) out" "list_all (\<lambda>c. \<exists>out. prompted p c out) q"
  shows "\<exists>q'. drain k (Suc n) (line_device reply) ctx p nodeID q = Some (q', None)
    \<and> q' = drop k (q @ replicate k (reply crlf))"
  using assms(3)
proof (induction k arbitrary: q)
  case 0
  then show ?case by simp
next
  case (Suc k)
  obtain c cs where q: "q @ [reply crlf] = c # cs" by (cases q) auto
  have "list_all (\<lambda>c. \<exists>out. prompted p c out) (c # cs)"
    using Suc.prems assms(2) by (auto simp: q [symmetric])
  then obtain o' where c: "prompted p c o'" "list_all (\<lambda>c. \<exists>out. prompted p c out) cs" by auto
  have r: "readUntilPrompt (Suc n) (line_device reply) ctx p (q @ [reply crlf]) = Some (cs, o', None)"
    unfolding q using c(1) assms(1) by (intro read_chunk) (auto simp: prompted_def)
  have "q @ replicate (Suc k) (reply crlf) = c # cs @ replicate k (reply crlf)"
    using arg_cong [OF q, of "\<lambda>x. x @ replicate k (reply crlf)"] by simp
  then have "drop k (cs @ replicate k (reply crlf)) = drop (Suc k) (q @ replicate (Suc k) (reply crlf))"
    by (simp only: drop_Suc_Cons)
  then show ?case
    using r Suc.IH [OF c(2)] by (simp add: line_device_simps del: drop_append replicate_Suc)
qed

definition tl0 :: string where "tl0 = ''terminal length 0'' @ crlf"

lemma RunCommand_line:
  assumes "ahead ctx" "mget nodeMap nodeID = Some addr"
    and "prompted p (reply crlf) nudge" "prompted p (reply tl0) paging"
    and "prompted p (reply (cmd @ crlf)) answer"
    and "list_all (\<lambda>c. \<exists>out. prompted p c out) q"
  shows "\<exists>q' out. RunCommand (Suc n) (line_device reply) ctx nodeMap p nodeID cmd q = Some (q', Inr out)
    \<and> prompted p ((q @ [reply crlf, reply crlf, reply crlf, reply tl0, reply (cmd @ crlf)]) ! 4) out
    \<and> (q = [] \<longrightarrow> out = answer) \<and> (length q = 1 \<longrightarrow> out = paging)"
proof -
  let ?io = "line_device reply" and ?r = "reply crlf"
  obtain q1 where d: "drain 3 (Suc n) ?io ctx p nodeID q = Some (q1, None)"
      "q1 = drop 3 (q @ replicate 3 ?r)"
    using drain_chunks [where reply = reply and p = p and out = nudge, OF assms(1,3,6)] by blast
  have pr: "list_all (\<lambda>c. \<exists>out. prompted p c out) (q @ [?r, ?r, ?r, reply tl0, reply (cmd @ crlf)])"
    using assms(3-6) by auto
  have st: "q1 @ [reply tl0, reply (cmd @ crlf)] = drop 3 (q @ [?r, ?r, ?r, reply tl0, reply (cmd @ crlf)])"
  proof -
    have "q @ [?r, ?r, ?r, reply tl0, reply (cmd @ crlf)]
        = (q @ replicate 3 ?r) @ [reply tl0, reply (cmd @ crlf)]"
      by (simp add: eval_nat_numeral)
    moreover have "3 - length (q @ replicate 3 ?r) = 0" by simp
    ultimately show ?thesis unfolding d(2) by (simp only: drop_append [of 3 "q @ replicate 3 ?r"] drop_0)
  qed
  then have pq: "list_all (\<lambda>c. \<exists>out. prompted p c out) (q1 @ [reply tl0, reply (cmd @ crlf)])"
    using pr set_drop_subset by (fastforce simp: list_all_iff)
  have ln: "length (q1 @ [reply tl0, reply (cmd @ crlf)]) \<ge> 2" by simp
  obtain x y z where 1: "q1 @ [reply tl0] = x # y" by (cases q1) auto
  obtain y' z where 2: "y @ [reply (cmd @ crlf)] = y' # z" by (cases y) auto
  have 3: "q1 @ [reply tl0, reply (cmd @ crlf)] = x # y' # z"
    using 1 2 by (metis append.assoc append_Cons append_Nil)
  then obtain ox oy where o: "prompted p x ox" "prompted p y' oy" using pq by auto
  have n4: "(q @ [?r, ?r, ?r, reply tl0, reply (cmd @ crlf)]) ! 4 = y'"
  proof -
    have "(q @ [?r, ?r, ?r, reply tl0, reply (cmd @ crlf)]) ! (3 + 1) = (x # y' # z) ! 1"
      unfolding 3 [symmetric] st by (rule nth_drop [symmetric]) simp
    then show ?thesis by simp
  qed
  have r1: "readUntilPrompt (Suc n) ?io ctx p (q1 @ [reply tl0]) = Some (y, ox, None)"
    unfolding 1 using o(1) assms(1) by (intro read_chunk) (auto simp: prompted_def)
  have r2: "readUntilPrompt (Suc n) ?io ctx p (y @ [reply (cmd @ crlf)]) = Some (z, oy, None)"
    unfolding 2 using o(2) assms(1) by (intro read_chunk) (auto simp: prompted_def)
  have run: "RunCommand (Suc n) ?io ctx nodeMap p nodeID cmd q = Some (z, Inr oy)"
    using assms(2) d(1) r1 r2 by (simp add: RunCommand_def run_on_conn_def Let_def tl0_def)
  have "q = [] \<longrightarrow> oy = answer" "length q = 1 \<longrightarrow> oy = paging"
    using n4 o(2) assms(4,5) by (auto simp: prompted_def length_Suc_conv eval_nat_numeral)
  then show ?thesis using run o(2) n4 by blast
qed

text \<open>
  C15: on a console that answers each line with one chunk, the text returned for a command is the
  fifth chunk from the front.  With nothing waiting when the connection opens, that is the answer to
  the command; with one stale prompt waiting it is the answer to \<open>terminal length 0\<close>: the three
  nudges that are to drain the console read one chunk each and never catch up.
\<close>

theorem run_command_attribution:
  assumes "mget nodeMap nodeID = Some addr"
    and "prompted p (reply crlf) nudge" "prompted p (reply tl0) paging"
    and "prompted p (reply (cmd @ crlf)) answer"
    and "list_all (\<lambda>c. \<exists>out. prompted p c out) q"
  shows "\<exists>q' out. RunCommand (Suc n) (line_device reply) background nodeMap p nodeID cmd q = Some (q', Inr out)
    \<and> prompted p ((q @ [reply crlf, reply crlf, reply crlf, reply tl0, reply (cmd @ crlf)]) ! 4) out
    \<and> (q = [] \<longrightarrow> out = answer) \<and> (length q = 1 \<longrightarrow> out = paging)"
  by (rule RunCommand_line [OF ahead_background assms])

definition demo_reply :: "string \<Rightarrow> string" where
  "demo_reply line = (if line = ''show vlan brief'' @ crlf then ''1 default active Et0/1'' else []) @ crlf @ ''SW1#''"

theorem run_command_attribution_witness:
  "(\<exists>q'. RunCommand 1 (line_device demo_reply) background
      [(''SW1'', \<lparr>na_Host = ''10.0.0.1'', na_Port = 5000\<rparr>)] iosPromptRe ''SW1'' ''show vlan brief'' []
      = Some (q', Inr (''1 default active Et0/1'' @ crlf)))
   \<and> (\<exists>q'. RunCommand 1 (line_device demo_reply) background
      [(''SW1'', \<lparr>na_Host = ''10.0.0.1'', na_Port = 5000\<rparr>)] iosPromptRe ''SW1'' ''show vlan brief'' [''SW1#'']
      = Some (q', Inr crlf))"
proof -
  let ?m = "[(''SW1'', \<lparr>na_Host = ''10.0.0.1'', na_Port = 5000\<rparr>)]"
  have a: "prompted iosPromptRe (demo_reply crlf) crlf" by code_simp
  have b: "prompted iosPromptRe (demo_reply tl0) crlf" by code_simp
  have c: "prompted iosPromptRe (demo_reply (''show vlan brief'' @ crlf)) (''1 default active Et0/1'' @ crlf)"
    by code_simp
  have d: "prompted iosPromptRe ''SW1#'' []" by code_simp
  have m: "mget ?m ''SW1'' = Some \<lparr>na_Host = ''10.0.0.1'', na_Port = 5000\<rparr>" by simp
  have q: "list_all (\<lambda>c. \<exists>out. prompted iosPromptRe c out) []"
    "list_all (\<lambda>c. \<exists>out. prompted iosPromptRe c out) [''SW1#'']" using d by auto
  show ?thesis
    using run_command_attribution [where n = 0, OF m a b c q(1)]
      run_command_attribution [where n = 0, OF m a b c q(2)] by auto
qed

end
