(* ===== verification/VerifyDsl.thy ===== *)
theory VerifyDsl
  imports TelnetConsole
begin

text \<open>
  \<open>internal/verify/dsl.go\<close>, \<open>dsl_stubs.go\<close>, \<open>registry.go\<close>, \<open>scenario.go\<close> and \<open>lab_session.go\<close>: a
  verifier is a list of assertions over the evidence store; a run evaluates all of them against a
  fresh store.  The context argument only reaches the console and is left out here.
\<close>

section \<open>Verifiers\<close>

record Check =
  ck_Name :: string
  ck_Passed :: bool
  ck_Detail :: string

record VerifyResult =
  vr_Passed :: bool
  vr_Checks :: "Check list"
  vr_Evidence :: Evidence

type_synonym 's assertion = "'s Collector \<Rightarrow> 's vst \<Rightarrow> 's vst \<times> Check"
type_synonym 's Verifier = "'s assertion list"

definition New :: "'s Verifier" where "New = []"

definition add_assertion ::
  "string \<Rightarrow> ('s Collector \<Rightarrow> 's vst \<Rightarrow> 's vst \<times> bool \<times> string) \<Rightarrow> 's Verifier \<Rightarrow> 's Verifier" where
  "add_assertion name fn v =
     v @ [\<lambda>c st. case fn c st of
            (st', ok, detail) \<Rightarrow> (st', \<lparr>ck_Name = name, ck_Passed = ok, ck_Detail = detail\<rparr>)]"

text \<open>\<open>if err != nil { return false, err.Error() }\<close>, then a verdict on the value read.\<close>

definition judge :: "'s vst \<times> (gerr + 'a) \<Rightarrow> ('a \<Rightarrow> bool \<times> string) \<Rightarrow> 's vst \<times> bool \<times> string" where
  "judge r f = (case r of (st', Inl e) \<Rightarrow> (st', False, err_text e) | (st', Inr x) \<Rightarrow> (st', f x))"

definition mac_missing :: "string \<Rightarrow> string \<Rightarrow> string" where
  "mac_missing mac advice = ''MAC '' @ mac @ '' not learned on any port '' @ em_dash @ advice"

definition ExpectMACOnPort :: "string \<Rightarrow> string \<Rightarrow> string \<Rightarrow> 's Verifier \<Rightarrow> 's Verifier" where
  "ExpectMACOnPort name mac port = add_assertion name (\<lambda>c st. judge (evMACTable c st) (\<lambda>table.
     case PortFor table mac of
       None \<Rightarrow> (False, mac_missing mac
                 '' generate traffic from this host (e.g. ping from it) and re-verify'')
     | Some got \<Rightarrow>
         if got \<noteq> port then (False, ''expected '' @ port @ '', found on '' @ got)
         else (True, ''learned on '' @ port)))"

fun share_port :: "MACTable \<Rightarrow> string list \<Rightarrow> string \<Rightarrow> string option" where
  "share_port table [] port = None"
| "share_port table (m # ms) port =
     (case PortFor table m of
        None \<Rightarrow> Some (mac_missing m '' generate traffic from this host and re-verify'')
      | Some got \<Rightarrow>
          if got \<noteq> port
          then Some (''MAC '' @ m @ '' expected on '' @ port @ '', found on '' @ got)
          else share_port table ms port)"

definition ExpectMACsShareOnePort ::
  "string \<Rightarrow> string list \<Rightarrow> string \<Rightarrow> 's Verifier \<Rightarrow> 's Verifier" where
  "ExpectMACsShareOnePort name macs port = add_assertion name (\<lambda>c st. judge (evMACTable c st)
     (\<lambda>table. case share_port table macs port of
        Some msg \<Rightarrow> (False, msg)
      | None \<Rightarrow> (True, ''all '' @ itoa (int (length macs)) @ '' MACs learned on '' @ port)))"

definition ExpectInterfaceUp :: "string \<Rightarrow> 's Verifier \<Rightarrow> 's Verifier" where
  "ExpectInterfaceUp port = add_assertion (port @ '' is up'') (\<lambda>c st. judge (evInterface c port st)
     (\<lambda>iface. if is_ErrDisabled iface then (False, ''port is err-disabled'')
       else if \<not> is_AdminUp iface then (False, ''port is administratively shut down'')
       else if \<not> is_LinkUp iface then (False, ''no link detected'')
       else (True, ''up and forwarding'')))"

definition ExpectInterfaceDown :: "string \<Rightarrow> 's Verifier \<Rightarrow> 's Verifier" where
  "ExpectInterfaceDown port = add_assertion (port @ '' is administratively down'')
     (\<lambda>c st. judge (evInterface c port st) (\<lambda>iface.
        if is_AdminUp iface then (False, ''port is administratively up (expected shutdown)'')
        else (True, ''administratively down'')))"

definition ExpectInterfaceSpeed :: "string \<Rightarrow> int \<Rightarrow> 's Verifier \<Rightarrow> 's Verifier" where
  "ExpectInterfaceSpeed port mbps = add_assertion (port @ '' speed = '' @ itoa mbps @ ''Mbps'')
     (\<lambda>c st. judge (evInterface c port st) (\<lambda>iface.
        if is_SpeedMbps iface \<noteq> mbps
        then (False, ''expected '' @ itoa mbps @ ''Mbps, found '' @ itoa (is_SpeedMbps iface) @ ''Mbps'')
        else (True, ''speed matches'')))"

definition ExpectInterfaceDuplex :: "string \<Rightarrow> string \<Rightarrow> 's Verifier \<Rightarrow> 's Verifier" where
  "ExpectInterfaceDuplex port dup = add_assertion (port @ '' duplex = '' @ dup)
     (\<lambda>c st. judge (evInterface c port st) (\<lambda>iface.
        if is_Duplex iface \<noteq> dup
        then (False, ''expected '' @ dup @ '', found '' @ is_Duplex iface)
        else (True, ''duplex matches'')))"

definition ExpectPortVLAN :: "string \<Rightarrow> int \<Rightarrow> 's Verifier \<Rightarrow> 's Verifier" where
  "ExpectPortVLAN port vlan = add_assertion (port @ '' in VLAN '' @ itoa vlan)
     (\<lambda>c st. judge (evVLANFor c port st) (\<lambda>r. case r of
        None \<Rightarrow> (False, ''no VLAN assignment found for '' @ port)
      | Some got \<Rightarrow>
          if got \<noteq> vlan
          then (False, ''expected VLAN '' @ itoa vlan @ '', found VLAN '' @ itoa got)
          else (True, ''in VLAN '' @ itoa vlan)))"

definition ExpectDescription :: "string \<Rightarrow> string \<Rightarrow> 's Verifier \<Rightarrow> 's Verifier" where
  "ExpectDescription port txt = add_assertion (port @ '' description set'')
     (\<lambda>c st. judge (evInterface c port st) (\<lambda>iface.
        if is_Description iface \<noteq> txt
        then (False, ''expected '' @ quote_str txt @ '', found '' @ quote_str (is_Description iface))
        else (True, ''description matches'')))"

definition ExpectErrdisableRecovery :: "int \<Rightarrow> 's Verifier \<Rightarrow> 's Verifier" where
  "ExpectErrdisableRecovery intervalSec = add_assertion ''errdisable auto-recovery enabled''
     (\<lambda>c st. judge (evErrdisableRecovery c st) (\<lambda>cfg.
        if \<not> ec_Enabled cfg then (False, ''errdisable recovery not enabled'')
        else if ec_IntervalSec cfg \<noteq> intervalSec
        then (False, ''expected interval '' @ itoa intervalSec @ ''s, found ''
                @ itoa (ec_IntervalSec cfg) @ ''s'')
        else (True, ''enabled with correct interval'')))"

definition ExpectReachable :: "string \<Rightarrow> string \<Rightarrow> 's Verifier \<Rightarrow> 's Verifier" where
  "ExpectReachable name target = add_assertion (name @ '' reachable'') (\<lambda>c st.
     if target = [] then (st, False, ''IP not configured for host '' @ name)
     else judge (evReachable c target st) (\<lambda>ok.
        if \<not> ok then (False, target @ '' ('' @ name @ '') did not respond'')
        else (True, target @ '' responded'')))"

definition ExpectNotReachable :: "string \<Rightarrow> string \<Rightarrow> 's Verifier \<Rightarrow> 's Verifier" where
  "ExpectNotReachable name target = add_assertion (name @ '' NOT reachable'') (\<lambda>c st.
     if target = [] then (st, False, ''IP not configured for host '' @ name)
     else judge (evReachable c target st) (\<lambda>ok.
        if ok then (False, target @ '' ('' @ name @ '') responded but should be blocked'')
        else (True, target @ '' correctly blocked'')))"

definition ExpectRootBridge :: "string \<Rightarrow> 's Verifier \<Rightarrow> 's Verifier" where
  "ExpectRootBridge device = add_assertion (device @ '' is STP root bridge'')
     (\<lambda>c st. judge (evSTPTable c st) (\<lambda>info.
        if \<not> st_IsRoot info
        then (False, device @ '' is not root '' @ em_dash @ '' root is '' @ st_RootMAC info)
        else (True, ''root bridge '' @ st_RootMAC info)))"

text \<open>The interfaces are listed in the iteration order of the map.\<close>

definition ExpectPortRole :: "string \<Rightarrow> string \<Rightarrow> string \<Rightarrow> 's Verifier \<Rightarrow> 's Verifier" where
  "ExpectPortRole device iface role = add_assertion (device @ '':'' @ iface @ '' is STP '' @ role)
     (\<lambda>c st. judge (evSTPTable c st) (\<lambda>info.
        case mget (st_PortRoles info) iface of
          None \<Rightarrow> (False, ''interface '' @ iface @ '' not in STP output (known: [''
                    @ join '' '' (map fst (st_PortRoles info)) @ ''])'')
        | Some got \<Rightarrow>
            if got \<noteq> role then (False, ''expected role '' @ role @ '', found '' @ got)
            else (True, iface @ '' is '' @ role)))"

definition ExpectMACCount :: "int \<Rightarrow> 's Verifier \<Rightarrow> 's Verifier" where
  "ExpectMACCount n = add_assertion (''CAM table has >= '' @ itoa n @ '' entries'')
     (\<lambda>c st. judge (evMACTable c st) (\<lambda>table.
        if int (length table) < n
        then (False, ''expected >= '' @ itoa n @ '' MAC entries, found '' @ itoa (int (length table)))
        else (True, itoa (int (length table)) @ '' entries (min '' @ itoa n @ '')'')))"

definition ExpectPortSecurityViolations :: "string \<Rightarrow> int \<Rightarrow> 's Verifier \<Rightarrow> 's Verifier" where
  "ExpectPortSecurityViolations iface least =
     add_assertion (''port-security violations on '' @ iface @ '' >= '' @ itoa least)
     (\<lambda>c st. judge (evPortSecurity c iface st) (\<lambda>info.
        if ps_ViolationCount info < least
        then (False, ''expected >= '' @ itoa least @ '' violations on '' @ iface @ '', found ''
                @ itoa (ps_ViolationCount info))
        else (True, itoa (ps_ViolationCount info) @ '' violations on '' @ iface @ '' (min ''
                @ itoa least @ '')'')))"

definition ExpectPortSecurityEnabled :: "string \<Rightarrow> 's Verifier \<Rightarrow> 's Verifier" where
  "ExpectPortSecurityEnabled iface = add_assertion (''port-security enabled on '' @ iface)
     (\<lambda>c st. judge (evPortSecurity c iface st) (\<lambda>info.
        if \<not> ps_Enabled info then (False, ''port-security not enabled on '' @ iface)
        else (True, ''port-security enabled on '' @ iface @ '' (max '' @ itoa (ps_MaxMACs info)
                @ '', mode '' @ ps_ViolationMode info @ '')'')))"

section \<open>Running\<close>

fun run_assertions :: "'s Verifier \<Rightarrow> 's Collector \<Rightarrow> 's vst \<Rightarrow> 's vst \<times> Check list" where
  "run_assertions [] c st = (st, [])"
| "run_assertions (a # as) c st =
     (case a c st of (st1, chk) \<Rightarrow>
      case run_assertions as c st1 of (st2, chks) \<Rightarrow> (st2, chk # chks))"

definition Run :: "'s Verifier \<Rightarrow> 's Collector \<Rightarrow> 's \<Rightarrow> 's \<times> VerifyResult" where
  "Run v c s =
     (case run_assertions v c (NewEvidenceStore, s) of
        ((es, s'), checks) \<Rightarrow>
          (s', \<lparr>vr_Passed = foldl (\<lambda>passed chk. if \<not> ck_Passed chk then False else passed) True checks,
                vr_Checks = checks, vr_Evidence = es_evidence es\<rparr>))"

section \<open>Sessions and registries\<close>

record LabSession =
  ls_MACs :: "(string, string) gomap"
  ls_IPs :: "(string, string) gomap"
  ls_ConsoleNodes :: "(string, NodeAddr) gomap"

definition session_MAC :: "LabSession \<Rightarrow> string \<Rightarrow> string" where
  "session_MAC sess name =
     (let m = mget0 [] (ls_MACs sess) name in
      if m = [] then ''<unresolved:'' @ name @ ''>'' else m)"

definition session_IP :: "LabSession \<Rightarrow> string \<Rightarrow> string" where
  "session_IP sess name = mget0 [] (ls_IPs sess) name"

type_synonym 's VerifierFactory = "LabSession \<Rightarrow> 's Verifier"

record 's RegistryEntry =
  re_Factory :: "'s VerifierFactory"
  re_TargetDevice :: string

type_synonym 's VerifierRegistry = "(int \<times> string, 's RegistryEntry) gomap"

definition NewVerifierRegistry :: "'s VerifierRegistry" where "NewVerifierRegistry = []"

definition Register ::
  "int \<Rightarrow> string \<Rightarrow> string \<Rightarrow> 's VerifierFactory \<Rightarrow> 's VerifierRegistry \<Rightarrow> 's VerifierRegistry" where
  "Register labID phase targetDevice fn r =
     mput (labID, phase) \<lparr>re_Factory = fn, re_TargetDevice = targetDevice\<rparr> r"

definition Lookup :: "'s VerifierRegistry \<Rightarrow> int \<Rightarrow> string \<Rightarrow> 's RegistryEntry option" where
  "Lookup r labID phase = mget r (labID, phase)"

definition RegistryRun ::
  "'s VerifierRegistry \<Rightarrow> int \<Rightarrow> string \<Rightarrow> LabSession \<Rightarrow> 's Collector \<Rightarrow> 's \<Rightarrow> 's \<times> VerifyResult" where
  "RegistryRun r labID phase sess c s =
     (case Lookup r labID phase of
        None \<Rightarrow>
          (s, \<lparr>vr_Passed = False,
               vr_Checks = [\<lparr>ck_Name = ''verifier_registered'', ck_Passed = False,
                             ck_Detail = ''no console-truth verifier registered for lab '' @ itoa labID
                                @ '' / '' @ phase\<rparr>],
               vr_Evidence = zero_evidence\<rparr>)
      | Some e \<Rightarrow> Run (re_Factory e sess) c s)"

section \<open>Scenarios\<close>

text \<open>A scenario sends configuration commands through the same console, up to the first error.\<close>

type_synonym 's Scenario = "'s ConsoleRunner \<Rightarrow> string \<Rightarrow> 's \<Rightarrow> 's \<times> gerr option"

fun RunCommands :: "string list \<Rightarrow> 's Scenario" where
  "RunCommands [] r node s = (s, None)"
| "RunCommands (cmd # cmds) r node s =
     (case r node cmd s of
        (s1, Inl e) \<Rightarrow>
          (s1, Some (Wrapf (''scenario command '' @ quote_str cmd @ '' on '' @ node @ '': '') e []))
      | (s1, Inr out) \<Rightarrow> RunCommands cmds r node s1)"

type_synonym 's ScenarioRegistry = "(int \<times> string, LabSession \<Rightarrow> 's Scenario) gomap"

definition NewScenarioRegistry :: "'s ScenarioRegistry" where "NewScenarioRegistry = []"

definition RegisterScenario ::
  "int \<Rightarrow> string \<Rightarrow> (LabSession \<Rightarrow> 's Scenario) \<Rightarrow> 's ScenarioRegistry \<Rightarrow> 's ScenarioRegistry" where
  "RegisterScenario labID phase fn r = mput (labID, phase) fn r"

definition LookupScenario ::
  "'s ScenarioRegistry \<Rightarrow> int \<Rightarrow> string \<Rightarrow> (LabSession \<Rightarrow> 's Scenario) option" where
  "LookupScenario r labID phase = mget r (labID, phase)"

section \<open>Verifiers made of the expectations\<close>

inductive built :: "'s Verifier \<Rightarrow> bool" where
  built_New: "built New"
| built_mac: "built v \<Longrightarrow> built (ExpectMACOnPort name mac port v)"
| built_share: "built v \<Longrightarrow> built (ExpectMACsShareOnePort name macs port v)"
| built_up: "built v \<Longrightarrow> built (ExpectInterfaceUp port v)"
| built_down: "built v \<Longrightarrow> built (ExpectInterfaceDown port v)"
| built_speed: "built v \<Longrightarrow> built (ExpectInterfaceSpeed port n v)"
| built_duplex: "built v \<Longrightarrow> built (ExpectInterfaceDuplex port dup v)"
| built_vlan: "built v \<Longrightarrow> built (ExpectPortVLAN port n v)"
| built_desc: "built v \<Longrightarrow> built (ExpectDescription port txt v)"
| built_errdisable: "built v \<Longrightarrow> built (ExpectErrdisableRecovery n v)"
| built_reach: "built v \<Longrightarrow> built (ExpectReachable name target v)"
| built_noreach: "built v \<Longrightarrow> built (ExpectNotReachable name target v)"
| built_root: "built v \<Longrightarrow> built (ExpectRootBridge device v)"
| built_role: "built v \<Longrightarrow> built (ExpectPortRole device iface role v)"
| built_count: "built v \<Longrightarrow> built (ExpectMACCount n v)"
| built_violations: "built v \<Longrightarrow> built (ExpectPortSecurityViolations iface n v)"
| built_portsec: "built v \<Longrightarrow> built (ExpectPortSecurityEnabled iface v)"

lemmas built_intros = built.intros

lemmas expect_defs = ExpectMACOnPort_def ExpectMACsShareOnePort_def ExpectInterfaceUp_def
  ExpectInterfaceDown_def ExpectInterfaceSpeed_def ExpectInterfaceDuplex_def ExpectPortVLAN_def
  ExpectDescription_def ExpectErrdisableRecovery_def ExpectReachable_def ExpectNotReachable_def
  ExpectRootBridge_def ExpectPortRole_def ExpectMACCount_def ExpectPortSecurityViolations_def
  ExpectPortSecurityEnabled_def

text \<open>An assertion only reads: it moves the store by reads.\<close>

definition only_reads :: "('s Collector \<Rightarrow> 's vst \<Rightarrow> 's vst \<times> 'a) \<Rightarrow> bool" where
  "only_reads a = (\<forall>c st. store_steps c st (fst (a c st)))"

lemma only_reads_intro:
  "only_reads (\<lambda>c st. evMACTable c st)" "only_reads (\<lambda>c st. evInterface c p st)"
  "only_reads (\<lambda>c st. evErrdisableRecovery c st)" "only_reads (\<lambda>c st. evVLANFor c p st)"
  "only_reads (\<lambda>c st. evReachable c t st)" "only_reads (\<lambda>c st. evSTPTable c st)"
  "only_reads (\<lambda>c st. evPortSecurity c i st)"
  unfolding only_reads_def
  by (intro allI r_into_rtranclp; rule store_step.intros; rule prod.collapse [symmetric])+

lemma only_reads_judge: "only_reads rd \<Longrightarrow> only_reads (\<lambda>c st. judge (rd c st) f)"
  by (auto simp: only_reads_def judge_def split: prod.splits sum.splits) (metis fst_conv)+

lemma only_reads_target:
  "only_reads rd \<Longrightarrow> only_reads (\<lambda>c st. if b then (st, x) else rd c st)"
  by (auto simp: only_reads_def)

lemma only_reads_add:
  "list_all only_reads v \<Longrightarrow> only_reads fn \<Longrightarrow> list_all only_reads (add_assertion name fn v)"
  by (auto simp: add_assertion_def only_reads_def split: prod.splits) (metis fst_conv)

lemma built_reads: "built v \<Longrightarrow> list_all only_reads v"
proof (induction rule: built.induct)
  case built_New
  then show ?case by (simp add: New_def)
qed (unfold expect_defs,
     (intro only_reads_add only_reads_target only_reads_judge only_reads_intro; assumption)+)

lemma run_assertions_reads:
  "list_all only_reads v \<Longrightarrow> run_assertions v c st = (st', chks) \<Longrightarrow> store_steps c st st'"
proof (induction v arbitrary: st st' chks)
  case (Cons a v)
  obtain st1 chk where a: "a c st = (st1, chk)" by fastforce
  obtain st2 cs where b: "run_assertions v c st1 = (st2, cs)" by fastforce
  have "store_steps c st (fst (a c st))" using Cons.prems(1) by (cases st) (simp add: only_reads_def)
  then have 1: "store_steps c st st1" using a by simp
  have "store_steps c st1 st2" using Cons.IH [OF _ b] Cons.prems(1) by simp
  then show ?case using Cons.prems(2) a b rtranclp_trans [OF 1] by simp
qed simp

lemma run_assertions_append:
  "run_assertions (v @ w) c st =
     (case run_assertions v c st of (st1, xs) \<Rightarrow>
      case run_assertions w c st1 of (st2, ys) \<Rightarrow> (st2, xs @ ys))"
  by (induction v arbitrary: st) (auto split: prod.splits)

lemma run_assertions_length: "run_assertions v c st = (st', chks) \<Longrightarrow> length chks = length v"
  by (induction v arbitrary: st st' chks) (auto split: prod.splits)

lemma passed_fold:
  "foldl (\<lambda>passed chk. if \<not> ck_Passed chk then False else passed) b chks
     = (b \<and> list_all ck_Passed chks)"
  by (induction chks arbitrary: b) auto

lemma Run_passed:
  "Run v c s = (s', res) \<Longrightarrow> vr_Passed res = list_all ck_Passed (vr_Checks res)
     \<and> length (vr_Checks res) = length v"
  using run_assertions_length
  by (auto simp: Run_def passed_fold split: prod.splits)

lemma cached_reads: "cached es cmd \<Longrightarrow> has_prefix cmd ''show '' \<or> has_prefix cmd ''ping ''"
  unfolding cached_def by (elim disjE conjE exE) (simp_all add: cmd_defs)

lemma Run_steps:
  assumes "built v" "Run v c s = (s', res)"
  shows "\<exists>es. store_steps c (NewEvidenceStore, s) (es, s')"
  using assms(2) run_assertions_reads [OF built_reads [OF assms(1)], of c "(NewEvidenceStore, s)"]
  by (fastforce simp: Run_def split: prod.splits)

text \<open>
  A verification run reads and never writes, and asks each question once.  Whatever the
  console does, the commands it answers during one run are pairwise different, and each of them is
  a \<open>show\<close> or a \<open>ping\<close>.
\<close>

theorem run_asks_once:
  assumes "built v"
    and "Run v (IOSCollector (logged r) node) (s, []) = ((s', log), res)"
  shows "distinct log \<and> list_all (\<lambda>cmd. has_prefix cmd ''show '' \<or> has_prefix cmd ''ping '') log"
proof -
  obtain es where "store_steps (IOSCollector (logged r) node) (NewEvidenceStore, (s, [])) (es, (s', log))"
    using Run_steps [OF assms] by blast
  from store_steps_log [OF this] have "log_ok (es, (s', log))" by (simp add: log_ok_def)
  then show ?thesis unfolding log_ok_def list_all_iff using cached_reads by fastforce
qed

definition echo_console :: "unit ConsoleRunner" where
  "echo_console node cmd s = (s, Inr cmd)"

theorem run_asks_once_witness:
  "distinct (snd (fst (Run (ExpectMACCount 1 (ExpectInterfaceUp ''Et0/0'' (ExpectInterfaceDown ''Et0/0'' New)))
     (IOSCollector (logged echo_console) ''SW1'') ((), []))))"
proof -
  obtain s' log res where r: "Run (ExpectMACCount 1 (ExpectInterfaceUp ''Et0/0'' (ExpectInterfaceDown ''Et0/0'' New)))
     (IOSCollector (logged echo_console) ''SW1'') ((), []) = ((s', log), res)" by (metis surj_pair)
  from run_asks_once [OF _ r] show ?thesis using r by (simp add: built_intros)
qed

section \<open>Failing closed\<close>

definition dead_console :: "'s ConsoleRunner \<Rightarrow> string \<Rightarrow> bool" where
  "dead_console r node = (\<forall>cmd s. \<exists>s' e. r node cmd s = (s', Inl e))"

text \<open>Nothing can be read over a dead console, and nothing is remembered.\<close>

definition blind :: "('s Collector \<Rightarrow> 's vst \<Rightarrow> 's vst \<times> bool \<times> string) \<Rightarrow> 's Collector \<Rightarrow> bool" where
  "blind fn c = (\<forall>s. \<exists>s' msg. fn c (NewEvidenceStore, s) = ((NewEvidenceStore, s'), False, msg))"

lemma dead_ios:
  "dead_console r node \<Longrightarrow> \<exists>s' e. ios_run r node cmd s = (s', Inl e)"
  by (auto simp: dead_console_def ios_run_def) (metis (no_types, lifting) case_prod_conv old.sum.simps(5))

lemma blind_judge:
  assumes "\<And>s. \<exists>s' e. rd c (NewEvidenceStore, s) = ((NewEvidenceStore, s'), Inl e)"
  shows "blind (\<lambda>c st. judge (rd c st) f) c"
  unfolding blind_def judge_def
proof
  fix s
  from assms [of s] obtain s' e where "rd c (NewEvidenceStore, s) = ((NewEvidenceStore, s'), Inl e)"
    by blast
  then show "\<exists>s' msg. (case rd c (NewEvidenceStore, s) of
      (st', Inl e) \<Rightarrow> (st', False, err_text e) | (st', Inr x) \<Rightarrow> (st', f x))
      = ((NewEvidenceStore, s'), False, msg)" by simp
qed

lemma not_fetched_new [simp]: "\<not> fetched NewEvidenceStore k"
  by (simp add: fetched_def NewEvidenceStore_def mget0_def)

lemma new_maps [simp]:
  "ev_Interfaces (es_evidence NewEvidenceStore) = []"
  "ev_Reachability (es_evidence NewEvidenceStore) = []"
  by (simp_all add: NewEvidenceStore_def zero_evidence_def)

lemma dead_reads:
  assumes "dead_console r node"
  defines "c \<equiv> IOSCollector r node"
  shows "\<exists>s' e. evMACTable c (NewEvidenceStore, s) = ((NewEvidenceStore, s'), Inl e)"
    "\<exists>s' e. evInterface c p (NewEvidenceStore, s) = ((NewEvidenceStore, s'), Inl e)"
    "\<exists>s' e. evErrdisableRecovery c (NewEvidenceStore, s) = ((NewEvidenceStore, s'), Inl e)"
    "\<exists>s' e. evVLANFor c p (NewEvidenceStore, s) = ((NewEvidenceStore, s'), Inl e)"
    "\<exists>s' e. evReachable c t (NewEvidenceStore, s) = ((NewEvidenceStore, s'), Inl e)"
    "\<exists>s' e. evSTPTable c (NewEvidenceStore, s) = ((NewEvidenceStore, s'), Inl e)"
    "\<exists>s' e. evPortSecurity c i (NewEvidenceStore, s) = ((NewEvidenceStore, s'), Inl e)"
  using dead_ios [OF assms(1), of cmd_mac s] dead_ios [OF assms(1), of "cmd_interfaces p" s]
    dead_ios [OF assms(1), of cmd_errdisable s] dead_ios [OF assms(1), of cmd_vlan s]
    dead_ios [OF assms(1), of "cmd_ping t" s] dead_ios [OF assms(1), of cmd_stp s]
    dead_ios [OF assms(1), of "cmd_portsec i" s]
  by (auto simp: store_reads c_def IOSCollector_def map_ok_def)

definition all_blind :: "'s Collector \<Rightarrow> 's Verifier \<Rightarrow> bool" where
  "all_blind c v = (\<forall>s. \<exists>s' chks. run_assertions v c (NewEvidenceStore, s) = ((NewEvidenceStore, s'), chks)
     \<and> list_all (\<lambda>k. \<not> ck_Passed k) chks)"

lemma all_blind_add: "all_blind c v \<Longrightarrow> blind fn c \<Longrightarrow> all_blind c (add_assertion name fn v)"
  unfolding all_blind_def
proof
  fix s
  assume v: "\<forall>s. \<exists>s' chks. run_assertions v c (NewEvidenceStore, s) = ((NewEvidenceStore, s'), chks)
     \<and> list_all (\<lambda>k. \<not> ck_Passed k) chks" and "blind fn c"
  from v obtain s1 chks where 1: "run_assertions v c (NewEvidenceStore, s) = ((NewEvidenceStore, s1), chks)"
     "list_all (\<lambda>k. \<not> ck_Passed k) chks" by blast
  from \<open>blind fn c\<close> obtain s2 msg where "fn c (NewEvidenceStore, s1) = ((NewEvidenceStore, s2), False, msg)"
    unfolding blind_def by blast
  then show "\<exists>s' chks. run_assertions (add_assertion name fn v) c (NewEvidenceStore, s)
       = ((NewEvidenceStore, s'), chks) \<and> list_all (\<lambda>k. \<not> ck_Passed k) chks"
    using 1 by (simp add: add_assertion_def run_assertions_append)
qed

lemma blind_target: "blind rd c \<Longrightarrow> blind (\<lambda>c st. if b then (st, False, msg) else rd c st) c"
  by (auto simp: blind_def)

lemma built_blind:
  assumes "built v" "dead_console r node"
  shows "all_blind (IOSCollector r node) v"
  using assms(1)
proof (induction rule: built.induct)
  case built_New
  then show ?case by (simp add: New_def all_blind_def)
qed (unfold expect_defs,
     (intro all_blind_add blind_target blind_judge dead_reads [OF assms(2)]; assumption)+)

lemma dead_verdict:
  assumes "built v" "dead_console r node"
  shows "list_all (\<lambda>k. \<not> ck_Passed k) (vr_Checks (snd (Run v (IOSCollector r node) s)))
    \<and> (vr_Passed (snd (Run v (IOSCollector r node) s)) \<longrightarrow> v = [])"
proof -
  obtain s' res where r: "Run v (IOSCollector r node) s = (s', res)" by fastforce
  obtain s1 chks where "run_assertions v (IOSCollector r node) (NewEvidenceStore, s) = ((NewEvidenceStore, s1), chks)"
      "list_all (\<lambda>k. \<not> ck_Passed k) chks"
    using built_blind [OF assms] unfolding all_blind_def by blast
  then have f: "list_all (\<lambda>k. \<not> ck_Passed k) (vr_Checks res)" using r by (auto simp: Run_def)
  have "vr_Passed res \<longrightarrow> v = []"
    using Run_passed [OF r] f by (cases "vr_Checks res") auto
  then show ?thesis using f r by simp
qed

text \<open>
  C13: verification fails closed.  When the console answers nothing, every check of a run fails,
  those that expect silence included; when no verifier is registered the result is not passed and
  no command is sent.
\<close>

theorem verify_fails_closed:
  assumes "built v" "dead_console r node"
  shows "list_all (\<lambda>k. \<not> ck_Passed k) (vr_Checks (snd (Run v (IOSCollector r node) s)))
    \<and> (vr_Passed (snd (Run v (IOSCollector r node) s)) \<longrightarrow> v = [])
    \<and> (Lookup reg labID phase = None \<longrightarrow>
         fst (RegistryRun reg labID phase sess c s) = s
         \<and> \<not> vr_Passed (snd (RegistryRun reg labID phase sess c s)))"
  using dead_verdict [OF assms] by (auto simp: RegistryRun_def)

theorem verify_fails_closed_witness:
  "\<not> vr_Passed (snd (Run (ExpectNotReachable ''PC1'' ''10.0.10.10'' New)
     (IOSCollector (\<lambda>node cmd s. (s, Inl (Sentinel ''dial''))) ''R1'') ()))"
proof -
  let ?v = "ExpectNotReachable ''PC1'' ''10.0.10.10'' New"
  have "?v \<noteq> []" by (simp add: ExpectNotReachable_def add_assertion_def)
  moreover have "built ?v" by (simp add: built_intros)
  moreover have "dead_console (\<lambda>node cmd s. (s, Inl (Sentinel ''dial''))) ''R1''"
    by (simp add: dead_console_def)
  ultimately show ?thesis using verify_fails_closed [of ?v _ "''R1''" "()"] by blast
qed

section \<open>What the expectations mean\<close>

text \<open>
  On a source whose answers do not change, a verifier decides a list of facts about the device:
  one fact per expectation, whatever was cached before.
\<close>

context steady_source
begin

definition meets :: "'s Verifier \<Rightarrow> bool list \<Rightarrow> bool" where
  "meets v ps = (\<forall>es s. coherent es \<longrightarrow>
     (\<exists>es' s' chks. run_assertions v c (es, s) = ((es', s'), chks) \<and> coherent es'
        \<and> map ck_Passed chks = ps))"

definition decides :: "('s Collector \<Rightarrow> 's vst \<Rightarrow> 's vst \<times> bool \<times> string) \<Rightarrow> bool \<Rightarrow> bool" where
  "decides fn p = (\<forall>es s. coherent es \<longrightarrow>
     (\<exists>es' s' msg. fn c (es, s) = ((es', s'), p, msg) \<and> coherent es'))"

lemma meets_New: "meets New []"
  by (simp add: meets_def New_def)

lemma meets_add:
  assumes "meets v ps" "decides fn p"
  shows "meets (add_assertion name fn v) (ps @ [p])"
  unfolding meets_def
proof (intro allI impI)
  fix es s
  assume "coherent es"
  then obtain e1 s1 chks where 1: "run_assertions v c (es, s) = ((e1, s1), chks)" "coherent e1"
      "map ck_Passed chks = ps"
    using assms(1) unfolding meets_def by blast
  then obtain e2 s2 msg where 2: "fn c (e1, s1) = ((e2, s2), p, msg)" "coherent e2"
    using assms(2) unfolding decides_def by blast
  show "\<exists>es' s' chks. run_assertions (add_assertion name fn v) c (es, s) = ((es', s'), chks)
      \<and> coherent es' \<and> map ck_Passed chks = ps @ [p]"
    using 1 2 by (simp add: add_assertion_def run_assertions_append)
qed

lemma decides_judge:
  assumes "\<And>es s. coherent es \<Longrightarrow> \<exists>es' s'. rd c (es, s) = ((es', s'), Inr x) \<and> coherent es'"
    and "fst (f x) = p"
  shows "decides (\<lambda>c st. judge (rd c st) f) p"
  unfolding decides_def
proof (intro allI impI)
  fix es s
  assume "coherent es"
  then obtain es' s' where "rd c (es, s) = ((es', s'), Inr x)" "coherent es'" using assms(1) by blast
  then show "\<exists>es' s' msg. judge (rd c (es, s)) f = ((es', s'), p, msg) \<and> coherent es'"
    using assms(2) by (cases "f x") (simp add: judge_def)
qed

lemma decides_target:
  "decides rd p \<Longrightarrow> decides (\<lambda>c st. if t = [] then (st, False, msg) else rd c st) (t \<noteq> [] \<and> p)"
  by (auto simp: decides_def)

lemma share_port_iff: "share_port table ms port = None \<longleftrightarrow> list_all (\<lambda>m. PortFor table m = Some port) ms"
  by (induction ms) (auto split: option.splits)

lemma meets_mac [intro]:
  "meets v ps \<Longrightarrow> meets (ExpectMACOnPort n mac port v) (ps @ [PortFor (dv_mac d) mac = Some port])"
  unfolding ExpectMACOnPort_def
  by (erule meets_add, rule decides_judge, erule read_mac_law) (auto split: option.splits)

lemma meets_share [intro]:
  "meets v ps \<Longrightarrow> meets (ExpectMACsShareOnePort n ms port v)
     (ps @ [list_all (\<lambda>m. PortFor (dv_mac d) m = Some port) ms])"
  unfolding ExpectMACsShareOnePort_def
  by (erule meets_add, rule decides_judge, erule read_mac_law)
     (auto simp: share_port_iff [symmetric] split: option.splits)

lemma meets_up [intro]:
  "meets v ps \<Longrightarrow> meets (ExpectInterfaceUp p v)
     (ps @ [\<not> is_ErrDisabled (dv_iface d p) \<and> is_AdminUp (dv_iface d p) \<and> is_LinkUp (dv_iface d p)])"
  unfolding ExpectInterfaceUp_def
  by (erule meets_add, rule decides_judge, erule read_iface_law) auto

lemma meets_down [intro]:
  "meets v ps \<Longrightarrow> meets (ExpectInterfaceDown p v) (ps @ [\<not> is_AdminUp (dv_iface d p)])"
  unfolding ExpectInterfaceDown_def
  by (erule meets_add, rule decides_judge, erule read_iface_law) auto

lemma meets_speed [intro]:
  "meets v ps \<Longrightarrow> meets (ExpectInterfaceSpeed p n v) (ps @ [is_SpeedMbps (dv_iface d p) = n])"
  unfolding ExpectInterfaceSpeed_def
  by (erule meets_add, rule decides_judge, erule read_iface_law) auto

lemma meets_duplex [intro]:
  "meets v ps \<Longrightarrow> meets (ExpectInterfaceDuplex p dup v) (ps @ [is_Duplex (dv_iface d p) = dup])"
  unfolding ExpectInterfaceDuplex_def
  by (erule meets_add, rule decides_judge, erule read_iface_law) auto

lemma meets_vlan [intro]:
  "meets v ps \<Longrightarrow> meets (ExpectPortVLAN p n v) (ps @ [dv_vlan d p = Some n])"
  unfolding ExpectPortVLAN_def
  by (erule meets_add, rule decides_judge, erule read_vlan_law) (auto split: option.splits)

lemma meets_desc [intro]:
  "meets v ps \<Longrightarrow> meets (ExpectDescription p txt v) (ps @ [is_Description (dv_iface d p) = txt])"
  unfolding ExpectDescription_def
  by (erule meets_add, rule decides_judge, erule read_iface_law) auto

lemma meets_errdisable [intro]:
  "meets v ps \<Longrightarrow> meets (ExpectErrdisableRecovery n v)
     (ps @ [ec_Enabled (dv_errdisable d) \<and> ec_IntervalSec (dv_errdisable d) = n])"
  unfolding ExpectErrdisableRecovery_def
  by (erule meets_add, rule decides_judge, erule read_errdisable_law) auto

lemma meets_reach [intro]:
  "meets v ps \<Longrightarrow> meets (ExpectReachable n t v) (ps @ [t \<noteq> [] \<and> dv_reach d t])"
  unfolding ExpectReachable_def
  by (erule meets_add, rule decides_target, rule decides_judge, erule read_reach_law) auto

lemma meets_noreach [intro]:
  "meets v ps \<Longrightarrow> meets (ExpectNotReachable n t v) (ps @ [t \<noteq> [] \<and> \<not> dv_reach d t])"
  unfolding ExpectNotReachable_def
  by (erule meets_add, rule decides_target, rule decides_judge, erule read_reach_law) auto

lemma meets_root [intro]:
  "meets v ps \<Longrightarrow> meets (ExpectRootBridge dev v) (ps @ [st_IsRoot (dv_stp d)])"
  unfolding ExpectRootBridge_def
  by (erule meets_add, rule decides_judge, erule read_stp_law) auto

lemma meets_role [intro]:
  "meets v ps \<Longrightarrow> meets (ExpectPortRole dev p role v)
     (ps @ [mget (st_PortRoles (dv_stp d)) p = Some role])"
  unfolding ExpectPortRole_def
  by (erule meets_add, rule decides_judge, erule read_stp_law) (auto split: option.splits)

lemma meets_count [intro]:
  "meets v ps \<Longrightarrow> meets (ExpectMACCount n v) (ps @ [n \<le> int (length (dv_mac d))])"
  unfolding ExpectMACCount_def
  by (erule meets_add, rule decides_judge, erule read_mac_law) auto

lemma meets_violations [intro]:
  "meets v ps \<Longrightarrow> meets (ExpectPortSecurityViolations p n v)
     (ps @ [n \<le> ps_ViolationCount (dv_portsec d p)])"
  unfolding ExpectPortSecurityViolations_def
  by (erule meets_add, rule decides_judge, erule read_portsec_law) auto

lemma meets_portsec [intro]:
  "meets v ps \<Longrightarrow> meets (ExpectPortSecurityEnabled p v) (ps @ [ps_Enabled (dv_portsec d p)])"
  unfolding ExpectPortSecurityEnabled_def
  by (erule meets_add, rule decides_judge, erule read_portsec_law) auto

lemma meets_Run:
  assumes "meets v ps"
  shows "vr_Passed (snd (Run v c s)) = list_all (\<lambda>p. p) ps
    \<and> map ck_Passed (vr_Checks (snd (Run v c s))) = ps"
proof -
  obtain s' res where r: "Run v c s = (s', res)" by fastforce
  obtain es' s1 chks where "run_assertions v c (NewEvidenceStore, s) = ((es', s1), chks)"
      "map ck_Passed chks = ps"
    using assms coherent_new unfolding meets_def by blast
  then show ?thesis by (auto simp: Run_def passed_fold list_all_iff)
qed

end

lemmas ios_meets = ios.meets_New ios.meets_mac ios.meets_share ios.meets_up ios.meets_down
  ios.meets_vlan ios.meets_desc ios.meets_errdisable ios.meets_reach ios.meets_noreach
  ios.meets_root ios.meets_role ios.meets_count ios.meets_violations ios.meets_portsec

end
