(* ===== verification/LabVerifiers.thy ===== *)
theory LabVerifiers
  imports VerifyDsl Sessions
begin

text \<open>
  The console-truth verifiers of the labs (\<open>internal/labsession/lab*_verify.go\<close>), the fault scenario
  of lab 15 (\<open>lab15_scenario.go\<close>), the conversion of a session for the engine
  (\<open>verify_resolver.go\<close>) and the registry \<open>cmd/server/main.go\<close> builds of them.
\<close>

text \<open>\<open>verify.New().A().B()\<close>: the calls of the chain in order.\<close>

definition chain :: "('s Verifier \<Rightarrow> 's Verifier) list \<Rightarrow> 's Verifier" where
  "chain fs = foldl (\<lambda>v f. f v) New fs"

section \<open>Sessions for the engine\<close>

definition ResolveVerifySession :: "Session \<Rightarrow> string \<Rightarrow> LabSession" where
  "ResolveVerifySession sess computeHost =
     \<lparr>ls_MACs = foldl (\<lambda>m (name, info). if ni_MAC info \<noteq> [] then mput name (ni_MAC info) m else m)
                  [] (s_NodeMap sess),
      ls_IPs = [],
      ls_ConsoleNodes = foldl (\<lambda>m (name, info). mput name
                  \<lparr>na_Host = computeHost, na_Port = ni_ConsolePort info\<rparr> m) [] (s_NodeMap sess)\<rparr>"

section \<open>The labs\<close>

definition Lab1BuildVerifier :: "'s VerifierFactory" where
  "Lab1BuildVerifier sess = chain
     [ExpectPortVLAN ''Et0/1'' 10, ExpectPortVLAN ''Et0/3'' 10, ExpectInterfaceUp ''Et0/2'']"

definition Lab02BuildVerifier :: "'s VerifierFactory" where
  "Lab02BuildVerifier sess = chain [ExpectRootBridge ''SW1'']"
definition Lab02AttackVerifier :: "'s VerifierFactory" where
  "Lab02AttackVerifier sess = chain [ExpectPortRole ''SW3'' ''Et0/2'' ''Root'']"
definition Lab02HardenVerifier :: "'s VerifierFactory" where
  "Lab02HardenVerifier sess = chain [ExpectPortRole ''SW3'' ''Et0/3'' ''Altn'']"

definition Lab03BuildVerifier :: "'s VerifierFactory" where
  "Lab03BuildVerifier sess = chain [ExpectMACCount 2]"
definition Lab03AttackVerifier :: "'s VerifierFactory" where
  "Lab03AttackVerifier sess = chain [ExpectMACCount 100]"
definition Lab03HardenVerifier :: "'s VerifierFactory" where
  "Lab03HardenVerifier sess = chain
     [ExpectPortSecurityViolations ''Et0/3'' 1, ExpectInterfaceDown ''Et0/3'']"

definition Lab8BuildVerifier :: "'s VerifierFactory" where
  "Lab8BuildVerifier sess = chain [ExpectReachable ''R1'' ''10.0.10.1'']"
definition Lab8AttackVerifier :: "'s VerifierFactory" where
  "Lab8AttackVerifier sess = chain
     [ExpectInterfaceUp ''Et0/0'', ExpectInterfaceUp ''Et0/1'', ExpectInterfaceUp ''Et0/3'']"
definition Lab8HardenVerifier :: "'s VerifierFactory" where
  "Lab8HardenVerifier sess = chain [ExpectInterfaceUp ''Et0/1'', ExpectInterfaceUp ''Et0/3'']"

definition Lab15BuildVerifier :: "'s VerifierFactory" where
  "Lab15BuildVerifier sess = chain
     [ExpectMACsShareOnePort ''hub segment collapses to one port''
        [session_MAC sess ''PC1'', session_MAC sess ''PC2'', session_MAC sess ''KALI2''] ''Et0/0'',
      ExpectMACOnPort ''PC3 has its own dedicated port'' (session_MAC sess ''PC3'') ''Et0/1'',
      ExpectMACOnPort ''KALI has its own dedicated port'' (session_MAC sess ''KALI'') ''Et0/2'']"

definition lab15_ips :: "(string, string) gomap" where
  "lab15_ips = [(''PC1'', ''192.168.1.10''), (''PC2'', ''192.168.1.20''),
     (''PC3'', ''192.168.1.30''), (''KALI'', ''192.168.1.100'')]"

definition Lab15AttackVerifier :: "'s VerifierFactory" where
  "Lab15AttackVerifier sess = foldl (\<lambda>v host. ExpectReachable host (mget0 [] lab15_ips host) v)
     (chain [ExpectInterfaceUp ''Et0/0'', ExpectInterfaceUp ''Et0/1'', ExpectInterfaceUp ''Et0/2'',
             ExpectInterfaceUp ''Et0/3'', ExpectPortVLAN ''Et0/1'' 1])
     [''PC1'', ''PC2'', ''PC3'', ''KALI'']"

definition Lab15HardenVerifier :: "'s VerifierFactory" where
  "Lab15HardenVerifier sess = chain
     [ExpectDescription ''Et0/0'' ''LINK-TO-HUB-PC1-PC2'', ExpectDescription ''Et0/1'' ''LINK-TO-PC3'',
      ExpectDescription ''Et0/2'' ''LINK-TO-KALI'', ExpectDescription ''Et0/3'' ''UPLINK-TO-R1'',
      ExpectDescription ''Et0/4'' ''SPARE-UNUSED'', ExpectErrdisableRecovery 300]"

definition Lab16BuildVerifier :: "'s VerifierFactory" where
  "Lab16BuildVerifier sess = chain [ExpectInterfaceUp ''Et0/2'']"
definition Lab16AttackVerifier :: "'s VerifierFactory" where
  "Lab16AttackVerifier sess = chain [ExpectInterfaceDown ''Et0/0'']"
definition Lab16HardenVerifier :: "'s VerifierFactory" where
  "Lab16HardenVerifier sess = chain [ExpectInterfaceUp ''Et0/2'', ExpectInterfaceUp ''Et0/0'']"

definition lab47IPs :: "(string, string) gomap" where
  "lab47IPs = [(''R1'', ''198.51.100.1''), (''R2'', ''10.0.0.2''), (''PC1'', ''10.0.10.10''),
     (''PC2'', ''10.0.20.20''), (''KALI'', ''203.0.113.100'')]"

definition Lab47BuildVerifier :: "'s VerifierFactory" where
  "Lab47BuildVerifier sess = chain
     [ExpectInterfaceUp ''Et0/0'', ExpectPortVLAN ''Et0/1'' 10, ExpectPortVLAN ''Et0/2'' 20]"
definition Lab47AttackVerifier :: "'s VerifierFactory" where
  "Lab47AttackVerifier sess = chain
     [ExpectInterfaceUp ''Fa0/0'', ExpectInterfaceUp ''Fa0/1'',
      ExpectReachable ''R2'' (mget0 [] lab47IPs ''R2''),
      ExpectReachable ''PC1'' (mget0 [] lab47IPs ''PC1''),
      ExpectReachable ''PC2'' (mget0 [] lab47IPs ''PC2'')]"
definition Lab47HardenVerifier :: "'s VerifierFactory" where
  "Lab47HardenVerifier sess = chain
     [ExpectInterfaceUp ''Fa0/0'', ExpectInterfaceUp ''Fa0/1'',
      ExpectNotReachable ''PC1'' (mget0 [] lab47IPs ''PC1''),
      ExpectNotReachable ''PC2'' (mget0 [] lab47IPs ''PC2'')]"

section \<open>Registration\<close>

definition RegisterLab1Verifiers :: "'s VerifierRegistry \<Rightarrow> 's VerifierRegistry" where
  "RegisterLab1Verifiers reg = Register 1 ''build'' ''SW1'' Lab1BuildVerifier reg"

definition RegisterLab02Verifiers :: "'s VerifierRegistry \<Rightarrow> 's VerifierRegistry" where
  "RegisterLab02Verifiers reg =
     (let reg = Register 2 ''build'' ''SW1'' Lab02BuildVerifier reg;
          reg = Register 2 ''attack'' ''SW3'' Lab02AttackVerifier reg
      in Register 2 ''harden'' ''SW3'' Lab02HardenVerifier reg)"

definition RegisterLab03Verifiers :: "'s VerifierRegistry \<Rightarrow> 's VerifierRegistry" where
  "RegisterLab03Verifiers reg =
     (let reg = Register 3 ''build'' ''SW1'' Lab03BuildVerifier reg;
          reg = Register 3 ''attack'' ''SW1'' Lab03AttackVerifier reg
      in Register 3 ''harden'' ''SW1'' Lab03HardenVerifier reg)"

definition RegisterLab8Verifiers :: "'s VerifierRegistry \<Rightarrow> 's VerifierRegistry" where
  "RegisterLab8Verifiers reg =
     (let reg = Register 8 ''build'' ''SW1'' Lab8BuildVerifier reg;
          reg = Register 8 ''attack'' ''SW1'' Lab8AttackVerifier reg
      in Register 8 ''harden'' ''SW1'' Lab8HardenVerifier reg)"

definition RegisterLab15Verifiers :: "'s VerifierRegistry \<Rightarrow> 's VerifierRegistry" where
  "RegisterLab15Verifiers reg =
     (let reg = Register 15 ''build'' ''SW1'' Lab15BuildVerifier reg;
          reg = Register 15 ''attack'' ''SW1'' Lab15AttackVerifier reg
      in Register 15 ''harden'' ''SW1'' Lab15HardenVerifier reg)"

definition RegisterLab16Verifiers :: "'s VerifierRegistry \<Rightarrow> 's VerifierRegistry" where
  "RegisterLab16Verifiers reg =
     (let reg = Register 16 ''build'' ''SW1'' Lab16BuildVerifier reg;
          reg = Register 16 ''attack'' ''SW1'' Lab16AttackVerifier reg
      in Register 16 ''harden'' ''SW1'' Lab16HardenVerifier reg)"

definition RegisterLab47Verifiers :: "'s VerifierRegistry \<Rightarrow> 's VerifierRegistry" where
  "RegisterLab47Verifiers reg =
     (let reg = Register 47 ''build'' ''SW1'' Lab47BuildVerifier reg;
          reg = Register 47 ''attack'' ''R1'' Lab47AttackVerifier reg
      in Register 47 ''harden'' ''R1'' Lab47HardenVerifier reg)"

definition verifyReg :: "'s VerifierRegistry" where
  "verifyReg = RegisterLab47Verifiers (RegisterLab03Verifiers (RegisterLab02Verifiers
     (RegisterLab16Verifiers (RegisterLab15Verifiers (RegisterLab8Verifiers
       (RegisterLab1Verifiers NewVerifierRegistry))))))"

section \<open>The scenario of lab 15\<close>

definition lab15_faults :: "string list" where
  "lab15_faults = [''configure terminal'', ''interface Et0/0'', ''shutdown'', ''interface Et0/1'',
     ''switchport access vlan 99'', ''interface Et0/2'', ''spanning-tree portfast'',
     ''spanning-tree bpduguard enable'', ''interface Et0/3'', ''shutdown'', ''end'']"

definition Lab15AttackScenario :: "LabSession \<Rightarrow> 's Scenario" where
  "Lab15AttackScenario sess = RunCommands lab15_faults"

section \<open>The registry\<close>

lemmas lab_defs = Lab1BuildVerifier_def Lab02BuildVerifier_def Lab02AttackVerifier_def
  Lab02HardenVerifier_def Lab03BuildVerifier_def Lab03AttackVerifier_def Lab03HardenVerifier_def
  Lab8BuildVerifier_def Lab8AttackVerifier_def Lab8HardenVerifier_def Lab15BuildVerifier_def
  Lab15AttackVerifier_def Lab15HardenVerifier_def Lab16BuildVerifier_def Lab16AttackVerifier_def
  Lab16HardenVerifier_def Lab47BuildVerifier_def Lab47AttackVerifier_def Lab47HardenVerifier_def

lemmas register_defs = RegisterLab1Verifiers_def RegisterLab02Verifiers_def
  RegisterLab03Verifiers_def RegisterLab8Verifiers_def RegisterLab15Verifiers_def
  RegisterLab16Verifiers_def RegisterLab47Verifiers_def

lemma add_assertion_nonempty [simp]: "add_assertion n fn v \<noteq> []"
  by (simp add: add_assertion_def)

lemma lookup_entries:
  "Lookup verifyReg labID phase = Some e \<Longrightarrow>
     (\<forall>sess. built (re_Factory e sess) \<and> re_Factory e sess \<noteq> [])"
  unfolding Lookup_def verifyReg_def register_defs Register_def NewVerifierRegistry_def Let_def
  by (auto simp: lab_defs chain_def built_intros split: if_splits) (simp_all add: expect_defs)

section \<open>What each verifier certifies\<close>

lemma pass_iff:
  "steady_source.meets (IOSCollector (steady_console f) node) (shown_device f) v ps
     \<Longrightarrow> list_all (\<lambda>p. p) ps = P
     \<Longrightarrow> vr_Passed (snd (Run v (IOSCollector (steady_console f) node) s)) = P"
  by (simp add: ios.meets_Run)

definition link_ok :: "(string \<Rightarrow> string) \<Rightarrow> string \<Rightarrow> bool" where
  "link_ok f p =
     (let i = parseInterfaceStatus (f (''show interfaces '' @ p)) p in
      \<not> is_ErrDisabled i \<and> is_AdminUp i \<and> is_LinkUp i)"

definition described :: "(string \<Rightarrow> string) \<Rightarrow> string \<times> string \<Rightarrow> bool" where
  "described f pd =
     (is_Description (parseInterfaceStatus (f (''show interfaces '' @ fst pd)) (fst pd)) = snd pd)"

definition answers_ping :: "(string \<Rightarrow> string) \<Rightarrow> string \<Rightarrow> bool" where
  "answers_ping f ip = parsePingResult (f (''ping '' @ ip @ '' repeat 3''))"

lemmas shown_simps = shown_device_def cmd_mac_def cmd_interfaces_def cmd_errdisable_def cmd_vlan_def
  cmd_ping_def cmd_stp_def cmd_portsec_def

text \<open>
  C14: what the three phases of lab 15 certify.  On a console whose answers do not change during the
  run, Build passes exactly when the MAC table has the hub segment on Et0/0 and PC3 and KALI on ports
  of their own; Attack exactly when the four ports are up, Et0/1 is back in VLAN 1 and the four hosts
  answer pings; Harden exactly when the five descriptions and the recovery interval are set.
\<close>

theorem lab15_verdicts:
  "vr_Passed (snd (Run (Lab15BuildVerifier sess) (IOSCollector (steady_console f) node) s)) =
     (let t = parseMACTable (f ''show mac address-table'') in
      list_all (\<lambda>h. PortFor t (session_MAC sess h) = Some ''Et0/0'') [''PC1'', ''PC2'', ''KALI2'']
      \<and> PortFor t (session_MAC sess ''PC3'') = Some ''Et0/1''
      \<and> PortFor t (session_MAC sess ''KALI'') = Some ''Et0/2'')
   \<and> vr_Passed (snd (Run (Lab15AttackVerifier sess) (IOSCollector (steady_console f) node) s)) =
     (list_all (link_ok f) [''Et0/0'', ''Et0/1'', ''Et0/2'', ''Et0/3'']
      \<and> mget (parseVlanBrief (f ''show vlan brief'')) ''Et0/1'' = Some 1
      \<and> list_all (answers_ping f)
          [''192.168.1.10'', ''192.168.1.20'', ''192.168.1.30'', ''192.168.1.100''])
   \<and> vr_Passed (snd (Run (Lab15HardenVerifier sess) (IOSCollector (steady_console f) node) s)) =
     (list_all (described f) [(''Et0/0'', ''LINK-TO-HUB-PC1-PC2''), (''Et0/1'', ''LINK-TO-PC3''),
        (''Et0/2'', ''LINK-TO-KALI''), (''Et0/3'', ''UPLINK-TO-R1''), (''Et0/4'', ''SPARE-UNUSED'')]
      \<and> ec_Enabled (parseErrdisableRecovery (f ''show errdisable recovery''))
      \<and> ec_IntervalSec (parseErrdisableRecovery (f ''show errdisable recovery'')) = 300)"
  unfolding Lab15BuildVerifier_def Lab15AttackVerifier_def Lab15HardenVerifier_def chain_def foldl.simps
  by (intro conjI; rule pass_iff, (rule ios_meets)+,
      simp add: shown_simps link_ok_def described_def answers_ping_def lab15_ips_def mget0_def Let_def)

text \<open>
  The phases of labs 2 and 47 that decide by one table.  In lab 47 Harden accepts any answer to
  the two pings that does not report a success rate of at least 66 percent, an empty one included.
\<close>

theorem lab2_lab47_verdicts:
  "vr_Passed (snd (Run (Lab02BuildVerifier sess) (IOSCollector (steady_console f) node) s)) =
     st_IsRoot (projr (ParseSTP (f ''show spanning-tree vlan 1'')))
   \<and> vr_Passed (snd (Run (Lab02AttackVerifier sess) (IOSCollector (steady_console f) node) s)) =
     (mget (st_PortRoles (projr (ParseSTP (f ''show spanning-tree vlan 1'')))) ''Et0/2'' = Some ''Root'')
   \<and> vr_Passed (snd (Run (Lab02HardenVerifier sess) (IOSCollector (steady_console f) node) s)) =
     (mget (st_PortRoles (projr (ParseSTP (f ''show spanning-tree vlan 1'')))) ''Et0/3'' = Some ''Altn'')
   \<and> vr_Passed (snd (Run (Lab47BuildVerifier sess) (IOSCollector (steady_console f) node) s)) =
     (link_ok f ''Et0/0''
      \<and> mget (parseVlanBrief (f ''show vlan brief'')) ''Et0/1'' = Some 10
      \<and> mget (parseVlanBrief (f ''show vlan brief'')) ''Et0/2'' = Some 20)
   \<and> vr_Passed (snd (Run (Lab47AttackVerifier sess) (IOSCollector (steady_console f) node) s)) =
     (list_all (link_ok f) [''Fa0/0'', ''Fa0/1'']
      \<and> list_all (answers_ping f) [''10.0.0.2'', ''10.0.10.10'', ''10.0.20.20''])
   \<and> vr_Passed (snd (Run (Lab47HardenVerifier sess) (IOSCollector (steady_console f) node) s)) =
     (list_all (link_ok f) [''Fa0/0'', ''Fa0/1'']
      \<and> list_all (\<lambda>ip. \<not> answers_ping f ip) [''10.0.10.10'', ''10.0.20.20''])"
  unfolding Lab02BuildVerifier_def Lab02AttackVerifier_def Lab02HardenVerifier_def
    Lab47BuildVerifier_def Lab47AttackVerifier_def Lab47HardenVerifier_def chain_def foldl.simps
  by (intro conjI; rule pass_iff, (rule ios_meets)+,
      simp add: shown_simps link_ok_def answers_ping_def lab47IPs_def mget0_def Let_def)

section \<open>Unresolved hosts\<close>

text \<open>Every MAC table the store can hold over an IOS console has canonical addresses.\<close>

definition canonical_table :: "'s vst \<Rightarrow> bool" where
  "canonical_table st = list_all (\<lambda>e. canonical_mac (me_MAC e)) (ev_MACTable (es_evidence (fst st)))"

lemma store_step_canonical:
  "canonical_table st \<Longrightarrow> store_step (IOSCollector r node) st st' \<Longrightarrow> canonical_table st'"
  by (erule store_step.cases; cases st; cases st')
     (auto simp: store_reads canonical_table_def IOSCollector_def map_ok_def Let_def
       parseMACTable_canonical split: if_splits prod.splits sum.splits option.splits)

lemma PortFor_canonical:
  "list_all (\<lambda>e. canonical_mac (me_MAC e)) t \<Longrightarrow> \<not> canonical_mac m \<Longrightarrow> PortFor t m = None"
  by (induction t) auto

lemma read_mac_canonical:
  assumes "canonical_table st" "evMACTable (IOSCollector r node) st = (st', q)"
  shows "canonical_table st' \<and> (\<forall>t. q = Inr t \<longrightarrow> list_all (\<lambda>e. canonical_mac (me_MAC e)) t)"
  using assms
  by (cases st; cases st') (auto simp: evMACTable_def canonical_table_def IOSCollector_def map_ok_def
       parseMACTable_canonical split: if_splits prod.splits sum.splits)

text \<open>A verifier that cannot pass from a store with canonical tables.\<close>

definition hopeless :: "'s Collector \<Rightarrow> 's Verifier \<Rightarrow> bool" where
  "hopeless c v = (\<forall>st. canonical_table st \<longrightarrow> \<not> list_all ck_Passed (snd (run_assertions v c st)))"

lemma hopeless_more: "hopeless c v \<Longrightarrow> hopeless c (add_assertion n fn v)"
  unfolding hopeless_def add_assertion_def run_assertions_append
  by (simp add: case_prod_unfold)

lemma hopeless_here:
  assumes "built v" "\<And>st. canonical_table st \<Longrightarrow> \<not> fst (snd (fn (IOSCollector r node) st))"
  shows "hopeless (IOSCollector r node) (add_assertion n fn v)"
  unfolding hopeless_def
proof (intro allI impI)
  fix st :: "'a vst"
  assume t: "canonical_table st"
  obtain st1 chks where 1: "run_assertions v (IOSCollector r node) st = (st1, chks)" by fastforce
  have "canonical_table st1"
    by (rule store_steps_invariant [where I = canonical_table,
          OF run_assertions_reads [OF built_reads [OF assms(1)] 1] t]) (rule store_step_canonical)
  then show "\<not> list_all ck_Passed (snd (run_assertions (add_assertion n fn v) (IOSCollector r node) st))"
    using assms(2) [of st1] 1 by (auto simp: add_assertion_def run_assertions_append split: prod.splits)
qed

lemma hopeless_mac:
  assumes "built v" "\<not> canonical_mac mac"
  shows "hopeless (IOSCollector r node) (ExpectMACOnPort n mac port v)"
  unfolding ExpectMACOnPort_def
proof (rule hopeless_here [OF assms(1)])
  fix st :: "'a vst"
  assume t: "canonical_table st"
  obtain st' q where e: "evMACTable (IOSCollector r node) st = (st', q)" by fastforce
  show "\<not> fst (snd (judge (evMACTable (IOSCollector r node) st) (\<lambda>table.
     case PortFor table mac of
       None \<Rightarrow> (False, mac_missing mac
                 '' generate traffic from this host (e.g. ping from it) and re-verify'')
     | Some got \<Rightarrow>
         if got \<noteq> port then (False, ''expected '' @ port @ '', found on '' @ got)
         else (True, ''learned on '' @ port))))"
    using read_mac_canonical [OF t e] PortFor_canonical [OF _ assms(2)]
    by (cases q) (auto simp: judge_def e)
qed

lemma share_port_canonical:
  "list_all (\<lambda>e. canonical_mac (me_MAC e)) t \<Longrightarrow> m \<in> set ms \<Longrightarrow> \<not> canonical_mac m
     \<Longrightarrow> share_port t ms port \<noteq> None"
  using PortFor_canonical by (induction ms) (auto split: option.splits)

lemma hopeless_share:
  assumes "built v" "m \<in> set ms" "\<not> canonical_mac m"
  shows "hopeless (IOSCollector r node) (ExpectMACsShareOnePort n ms port v)"
  unfolding ExpectMACsShareOnePort_def
proof (rule hopeless_here [OF assms(1)])
  fix st :: "'a vst"
  assume t: "canonical_table st"
  obtain st' q where e: "evMACTable (IOSCollector r node) st = (st', q)" by fastforce
  show "\<not> fst (snd (judge (evMACTable (IOSCollector r node) st)
     (\<lambda>table. case share_port table ms port of
        Some msg \<Rightarrow> (False, msg)
      | None \<Rightarrow> (True, ''all '' @ itoa (int (length ms)) @ '' MACs learned on '' @ port))))"
    using read_mac_canonical [OF t e] share_port_canonical [OF _ assms(2,3), of _ port]
    by (cases q) (auto simp: judge_def e split: option.splits)
qed

lemma hopeless_Run: "hopeless c v \<Longrightarrow> \<not> vr_Passed (snd (Run v c s))"
proof -
  assume h: "hopeless c v"
  have "canonical_table (NewEvidenceStore, s)"
    by (simp add: canonical_table_def NewEvidenceStore_def zero_evidence_def)
  then have "\<not> list_all ck_Passed (snd (run_assertions v c (NewEvidenceStore, s)))"
    using h unfolding hopeless_def by blast
  then show ?thesis by (auto simp: Run_def passed_fold split: prod.splits)
qed

lemma unresolved_not_canonical:
  "mget0 [] (ls_MACs sess) h = [] \<Longrightarrow> \<not> canonical_mac (session_MAC sess h)"
  by (simp add: session_MAC_def canonical_mac_def is_hexl_def is_digit_def)

text \<open>
  A host whose MAC address was not resolved when the lab was provisioned, or is not in the
  canonical form, makes Build of lab 15 fail, on any console and in any state.
\<close>

theorem lab15_needs_macs:
  assumes "h \<in> set [''PC1'', ''PC2'', ''KALI2'', ''PC3'', ''KALI'']"
    and "mget0 [] (ls_MACs sess) h = [] \<or> \<not> canonical_mac (session_MAC sess h)"
  shows "\<not> vr_Passed (snd (Run (Lab15BuildVerifier sess) (IOSCollector r node) s))"
proof (rule hopeless_Run)
  have n: "\<not> canonical_mac (session_MAC sess h)" using assms(2) unresolved_not_canonical by blast
  let ?c = "IOSCollector r node"
  consider "h \<in> set [''PC1'', ''PC2'', ''KALI2'']" | "h = ''PC3''" | "h = ''KALI''" using assms(1) by auto
  then show "hopeless ?c (Lab15BuildVerifier sess)"
  proof cases
    case 1
    then have "session_MAC sess h \<in> set [session_MAC sess ''PC1'', session_MAC sess ''PC2'',
        session_MAC sess ''KALI2'']" by auto
    from hopeless_share [OF built_New this n] show ?thesis
      unfolding Lab15BuildVerifier_def chain_def foldl.simps ExpectMACOnPort_def
      by (intro hopeless_more)
  next
    case 2
    with n hopeless_mac [OF built_share [OF built_New], of "session_MAC sess ''PC3''"] show ?thesis
      unfolding Lab15BuildVerifier_def chain_def foldl.simps ExpectMACOnPort_def [of "''KALI has its own dedicated port''"]
      by (intro hopeless_more) simp
  next
    case 3
    with n show ?thesis
      unfolding Lab15BuildVerifier_def chain_def foldl.simps
      by (intro hopeless_mac built_intros) simp
  qed
qed

definition demo_verify_session :: LabSession where
  "demo_verify_session = \<lparr>ls_MACs = [(''PC1'', ''00:50:79:66:68:00'')], ls_IPs = [], ls_ConsoleNodes = []\<rparr>"

theorem lab15_needs_macs_witness:
  "\<not> vr_Passed (snd (Run (Lab15BuildVerifier demo_verify_session)
      (IOSCollector echo_console ''SW1'') ()))"
  by (rule lab15_needs_macs [of "''KALI''"])
     (simp_all add: demo_verify_session_def mget0_def)

end
