(* ===== verification/SessionService.thy ===== *)
theory SessionService
  imports Reaper LabCatalog
begin

text \<open>
  \<open>internal/labsession/service.go\<close>: launching, provisioning and ending lab sessions.  A handler
  goroutine runs a method from start to end on the shared world; \<open>Launch\<close> is cut in two at the
  point where other goroutines can come in between the capacity check and the insert.
\<close>

section \<open>Service\<close>

definition ErrPlanGate :: gerr where
  "ErrPlanGate = Sentinel ''lab sessions require a Pro or Bootcamp plan''"
definition ErrSlotConflict :: gerr where
  "ErrSlotConflict = Sentinel ''max concurrent sessions reached''"
definition ErrConceptualLab :: gerr where
  "ErrConceptualLab = Sentinel ''this lab is content-only and has no live session''"

record 's Service =
  sv_gns3 :: "'s GNS3Client"
  sv_maxSessions :: int
  sv_computeID :: string
  sv_computeHost :: string

definition NewService :: "'s GNS3Client \<Rightarrow> int \<Rightarrow> string \<Rightarrow> string \<Rightarrow> 's Service" where
  "NewService g maxSessions computeID computeHost =
     \<lparr>sv_gns3 = g, sv_maxSessions = maxSessions, sv_computeID = computeID,
      sv_computeHost = computeHost\<rparr>"

text \<open>
  How a call of \<open>Launch\<close> ends: it panics (dereference of a nil project id), returns an error, or
  returns a session, possibly after starting the provisioning goroutine for it.
\<close>

datatype launched =
    LPanic
  | LErr gerr
  | LSession Session
  | LSpawn Session

text \<open>The resume path for an existing active session.\<close>

definition launch_resume :: "'s Service \<Rightarrow> 's world \<Rightarrow> Session \<Rightarrow> 's world \<times> launched" where
  "launch_resume s w existing =
     (if s_Status existing = StatusIdleStopped then
        (case s_GNS3ProjectID existing of
           None \<Rightarrow> (w, LPanic)
         | Some p \<Rightarrow>
        (case gcall (g_StartNodes (sv_gns3 s) p) w of
           (w1, Some e) \<Rightarrow> (w1, LErr e)
         | (w1, None) \<Rightarrow>
        (case SetStatus w1 (s_ID existing) StatusRunning of
           (w2, Some e) \<Rightarrow> (w2, LErr e)
         | (w2, None) \<Rightarrow>
             (fst (Touch w2 (s_ID existing)), LSession (existing\<lparr>s_Status := StatusRunning\<rparr>)))))
      else (w, LSession existing))"

text \<open>Everything up to the insert; \<open>None\<close> means that a new session is to be created.\<close>

definition launch_admit ::
  "'s Service \<Rightarrow> 's world \<Rightarrow> uuid \<Rightarrow> int \<Rightarrow> bool \<Rightarrow> 's world \<times> launched option" where
  "launch_admit s w userID labID isPro =
     (if \<not> isPro then (w, Some (LErr ErrPlanGate))
      else if length (tt_Nodes (lookupTopologyTemplate labID)) = 0
      then (w, Some (LErr ErrConceptualLab))
      else
       (case FindActiveForUserLab w userID labID of
          (w1, Inr existing) \<Rightarrow>
            (case launch_resume s w1 existing of (w2, r) \<Rightarrow> (w2, Some r))
        | (w1, Inl e) \<Rightarrow>
            if \<not> errors_is e ErrNotFound then (w1, Some (LErr e))
            else
             (case ActiveCount w1 of
                (w2, Inl e2) \<Rightarrow> (w2, Some (LErr e2))
              | (w2, Inr count) \<Rightarrow>
                  if int count \<ge> sv_maxSessions s then (w2, Some (LErr ErrSlotConflict))
                  else (w2, None))))"

definition launch_create ::
  "'s Service \<Rightarrow> 's world \<Rightarrow> uuid \<Rightarrow> int \<Rightarrow> 's world \<times> launched" where
  "launch_create s w userID labID =
     (case Create w userID labID (sv_computeID s) of
        (w1, Inl e) \<Rightarrow> (w1, LErr e)
      | (w1, Inr sess) \<Rightarrow> (w1, LSpawn sess))"

definition Launch ::
  "'s Service \<Rightarrow> 's world \<Rightarrow> uuid \<Rightarrow> int \<Rightarrow> bool \<Rightarrow> 's world \<times> launched" where
  "Launch s w userID labID isPro =
     (case launch_admit s w userID labID isPro of
        (w1, Some r) \<Rightarrow> (w1, r)
      | (w1, None) \<Rightarrow> launch_create s w1 userID labID)"

definition fail_session :: "'s world \<Rightarrow> uuid \<Rightarrow> 's world" where
  "fail_session w sessionID = fst (SetStatus w sessionID StatusFailed)"

definition provision :: "'s Service \<Rightarrow> 's world \<Rightarrow> uuid \<Rightarrow> int \<Rightarrow> 's world" where
  "provision s w sessionID labID =
     (case gcall (g_EnsureKaliImage (sv_gns3 s) (sv_computeID s)) w of
        (w1, Some e) \<Rightarrow> fail_session w1 sessionID
      | (w1, None) \<Rightarrow>
     (case gcall (g_CreateProject (sv_gns3 s) (sv_computeID s) 0 labID) w1 of
        (w2, Inl e) \<Rightarrow> fail_session w2 sessionID
      | (w2, Inr projectID) \<Rightarrow>
     (case gcall (g_ProvisionTopology (sv_gns3 s) projectID (lookupTopologyTemplate labID)) w2 of
        (w3, Inl e) \<Rightarrow> fail_session w3 sessionID
      | (w3, Inr nodes) \<Rightarrow>
     (case gcall (g_StartNodes (sv_gns3 s) projectID) w3 of
        (w4, Some e) \<Rightarrow> fail_session w4 sessionID
      | (w4, None) \<Rightarrow>
     (case gcall (g_PopulateNodeMACs (sv_gns3 s) projectID nodes) w4 of
        (w5, (nodes', e)) \<Rightarrow> fst (SetProvisioned w5 sessionID projectID nodes'))))))"

definition Get :: "'s world \<Rightarrow> uuid \<Rightarrow> 's world \<times> (gerr + Session)" where
  "Get w i = GetByID w i"

definition Heartbeat :: "'s world \<Rightarrow> uuid \<Rightarrow> 's world \<times> gerr option" where
  "Heartbeat w i = Touch w i"

definition EndLab :: "'s Service \<Rightarrow> 's world \<Rightarrow> uuid \<Rightarrow> 's world \<times> gerr option" where
  "EndLab s w i =
     (case GetByID w i of
        (w1, Inl e) \<Rightarrow> (w1, Some e)
      | (w1, Inr sess) \<Rightarrow>
          (case s_GNS3ProjectID sess of
             None \<Rightarrow> End w1 i
           | Some p \<Rightarrow>
               (case gcall (g_DeleteProject (sv_gns3 s) p) w1 of
                  (w2, Some e) \<Rightarrow> (w2, Some e)
                | (w2, None) \<Rightarrow> End w2 i)))"

definition svcEnsureProjectRunning ::
  "'s Service \<Rightarrow> 's world \<Rightarrow> string \<Rightarrow> 's world \<times> gerr option" where
  "svcEnsureProjectRunning s w projectID =
     (if projectID = [] then (w, None)
      else gcall (g_EnsureProjectRunning (sv_gns3 s) projectID) w)"

definition derefStr :: "string option \<Rightarrow> string" where
  "derefStr s = (case s of None \<Rightarrow> [] | Some t \<Rightarrow> t)"

section \<open>Every method issues repository statements only\<close>

lemma read_view:
  "FindActiveForUserLab w u l = (w', r) \<Longrightarrow> db_view w' = db_view w"
  "GetByID w i = (w', r2) \<Longrightarrow> db_view w' = db_view w"
  "ActiveCount w = (w', r3) \<Longrightarrow> db_view w' = db_view w"
  by (auto simp: FindActiveForUserLab_def GetByID_def ActiveCount_def db_view_def
      dest: row_result_frame db_read_frame)

lemma update_steps:
  assumes "db_write (update_row i f) w = (w', e)"
    and "excl_ok (update_row i f (w_rows w)) \<Longrightarrow>
           db_step (db_view w) (update_row i f (w_rows w), w_fresh w)"
  shows "db_steps (db_view w) (db_view w')"
  using db_write_rows [OF assms(1)] db_write_frame [OF assms(1)] assms(2)
  by (auto simp: db_view_def)

lemma Touch_steps: "Touch w i = (w', e) \<Longrightarrow> db_steps (db_view w) (db_view w')"
  unfolding Touch_def
  by (erule update_steps) (auto simp: db_view_def intro: st_touch)

lemma SetProvisioned_steps:
  "SetProvisioned w i p nm = (w', e) \<Longrightarrow> db_steps (db_view w) (db_view w')"
  unfolding SetProvisioned_def
  by (erule update_steps) (auto simp: db_view_def intro: st_provisioned)

lemma Create_steps:
  assumes "Create w u l c = (w', r)"
  shows "db_steps (db_view w) (db_view w')"
proof -
  obtain e where e: "db_write (\<lambda>t. t @ [new_session (w_fresh w) u l c (w_now w)])
      (w\<lparr>w_fresh := Suc (w_fresh w)\<rparr>) = (w', e)"
    using assms by (auto simp: Create_def Let_def split: prod.splits)
  from db_write_rows [OF e] db_write_frame [OF e] show ?thesis
    using st_create [of "w_rows w" "w_fresh w" u l c "w_now w"] st_skip_id [of "w_rows w" "w_fresh w"]
    by (auto simp: db_view_def)
qed

lemma fail_steps: "db_steps (db_view w) (db_view (fail_session w i))"
  unfolding fail_session_def by (rule SetStatus_fst) simp

lemma FindActive_value:
  assumes "FindActiveForUserLab w u l = (w', Inr s)"
  shows "s \<in> set (w_rows w) \<and> s_UserID s = u \<and> s_LabID s = l \<and> active s"
  using row_result_value [OF assms [unfolded FindActiveForUserLab_def]]
  by (auto simp: find_Some_iff)

lemma launch_resume_steps:
  assumes "launch_resume s w sess = (w', r)" "matches w sess"
  shows "db_steps (db_view w) (db_view w')"
proof (cases "s_Status sess = StatusIdleStopped \<and> s_GNS3ProjectID sess \<noteq> None")
  case False
  with assms show ?thesis by (auto simp: launch_resume_def split: option.splits if_splits)
next
  case True
  then obtain p where p: "s_GNS3ProjectID sess = Some p" by blast
  obtain w1 e1 where g: "gcall (g_StartNodes (sv_gns3 s) p) w = (w1, e1)" by fastforce
  obtain w2 e2 where t: "SetStatus w1 (s_ID sess) StatusRunning = (w2, e2)" by fastforce
  obtain w3 e3 where h: "Touch w2 (s_ID sess) = (w3, e3)" by fastforce
  have "\<forall>row\<in>set (w_rows w1). s_ID row = s_ID sess \<longrightarrow> s_GNS3ProjectID row \<noteq> None"
    using assms(2) p gcall_frame [OF g] by (simp add: matches_def)
  then have "db_steps (db_view w) (db_view w2)"
    using SetStatus_steps [OF t] gcall_view [OF g] by simp
  then show ?thesis
    using assms(1) True p g t h gcall_view [OF g] Touch_steps [OF h]
    by (auto simp: launch_resume_def split: option.splits)
qed

lemma launch_admit_steps:
  assumes "launch_admit s w u l pro = (w', r)" "distinct (map s_ID (w_rows w))"
  shows "db_steps (db_view w) (db_view w')"
proof -
  obtain w1 f where f: "FindActiveForUserLab w u l = (w1, f)" by fastforce
  note v1 = read_view(1) [OF f]
  show ?thesis
  proof (cases f)
    case (Inl e)
    obtain w2 q where c: "ActiveCount w1 = (w2, q)" by fastforce
    show ?thesis
      using assms(1) f Inl c v1 read_view(3) [OF c]
      by (auto simp: launch_admit_def split: if_splits sum.splits)
  next
    case (Inr sess)
    obtain w2 q where c: "launch_resume s w1 sess = (w2, q)" by fastforce
    have "w_rows w1 = w_rows w" using v1 by (simp add: db_view_def)
    then have "matches w1 sess"
      using query_matches [OF assms(2)] FindActive_value f Inr by blast
    from launch_resume_steps [OF c this] show ?thesis
      using assms(1) f Inr c v1 by (auto simp: launch_admit_def split: if_splits)
  qed
qed

lemma launch_create_steps:
  "launch_create s w u l = (w', r) \<Longrightarrow> db_steps (db_view w) (db_view w')"
  by (auto simp: launch_create_def dest: Create_steps split: prod.splits sum.splits)

lemma Launch_steps:
  assumes "Launch s w u l pro = (w', r)" "distinct (map s_ID (w_rows w))"
  shows "db_steps (db_view w) (db_view w')"
proof -
  obtain w1 q where a: "launch_admit s w u l pro = (w1, q)" by fastforce
  note s1 = launch_admit_steps [OF a assms(2)]
  show ?thesis
  proof (cases q)
    case None
    then have "launch_create s w1 u l = (w', r)" using assms(1) a by (simp add: Launch_def)
    from launch_create_steps [OF this] s1 show ?thesis by simp
  next
    case (Some x)
    then show ?thesis using assms(1) a s1 by (simp add: Launch_def)
  qed
qed

lemma EndLab_steps:
  assumes "EndLab s w i = (w', e)"
  shows "db_steps (db_view w) (db_view w')"
proof -
  obtain w1 q where g: "GetByID w i = (w1, q)" by fastforce
  note v = read_view(2) [OF g]
  show ?thesis
  proof (cases "\<exists>sess p. q = Inr sess \<and> s_GNS3ProjectID sess = Some p")
    case False
    then show ?thesis
      using assms g v End_steps [of w1 i w' e]
      by (auto simp: EndLab_def split: sum.splits option.splits)
  next
    case True
    then obtain sess p where q: "q = Inr sess" "s_GNS3ProjectID sess = Some p" by blast
    obtain w2 d where d: "gcall (g_DeleteProject (sv_gns3 s) p) w1 = (w2, d)" by fastforce
    show ?thesis
      using assms g q d v gcall_view [OF d] End_steps [of w2 i w' e]
      by (auto simp: EndLab_def split: option.splits)
  qed
qed

text \<open>The provisioning goroutine ends with one statement: \<open>failed\<close>, or the project and its nodes.\<close>

lemma provision_cases:
  obtains (failed) w1 where "db_view w1 = db_view w" "w_faults w1 = w_faults w"
      "provision s w i labID = fail_session w1 i"
  | (ready) w1 p nodes where "db_view w1 = db_view w" "w_faults w1 = w_faults w"
      "provision s w i labID = fst (SetProvisioned w1 i p nodes)"
proof -
  obtain w1 e1 where 1: "gcall (g_EnsureKaliImage (sv_gns3 s) (sv_computeID s)) w = (w1, e1)"
    by fastforce
  obtain w2 r2 where 2: "gcall (g_CreateProject (sv_gns3 s) (sv_computeID s) 0 labID) w1 = (w2, r2)"
    by fastforce
  note f1 = gcall_view [OF 1] gcall_frame [OF 1] and f2 = gcall_view [OF 2] gcall_frame [OF 2]
  show thesis
  proof (cases "e1 = None \<and> is_ok r2")
    case False
    then show thesis
      using 1 2 f1 f2 failed [of w1] failed [of w2]
      by (cases e1; cases r2) (simp_all add: provision_def)
  next
    case True
    then obtain p where p: "r2 = Inr p" by (cases r2) auto
    obtain w3 r3 where 3: "gcall (g_ProvisionTopology (sv_gns3 s) p (lookupTopologyTemplate labID)) w2
        = (w3, r3)" by fastforce
    obtain w4 e4 where 4: "gcall (g_StartNodes (sv_gns3 s) p) w3 = (w4, e4)" by fastforce
    note f3 = gcall_view [OF 3] gcall_frame [OF 3] and f4 = gcall_view [OF 4] gcall_frame [OF 4]
    show thesis
    proof (cases "is_ok r3 \<and> e4 = None")
      case False
      then show thesis
        using True 1 2 3 4 p f1 f2 f3 f4 failed [of w3] failed [of w4]
        by (cases e4; cases r3) (simp_all add: provision_def)
    next
      case ok: True
      then obtain nodes where n: "r3 = Inr nodes" by (cases r3) auto
      obtain w5 ns e5 where 5: "gcall (g_PopulateNodeMACs (sv_gns3 s) p nodes) w4 = (w5, (ns, e5))"
        by (metis surj_pair)
      show thesis
        using ready [of w5 p ns] ok n True 1 2 3 4 5 p f1 f2 f3 f4 gcall_view [OF 5] gcall_frame [OF 5]
        by (simp add: provision_def)
    qed
  qed
qed

lemma provision_steps: "db_steps (db_view w) (db_view (provision s w i labID))"
proof (cases rule: provision_cases [of w s i labID])
  case (failed w1)
  then show ?thesis using fail_steps [of w1 i] by simp
next
  case (ready w1 p nodes)
  then show ?thesis
    using SetProvisioned_steps [of w1 i p nodes "fst (SetProvisioned w1 i p nodes)"
        "snd (SetProvisioned w1 i p nodes)"] by simp
qed

section \<open>The running system\<close>

text \<open>
  One step of the server: a method of the service (with \<open>Launch\<close> in its two halves), a sweep of the
  reaper, or the outside world moving on (time, the compute host, upcoming database faults).
\<close>

inductive svc_step ::
  "'s Service \<Rightarrow> 's Reaper \<times> 's world \<Rightarrow> 's Reaper \<times> 's world \<Rightarrow> bool" for s where
  ss_admit: "launch_admit s w u l pro = (w', r) \<Longrightarrow> svc_step s (rp, w) (rp, w')"
| ss_create: "launch_create s w u l = (w', r) \<Longrightarrow> svc_step s (rp, w) (rp, w')"
| ss_provision: "svc_step s (rp, w) (rp, provision s w i l)"
| ss_end: "EndLab s w i = (w', e) \<Longrightarrow> svc_step s (rp, w) (rp, w')"
| ss_heartbeat: "Heartbeat w i = (w', e) \<Longrightarrow> svc_step s (rp, w) (rp, w')"
| ss_sweep: "sweep rp w = (rp', w') \<Longrightarrow> svc_step s (rp, w) (rp', w')"
| ss_env: "w_rows w' = w_rows w \<Longrightarrow> w_fresh w' = w_fresh w \<Longrightarrow> svc_step s (rp, w) (rp, w')"

lemma world_ok_steps: "db_steps (db_view w) (db_view w') \<Longrightarrow> world_ok w \<Longrightarrow> world_ok w'"
  using db_steps_ok [of "db_view w" "db_view w'"] by (simp add: world_ok_def db_view_def)

lemma world_ok_ids: "world_ok w \<Longrightarrow> distinct (map s_ID (w_rows w))"
  by (simp add: world_ok_def table_ok_def)

lemma svc_step_ok: "svc_step s a b \<Longrightarrow> world_ok (snd a) \<Longrightarrow> world_ok (snd b)"
proof (induction rule: svc_step.induct)
  case (ss_admit w u l pro w' r rp)
  then show ?case using launch_admit_steps world_ok_ids world_ok_steps by (metis snd_conv)
next
  case (ss_create w u l w' r rp)
  then show ?case using launch_create_steps world_ok_steps by (metis snd_conv)
next
  case (ss_provision rp w i l)
  then show ?case using provision_steps world_ok_steps by (metis snd_conv)
next
  case (ss_end w i w' e rp)
  then show ?case using EndLab_steps world_ok_steps by (metis snd_conv)
next
  case (ss_heartbeat w i w' e rp)
  then show ?case using Touch_steps world_ok_steps unfolding Heartbeat_def by (metis snd_conv)
next
  case (ss_sweep rp w rp' w')
  then show ?case using sweep_steps world_ok_ids world_ok_steps by (metis snd_conv)
next
  case (ss_env w' w rp)
  then show ?case by (simp add: world_ok_def)
qed

lemma svc_run_ok: "(svc_step s)\<^sup>*\<^sup>* a b \<Longrightarrow> world_ok (snd a) \<Longrightarrow> world_ok (snd b)"
  by (induction rule: rtranclp_induct) (auto dest: svc_step_ok)

lemma admit_no_panic:
  assumes "world_ok w" "launch_admit s w u l pro = (w', r)"
  shows "r \<noteq> Some LPanic"
proof -
  obtain w1 f where f: "FindActiveForUserLab w u l = (w1, f)" by fastforce
  show ?thesis
  proof (cases f)
    case (Inl e)
    then show ?thesis
      using assms(2) f by (auto simp: launch_admit_def split: if_splits sum.splits prod.splits)
  next
    case (Inr sess)
    then have "project_set sess"
      using FindActive_value [of w u l w1 sess] f assms(1)
      by (simp add: world_ok_def table_ok_def list_all_iff)
    then have "snd (launch_resume s w1 sess) \<noteq> LPanic"
      by (auto simp: launch_resume_def project_set_def split: option.splits prod.splits)
    then show ?thesis
      using assms(2) f Inr by (auto simp: launch_admit_def split: if_splits prod.splits)
  qed
qed

section \<open>Capacity\<close>

lemma slots_update_le:
  assumes "\<And>row. row \<in> set t \<Longrightarrow> s_ID row = i \<Longrightarrow> active (f row) \<Longrightarrow> active row"
  shows "slots_used (update_row i f t) \<le> slots_used t"
  using assms
proof (induction t)
  case (Cons row t)
  then have "slots_used (update_row i f t) \<le> slots_used t" by simp
  then show ?case using Cons.prems [of row]
    by (auto simp: slots_used_def update_row_def)
qed (simp add: slots_used_def update_row_def)

lemma slots_write_le:
  assumes "db_write (update_row i f) w = (w', e)"
    and "\<And>row. row \<in> set (w_rows w) \<Longrightarrow> s_ID row = i \<Longrightarrow> active (f row) \<Longrightarrow> active row"
  shows "slots_used (w_rows w') \<le> slots_used (w_rows w)"
  using db_write_rows [OF assms(1)] slots_update_le [of "w_rows w" i f, OF assms(2)] by auto

lemma Touch_slots: "slots_used (w_rows (fst (Touch w i))) \<le> slots_used (w_rows w)"
  unfolding Touch_def by (rule slots_write_le [OF surjective_pairing]) simp

lemma launch_resume_slots:
  assumes "launch_resume s w sess = (w', r)" "\<And>row. row \<in> set (w_rows w) \<Longrightarrow> s_ID row = s_ID sess \<Longrightarrow> active row"
  shows "slots_used (w_rows w') \<le> slots_used (w_rows w)"
proof (cases "s_Status sess = StatusIdleStopped \<and> s_GNS3ProjectID sess \<noteq> None")
  case False
  with assms show ?thesis by (auto simp: launch_resume_def split: option.splits if_splits)
next
  case True
  then obtain p where p: "s_GNS3ProjectID sess = Some p" by blast
  obtain w1 e1 where g: "gcall (g_StartNodes (sv_gns3 s) p) w = (w1, e1)" by fastforce
  obtain w2 e2 where t: "SetStatus w1 (s_ID sess) StatusRunning = (w2, e2)" by fastforce
  have r1: "w_rows w1 = w_rows w" using gcall_frame [OF g] by simp
  have "slots_used (w_rows w2) \<le> slots_used (w_rows w1)"
    by (rule slots_write_le [OF t [unfolded SetStatus_def]]) (use assms(2) r1 in auto)
  then show ?thesis
    using assms(1) True p g t r1 Touch_slots [of w2 "s_ID sess"]
    by (auto simp: launch_resume_def split: option.splits)
qed

lemma launch_admit_slots:
  assumes "launch_admit s w u l pro = (w', r)" "world_ok w"
  shows "slots_used (w_rows w') \<le> slots_used (w_rows w)
    \<and> (r = None \<longrightarrow> w_rows w' = w_rows w \<and> int (slots_used (w_rows w)) < sv_maxSessions s)"
proof -
  obtain w1 f where f: "FindActiveForUserLab w u l = (w1, f)" by fastforce
  have r1: "w_rows w1 = w_rows w" using read_view(1) [OF f] by (simp add: db_view_def)
  show ?thesis
  proof (cases f)
    case (Inl e)
    obtain w2 q where c: "ActiveCount w1 = (w2, q)" by fastforce
    have q: "w_rows w2 = w_rows w" "\<And>n. q = Inr n \<Longrightarrow> n = slots_used (w_rows w)"
      using read_view(3) [OF c] c r1 by (auto simp: db_view_def ActiveCount_def dest: db_read_value)
    show ?thesis
      using assms(1) f Inl c r1 q by (auto simp: launch_admit_def split: if_splits sum.splits)
  next
    case (Inr sess)
    obtain w2 q where c: "launch_resume s w1 sess = (w2, q)" by fastforce
    have "\<And>row. row \<in> set (w_rows w1) \<Longrightarrow> s_ID row = s_ID sess \<Longrightarrow> active row"
      using FindActive_value [of w u l w1 sess] f Inr r1 world_ok_ids [OF assms(2)]
      by (auto simp: distinct_map inj_on_def)
    from launch_resume_slots [OF c this] show ?thesis
      using assms(1) f Inr c r1 by (auto simp: launch_admit_def split: if_splits)
  qed
qed

lemma Create_slots:
  assumes "Create w u l c = (w', r)"
  shows "slots_used (w_rows w') \<le> Suc (slots_used (w_rows w))"
proof -
  obtain e where e: "db_write (\<lambda>t. t @ [new_session (w_fresh w) u l c (w_now w)])
      (w\<lparr>w_fresh := Suc (w_fresh w)\<rparr>) = (w', e)"
    using assms by (auto simp: Create_def Let_def split: prod.splits)
  from db_write_rows [OF e] show ?thesis by (auto simp: slots_used_def)
qed

text \<open>
  One launch at a time respects the capacity.  If no other goroutine comes in between its
  check and its insert, \<open>Launch\<close> leaves at most \<open>maxSessions\<close> slots in use (or no more than there
  were before), whatever path it takes.
\<close>

theorem launch_respects_cap:
  assumes "world_ok w" "Launch s w u l pro = (w', r)"
  shows "int (slots_used (w_rows w')) \<le> max (int (slots_used (w_rows w))) (sv_maxSessions s)"
proof -
  obtain w1 q where a: "launch_admit s w u l pro = (w1, q)" by fastforce
  note s1 = launch_admit_slots [OF a assms(1)]
  show ?thesis
  proof (cases q)
    case None
    then have "launch_create s w1 u l = (w', r)" using assms(2) a by (simp add: Launch_def)
    then have "slots_used (w_rows w') \<le> Suc (slots_used (w_rows w1))"
      by (auto simp: launch_create_def dest: Create_slots split: prod.splits sum.splits)
    then show ?thesis using s1 None by auto
  next
    case (Some x)
    then show ?thesis using assms(2) a s1 by (auto simp: Launch_def)
  qed
qed

text \<open>An empty server with room for one session, and the example orchestrator behind it.\<close>

definition demo_service :: "demo Service" where
  "demo_service = NewService demo_client 1 ''local'' ''10.0.0.5''"

definition empty_world :: "demo world" where
  "empty_world =
     \<lparr>w_rows = [], w_fresh = 1, w_faults = [], w_now = 100,
      w_srv = \<lparr>d_polls = 0, d_exists = False, d_stuck = False\<rparr>\<rparr>"

lemma empty_world_ok: "world_ok empty_world"
  by (simp add: world_ok_def table_ok_def empty_world_def excl_ok_def)

theorem launch_respects_cap_witness:
  "int (slots_used (w_rows (fst (Launch demo_service empty_world 1 1 True))))
     \<le> max (int (slots_used (w_rows empty_world))) (sv_maxSessions demo_service)"
  by (rule launch_respects_cap [OF empty_world_ok surjective_pairing])

lemma lab1_live: "tt_Nodes (lookupTopologyTemplate 1) \<noteq> []"
  by (simp add: lookupTopologyTemplate_def topology_switch_def Lab01Topology_def)

lemma find_none: "w_rows w = [] \<Longrightarrow> w_faults w = [] \<Longrightarrow> FindActiveForUserLab w u l = (w, Inl ErrNotFound)"
  by (simp add: FindActiveForUserLab_def db_read_def next_outcome_def row_result_def)

lemma admit_empty:
  "w_rows w = [] \<Longrightarrow> w_faults w = [] \<Longrightarrow> 0 < sv_maxSessions s \<Longrightarrow>
     launch_admit s w u 1 True = (w, None)"
  using lab1_live
  by (simp add: launch_admit_def find_none ActiveCount_def db_read_def next_outcome_def slots_used_def)

text \<open>
  Two launches at the same time do not respect the capacity.  With room for one session, two
  users whose requests both pass the check before either inserts its row end up with two slots in
  use; the database has no constraint that stops the second one.
\<close>

theorem concurrent_launches_exceed_cap:
  "\<exists>w1 w2 w3 w4 s1 s2.
     launch_admit demo_service empty_world 1 1 True = (w1, None)
     \<and> launch_admit demo_service w1 2 1 True = (w2, None)
     \<and> launch_create demo_service w2 1 1 = (w3, LSpawn s1)
     \<and> launch_create demo_service w3 2 1 = (w4, LSpawn s2)
     \<and> int (slots_used (w_rows w4)) = sv_maxSessions demo_service + 1"
proof -
  have a: "launch_admit demo_service empty_world u 1 True = (empty_world, None)" for u
    by (rule admit_empty) (simp_all add: empty_world_def demo_service_def NewService_def)
  show ?thesis
    by (simp add: a) (auto simp: launch_create_def Create_def Let_def db_write_def next_outcome_def
        empty_world_def demo_service_def NewService_def excl_ok_def new_session_def slots_used_def
        active_status_def)
qed

text \<open>
  C2: the invariant of the running system.  From a consistent table, after any sequence of
  launch halves, provisioning runs, ends, heartbeats, reaper sweeps and changes of the outside
  world (database faults included), the table is consistent: session ids unique, at most one
  active session per user and lab, a project recorded for every running or suspended session;
  hence resuming a session never dereferences a nil project id.
\<close>

theorem service_invariant:
  assumes "(svc_step s)\<^sup>*\<^sup>* (rp, w) (rp', w')" "world_ok w"
  shows "world_ok w' \<and> snd (launch_admit s w' u l pro) \<noteq> Some LPanic"
proof -
  have "world_ok w'" using svc_run_ok [OF assms(1)] assms(2) by simp
  then show ?thesis using admit_no_panic surjective_pairing by metis
qed

theorem service_invariant_witness:
  "world_ok (fst (launch_create demo_service empty_world 1 1))
   \<and> snd (launch_admit demo_service (fst (launch_create demo_service empty_world 1 1)) 1 1 True)
       \<noteq> Some LPanic"
proof -
  have "(svc_step demo_service)\<^sup>*\<^sup>* (demo_reaper, empty_world)
      (demo_reaper, fst (launch_create demo_service empty_world 1 1))"
    by (rule r_into_rtranclp) (rule ss_create [OF surjective_pairing])
  from service_invariant [OF this empty_world_ok] show ?thesis .
qed

section \<open>Provisioning\<close>

lemma excl_ok_same:
  assumes "\<And>row. row \<in> set t \<Longrightarrow> s_ID row = i \<Longrightarrow> active row \<and> active (f row)
             \<and> s_UserID (f row) = s_UserID row \<and> s_LabID (f row) = s_LabID row"
  shows "excl_ok (update_row i f t) = excl_ok t"
proof -
  have "map (\<lambda>s. (s_UserID s, s_LabID s)) (filter active (update_row i f t))
      = map (\<lambda>s. (s_UserID s, s_LabID s)) (filter active t)"
    using assms by (induction t) (auto simp: update_row_def)
  then show ?thesis by (simp add: excl_ok_def)
qed

lemma write_ok:
  "w_faults w = [] \<Longrightarrow> excl_ok (f (w_rows w)) \<Longrightarrow> db_write f w = (w\<lparr>w_rows := f (w_rows w)\<rparr>, None)"
  by (simp add: db_write_def next_outcome_def)

lemma fail_session_rows:
  assumes "w_faults w = []" "excl_ok (w_rows w)"
  shows "w_rows (fail_session w i) = update_row i (\<lambda>s. s\<lparr>s_Status := StatusFailed\<rparr>) (w_rows w)"
proof -
  have "excl_ok (update_row i (\<lambda>s. s\<lparr>s_Status := StatusFailed\<rparr>) (w_rows w))"
    by (rule excl_ok_deactivate [OF _ assms(2)]) (simp add: active_status_def)
  then show ?thesis using write_ok [OF assms(1)] by (simp add: fail_session_def SetStatus_def)
qed

lemma SetProvisioned_rows:
  assumes "w_faults w = []" "excl_ok (w_rows w)"
    and "\<And>row. row \<in> set (w_rows w) \<Longrightarrow> s_ID row = i \<Longrightarrow> active row"
  shows "w_rows (fst (SetProvisioned w i p nm)) =
    update_row i (\<lambda>s. s\<lparr>s_GNS3ProjectID := Some p, s_NodeMap := nm, s_Status := StatusRunning,
      s_LastActiveAt := w_now w\<rparr>) (w_rows w)"
proof -
  have "excl_ok (update_row i (\<lambda>s. s\<lparr>s_GNS3ProjectID := Some p, s_NodeMap := nm,
      s_Status := StatusRunning, s_LastActiveAt := w_now w\<rparr>) (w_rows w))"
    using excl_ok_same [of "w_rows w" i] assms(2,3) by (simp add: active_status_def)
  then show ?thesis using write_ok [OF assms(1)] by (simp add: SetProvisioned_def)
qed

text \<open>
  Provisioning always settles the session.  Without database faults, the goroutine leaves
  every other row alone and turns the provisioning row into a failed one, or into a running one
  with a project and its node map; it never leaves it in \<open>provisioning\<close>.
\<close>

theorem provision_settles:
  assumes "world_ok w" "w_faults w = []" "row \<in> set (w_rows w)" "s_Status row = StatusProvisioning"
  shows "w_rows (provision s w (s_ID row) labID) =
           update_row (s_ID row) (\<lambda>r. r\<lparr>s_Status := StatusFailed\<rparr>) (w_rows w)
       \<or> (\<exists>p nodes now. w_rows (provision s w (s_ID row) labID) =
           update_row (s_ID row) (\<lambda>r. r\<lparr>s_GNS3ProjectID := Some p, s_NodeMap := nodes,
             s_Status := StatusRunning, s_LastActiveAt := now\<rparr>) (w_rows w))"
proof -
  have ex: "excl_ok (w_rows w)" using assms(1) by (simp add: world_ok_def table_ok_def)
  have act: "active r" if "r \<in> set (w_rows w)" "s_ID r = s_ID row" for r
    using that assms(3,4) world_ok_ids [OF assms(1)]
    by (auto simp: distinct_map inj_on_def active_status_def)
  show ?thesis
  proof (cases rule: provision_cases [of w s "s_ID row" labID])
    case (failed w1)
    then show ?thesis using fail_session_rows [of w1] ex assms(2) by (simp add: db_view_def)
  next
    case (ready w1 p nodes)
    then have "w_rows (provision s w (s_ID row) labID) =
        update_row (s_ID row) (\<lambda>r. r\<lparr>s_GNS3ProjectID := Some p, s_NodeMap := nodes,
          s_Status := StatusRunning, s_LastActiveAt := w_now w1\<rparr>) (w_rows w)"
      using SetProvisioned_rows [of w1 "s_ID row" p nodes] ex assms(2) act
      by (simp add: db_view_def)
    then show ?thesis by blast
  qed
qed

definition new_row :: Session where
  "new_row = new_session 7 1 1 ''local'' 0"

definition provisioning_world :: "demo world" where
  "provisioning_world = empty_world\<lparr>w_rows := [new_row], w_fresh := 8\<rparr>"

lemma provisioning_world_ok: "world_ok provisioning_world"
  by (simp add: provisioning_world_def empty_world_def world_ok_def table_ok_def excl_ok_def
      new_row_def new_session_def project_set_def)

theorem provision_settles_witness:
  "w_rows (provision demo_service provisioning_world (s_ID new_row) 1) =
     update_row (s_ID new_row) (\<lambda>r. r\<lparr>s_Status := StatusFailed\<rparr>) (w_rows provisioning_world)
   \<or> (\<exists>p nodes now. w_rows (provision demo_service provisioning_world (s_ID new_row) 1) =
     update_row (s_ID new_row) (\<lambda>r. r\<lparr>s_GNS3ProjectID := Some p, s_NodeMap := nodes,
       s_Status := StatusRunning, s_LastActiveAt := now\<rparr>) (w_rows provisioning_world))"
  by (rule provision_settles [OF provisioning_world_ok])
     (simp_all add: provisioning_world_def empty_world_def new_row_def new_session_def)

text \<open>
  A half-built project is forgotten.  When the topology cannot be provisioned after the project
  has been created, the session is marked failed and nothing else happens: no delete is sent to the
  compute host, and the project id is not recorded in the row, so neither \<open>EndLab\<close> nor the
  reaper can find the project again.
\<close>

theorem provision_leaks_project:
  assumes "gcall (g_EnsureKaliImage (sv_gns3 s) (sv_computeID s)) w = (w1, None)"
    and "gcall (g_CreateProject (sv_gns3 s) (sv_computeID s) 0 labID) w1 = (w2, Inr projectID)"
    and "gcall (g_ProvisionTopology (sv_gns3 s) projectID (lookupTopologyTemplate labID)) w2
           = (w3, Inl e)"
  shows "w_srv (provision s w i labID) = w_srv w3
    \<and> (\<forall>row'\<in>set (w_rows (provision s w i labID)). \<exists>row\<in>set (w_rows w).
         s_ID row' = s_ID row \<and> s_GNS3ProjectID row' = s_GNS3ProjectID row)"
proof -
  have p: "provision s w i labID = fail_session w3 i"
    using assms by (simp add: provision_def)
  have rows: "w_rows w3 = w_rows w"
    using gcall_frame [OF assms(1)] gcall_frame [OF assms(2)] gcall_frame [OF assms(3)] by simp
  obtain w4 x where st: "SetStatus w3 i StatusFailed = (w4, x)" by fastforce
  note frame = db_write_frame [OF st [unfolded SetStatus_def]]
    and eff = db_write_rows [OF st [unfolded SetStatus_def]]
  show ?thesis using frame eff rows st
    by (auto simp: p fail_session_def update_row_def) blast+
qed

definition failing_service :: "demo Service" where
  "failing_service = NewService
     (demo_client\<lparr>g_ProvisionTopology := (\<lambda>p t s. (s, 1, Inl (Errorf ''no such template'')))\<rparr>)
     1 ''local'' ''10.0.0.5''"

theorem provision_leaks_project_witness:
  "d_exists (w_srv (provision failing_service provisioning_world 7 1))
   \<and> list_all (\<lambda>row. s_GNS3ProjectID row = None)
       (w_rows (provision failing_service provisioning_world 7 1))"
  using provision_leaks_project [of failing_service provisioning_world _ 1 _ _ _ _ 7]
  by (simp add: list_all_iff failing_service_def NewService_def demo_client_def gcall_def provisioning_world_def
      empty_world_def new_row_def new_session_def)

text \<open>
  An ended session comes back.  Ending a session that is still provisioning finds no project
  and ends the row at once; when the provisioning goroutine then finishes, its last statement sets
  the same row to \<open>running\<close> with the new project: the session the user has ended holds a slot
  again, and its \<open>ended_at\<close> is set.
\<close>

theorem ended_session_resurrected:
  "\<exists>w1 row. EndLab demo_service provisioning_world 7 = (w1, None)
     \<and> list_all (\<lambda>r. s_Status r = StatusEnded) (w_rows w1)
     \<and> w_rows (provision demo_service w1 7 1) = [row]
     \<and> s_Status row = StatusRunning \<and> s_GNS3ProjectID row = Some ''p1'' \<and> s_EndedAt row \<noteq> None"
  by (simp add: EndLab_def GetByID_def db_read_def next_outcome_def row_result_def
      provisioning_world_def empty_world_def new_row_def new_session_def End_def db_write_def
      update_row_def excl_ok_def active_status_def provision_def gcall_def demo_service_def
      NewService_def demo_client_def SetProvisioned_def)

end
