(* ===== verification/ConsoleLock.thy ===== *)
theory ConsoleLock
  imports Prelude "HOL-Library.Word"
begin

text \<open>
  \<open>internal/labsession/console_lock.go\<close>: the in-memory lock per (session, node) that the
  interactive console and the headless verifier share.  Every method runs under the mutex, so
  each is one atomic state transformer.  An unlock closure is the pair of key and generation
  token it captures.  Entries are kept by value: the only shared mutation of an entry that has
  left the table (\<open>entry.token = 0\<close> in \<open>ForceRelease\<close>) cannot be observed any more.
\<close>

section \<open>State and operations\<close>

definition HolderConsole :: string where "HolderConsole = ''console''"
definition HolderVerify :: string where "HolderVerify = ''verify''"

type_synonym consoleLockKey = "uuid \<times> string"

record 'p lockEntry =
  le_holder :: string
  le_token :: "64 word"
  le_preempt :: "'p option"

record 'p ConsoleLock =
  cl_locks :: "(consoleLockKey, 'p lockEntry) gomap"
  cl_nextToken :: "64 word"

definition NewConsoleLock :: "'p ConsoleLock" where
  "NewConsoleLock = \<lparr>cl_locks = [], cl_nextToken = 0\<rparr>"

text \<open>The unlock closure: key and token.\<close>

type_synonym unlock = "consoleLockKey \<times> 64 word"

definition TryLock ::
  "'p ConsoleLock \<Rightarrow> uuid \<Rightarrow> string \<Rightarrow> string \<Rightarrow> 'p ConsoleLock \<times> (string + unlock)" where
  "TryLock l sessionID nodeName holder =
     (let key = (sessionID, nodeName) in
      case mget (cl_locks l) key of
        Some entry \<Rightarrow> (l, Inl (le_holder entry))
      | None \<Rightarrow>
         (let token = cl_nextToken l + 1;
              entry = \<lparr>le_holder = holder, le_token = token, le_preempt = None\<rparr>
          in (l\<lparr>cl_locks := mput key entry (cl_locks l), cl_nextToken := token\<rparr>,
              Inr (key, token))))"

definition run_unlock :: "'p ConsoleLock \<Rightarrow> unlock \<Rightarrow> 'p ConsoleLock" where
  "run_unlock l u =
     (case mget (cl_locks l) (fst u) of
        Some e \<Rightarrow> if le_token e = snd u then l\<lparr>cl_locks := mdel (fst u) (cl_locks l)\<rparr> else l
      | None \<Rightarrow> l)"

definition SetPreempt :: "'p ConsoleLock \<Rightarrow> uuid \<Rightarrow> string \<Rightarrow> 'p \<Rightarrow> 'p ConsoleLock" where
  "SetPreempt l sessionID nodeName fn =
     (case mget (cl_locks l) (sessionID, nodeName) of
        Some entry \<Rightarrow>
          l\<lparr>cl_locks := mput (sessionID, nodeName) (entry\<lparr>le_preempt := Some fn\<rparr>) (cl_locks l)\<rparr>
      | None \<Rightarrow> l)"

text \<open>
  The second component is the callback that is invoked after the mutex has been released, the
  third the returned boolean.
\<close>

definition ForceRelease ::
  "'p ConsoleLock \<Rightarrow> uuid \<Rightarrow> string \<Rightarrow> string \<Rightarrow> 'p ConsoleLock \<times> 'p option \<times> bool" where
  "ForceRelease l sessionID nodeName expectedHolder =
     (let key = (sessionID, nodeName) in
      case mget (cl_locks l) key of
        None \<Rightarrow> (l, None, False)
      | Some entry \<Rightarrow>
          if le_holder entry \<noteq> expectedHolder then (l, None, False)
          else (l\<lparr>cl_locks := mdel key (cl_locks l)\<rparr>, le_preempt entry, True))"

text \<open>What the lock table says about a key.\<close>

definition lock_of :: "'p ConsoleLock \<Rightarrow> consoleLockKey \<Rightarrow> (64 word \<times> string) option" where
  "lock_of l k = map_option (\<lambda>e. (le_token e, le_holder e)) (mget (cl_locks l) k)"

lemma lock_of_New [simp]: "lock_of NewConsoleLock k = None"
  by (simp add: lock_of_def NewConsoleLock_def)

section \<open>The interface the two clients rely on\<close>

text \<open>
  What the console handler and the verify handler use of the lock: a non-blocking acquisition
  that succeeds exactly on a free key and names the holder otherwise, and a release that only
  the current generation performs.
\<close>

locale try_lock =
  fixes acquire :: "'s \<Rightarrow> 'k \<Rightarrow> 'h \<Rightarrow> 's \<times> ('h + 'k \<times> 't)"
    and release :: "'s \<Rightarrow> 'k \<times> 't \<Rightarrow> 's"
    and table :: "'s \<Rightarrow> 'k \<Rightarrow> ('t \<times> 'h) option"
  assumes acquire_held: "table s k = Some (t, h') \<Longrightarrow> acquire s k h = (s, Inl h')"
    and acquire_free: "table s k = None \<Longrightarrow>
          \<exists>s' t. acquire s k h = (s', Inr (k, t)) \<and> table s' = (table s)(k \<mapsto> (t, h))"
    and release_own: "table s k = Some (t, h) \<Longrightarrow> table (release s (k, t)) = (table s)(k := None)"
    and release_stale: "(\<And>h. table s k \<noteq> Some (t, h)) \<Longrightarrow> release s (k, t) = s"
begin

lemma acquire_ok_free: "acquire s k h = (s', Inr u) \<Longrightarrow> table s k = None"
  by (cases "table s k") (auto simp: acquire_held)

lemma acquire_ok:
  assumes "acquire s k h = (s', Inr u)"
  shows "\<exists>t. u = (k, t) \<and> table s' = (table s)(k \<mapsto> (t, h))"
  using acquire_free [OF acquire_ok_free [OF assms], of h] assms by auto

lemma acquire_refused:
  assumes "acquire s k h = (s', Inl h')"
  shows "s' = s \<and> (\<exists>t. table s k = Some (t, h'))"
proof (cases "table s k")
  case None
  then show ?thesis using acquire_free [OF None, of h] assms by auto
next
  case (Some x)
  then show ?thesis using acquire_held [of s k "fst x" "snd x" h] assms by (cases x) auto
qed

text \<open>Mutual exclusion: while a key is held, no further acquisition of it succeeds.\<close>

lemma exclusive:
  assumes "acquire s k h = (s1, Inr u)" "table s2 k = table s1 k"
  shows "acquire s2 k h2 = (s2, Inl h)"
  using acquire_ok [OF assms(1)] assms(2) by (auto intro: acquire_held)

text \<open>A critical section that leaves the key alone gives the table back unchanged.\<close>

lemma bracket:
  assumes "acquire s k h = (s1, Inr u)" "table s2 = table s1"
  shows "table (release s2 u) = table s"
  using acquire_ok [OF assms(1)] acquire_ok_free [OF assms(1)] assms(2)
  by (auto simp: release_own)

lemma release_idem: "table (release (release s u) u) = table (release s u)"
proof -
  obtain k t where u: "u = (k, t)" by (cases u)
  show ?thesis
  proof (cases "\<exists>h. table s k = Some (t, h)")
    case True
    then have "table (release s u) k = None" by (auto simp: u release_own)
    then show ?thesis by (subst (2) u) (simp add: release_stale u)
  next
    case False
    then show ?thesis by (simp add: u release_stale)
  qed
qed

end

interpretation cl: try_lock "\<lambda>l k. TryLock l (fst k) (snd k)" run_unlock lock_of
proof unfold_locales
  fix s :: "'p ConsoleLock" and k h
  assume "lock_of s k = None"
  then show "\<exists>s' t. TryLock s (fst k) (snd k) h = (s', Inr (k, t)) \<and>
               lock_of s' = (lock_of s)(k \<mapsto> (t, h))"
    by (auto simp: lock_of_def TryLock_def Let_def fun_eq_iff)
next
  fix s :: "'p ConsoleLock" and k t
  assume "\<And>h. lock_of s k \<noteq> Some (t, h)"
  then show "run_unlock s (k, t) = s"
    by (auto simp: lock_of_def run_unlock_def split: option.splits)
qed (auto simp: lock_of_def TryLock_def run_unlock_def fun_eq_iff split: option.splits)

section \<open>Runs of lock operations\<close>

text \<open>
  Any interleaving of the console and verify goroutines is a sequence of atomic calls.  An
  \<open>Unlock\<close> may be called at any time, any number of times, with any closure.
\<close>

datatype 'p lock_call =
    CTry uuid string string
  | CUnlock unlock
  | CPreempt uuid string 'p
  | CForce uuid string string

fun lock_apply :: "'p ConsoleLock \<Rightarrow> 'p lock_call \<Rightarrow> 'p ConsoleLock" where
  "lock_apply l (CTry s n h) = fst (TryLock l s n h)"
| "lock_apply l (CUnlock u) = run_unlock l u"
| "lock_apply l (CPreempt s n f) = SetPreempt l s n f"
| "lock_apply l (CForce s n h) = fst (ForceRelease l s n h)"

fun lock_run :: "'p ConsoleLock \<Rightarrow> 'p lock_call list \<Rightarrow> 'p ConsoleLock" where
  "lock_run l [] = l"
| "lock_run l (c # cs) = lock_run (lock_apply l c) cs"

lemma lock_run_append: "lock_run l (cs @ ds) = lock_run (lock_run l cs) ds"
  by (induction cs arbitrary: l) auto

definition live :: "'p ConsoleLock \<Rightarrow> unlock \<Rightarrow> bool" where
  "live l u \<longleftrightarrow> (\<exists>h. lock_of l (fst u) = Some (snd u, h))"

text \<open>
  How far the token counter can have moved: each call advances it by at most one, so a run of
  fewer than \<open>2 ^ 64\<close> calls never wraps around to a token issued before.
\<close>

definition counter :: "'p ConsoleLock \<Rightarrow> nat" where
  "counter l = unat (cl_nextToken l)"

definition token_bound :: nat where "token_bound = 2 ^ 64 - 1"

lemma counter_step:
  assumes "counter l < token_bound"
  shows "counter l \<le> counter (lock_apply l c)" "counter (lock_apply l c) \<le> Suc (counter l)"
proof -
  have suc: "unat (cl_nextToken l + 1) = Suc (counter l)"
    using assms by (simp add: counter_def token_bound_def unat_word_ariths)
  show "counter l \<le> counter (lock_apply l c)" "counter (lock_apply l c) \<le> Suc (counter l)"
    using suc
    by (cases c; auto simp: TryLock_def run_unlock_def SetPreempt_def ForceRelease_def counter_def
        Let_def split: option.splits)+
qed

text \<open>A closure that is not live and was issued before stays dead.\<close>

definition dead :: "'p ConsoleLock \<Rightarrow> unlock \<Rightarrow> bool" where
  "dead l u \<longleftrightarrow> \<not> live l u \<and> unat (snd u) \<le> counter l"

lemma dead_step:
  assumes "dead l u" "counter l < token_bound"
  shows "dead (lock_apply l c) u"
proof -
  have suc: "unat (cl_nextToken l + 1) = Suc (counter l)"
    using assms(2) by (simp add: counter_def token_bound_def unat_word_ariths)
  then have new: "cl_nextToken l + 1 \<noteq> snd u"
    using assms(1) by (auto simp: dead_def)
  have "\<not> live (lock_apply l c) u"
    using assms(1) new
    by (cases c)
       (auto simp: dead_def live_def lock_of_def TryLock_def run_unlock_def SetPreempt_def
          ForceRelease_def Let_def split: option.splits if_splits)
  moreover have "unat (snd u) \<le> counter (lock_apply l c)"
    using assms counter_step(1) [OF assms(2), of c] by (auto simp: dead_def)
  ultimately show ?thesis by (simp add: dead_def)
qed

lemma dead_run:
  "dead l u \<Longrightarrow> counter l + length cs \<le> token_bound \<Longrightarrow> dead (lock_run l cs) u"
proof (induction cs arbitrary: l)
  case (Cons c cs)
  then have "counter l < token_bound" by simp
  with Cons show ?case
    using dead_step [of l u c] counter_step(2) [of l c] by simp
qed simp

lemma counter_run: "counter l + length cs \<le> token_bound \<Longrightarrow>
    counter (lock_run l cs) \<le> counter l + length cs \<and> counter l \<le> counter (lock_run l cs)"
proof (induction cs arbitrary: l)
  case (Cons c cs)
  then have "counter l < token_bound" by simp
  then show ?case
    using Cons.IH [of "lock_apply l c"] Cons.prems counter_step [of l c] by simp
qed simp

lemma live_counter:
  assumes "TryLock l s n h = (l', Inr u)" "counter l < token_bound"
  shows "live l' u" "unat (snd u) = counter l'"
  using assms
  by (auto simp: TryLock_def live_def lock_of_def Let_def counter_def split: option.splits)

lemma run_unlock_dead: "\<not> live l u \<Longrightarrow> run_unlock l u = l"
  by (cases u) (auto simp: live_def intro: cl.release_stale)

text \<open>
  C5: the stale-release guard.  Take any history of lock calls, a successful acquisition, and any
  further calls after which the acquired lock is no longer held under its generation (released,
  or preempted by \<open>ForceRelease\<close>).  Then whatever happens next, calling the original unlock
  closure changes nothing, even when the key has been acquired again by somebody else.
\<close>

theorem stale_unlock_is_noop:
  assumes "TryLock (lock_run NewConsoleLock cs) sid node holder = (l1, Inr u)"
    and "\<not> live (lock_run l1 cs1) u"
    and "length cs + length cs1 + length cs2 < token_bound"
  shows "run_unlock (lock_run (lock_run l1 cs1) cs2) u = lock_run (lock_run l1 cs1) cs2"
proof -
  have c0: "counter (lock_run NewConsoleLock cs) \<le> length cs"
    using counter_run [of NewConsoleLock cs] assms(3)
    by (simp add: counter_def NewConsoleLock_def)
  have l1: "l1 = lock_apply (lock_run NewConsoleLock cs) (CTry sid node holder)"
    by (simp add: assms(1))
  have lt: "counter (lock_run NewConsoleLock cs) < token_bound" using c0 assms(3) by simp
  have c1: "counter l1 \<le> Suc (length cs)" using counter_step(2) [OF lt, of "CTry sid node holder"] c0 l1 by simp
  have run1: "counter (lock_run l1 cs1) \<le> counter l1 + length cs1"
      "counter l1 \<le> counter (lock_run l1 cs1)"
    using counter_run [of l1 cs1] c1 assms(3) by auto
  have "dead (lock_run l1 cs1) u"
    using assms(2) live_counter(2) [OF assms(1) lt] run1 by (simp add: dead_def)
  then have "dead (lock_run (lock_run l1 cs1) cs2) u"
    by (rule dead_run) (use run1 c1 assms(3) in simp)
  then show ?thesis by (simp add: dead_def run_unlock_dead)
qed

theorem stale_unlock_is_noop_witness:
  "let l1 = fst (TryLock (NewConsoleLock :: nat ConsoleLock) 7 ''SW1'' HolderConsole);
       l3 = lock_run l1 [CForce 7 ''SW1'' HolderConsole, CTry 7 ''SW1'' HolderVerify]
   in run_unlock l3 ((7, ''SW1''), 1) = l3 \<and> lock_of l3 (7, ''SW1'') = Some (2, HolderVerify)"
proof -
  let ?l1 = "fst (TryLock (NewConsoleLock :: nat ConsoleLock) 7 ''SW1'' HolderConsole)"
  have 1: "TryLock (lock_run (NewConsoleLock :: nat ConsoleLock) []) 7 ''SW1'' HolderConsole
            = (?l1, Inr ((7, ''SW1''), 1))"
    by (simp add: TryLock_def NewConsoleLock_def Let_def)
  have 2: "\<not> live (lock_run ?l1 [CForce 7 ''SW1'' HolderConsole]) ((7, ''SW1''), 1)"
    by (simp add: TryLock_def NewConsoleLock_def ForceRelease_def live_def lock_of_def Let_def)
  have 3: "lock_of (lock_run ?l1 [CForce 7 ''SW1'' HolderConsole, CTry 7 ''SW1'' HolderVerify])
             (7, ''SW1'') = Some (2, HolderVerify)"
    by (simp add: TryLock_def NewConsoleLock_def ForceRelease_def lock_of_def Let_def)
  show ?thesis
    using stale_unlock_is_noop [OF 1 2, of "[CTry 7 ''SW1'' HolderVerify]"] 3
    by (simp add: token_bound_def)
qed

text \<open>
  Preemption.  \<open>ForceRelease\<close> answers true exactly when the key is held by the expected
  holder; then the key is free afterwards, every other key is untouched, and the callback handed
  back for invocation is the one registered in the entry; otherwise the lock is unchanged and no
  callback runs.
\<close>

theorem force_release_spec:
  "let held = (\<exists>t. lock_of l (sid, node) = Some (t, expected));
       r = ForceRelease l sid node expected
   in snd (snd r) = held
      \<and> fst (snd r) = (if held then Option.bind (mget (cl_locks l) (sid, node)) le_preempt else None)
      \<and> lock_of (fst r) = (if held then (lock_of l)((sid, node) := None) else lock_of l)
      \<and> cl_nextToken (fst r) = cl_nextToken l"
  by (auto simp: ForceRelease_def lock_of_def Let_def fun_eq_iff split: option.splits)

end
