(* ===== verification/Auth.thy ===== *)
theory Auth
  imports Prelude
begin

text \<open>
  Claims and middleware: \<open>pkg/jwt\<close>, \<open>pkg/types\<close> (plans), \<open>internal/auth/claims.go\<close> and
  \<open>middleware.go\<close>.  Token signatures belong to a third-party package: what \<open>ParseAccessToken\<close>
  makes of a token string is a parameter.  A handler is a function of the request, which carries
  the claims of its context.
\<close>

section \<open>Plans and claims\<close>

definition PlanFree :: string where "PlanFree = ''free''"
definition PlanPro :: string where "PlanPro = ''pro''"
definition PlanBootcamp :: string where "PlanBootcamp = ''bootcamp''"

record Claims =
  cl_Subject :: string
  cl_Plan :: string
  cl_IsAdmin :: bool

definition HasPlan :: "Claims option \<Rightarrow> string list \<Rightarrow> bool" where
  "HasPlan claims plans =
     (case claims of None \<Rightarrow> False | Some c \<Rightarrow> list_ex (\<lambda>p. cl_Plan c = p) plans)"

definition IsProOrAbove :: "Claims option \<Rightarrow> bool" where
  "IsProOrAbove claims = HasPlan claims [PlanPro, PlanBootcamp]"

section \<open>Requests\<close>

record http_request =
  hr_Authorization :: string
  hr_token :: string
  hr_claims :: "Claims option"

datatype 'r middleware_result = Rejected int string | Served 'r

definition ClaimsFromCtx :: "http_request \<Rightarrow> Claims option" where
  "ClaimsFromCtx r = hr_claims r"

definition parseBearer ::
  "(string \<Rightarrow> gerr + Claims) \<Rightarrow> http_request \<Rightarrow> Claims option" where
  "parseBearer parse r =
     (let hdr = (case cut_prefix (hr_Authorization r) ''Bearer '' of Some t \<Rightarrow> t | None \<Rightarrow> []);
          tokenStr = (if hdr = [] then hr_token r else hdr)
      in if tokenStr = [] then None
         else (case parse tokenStr of Inl _ \<Rightarrow> None | Inr c \<Rightarrow> Some c))"

definition JWTMiddleware ::
  "(string \<Rightarrow> gerr + Claims) \<Rightarrow> (http_request \<Rightarrow> 'r) \<Rightarrow> http_request \<Rightarrow> 'r middleware_result" where
  "JWTMiddleware parse next_h r =
     (case parseBearer parse r of
        None \<Rightarrow> Rejected 401 ''authentication required''
      | Some c \<Rightarrow> Served (next_h (r\<lparr>hr_claims := Some c\<rparr>)))"

definition OptionalJWTMiddleware ::
  "(string \<Rightarrow> gerr + Claims) \<Rightarrow> (http_request \<Rightarrow> 'r) \<Rightarrow> http_request \<Rightarrow> 'r middleware_result" where
  "OptionalJWTMiddleware parse next_h r =
     (case parseBearer parse r of
        None \<Rightarrow> Served (next_h r)
      | Some c \<Rightarrow> Served (next_h (r\<lparr>hr_claims := Some c\<rparr>)))"

definition RequirePlan ::
  "string list \<Rightarrow> (http_request \<Rightarrow> 'r) \<Rightarrow> http_request \<Rightarrow> 'r middleware_result" where
  "RequirePlan plans next_h r =
     (case ClaimsFromCtx r of
        None \<Rightarrow> Rejected 401 ''authentication required''
      | Some c \<Rightarrow>
          if list_ex (\<lambda>p. cl_Plan c = p) plans then Served (next_h r)
          else Rejected 403 ''upgrade your plan to access this feature'')"

definition RequireAdmin ::
  "(http_request \<Rightarrow> 'r) \<Rightarrow> http_request \<Rightarrow> 'r middleware_result" where
  "RequireAdmin next_h r =
     (case ClaimsFromCtx r of
        None \<Rightarrow> Rejected 403 ''admin access required''
      | Some c \<Rightarrow>
          if \<not> cl_IsAdmin c then Rejected 403 ''admin access required'' else Served (next_h r))"

lemma IsProOrAbove_iff:
  "IsProOrAbove claims = (\<exists>c. claims = Some c \<and> cl_Plan c \<in> {PlanPro, PlanBootcamp})"
  by (auto simp: IsProOrAbove_def HasPlan_def split: option.splits)

end
