(* ===== verification/SessionHandlers.thy ===== *)
theory SessionHandlers
  imports SessionService ConsoleLock Auth
begin

text \<open>
  The HTTP handlers of lab sessions: \<open>internal/labsession/handlers.go\<close> and \<open>console.go\<close>.
  \<open>uuid.Parse\<close> is third party, hence a parameter \<open>pu\<close>.  The WebSocket relay runs concurrently
  with the rest of the server; what happens to the world and to the lock table while it runs is an
  argument of the console handler.
\<close>

section \<open>Responses and identity\<close>

datatype http_resp =
    HttpError int string
  | HttpSession int Session
  | HttpNoContent
  | HttpPanic

definition authFromContext :: "(string \<Rightarrow> uuid option) \<Rightarrow> Claims option \<Rightarrow> uuid \<times> bool" where
  "authFromContext pu claims =
     (case claims of
        None \<Rightarrow> (uuid_nil, False)
      | Some c \<Rightarrow>
          (case pu (cl_Subject c) of
             None \<Rightarrow> (uuid_nil, False)
           | Some uid \<Rightarrow> (uid, IsProOrAbove claims)))"

section \<open>Session handlers\<close>

text \<open>The second component is the provisioning goroutine to start, if any.\<close>

definition handle_launch ::
  "(string \<Rightarrow> uuid option) \<Rightarrow> 's Service \<Rightarrow> 's world \<Rightarrow> Claims option \<Rightarrow> string
     \<Rightarrow> 's world \<times> (uuid \<times> int) option \<times> http_resp" where
  "handle_launch pu s w claims labParam =
     (case authFromContext pu claims of (userID, isPro) \<Rightarrow>
     (case atoi labParam of
        (_, Some e) \<Rightarrow> (w, None, HttpError 400 ''invalid lab id'')
      | (labID, None) \<Rightarrow>
     (case Launch s w userID labID isPro of
        (w1, LPanic) \<Rightarrow> (w1, None, HttpPanic)
      | (w1, LErr e) \<Rightarrow>
          (w1, None,
           if errors_is e ErrPlanGate then HttpError 403 (err_text e)
           else if errors_is e ErrSlotConflict then HttpError 409 ''max concurrent sessions reached''
           else if errors_is e ErrConceptualLab then HttpError 400 (err_text e)
           else HttpError 500 ''internal error'')
      | (w1, LSession sess) \<Rightarrow> (w1, None, HttpSession 200 sess)
      | (w1, LSpawn sess) \<Rightarrow> (w1, Some (s_ID sess, labID), HttpSession 200 sess))))"

text \<open>The part \<open>get\<close>, \<open>heartbeat\<close> and \<open>end\<close> share: parse the id, load, check the owner.\<close>

definition load_owned ::
  "(string \<Rightarrow> uuid option) \<Rightarrow> 's world \<Rightarrow> Claims option \<Rightarrow> string
     \<Rightarrow> 's world \<times> (http_resp + Session)" where
  "load_owned pu w claims idParam =
     (case authFromContext pu claims of (userID, _) \<Rightarrow>
     (case pu idParam of
        None \<Rightarrow> (w, Inl (HttpError 400 ''invalid session id''))
      | Some i \<Rightarrow>
     (case Get w i of
        (w1, Inl e) \<Rightarrow>
          (w1, Inl (if errors_is e ErrNotFound then HttpError 404 ''not found''
                    else HttpError 500 ''internal error''))
      | (w1, Inr sess) \<Rightarrow>
          if s_UserID sess \<noteq> userID
          then (w1, Inl (HttpError 403 ''session does not belong to this user''))
          else (w1, Inr sess))))"

definition handle_get ::
  "(string \<Rightarrow> uuid option) \<Rightarrow> 's world \<Rightarrow> Claims option \<Rightarrow> string \<Rightarrow> 's world \<times> http_resp" where
  "handle_get pu w claims idParam =
     (case load_owned pu w claims idParam of
        (w1, Inl resp) \<Rightarrow> (w1, resp)
      | (w1, Inr sess) \<Rightarrow> (w1, HttpSession 200 sess))"

definition handle_heartbeat ::
  "(string \<Rightarrow> uuid option) \<Rightarrow> 's world \<Rightarrow> Claims option \<Rightarrow> string \<Rightarrow> 's world \<times> http_resp" where
  "handle_heartbeat pu w claims idParam =
     (case load_owned pu w claims idParam of
        (w1, Inl resp) \<Rightarrow> (w1, resp)
      | (w1, Inr sess) \<Rightarrow>
          (case Heartbeat w1 (s_ID sess) of
             (w2, Some e) \<Rightarrow> (w2, HttpError 500 ''internal error'')
           | (w2, None) \<Rightarrow> (w2, HttpNoContent)))"

definition handle_end ::
  "(string \<Rightarrow> uuid option) \<Rightarrow> 's Service \<Rightarrow> 's world \<Rightarrow> Claims option \<Rightarrow> string
     \<Rightarrow> 's world \<times> http_resp" where
  "handle_end pu s w claims idParam =
     (case load_owned pu w claims idParam of
        (w1, Inl resp) \<Rightarrow> (w1, resp)
      | (w1, Inr sess) \<Rightarrow>
          (case EndLab s w1 (s_ID sess) of
             (w2, Some e) \<Rightarrow> (w2, HttpError 500 ''internal error'')
           | (w2, None) \<Rightarrow> (w2, HttpNoContent)))"

section \<open>Console access\<close>

definition service_prefixes :: "string list" where
  "service_prefixes = [''api.'', ''app.'']"

fun strip_first :: "string list \<Rightarrow> string \<Rightarrow> string" where
  "strip_first [] h = h"
| "strip_first (p # ps) h = (case cut_prefix h p of Some r \<Rightarrow> r | None \<Rightarrow> strip_first ps h)"

definition before_colon :: "string \<Rightarrow> string" where
  "before_colon s = takeWhile (\<lambda>c. c \<noteq> CHR '':'') s"

definition origin_host :: "string \<Rightarrow> string" where
  "origin_host origin =
     before_colon
       (case cut_prefix origin ''https://'' of
          Some a \<Rightarrow> a
        | None \<Rightarrow> (case cut_prefix origin ''http://'' of Some a \<Rightarrow> a | None \<Rightarrow> origin))"

definition checkSameOrigin :: "string \<Rightarrow> string \<Rightarrow> bool" where
  "checkSameOrigin origin reqHost =
     (if origin = [] then True
      else let originHost = origin_host origin; host = before_colon reqHost in
        if equal_fold originHost host then True
        else equal_fold (strip_first service_prefixes originHost)
                        (strip_first service_prefixes host))"

definition usesVNCConsole :: "NodeInfo \<Rightarrow> bool" where
  "usesVNCConsole n = (ni_ConsoleType n = ''vnc'' \<or> ni_NodeType n = ''qemu'')"

text \<open>The checks both console handlers make before they touch the node.\<close>

definition console_checks ::
  "(string \<Rightarrow> uuid option) \<Rightarrow> 's world \<Rightarrow> Claims option \<Rightarrow> string \<Rightarrow> string
     \<Rightarrow> 's world \<times> (http_resp + Session \<times> NodeInfo)" where
  "console_checks pu w claims idParam nodeName =
     (case authFromContext pu claims of (userID, _) \<Rightarrow>
     (case pu idParam of
        None \<Rightarrow> (w, Inl (HttpError 400 ''invalid session id''))
      | Some i \<Rightarrow>
     (case Get w i of
        (w1, Inl e) \<Rightarrow> (w1, Inl (HttpError 404 ''session not found''))
      | (w1, Inr sess) \<Rightarrow>
          if s_UserID sess \<noteq> userID
          then (w1, Inl (HttpError 403 ''session does not belong to this user''))
          else if s_Status sess \<noteq> StatusRunning
          then (w1, Inl (HttpError 409 ''session not running''))
          else (case mget (s_NodeMap sess) nodeName of
                  None \<Rightarrow> (w1, Inl (HttpError 404 ''unknown node''))
                | Some info \<Rightarrow> (w1, Inr (sess, info))))))"

text \<open>
  The environment of one console connection: whether the upgrade to a WebSocket succeeds, the
  socket (what the preempt callback closes), whether the node's port can be dialed, and what the
  whole process does to the world and the locks while the relay runs.
\<close>

record 's console_env =
  ce_upgrade :: bool
  ce_socket :: nat
  ce_dial :: "string \<Rightarrow> bool"
  ce_relay :: "'s world \<times> nat ConsoleLock \<Rightarrow> 's world \<times> nat ConsoleLock"

datatype console_result =
    CHttp http_resp
  | CUpgradeFailed
  | CUnreachable
  | CRelayed

text \<open>From the upgrade on, with the lock held.\<close>

definition console_session ::
  "'s Service \<Rightarrow> 's console_env \<Rightarrow> Session \<Rightarrow> string \<Rightarrow> NodeInfo \<Rightarrow> 's world \<times> nat ConsoleLock
     \<Rightarrow> ('s world \<times> nat ConsoleLock) \<times> console_result" where
  "console_session s env sess nodeName info wl =
     (if \<not> ce_upgrade env then (wl, CUpgradeFailed)
      else let l1 = SetPreempt (snd wl) (s_ID sess) nodeName (ce_socket env);
               w1 = fst (svcEnsureProjectRunning s (fst wl) (derefStr (s_GNS3ProjectID sess)))
           in if \<not> ce_dial env (sv_computeHost s @ '':'' @ itoa (ni_ConsolePort info))
              then ((w1, l1), CUnreachable)
              else (ce_relay env (w1, l1), CRelayed))"

definition console ::
  "(string \<Rightarrow> uuid option) \<Rightarrow> 's Service \<Rightarrow> 's console_env \<Rightarrow> 's world \<times> nat ConsoleLock
     \<Rightarrow> Claims option \<Rightarrow> string \<Rightarrow> string \<Rightarrow> ('s world \<times> nat ConsoleLock) \<times> console_result" where
  "console pu s env wl claims idParam nodeName =
     (case console_checks pu (fst wl) claims idParam nodeName of
        (w1, Inl resp) \<Rightarrow> ((w1, snd wl), CHttp resp)
      | (w1, Inr (sess, info)) \<Rightarrow>
          if usesVNCConsole info
          then ((w1, snd wl),
                CHttp (HttpError 400 ''this node has a VNC console; use /console/{node}/vnc''))
          else
            (case TryLock (snd wl) (s_ID sess) nodeName HolderConsole of
               (l1, Inl heldBy) \<Rightarrow>
                 ((w1, l1),
                  CHttp (HttpError 409
                    (if heldBy = HolderVerify
                     then ''verification is currently running on this node ''
                          @ [CHR 0xE2, CHR 0x80, CHR 0x94] @ '' please wait a moment and try again''
                     else ''console is already open for this node in another window'')))
             | (l1, Inr u) \<Rightarrow>
                 (case console_session s env sess nodeName info (w1, l1) of
                    ((w2, l2), r) \<Rightarrow> ((w2, run_unlock l2 u), r))))"

definition consoleVNC ::
  "(string \<Rightarrow> uuid option) \<Rightarrow> 's Service \<Rightarrow> 's console_env \<Rightarrow> 's world \<times> nat ConsoleLock
     \<Rightarrow> Claims option \<Rightarrow> string \<Rightarrow> string \<Rightarrow> ('s world \<times> nat ConsoleLock) \<times> console_result" where
  "consoleVNC pu s env wl claims idParam nodeName =
     (case console_checks pu (fst wl) claims idParam nodeName of
        (w1, Inl resp) \<Rightarrow> ((w1, snd wl), CHttp resp)
      | (w1, Inr (sess, info)) \<Rightarrow>
          if \<not> usesVNCConsole info
          then ((w1, snd wl), CHttp (HttpError 400 ''node does not have a VNC console''))
          else if \<not> ce_upgrade env then ((w1, snd wl), CUpgradeFailed)
          else let w2 = fst (svcEnsureProjectRunning s w1 (derefStr (s_GNS3ProjectID sess)))
               in if \<not> ce_dial env (sv_computeHost s @ '':'' @ itoa (ni_ConsolePort info))
                  then ((w2, snd wl), CUnreachable)
                  else (ce_relay env (w2, snd wl), CRelayed))"

section \<open>The keystroke loop of the relay\<close>

text \<open>
  What \<open>ws.ReadMessage\<close> gives, with the time at which it returns: a message, and whether writing
  it to the node succeeds, or the end of the connection with close code and reason.
\<close>

datatype ws_read = WsMsg string bool | WsClosed int string

definition touch_interval :: int where "touch_interval = 20000000000"

text \<open>The messages delivered to the node, the times of the heartbeats, and the reported close.\<close>

fun relay_loop ::
  "int \<Rightarrow> (int \<times> ws_read) list \<Rightarrow> string list \<times> int list \<times> (int \<times> string) option" where
  "relay_loop lastTouch [] = ([], [], None)"
| "relay_loop lastTouch ((now, WsClosed code reason) # evs) = ([], [], Some (code, reason))"
| "relay_loop lastTouch ((now, WsMsg msg ok) # evs) =
     (if \<not> ok then ([], [], None)
      else if now - lastTouch > touch_interval
      then (case relay_loop now evs of (ms, ts, c) \<Rightarrow> (msg # ms, now # ts, c))
      else (case relay_loop lastTouch evs of (ms, ts, c) \<Rightarrow> (msg # ms, ts, c)))"

text \<open>Heartbeats caused by keystrokes are more than the interval apart.\<close>

fun spaced :: "int \<Rightarrow> int list \<Rightarrow> bool" where
  "spaced t [] = True"
| "spaced t (u # us) = (u - t > touch_interval \<and> spaced u us)"

lemma relay_spaced: "relay_loop t evs = (ms, ts, c) \<Longrightarrow> spaced t ts"
  by (induction t evs arbitrary: ms ts c rule: relay_loop.induct)
     (auto split: if_splits prod.splits)

lemma relay_order:
  "relay_loop t evs = (ms, ts, c) \<Longrightarrow>
     \<exists>rest. concat (map (\<lambda>e. case snd e of WsMsg m ok \<Rightarrow> [m] | WsClosed _ _ \<Rightarrow> []) evs) = ms @ rest"
  by (induction t evs arbitrary: ms ts c rule: relay_loop.induct)
     (auto split: if_splits prod.splits)

section \<open>Properties\<close>

lemma load_owned_cases:
  assumes "load_owned pu w claims idParam = (w1, r)"
  shows "w_rows w1 = w_rows w \<and> w_srv w1 = w_srv w \<and> w_fresh w1 = w_fresh w \<and>
    (\<forall>sess. r = Inr sess \<longrightarrow> sess \<in> set (w_rows w) \<and> s_UserID sess = fst (authFromContext pu claims)
       \<and> pu idParam = Some (s_ID sess))"
proof -
  obtain u pro where a: "authFromContext pu claims = (u, pro)" by fastforce
  show ?thesis
  proof (cases "pu idParam")
    case None
    with assms a show ?thesis by (auto simp: load_owned_def)
  next
    case (Some i)
    obtain w2 q where g: "Get w i = (w2, q)" by fastforce
    note f = GetByID_frame [OF g [unfolded Get_def]] read_view(2) [OF g [unfolded Get_def]]
    show ?thesis
      using assms a Some g f GetByID_value [of w i w2] g
      by (auto simp: load_owned_def Get_def db_view_def split: sum.splits if_splits)
  qed
qed

lemma Touch_others:
  assumes "Touch w i = (w', e)" "row \<in> set (w_rows w)" "s_ID row \<noteq> i"
  shows "row \<in> set (w_rows w')"
  using db_write_rows [OF assms(1) [unfolded Touch_def]] assms(2,3) update_row_other by fastforce

lemma EndLab_others:
  assumes "EndLab s w i = (w', e)" "row \<in> set (w_rows w)" "s_ID row \<noteq> i"
  shows "row \<in> set (w_rows w')"
proof -
  have E: "row \<in> set (w_rows y)" if "End x i = (y, e2)" "w_rows x = w_rows w" for x y e2
    using db_write_rows [OF that(1) [unfolded End_def]] that(2) assms(2,3) update_row_other by fastforce
  obtain w1 q where g: "GetByID w i = (w1, q)" by fastforce
  have r1: "w_rows w1 = w_rows w" using GetByID_frame [OF g] by simp
  show ?thesis
  proof (cases "\<exists>sess p. q = Inr sess \<and> s_GNS3ProjectID sess = Some p")
    case False
    then show ?thesis
      using assms(1,2) g r1 E [of w1] by (auto simp: EndLab_def split: sum.splits option.splits)
  next
    case True
    then obtain sess p where q: "q = Inr sess" "s_GNS3ProjectID sess = Some p" by blast
    obtain w2 d where d: "gcall (g_DeleteProject (sv_gns3 s) p) w1 = (w2, d)" by fastforce
    show ?thesis
      using assms(1,2) g q d r1 gcall_frame [OF d] E [of w2]
      by (auto simp: EndLab_def split: option.splits)
  qed
qed

text \<open>
  C9: sessions belong to their owners.  A request to read, keep alive or end a session, by id,
  leaves every row of every other user as it is, whoever asks and whatever fails; a session is
  only ever returned to its owner; and without ownership the compute host is not contacted.
\<close>

theorem session_ownership:
  assumes "world_ok w" "row \<in> set (w_rows w)" "s_UserID row \<noteq> fst (authFromContext pu claims)"
  shows "row \<in> set (w_rows (fst (handle_get pu w claims idParam)))
       \<and> row \<in> set (w_rows (fst (handle_heartbeat pu w claims idParam)))
       \<and> row \<in> set (w_rows (fst (handle_end pu s w claims idParam)))
       \<and> snd (handle_get pu w claims idParam) \<noteq> HttpSession 200 row
       \<and> (pu idParam = Some (s_ID row) \<longrightarrow>
            w_srv (fst (handle_end pu s w claims idParam)) = w_srv w)"
proof -
  obtain w1 r where l: "load_owned pu w claims idParam = (w1, r)" by fastforce
  note c = load_owned_cases [OF l]
  show ?thesis
  proof (cases r)
    case (Inl resp)
    have "resp \<noteq> HttpSession 200 row"
      using l Inl by (auto simp: load_owned_def split: prod.splits option.splits sum.splits if_splits)
    then show ?thesis
      using l c Inl assms(2) by (simp add: handle_get_def handle_heartbeat_def handle_end_def)
  next
    case (Inr sess)
    have nr: "sess \<noteq> row" using Inr c assms(3) by auto
    have ne: "s_ID row \<noteq> s_ID sess"
      using world_ok_ids [OF assms(1)] Inr c assms(2) nr by (auto simp: distinct_map dest: inj_onD)
    obtain w2 e2 where h: "Heartbeat w1 (s_ID sess) = (w2, e2)" by fastforce
    obtain w3 e3 where e: "EndLab s w1 (s_ID sess) = (w3, e3)" by fastforce
    have rows: "row \<in> set (w_rows w1)" using c assms(2) by simp
    show ?thesis
      using l c Inr h e ne nr rows assms(2) Touch_others [OF h [unfolded Heartbeat_def] rows ne]
        EndLab_others [OF e rows ne]
      by (auto simp: handle_get_def handle_heartbeat_def handle_end_def split: option.splits)
  qed
qed

definition demo_claims :: Claims where
  "demo_claims = \<lparr>cl_Subject = ''2'', cl_Plan = ''pro'', cl_IsAdmin = False\<rparr>"

definition demo_pu :: "string \<Rightarrow> uuid option" where
  "demo_pu t = map_of [(''1'', 1), (''2'', 2), (''7'', 7)] t"

theorem session_ownership_witness:
  "list_ex (\<lambda>r. r = new_row)
     (w_rows (fst (handle_end demo_pu demo_service provisioning_world (Some demo_claims) ''7'')))"
  using session_ownership [OF provisioning_world_ok, of new_row demo_pu "Some demo_claims" "''7''"
      demo_service]
  by (simp add: provisioning_world_def new_row_def new_session_def authFromContext_def
      demo_claims_def demo_pu_def list_ex_iff)

lemma console_checks_ok:
  assumes "console_checks pu w claims idParam nodeName = (w1, Inr (sess, info))"
  shows "sess \<in> set (w_rows w) \<and> w_rows w1 = w_rows w \<and> pu idParam = Some (s_ID sess)
    \<and> s_UserID sess = fst (authFromContext pu claims) \<and> s_Status sess = StatusRunning
    \<and> mget (s_NodeMap sess) nodeName = Some info"
proof -
  obtain u pro where a: "authFromContext pu claims = (u, pro)" by fastforce
  obtain i where i: "pu idParam = Some i"
    using assms a by (auto simp: console_checks_def split: option.splits)
  obtain w2 q where g: "Get w i = (w2, q)" by fastforce
  show ?thesis
    using assms a i g GetByID_value [of w i w2] GetByID_frame [of w i w2]
    by (auto simp: console_checks_def Get_def split: sum.splits if_splits option.splits)
qed

text \<open>
  C10: who gets a console.  When the handler gets as far as the upgrade, the session in the table
  belongs to the authenticated user, runs, has the node, the node has no VNC console, and its
  lock was free; and however the handler ends, the lock table is as the relay left it, except
  that the handler's own lock, if it still holds it, is released.  A lock that somebody else took
  after a preemption is not touched.
\<close>

theorem console_guarded_and_released:
  assumes "console pu s env (w, l) claims idParam nodeName = ((w', l'), r)"
    and "\<forall>resp. r \<noteq> CHttp resp"
  shows "\<exists>sess info l1 l2 token.
      sess \<in> set (w_rows w) \<and> pu idParam = Some (s_ID sess)
      \<and> s_UserID sess = fst (authFromContext pu claims) \<and> s_Status sess = StatusRunning
      \<and> mget (s_NodeMap sess) nodeName = Some info \<and> \<not> usesVNCConsole info
      \<and> lock_of l (s_ID sess, nodeName) = None
      \<and> lock_of l1 = (lock_of l)((s_ID sess, nodeName) \<mapsto> (token, HolderConsole))
      \<and> (\<exists>w1 w2. console_session s env sess nodeName info (w1, l1) = ((w2, l2), r))
      \<and> lock_of l' = (if \<exists>h. lock_of l2 (s_ID sess, nodeName) = Some (token, h)
                      then (lock_of l2)((s_ID sess, nodeName) := None) else lock_of l2)"
proof -
  obtain w1 q where ck: "console_checks pu w claims idParam nodeName = (w1, q)" by fastforce
  have "\<not> (\<exists>resp. q = Inl resp)"
    using assms ck by (auto simp: console_def)
  then obtain sess info where q: "q = Inr (sess, info)" by (cases q) auto
  note c = console_checks_ok [OF ck [unfolded q]]
  have v: "\<not> usesVNCConsole info" using assms ck q by (auto simp: console_def)
  obtain l1 t where tl: "TryLock l (s_ID sess) nodeName HolderConsole = (l1, t)" by fastforce
  have "\<not> (\<exists>h. t = Inl h)" using assms ck q v tl by (auto simp: console_def)
  then obtain u where t: "t = Inr u" by (cases t) auto
  have acq: "TryLock l (fst (s_ID sess, nodeName)) (snd (s_ID sess, nodeName)) HolderConsole = (l1, Inr u)"
    using tl t by simp
  obtain token where u: "u = ((s_ID sess, nodeName), token)"
      "lock_of l1 = (lock_of l)((s_ID sess, nodeName) \<mapsto> (token, HolderConsole))"
    using cl.acquire_ok [OF acq] by blast
  obtain w2 l2 r2 where cs: "console_session s env sess nodeName info (w1, l1) = ((w2, l2), r2)"
    by (metis surj_pair)
  have fin: "r2 = r \<and> l' = run_unlock l2 u"
    using assms(1) ck q v tl t cs by (auto simp: console_def)
  have "lock_of (run_unlock l2 u) = (if \<exists>h. lock_of l2 (s_ID sess, nodeName) = Some (token, h)
      then (lock_of l2)((s_ID sess, nodeName) := None) else lock_of l2)"
    using cl.release_own [of l2 "(s_ID sess, nodeName)" token]
      cl.release_stale [of l2 "(s_ID sess, nodeName)" token] u(1) by auto
  then show ?thesis
    using c v u(2) cl.acquire_ok_free [OF acq] cs fin by blast
qed

definition console_row :: Session where
  "console_row = demo_session
     \<lparr>s_NodeMap := [(''R1'', \<lparr>ni_GNS3NodeID = ''n1'', ni_ConsolePort = 5001,
        ni_ConsoleType = ''telnet'', ni_NodeType = ''dynamips'', ni_MAC = []\<rparr>)]\<rparr>"

definition console_world :: "demo world" where
  "console_world = demo_world\<lparr>w_rows := [console_row]\<rparr>"

definition closed_env :: "demo console_env" where
  "closed_env = \<lparr>ce_upgrade = False, ce_socket = 0, ce_dial = (\<lambda>a. False), ce_relay = (\<lambda>wl. wl)\<rparr>"

lemma demo_console:
  "\<exists>w' l'. console demo_pu demo_service closed_env (console_world, NewConsoleLock)
     (Some (demo_claims\<lparr>cl_Subject := ''1''\<rparr>)) ''7'' ''R1'' = ((w', l'), CUpgradeFailed)"
  by (simp add: console_def console_checks_def authFromContext_def demo_claims_def demo_pu_def
      Get_def GetByID_def db_read_def next_outcome_def row_result_def console_world_def
      demo_world_def console_row_def demo_session_def new_session_def usesVNCConsole_def TryLock_def
      NewConsoleLock_def console_session_def closed_env_def Let_def)

theorem console_guarded_and_released_witness:
  "\<exists>sess info. sess \<in> set (w_rows console_world) \<and> s_Status sess = StatusRunning
     \<and> mget (s_NodeMap sess) ''R1'' = Some info \<and> \<not> usesVNCConsole info"
proof -
  obtain w' l' where c: "console demo_pu demo_service closed_env (console_world, NewConsoleLock)
     (Some (demo_claims\<lparr>cl_Subject := ''1''\<rparr>)) ''7'' ''R1'' = ((w', l'), CUpgradeFailed)"
    using demo_console by blast
  from console_guarded_and_released [OF c] show ?thesis by auto
qed

lemma strip_first_cases: "\<exists>p. (p = [] \<or> p \<in> set ps) \<and> h = p @ strip_first ps h"
proof (induction ps)
  case (Cons p ps)
  then show ?case
    by (cases "cut_prefix h p") (auto simp: cut_prefix_Some)
qed simp

lemma before_colon_id: "CHR '':'' \<notin> set s \<Longrightarrow> before_colon s = s"
  by (auto simp: before_colon_def takeWhile_eq_all_conv)

lemma strip_first_prefix:
  assumes "p \<in> {[], ''api.'', ''app.''}" "strip_first service_prefixes site = site"
  shows "strip_first service_prefixes (p @ site) = site"
proof (cases "p = []")
  case False
  then have "p = ''api.'' \<or> p = ''app.''" using assms(1) by simp
  then show ?thesis by (auto simp: service_prefixes_def cut_prefix_def)
qed (use assms(2) in simp)

text \<open>
  The origin check of the WebSocket upgrade.  An accepted request has no Origin header, or its
  origin and the host have the same name up to letter case once a leading \<open>api.\<close> or \<open>app.\<close> is
  taken off either; and a site, its \<open>api.\<close> and its \<open>app.\<close> subdomain accept each other over https.
\<close>

theorem same_origin_check:
  assumes "CHR '':'' \<notin> set site" "strip_first service_prefixes site = site"
    and "p \<in> {[], ''api.'', ''app.''}" "q \<in> {[], ''api.'', ''app.''}"
  shows "checkSameOrigin (''https://'' @ p @ site) (q @ site)
    \<and> (checkSameOrigin origin host \<longrightarrow> origin = [] \<or>
        (\<exists>p q a b. p \<in> {[], ''api.'', ''app.''} \<and> q \<in> {[], ''api.'', ''app.''}
           \<and> origin_host origin = p @ a \<and> before_colon host = q @ b \<and> equal_fold a b))"
proof
  have o: "origin_host (''https://'' @ p @ site) = p @ site"
    using assms(1,3) before_colon_id [of "p @ site"]
    by (auto simp: origin_host_def cut_prefix_def)
  have h: "before_colon (q @ site) = q @ site"
    using assms(1,4) before_colon_id [of "q @ site"] by auto
  show "checkSameOrigin (''https://'' @ p @ site) (q @ site)"
    using o h strip_first_prefix [OF assms(3,2)] strip_first_prefix [OF assms(4,2)]
    by (simp add: checkSameOrigin_def Let_def equal_fold_def)
next
  obtain p' where p: "p' = [] \<or> p' \<in> set service_prefixes"
      "origin_host origin = p' @ strip_first service_prefixes (origin_host origin)"
    using strip_first_cases by blast
  obtain q' where q: "q' = [] \<or> q' \<in> set service_prefixes"
      "before_colon host = q' @ strip_first service_prefixes (before_colon host)"
    using strip_first_cases by blast
  show "checkSameOrigin origin host \<longrightarrow> origin = [] \<or>
      (\<exists>p q a b. p \<in> {[], ''api.'', ''app.''} \<and> q \<in> {[], ''api.'', ''app.''}
         \<and> origin_host origin = p @ a \<and> before_colon host = q @ b \<and> equal_fold a b)"
  proof (intro impI)
    assume c: "checkSameOrigin origin host"
    consider "origin = []" | "equal_fold (origin_host origin) (before_colon host)"
      | "equal_fold (strip_first service_prefixes (origin_host origin))
          (strip_first service_prefixes (before_colon host))"
      using c by (auto simp: checkSameOrigin_def Let_def split: if_splits)
    then show "origin = [] \<or> (\<exists>p q a b. p \<in> {[], ''api.'', ''app.''} \<and> q \<in> {[], ''api.'', ''app.''}
         \<and> origin_host origin = p @ a \<and> before_colon host = q @ b \<and> equal_fold a b)"
    proof cases
      case 2
      then show ?thesis by blast
    next
      case 3
      have "p' \<in> {[], ''api.'', ''app.''}" "q' \<in> {[], ''api.'', ''app.''}"
        using p(1) q(1) by (auto simp: service_prefixes_def)
      then show ?thesis using 3 p(2) q(2) by blast
    qed simp
  qed
qed

theorem same_origin_check_witness:
  "checkSameOrigin ''https://app.netbreaker.io'' ''api.netbreaker.io''"
  using same_origin_check [of "''netbreaker.io''" "''app.''" "''api.''"]
  by (simp add: service_prefixes_def cut_prefix_def)

end
