(* ===== verification/AppDb.thy ===== *)
theory AppDb
  imports Auth
begin

text \<open>
  The tables behind accounts, progress, certificates and teams (migrations 001, 003 and 006), and the
  repositories \<open>internal/users/repository.go\<close> and \<open>internal/progress/progress_repository.go\<close>.  A
  repository call is one SQL statement and one atomic step.  A statement can fail before it takes
  effect, or take effect and lose its acknowledgement; which one happens is read from a list carried
  by the state.  The clock does not advance within a request.
\<close>

section \<open>Tables\<close>

record User =
  u_ID :: uuid
  u_Email :: string
  u_Name :: string
  u_Plan :: string
  u_PlanExpiresAt :: "int option"
  u_StripeCustomerID :: "string option"
  u_IsAdmin :: bool
  u_CreatedAt :: int
  u_UpdatedAt :: int

record UserFull = User +
  u_PasswordHash :: string

record RefreshToken =
  rt_UserID :: uuid
  rt_Hash :: string
  rt_ExpiresAt :: int
  rt_RevokedAt :: "int option"

record UserProgress =
  up_ID :: uuid
  up_UserID :: uuid
  up_LabID :: int
  up_Phase :: string
  up_CompletedAt :: int

record Certificate =
  ce_ID :: uuid
  ce_UserID :: uuid
  ce_IssuedAt :: int
  ce_VerifyCode :: string

record Team =
  te_ID :: uuid
  te_Name :: string
  te_OwnerID :: uuid
  te_SeatCount :: int
  te_CreatedAt :: int

record TeamMember =
  tm_TeamID :: uuid
  tm_UserID :: uuid
  tm_Role :: string
  tm_JoinedAt :: int

record appdb =
  db_users :: "UserFull list"
  db_tokens :: "RefreshToken list"
  db_progress :: "UserProgress list"
  db_phases :: "(int \<times> string) list"
  db_labs :: "int list"
  db_certs :: "Certificate list"
  db_teams :: "Team list"
  db_members :: "TeamMember list"

definition PhaseBuild :: string where "PhaseBuild = ''build''"
definition PhaseAttack :: string where "PhaseAttack = ''attack''"
definition PhaseHarden :: string where "PhaseHarden = ''harden''"

text \<open>The constraints of the schema: keys, uniqueness, references, checks.\<close>

definition user_ids :: "appdb \<Rightarrow> uuid list" where "user_ids d = map u_ID (db_users d)"

definition progress_key :: "UserProgress \<Rightarrow> uuid \<times> int \<times> string" where
  "progress_key p = (up_UserID p, up_LabID p, up_Phase p)"

definition member_key :: "TeamMember \<Rightarrow> uuid \<times> uuid" where
  "member_key m = (tm_TeamID m, tm_UserID m)"

definition constraints_ok :: "appdb \<Rightarrow> bool" where
  "constraints_ok d =
     (distinct (user_ids d) \<and> distinct (map u_Email (db_users d))
      \<and> list_all (\<lambda>u. u_Plan u \<in> {PlanFree, PlanPro, PlanBootcamp}) (db_users d)
      \<and> distinct (map rt_Hash (db_tokens d))
      \<and> list_all (\<lambda>t. rt_UserID t \<in> set (user_ids d)) (db_tokens d)
      \<and> distinct (map progress_key (db_progress d))
      \<and> list_all (\<lambda>p. up_UserID p \<in> set (user_ids d) \<and> up_LabID p \<in> set (db_labs d)
           \<and> up_Phase p \<in> {PhaseBuild, PhaseAttack, PhaseHarden}) (db_progress d)
      \<and> distinct (map ce_UserID (db_certs d)) \<and> distinct (map ce_VerifyCode (db_certs d))
      \<and> list_all (\<lambda>c. ce_UserID c \<in> set (user_ids d)) (db_certs d)
      \<and> distinct (map te_ID (db_teams d))
      \<and> list_all (\<lambda>t. te_OwnerID t \<in> set (user_ids d)) (db_teams d)
      \<and> distinct (map member_key (db_members d))
      \<and> list_all (\<lambda>m. tm_UserID m \<in> set (user_ids d) \<and> tm_TeamID m \<in> set (map te_ID (db_teams d)))
           (db_members d))"

section \<open>Statements\<close>

datatype stmt_outcome = StmtOk | StmtLost | StmtUnacked

record app =
  ap_db :: appdb
  ap_faults :: "stmt_outcome list"
  ap_now :: int
  ap_fresh :: uuid
  ap_rand :: "string list"

definition err_sql :: gerr where "err_sql = Sentinel ''database error''"
definition err_constraint :: gerr where "err_constraint = Sentinel ''constraint violation''"
definition pgx_ErrNoRows :: gerr where "pgx_ErrNoRows = Sentinel ''no rows in result set''"

definition stmt_outcome :: "app \<Rightarrow> stmt_outcome \<times> app" where
  "stmt_outcome a = (case ap_faults a of [] \<Rightarrow> (StmtOk, a) | f # fs \<Rightarrow> (f, a\<lparr>ap_faults := fs\<rparr>))"

text \<open>\<open>pool.Query\<close>, and \<open>pool.QueryRow\<close> on a statement that may select nothing.\<close>

definition sql_query :: "(appdb \<Rightarrow> 'a) \<Rightarrow> app \<Rightarrow> app \<times> (gerr + 'a)" where
  "sql_query q a =
     (case stmt_outcome a of (StmtOk, a1) \<Rightarrow> (a1, Inr (q (ap_db a1))) | (_, a1) \<Rightarrow> (a1, Inl err_sql))"

definition sql_row :: "(appdb \<Rightarrow> 'a option) \<Rightarrow> app \<Rightarrow> app \<times> (gerr + 'a)" where
  "sql_row q a =
     (case sql_query q a of
        (a1, Inl e) \<Rightarrow> (a1, Inl e)
      | (a1, Inr None) \<Rightarrow> (a1, Inl pgx_ErrNoRows)
      | (a1, Inr (Some x)) \<Rightarrow> (a1, Inr x))"

text \<open>\<open>pool.Exec\<close>: a statement that would violate a constraint changes nothing.\<close>

definition sql_exec :: "(appdb \<Rightarrow> appdb) \<Rightarrow> app \<Rightarrow> app \<times> gerr option" where
  "sql_exec f a =
     (case stmt_outcome a of
        (StmtLost, a1) \<Rightarrow> (a1, Some err_sql)
      | (o1, a1) \<Rightarrow>
          if constraints_ok (f (ap_db a1))
          then (a1\<lparr>ap_db := f (ap_db a1)\<rparr>, if o1 = StmtOk then None else Some err_sql)
          else (a1, Some err_constraint))"

text \<open>A statement with \<open>RETURNING\<close>: the row is read from the tables after the write.\<close>

definition sql_returning ::
  "(appdb \<Rightarrow> appdb) \<Rightarrow> (appdb \<Rightarrow> 'a option) \<Rightarrow> app \<Rightarrow> app \<times> (gerr + 'a)" where
  "sql_returning f q a =
     (case sql_exec f a of
        (a1, Some e) \<Rightarrow> (a1, Inl e)
      | (a1, None) \<Rightarrow>
          (a1, case q (ap_db a1) of None \<Rightarrow> Inl pgx_ErrNoRows | Some x \<Rightarrow> Inr x))"

text \<open>\<open>gen_random_uuid()\<close> and \<open>crypto/rand\<close>.\<close>

definition take_uuid :: "app \<Rightarrow> uuid \<times> app" where
  "take_uuid a = (ap_fresh a, a\<lparr>ap_fresh := Suc (ap_fresh a)\<rparr>)"

definition take_random :: "app \<Rightarrow> app \<times> (gerr + string)" where
  "take_random a =
     (case ap_rand a of
        [] \<Rightarrow> (a, Inl (Sentinel ''crypto/rand failed''))
      | x # xs \<Rightarrow> (a\<lparr>ap_rand := xs\<rparr>, Inr x))"

text \<open>A lab id is an \<open>INTEGER\<close>: the driver refuses an argument that is out of range.\<close>

definition int4 :: "int \<Rightarrow> bool" where "int4 i = (- 2147483648 \<le> i \<and> i \<le> 2147483647)"

definition err_int4 :: gerr where "err_int4 = Sentinel ''argument out of range for int4''"

section \<open>Users\<close>

definition user_not_found :: gerr where "user_not_found = Sentinel ''user not found''"

definition find_user :: "(UserFull \<Rightarrow> bool) \<Rightarrow> appdb \<Rightarrow> User option" where
  "find_user P d = map_option User.truncate (find P (db_users d))"

definition user_lookup :: "string \<Rightarrow> (UserFull \<Rightarrow> bool) \<Rightarrow> app \<Rightarrow> app \<times> (gerr + User)" where
  "user_lookup what P a =
     (case sql_row (find_user P) a of
        (a1, Inl e) \<Rightarrow>
          (a1, Inl (if errors_is e pgx_ErrNoRows then user_not_found else Wrapf (what @ '': '') e []))
      | (a1, Inr u) \<Rightarrow> (a1, Inr u))"

definition usersGetByID :: "app \<Rightarrow> uuid \<Rightarrow> app \<times> (gerr + User)" where
  "usersGetByID a i = user_lookup ''GetByID'' (\<lambda>u. u_ID u = i) a"

definition usersGetByEmail :: "app \<Rightarrow> string \<Rightarrow> app \<times> (gerr + User)" where
  "usersGetByEmail a email = user_lookup ''GetByEmail'' (\<lambda>u. to_lower (u_Email u) = to_lower email) a"

definition usersGetByStripeCustomerID :: "app \<Rightarrow> string \<Rightarrow> app \<times> (gerr + User)" where
  "usersGetByStripeCustomerID a c =
     user_lookup ''GetByStripeCustomerID'' (\<lambda>u. u_StripeCustomerID u = Some c) a"

text \<open>\<open>UPDATE users SET ..., updated_at = NOW() WHERE P\<close>.\<close>

definition update_users :: "int \<Rightarrow> (UserFull \<Rightarrow> bool) \<Rightarrow> (UserFull \<Rightarrow> UserFull) \<Rightarrow> appdb \<Rightarrow> appdb" where
  "update_users now P f d =
     d\<lparr>db_users := map (\<lambda>u. if P u then (f u)\<lparr>u_UpdatedAt := now\<rparr> else u) (db_users d)\<rparr>"

definition UpdateName :: "app \<Rightarrow> uuid \<Rightarrow> string \<Rightarrow> app \<times> (gerr + User)" where
  "UpdateName a i name =
     (case sql_returning (update_users (ap_now a) (\<lambda>u. u_ID u = i) (u_Name_update (\<lambda>_. name)))
             (find_user (\<lambda>u. u_ID u = i)) a of
        (a1, Inl e) \<Rightarrow> (a1, Inl (Wrapf ''UpdateName: '' e []))
      | (a1, Inr u) \<Rightarrow> (a1, Inr u))"

text \<open>\<open>DELETE FROM users\<close> cascades to every table that refers to the user.\<close>

definition delete_user :: "uuid \<Rightarrow> appdb \<Rightarrow> appdb" where
  "delete_user i d =
     (let gone = map te_ID (filter (\<lambda>t. te_OwnerID t = i) (db_teams d)) in
      d\<lparr>db_users := filter (\<lambda>u. u_ID u \<noteq> i) (db_users d),
        db_tokens := filter (\<lambda>t. rt_UserID t \<noteq> i) (db_tokens d),
        db_progress := filter (\<lambda>p. up_UserID p \<noteq> i) (db_progress d),
        db_certs := filter (\<lambda>c. ce_UserID c \<noteq> i) (db_certs d),
        db_teams := filter (\<lambda>t. te_OwnerID t \<noteq> i) (db_teams d),
        db_members := filter (\<lambda>m. tm_UserID m \<noteq> i \<and> tm_TeamID m \<notin> set gone) (db_members d)\<rparr>)"

definition usersDelete :: "app \<Rightarrow> uuid \<Rightarrow> app \<times> gerr option" where
  "usersDelete a i = sql_exec (delete_user i) a"

definition usersSetPlan :: "app \<Rightarrow> uuid \<Rightarrow> string \<Rightarrow> int option \<Rightarrow> app \<times> gerr option" where
  "usersSetPlan a i plan expiresAt =
     sql_exec (update_users (ap_now a) (\<lambda>u. u_ID u = i)
       (\<lambda>u. u\<lparr>u_Plan := plan, u_PlanExpiresAt := expiresAt\<rparr>)) a"

definition SetStripeCustomerID :: "app \<Rightarrow> uuid \<Rightarrow> string \<Rightarrow> app \<times> gerr option" where
  "SetStripeCustomerID a i c =
     sql_exec (update_users (ap_now a) (\<lambda>u. u_ID u = i) (u_StripeCustomerID_update (\<lambda>_. Some c))) a"

section \<open>Progress\<close>

text \<open>\<open>ORDER BY lab_id, phase\<close>; phases compare as strings.\<close>

fun string_le :: "string \<Rightarrow> string \<Rightarrow> bool" where
  "string_le [] t = True"
| "string_le (c # s) [] = False"
| "string_le (c # s) (e # t) =
     ((of_char c :: nat) < of_char e \<or> (c = e \<and> string_le s t))"

definition progress_le :: "UserProgress \<Rightarrow> UserProgress \<Rightarrow> bool" where
  "progress_le p q =
     (up_LabID p < up_LabID q \<or> (up_LabID p = up_LabID q \<and> string_le (up_Phase p) (up_Phase q)))"

fun insert_by :: "('a \<Rightarrow> 'a \<Rightarrow> bool) \<Rightarrow> 'a \<Rightarrow> 'a list \<Rightarrow> 'a list" where
  "insert_by le x [] = [x]"
| "insert_by le x (y # ys) = (if le x y then x # y # ys else y # insert_by le x ys)"

definition order_by :: "('a \<Rightarrow> 'a \<Rightarrow> bool) \<Rightarrow> 'a list \<Rightarrow> 'a list" where
  "order_by le xs = foldr (insert_by le) xs []"

definition GetAll :: "app \<Rightarrow> uuid \<Rightarrow> app \<times> (gerr + UserProgress list)" where
  "GetAll a i =
     (case sql_query (\<lambda>d. order_by progress_le (filter (\<lambda>p. up_UserID p = i) (db_progress d))) a of
        (a1, Inl e) \<Rightarrow> (a1, Inl (Wrapf ''GetAll: '' e []))
      | (a1, Inr ps) \<Rightarrow> (a1, Inr ps))"

text \<open>\<open>INSERT ... ON CONFLICT (user_id, lab_id, phase) DO NOTHING\<close>\<close>

definition insert_progress :: "uuid \<Rightarrow> int \<Rightarrow> uuid \<Rightarrow> int \<Rightarrow> string \<Rightarrow> appdb \<Rightarrow> appdb" where
  "insert_progress new now i labID phase d =
     (if (i, labID, phase) \<in> set (map progress_key (db_progress d)) then d
      else d\<lparr>db_progress := db_progress d @
             [\<lparr>up_ID = new, up_UserID = i, up_LabID = labID, up_Phase = phase, up_CompletedAt = now\<rparr>]\<rparr>)"

definition progressMark :: "app \<Rightarrow> uuid \<Rightarrow> int \<Rightarrow> string \<Rightarrow> app \<times> gerr option" where
  "progressMark a i labID phase =
     (if \<not> int4 labID then (a, Some err_int4)
      else case take_uuid a of (new, a1) \<Rightarrow> sql_exec (insert_progress new (ap_now a) i labID phase) a1)"

definition progressUnmark :: "app \<Rightarrow> uuid \<Rightarrow> int \<Rightarrow> string \<Rightarrow> app \<times> gerr option" where
  "progressUnmark a i labID phase =
     (if \<not> int4 labID then (a, Some err_int4)
      else sql_exec (\<lambda>d. d\<lparr>db_progress := filter (\<lambda>p. progress_key p \<noteq> (i, labID, phase)) (db_progress d)\<rparr>) a)"

definition PhaseExists :: "app \<Rightarrow> int \<Rightarrow> string \<Rightarrow> app \<times> (gerr + bool)" where
  "PhaseExists a labID phase =
     (if \<not> int4 labID then (a, Inl err_int4)
      else sql_query (\<lambda>d. (labID, phase) \<in> set (db_phases d)) a)"

definition CountCompleted :: "app \<Rightarrow> uuid \<Rightarrow> app \<times> (gerr + int)" where
  "CountCompleted a i = sql_query (\<lambda>d. int (length (filter (\<lambda>p. up_UserID p = i) (db_progress d)))) a"

definition TotalPhases :: "app \<Rightarrow> app \<times> (gerr + int)" where
  "TotalPhases a = sql_query (\<lambda>d. int (length (db_phases d))) a"

definition all_phases_done :: "uuid \<Rightarrow> appdb \<Rightarrow> bool" where
  "all_phases_done i d =
     list_all (\<lambda>(l, ph). list_ex (\<lambda>p. progress_key p = (i, l, ph)) (db_progress d)) (db_phases d)"

definition AllPhasesCompleted :: "app \<Rightarrow> uuid \<Rightarrow> app \<times> (gerr + bool)" where
  "AllPhasesCompleted a i = sql_query (all_phases_done i) a"

section \<open>Statements that do not fail\<close>

definition calm :: "app \<Rightarrow> bool" where "calm a = (ap_faults a = [])"

lemma calm_db [simp]: "calm (a\<lparr>ap_db := d\<rparr>) = calm a"
  by (simp add: calm_def)

lemma calm_query [simp]: "calm a \<Longrightarrow> sql_query q a = (a, Inr (q (ap_db a)))"
  by (simp add: calm_def sql_query_def stmt_outcome_def)

lemma calm_row [simp]:
  "calm a \<Longrightarrow> sql_row q a = (a, case q (ap_db a) of None \<Rightarrow> Inl pgx_ErrNoRows | Some x \<Rightarrow> Inr x)"
  by (simp add: sql_row_def split: option.splits)

lemma calm_exec [simp]:
  "calm a \<Longrightarrow> sql_exec f a =
     (if constraints_ok (f (ap_db a)) then (a\<lparr>ap_db := f (ap_db a)\<rparr>, None) else (a, Some err_constraint))"
  by (simp add: calm_def sql_exec_def stmt_outcome_def)

lemma calm_uuid [simp]: "take_uuid a = (n, a1) \<Longrightarrow> calm a1 = calm a"
  by (auto simp: take_uuid_def calm_def)

text \<open>The constraints only look at some columns.\<close>

lemma constraints_columns:
  assumes "map u_ID (db_users d') = map u_ID (db_users d)"
    "map u_Email (db_users d') = map u_Email (db_users d)"
    "list_all (\<lambda>u. u_Plan u \<in> {PlanFree, PlanPro, PlanBootcamp}) (db_users d')
       = list_all (\<lambda>u. u_Plan u \<in> {PlanFree, PlanPro, PlanBootcamp}) (db_users d)"
    "map (\<lambda>t. (rt_UserID t, rt_Hash t)) (db_tokens d') = map (\<lambda>t. (rt_UserID t, rt_Hash t)) (db_tokens d)"
    "db_progress d' = db_progress d" "db_labs d' = db_labs d" "db_certs d' = db_certs d"
    "db_teams d' = db_teams d" "db_members d' = db_members d"
  shows "constraints_ok d' = constraints_ok d"
proof -
  have h: "map rt_Hash (db_tokens d') = map rt_Hash (db_tokens d)"
    using arg_cong [OF assms(4), of "map snd"] by (simp add: comp_def)
  have u: "map rt_UserID (db_tokens d') = map rt_UserID (db_tokens d)"
    using arg_cong [OF assms(4), of "map fst"] by (simp add: comp_def)
  have "list_all (\<lambda>t. rt_UserID t \<in> S) (db_tokens d') = list_all (\<lambda>t. rt_UserID t \<in> S) (db_tokens d)" for S
    using arg_cong [OF u, of "list_all (\<lambda>i. i \<in> S)"] by (simp add: list.pred_map comp_def)
  then show ?thesis using assms h by (simp add: constraints_ok_def user_ids_def)
qed

lemma find_user_Some: "find_user P d = Some u \<Longrightarrow> \<exists>full\<in>set (db_users d). P full \<and> u = User.truncate full"
  by (auto simp: find_user_def find_Some_iff)

lemma truncate_simps [simp]:
  "u_ID (User.truncate u) = u_ID u" "u_Email (User.truncate u) = u_Email u"
  "u_Name (User.truncate u) = u_Name u" "u_Plan (User.truncate u) = u_Plan u"
  "u_PlanExpiresAt (User.truncate u) = u_PlanExpiresAt u"
  "u_StripeCustomerID (User.truncate u) = u_StripeCustomerID u"
  "u_IsAdmin (User.truncate u) = u_IsAdmin u" "u_CreatedAt (User.truncate u) = u_CreatedAt u"
  "u_UpdatedAt (User.truncate u) = u_UpdatedAt u"
  by (simp_all add: User.truncate_def)

lemma constraints_user_unique:
  "constraints_ok d \<Longrightarrow> u \<in> set (db_users d) \<Longrightarrow> v \<in> set (db_users d) \<Longrightarrow> u_ID u = u_ID v \<Longrightarrow> u = v"
  by (auto simp: constraints_ok_def user_ids_def distinct_map dest: inj_onD)

text \<open>Reads leave the tables alone; a write happens as a whole or not at all.\<close>

lemma query_frame: "sql_query q a = (a1, r) \<Longrightarrow> ap_db a1 = ap_db a"
  by (auto simp: sql_query_def stmt_outcome_def split: list.splits stmt_outcome.splits)

lemma query_value: "sql_query q a = (a1, Inr x) \<Longrightarrow> x = q (ap_db a)"
  by (auto simp: sql_query_def stmt_outcome_def split: list.splits stmt_outcome.splits)

lemma row_frame: "sql_row q a = (a1, r) \<Longrightarrow> ap_db a1 = ap_db a"
  by (auto simp: sql_row_def dest: query_frame split: prod.splits sum.splits option.splits)

lemma row_value: "sql_row q a = (a1, Inr x) \<Longrightarrow> q (ap_db a) = Some x \<and> ap_db a1 = ap_db a"
  by (auto simp: sql_row_def sql_query_def stmt_outcome_def
      split: prod.splits sum.splits option.splits list.splits stmt_outcome.splits)

lemma exec_outcome:
  "sql_exec f a = (a1, r) \<Longrightarrow> ap_db a1 = ap_db a \<or> ap_db a1 = f (ap_db a) \<and> constraints_ok (f (ap_db a))"
  by (auto simp: sql_exec_def stmt_outcome_def split: list.splits stmt_outcome.splits if_splits)

lemma random_frame: "take_random a = (a1, r) \<Longrightarrow> ap_db a1 = ap_db a"
  by (auto simp: take_random_def split: list.splits)

end
