(* ===== verification/VerificationHandler.thy ===== *)
theory VerificationHandler
  imports LegacyVerify LabVerifiers SessionHandlers AppDb Json
begin

text \<open>
  \<open>internal/verification/handler.go\<close>: the endpoint that grades a phase of a lab.  It joins the session
  table, the console lock, the verification engine over the telnet console, and the progress table.
  What other requests do while a run is under way is an argument of the handler.
\<close>

section \<open>The request\<close>

definition dest_bool :: "bool json_dest" where
  "dest_bool j old = (case j of JBool b \<Rightarrow> Inr b | JNull \<Rightarrow> Inr old | _ \<Rightarrow> Inl err_json_type)"

fun dest_entries ::
  "(string \<Rightarrow> gerr + 'k) \<Rightarrow> 'v json_dest \<Rightarrow> 'v \<Rightarrow> (string \<times> json) list \<Rightarrow> ('k, 'v) gomap
     \<Rightarrow> gerr + ('k, 'v) gomap" where
  "dest_entries key d z [] m = Inr m"
| "dest_entries key d z ((k, j) # ms) m =
     (case (key k, d j z) of
        (Inr k', Inr v) \<Rightarrow> dest_entries key d z ms (mput k' v m)
      | (Inl e, _) \<Rightarrow> Inl e
      | (_, Inl e) \<Rightarrow> Inl e)"

definition dest_map ::
  "(string \<Rightarrow> gerr + 'k) \<Rightarrow> 'v json_dest \<Rightarrow> 'v \<Rightarrow> ('k, 'v) gomap json_dest" where
  "dest_map key d z j old =
     (case j of JObj ms \<Rightarrow> dest_entries key d z ms old | JNull \<Rightarrow> Inr [] | _ \<Rightarrow> Inl err_json_type)"

definition int_key :: "string \<Rightarrow> gerr + int" where
  "int_key k = (case atoi k of (v, None) \<Rightarrow> Inr v | (_, Some _) \<Rightarrow> Inl err_json_type)"

definition dest_InterfaceState :: "InterfaceState json_dest" where
  "dest_InterfaceState = dest_struct
     [field ''mode'' if_Mode (\<lambda>v a. a\<lparr>if_Mode := v\<rparr>) dest_string,
      field ''vlan'' if_VLAN (\<lambda>v a. a\<lparr>if_VLAN := v\<rparr>) dest_int,
      field ''native_vlan'' if_NativeVLAN (\<lambda>v a. a\<lparr>if_NativeVLAN := v\<rparr>) dest_int,
      field ''allowed_vlans'' if_AllowedVLANs (\<lambda>v a. a\<lparr>if_AllowedVLANs := v\<rparr>) (dest_slice dest_int 0),
      field ''ip'' if_IP (\<lambda>v a. a\<lparr>if_IP := v\<rparr>) dest_string,
      field ''mask'' if_Mask (\<lambda>v a. a\<lparr>if_Mask := v\<rparr>) dest_string,
      field ''encap'' if_Encap (\<lambda>v a. a\<lparr>if_Encap := v\<rparr>) dest_int,
      field ''negotiation'' if_Negotiation (\<lambda>v a. a\<lparr>if_Negotiation := v\<rparr>) dest_bool,
      field ''state'' if_State (\<lambda>v a. a\<lparr>if_State := v\<rparr>) dest_string]"

definition dest_DeviceConfig :: "DeviceConfig json_dest" where
  "dest_DeviceConfig = dest_struct
     [field ''type'' dc_Type (\<lambda>v a. a\<lparr>dc_Type := v\<rparr>) dest_string,
      field ''vlans'' dc_VLANs (\<lambda>v a. a\<lparr>dc_VLANs := v\<rparr>) (dest_map int_key dest_string []),
      field ''interfaces'' dc_Interfaces (\<lambda>v a. a\<lparr>dc_Interfaces := v\<rparr>)
        (dest_map Inr dest_InterfaceState zero_if)]"

record VerifyRequest =
  rq_Phase :: string
  rq_Config :: device_configs
  rq_SessionID :: string

definition zero_request :: VerifyRequest where
  "zero_request = \<lparr>rq_Phase = [], rq_Config = [], rq_SessionID = []\<rparr>"

definition dest_VerifyRequest :: "VerifyRequest json_dest" where
  "dest_VerifyRequest = dest_struct
     [field ''phase'' rq_Phase (\<lambda>v a. a\<lparr>rq_Phase := v\<rparr>) dest_string,
      field ''config'' rq_Config (\<lambda>v a. a\<lparr>rq_Config := v\<rparr>) (dest_map Inr dest_DeviceConfig zero_dc),
      field ''session_id'' rq_SessionID (\<lambda>v a. a\<lparr>rq_SessionID := v\<rparr>) dest_string]"

section \<open>The result\<close>

definition checkFailures :: "Check list \<Rightarrow> string list" where
  "checkFailures checks = map ck_Name (filter (\<lambda>c. \<not> ck_Passed c) checks)"

definition checkHints :: "Check list \<Rightarrow> string list" where
  "checkHints checks = map ck_Detail (filter (\<lambda>c. \<not> ck_Passed c \<and> ck_Detail c \<noteq> []) checks)"

definition computeScore :: "Check list \<Rightarrow> int" where
  "computeScore checks =
     (if checks = [] then 100
      else int (length (filter ck_Passed checks)) * 100 div int (length checks))"

definition verifyMessage :: "VerifyResult \<Rightarrow> string" where
  "verifyMessage r =
     (if vr_Passed r then ''All objectives met '' @ em_dash @ '' phase complete!''
      else itoa (int (length (filter (\<lambda>c. \<not> ck_Passed c) (vr_Checks r))))
             @ '' objective(s) not yet complete.'')"

definition graded :: "VerifyResult \<Rightarrow> GradeResult" where
  "graded r = \<lparr>gr_Passed = vr_Passed r, gr_Score = computeScore (vr_Checks r),
     gr_Failures = checkFailures (vr_Checks r), gr_Hints = checkHints (vr_Checks r),
     gr_Message = verifyMessage r\<rparr>"

definition timed_out :: "VerifyResult \<Rightarrow> GradeResult" where
  "timed_out r = \<lparr>gr_Passed = False, gr_Score = 0, gr_Failures = checkFailures (vr_Checks r),
     gr_Hints = checkHints (vr_Checks r),
     gr_Message = ''verification timed out '' @ em_dash
        @ '' console may be unresponsive. Try again.''\<rparr>"

section \<open>The state of the handler\<close>

text \<open>
  The session table with the compute host, the lock table, the application tables, and the network
  the telnet consoles are on.  \<open>ve_ctxErr d\<close> is \<open>Err()\<close> of a context with deadline \<open>d\<close>.
\<close>

record ('s, 'c) vstate =
  vh_world :: "'s world"
  vh_locks :: "nat ConsoleLock"
  vh_app :: app
  vh_net :: 'c

record ('s, 'c) verify_env =
  ve_uuid :: "string \<Rightarrow> uuid option"
  ve_VerifyConsoleTruthEnabled :: bool
  ve_GNS3ComputeHost :: string
  ve_io :: "'c net"
  ve_fuel :: nat
  ve_ctxErr :: "int \<Rightarrow> 'c \<Rightarrow> gerr option"
  ve_meanwhile :: "'s world \<times> nat ConsoleLock \<Rightarrow> 's world \<times> nat ConsoleLock"
  ve_meanwhile_app :: "app \<Rightarrow> app"

definition verify_timeout :: int where "verify_timeout = 25000000000"

text \<open>\<open>context.WithTimeout(context.Background(), 25*time.Second)\<close>\<close>

definition verifyCtx :: "('s, 'c) verify_env \<Rightarrow> 'c \<Rightarrow> 'c ctx" where
  "verifyCtx env c =
     (let d = nt_now (ve_io env) c + verify_timeout in
      \<lparr>cx_deadline = Some d, cx_Err = ve_ctxErr env d\<rparr>)"

text \<open>\<open>NewTelnetConsoleRunner\<close>: a read loop that has used up its fuel counts as an error.\<close>

definition telnet_console ::
  "nat \<Rightarrow> 'c net \<Rightarrow> 'c ctx \<Rightarrow> (string, NodeAddr) gomap \<Rightarrow> 'c ConsoleRunner" where
  "telnet_console n io ctx nodes node cmd s =
     (case RunCommand n io ctx nodes iosPromptRe node cmd s of
        None \<Rightarrow> (s, Inl (Sentinel ''out of fuel''))
      | Some r \<Rightarrow> r)"

text \<open>The collector for the target, and the run of the registered verifier.\<close>

definition verify_run ::
  "('s, 'c) verify_env \<Rightarrow> 'c RegistryEntry \<Rightarrow> Session \<Rightarrow> 'c \<Rightarrow> 'c \<times> VerifyResult" where
  "verify_run env e sess c =
     (let vs = ResolveVerifySession sess (ve_GNS3ComputeHost env);
          runner = telnet_console (ve_fuel env) (ve_io env) (verifyCtx env c) (ls_ConsoleNodes vs)
      in Run (re_Factory e vs) (IOSCollector runner (re_TargetDevice e)) c)"

section \<open>The handler\<close>

definition legacyVerify :: "int \<Rightarrow> string \<Rightarrow> device_configs \<Rightarrow> GradeResult" where
  "legacyVerify labID phase cfg =
     (case legacy_Get labID of
        Inl e \<Rightarrow> refusal ''verification not available for this lab yet''
      | Inr v \<Rightarrow> v phase cfg)"

definition locked_message :: "string \<Rightarrow> string" where
  "locked_message heldBy =
     (if heldBy = HolderConsole
      then ''Interactive console is open on this device. Please close the console before verifying.''
      else if heldBy = HolderVerify
      then ''Another verification is already running on this device '' @ em_dash
             @ '' please wait a moment and try again.''
      else ''This device is locked by another operation ('' @ heldBy @ ''). Please try again.'')"

text \<open>With the lock held.\<close>

definition verify_locked ::
  "('s, 'c) verify_env \<Rightarrow> 'c RegistryEntry \<Rightarrow> Session \<Rightarrow> ('s, 'c) vstate
     \<Rightarrow> ('s, 'c) vstate \<times> GradeResult" where
  "verify_locked env e sess st =
     (case verify_run env e sess (vh_net st) of (c, result) \<Rightarrow>
      case ve_meanwhile env (vh_world st, vh_locks st) of (w, l) \<Rightarrow>
        (\<lparr>vh_world = w, vh_locks = l, vh_app = ve_meanwhile_app env (vh_app st), vh_net = c\<rparr>,
         if cx_Err (verifyCtx env (vh_net st)) c \<noteq> None then timed_out result else graded result))"

text \<open>The session as far as the caller may verify it.\<close>

definition verify_session ::
  "('s, 'c) verify_env \<Rightarrow> Claims \<Rightarrow> uuid \<Rightarrow> 's world \<Rightarrow> 's world \<times> (GradeResult + Session)" where
  "verify_session env claims sessionID w =
     (case ve_uuid env (cl_Subject claims) of
        None \<Rightarrow> (w, Inl (refusal ''invalid authentication''))
      | Some userID \<Rightarrow>
     (case GetByID w sessionID of
        (w1, Inl err) \<Rightarrow> (w1, Inl (refusal ''session not found''))
      | (w1, Inr sess) \<Rightarrow>
          if s_UserID sess \<noteq> userID
          then (w1, Inl (refusal ''session does not belong to this user''))
          else if s_Status sess \<noteq> StatusRunning
          then (w1, Inl (refusal (''session is not running (status='' @ status_text (s_Status sess) @ '')'')))
          else (w1, Inr sess)))"

definition consoleTruthVerify ::
  "('s, 'c) verify_env \<Rightarrow> 'c VerifierRegistry \<Rightarrow> Claims \<Rightarrow> uuid \<Rightarrow> int \<Rightarrow> string
     \<Rightarrow> ('s, 'c) vstate \<Rightarrow> ('s, 'c) vstate \<times> GradeResult" where
  "consoleTruthVerify env reg claims sessionID labID phase st =
     (case verify_session env claims sessionID (vh_world st) of
        (w1, Inl res) \<Rightarrow> (st\<lparr>vh_world := w1\<rparr>, res)
      | (w1, Inr sess) \<Rightarrow>
     (case Lookup reg labID phase of
        None \<Rightarrow> (st\<lparr>vh_world := w1\<rparr>, legacyVerify labID phase [])
      | Some e \<Rightarrow>
          if mget (s_NodeMap sess) (re_TargetDevice e) = None
          then (st\<lparr>vh_world := w1\<rparr>, refusal (''target device '' @ quote_str (re_TargetDevice e)
                  @ '' not found in session node map''))
          else
            (case TryLock (vh_locks st) sessionID (re_TargetDevice e) HolderVerify of
               (l1, Inl heldBy) \<Rightarrow>
                 (st\<lparr>vh_world := w1, vh_locks := l1\<rparr>, refusal (locked_message heldBy))
             | (l1, Inr unlock) \<Rightarrow>
                 (case verify_locked env e sess (st\<lparr>vh_world := w1, vh_locks := l1\<rparr>) of
                    (st2, res) \<Rightarrow> (st2\<lparr>vh_locks := run_unlock (vh_locks st2) unlock\<rparr>, res)))))"

definition maybeMarkProgress ::
  "(string \<Rightarrow> uuid option) \<Rightarrow> Claims \<Rightarrow> GradeResult \<Rightarrow> int \<Rightarrow> string \<Rightarrow> app \<Rightarrow> app" where
  "maybeMarkProgress pu claims res labID phase a =
     (if \<not> gr_Passed res then a
      else case pu (cl_Subject claims) of
             None \<Rightarrow> a
           | Some userID \<Rightarrow> fst (progressMark a userID labID phase))"

datatype verify_response = VerifyError int string | VerifyJSON GradeResult | VerifyPanic

text \<open>A verified request: the phase and the configuration, or the answer 400.\<close>

definition verify_request :: "string \<Rightarrow> string \<Rightarrow> verify_response + int \<times> VerifyRequest" where
  "verify_request labParam body =
     (case atoi labParam of
        (_, Some e) \<Rightarrow> Inl (VerifyError 400 ''invalid lab id'')
      | (labID, None) \<Rightarrow>
          if labID < 1 then Inl (VerifyError 400 ''invalid lab id'')
          else (case fst (Decode dest_VerifyRequest body zero_request) of
                  Inl e \<Rightarrow> Inl (VerifyError 400 ''invalid request body'')
                | Inr req \<Rightarrow>
                    if rq_Phase req \<notin> {''build'', ''attack'', ''harden''}
                    then Inl (VerifyError 400 ''phase must be build, attack, or harden'')
                    else Inr (labID, req)))"

text \<open>\<open>VerifyPanic\<close>: a nil dereference, when no claims are in the context.\<close>

definition Verify ::
  "('s, 'c) verify_env \<Rightarrow> 'c VerifierRegistry \<Rightarrow> Claims option \<Rightarrow> string \<Rightarrow> string
     \<Rightarrow> ('s, 'c) vstate \<Rightarrow> ('s, 'c) vstate \<times> verify_response" where
  "Verify env reg claims labParam body st =
     (case verify_request labParam body of
        Inl resp \<Rightarrow> (st, resp)
      | Inr (labID, req) \<Rightarrow>
          if \<not> ve_VerifyConsoleTruthEnabled env
          then let res = legacyVerify labID (rq_Phase req) (rq_Config req) in
            (case claims of
               None \<Rightarrow> (st, if gr_Passed res then VerifyPanic else VerifyJSON res)
             | Some c \<Rightarrow>
                 (st\<lparr>vh_app := maybeMarkProgress (ve_uuid env) c res labID (rq_Phase req) (vh_app st)\<rparr>,
                  VerifyJSON res))
          else if rq_SessionID req = [] then (st, VerifyError 400 ''session_id is required'')
          else
            (case (ve_uuid env (rq_SessionID req), claims) of
               (None, _) \<Rightarrow> (st, VerifyError 400 ''invalid session_id'')
             | (Some sessionID, None) \<Rightarrow> (st, VerifyPanic)
             | (Some sessionID, Some c) \<Rightarrow>
                 (case consoleTruthVerify env reg c sessionID labID (rq_Phase req) st of
                    (st1, res) \<Rightarrow>
                      (st1\<lparr>vh_app := maybeMarkProgress (ve_uuid env) c res labID (rq_Phase req)
                             (vh_app st1)\<rparr>, VerifyJSON res))))"

section \<open>Properties\<close>


lemma verify_session_refused: "verify_session env claims i w = (w1, Inl res) \<Longrightarrow> \<not> gr_Passed res"
  by (auto simp: verify_session_def refusal_def split: option.splits prod.splits sum.splits if_splits)

lemma legacyVerify_refuses: "\<not> gr_Passed (legacyVerify labID phase cfg) \<and> gr_Score (legacyVerify labID phase cfg) = 0"
  using legacy_never_passes
  by (auto simp: legacyVerify_def refusal_def split: sum.splits)






lemma computeScore_range:
  "0 \<le> computeScore cs \<and> computeScore cs \<le> 100 \<and> (computeScore cs = 100) = list_all ck_Passed cs"
proof (cases "cs = []")
  case False
  let ?k = "int (length (filter ck_Passed cs))" and ?n = "int (length cs)"
  have n: "?n > 0" using False by simp
  have k: "?k \<le> ?n" by simp
  have s: "computeScore cs = ?k * 100 div ?n" using False by (simp add: computeScore_def)
  have le: "?k * 100 div ?n \<le> 100"
    using zdiv_mono1 [of "?k * 100" "?n * 100" ?n] k n by simp
  have "(?k * 100 div ?n = 100) = (?k = ?n)"
  proof
    assume a: "?k * 100 div ?n = 100"
    have "100 * ?n + ?k * 100 mod ?n = ?k * 100"
      using div_mult_mod_eq [of "?k * 100" ?n] by (simp only: a)
    then have "100 * ?n \<le> ?k * 100" using pos_mod_sign [OF n, of "?k * 100"] by linarith
    then show "?k = ?n" using k by linarith
  qed (use n in simp)
  moreover have "(?k = ?n) = list_all ck_Passed cs"
    by (metis (no_types, lifting) list.pred_set filter_True length_filter_less nat_less_le of_nat_eq_iff)
  moreover have "0 \<le> ?k * 100 div ?n" using n by (simp add: pos_imp_zdiv_nonneg_iff)
  ultimately show ?thesis using s le by simp
qed (simp add: computeScore_def)

definition consistent :: "GradeResult \<Rightarrow> bool" where
  "consistent g = (0 \<le> gr_Score g \<and> gr_Score g \<le> 100 \<and> gr_Passed g = (gr_Score g = 100)
     \<and> (gr_Passed g \<longrightarrow> gr_Failures g = [] \<and> gr_Hints g = []))"

lemma consistent_refusal: "consistent (refusal msg)" "consistent (timed_out r)"
  by (simp_all add: consistent_def refusal_def timed_out_def)

lemma consistent_legacy: "consistent (legacyVerify labID phase cfg)"
  using legacyVerify_refuses [of labID phase cfg] by (simp add: consistent_def)

lemma consistent_run: "Run v c s = (s', r) \<Longrightarrow> consistent (graded r)"
  using Run_passed [of v c s s' r] computeScore_range [of "vr_Checks r"]
  by (auto simp: consistent_def graded_def checkFailures_def checkHints_def filter_empty_conv list_all_iff)

lemma verify_run_Run:
  "verify_run env e sess c = (c', r) \<Longrightarrow> \<exists>v k. Run v k c = (c', r)"
  by (auto simp: verify_run_def Let_def)

lemma verify_locked_consistent: "verify_locked env e sess st = (st', g) \<Longrightarrow> consistent g"
  by (auto simp: verify_locked_def consistent_refusal dest!: verify_run_Run
      intro: consistent_run split: prod.splits if_splits)

lemma verify_session_consistent: "verify_session env c i w = (w1, Inl res) \<Longrightarrow> consistent res"
  by (auto simp: verify_session_def consistent_refusal split: option.splits prod.splits sum.splits if_splits)

lemma consoleTruth_consistent:
  "consoleTruthVerify env reg c i labID phase st = (st', g) \<Longrightarrow> consistent g"
  by (auto simp: consoleTruthVerify_def consistent_refusal consistent_legacy
      dest: verify_locked_consistent verify_session_consistent
      split: prod.splits sum.splits option.splits if_splits)

text \<open>
  The answer is consistent.  Whatever the request, the session and the console, the score of an
  answer is between 0 and 100, it is 100 exactly when the phase is passed, and a passed phase comes
  with no failures and no hints.
\<close>

theorem verify_answer_consistent:
  assumes "Verify env reg claims labParam body st = (st', VerifyJSON g)"
  shows "0 \<le> gr_Score g \<and> gr_Score g \<le> 100 \<and> gr_Passed g = (gr_Score g = 100)
    \<and> (gr_Passed g \<longrightarrow> gr_Failures g = [] \<and> gr_Hints g = [])"
proof -
  have "consistent g"
  proof (cases "verify_request labParam body")
    case (Inl r)
    then have "r = VerifyJSON g" using assms by (simp add: Verify_def)
    then show ?thesis using Inl
      by (auto simp: verify_request_def split: prod.splits option.splits if_splits sum.splits)
  next
    case (Inr x)
    then show ?thesis
      using assms
      by (auto simp: Verify_def Let_def consistent_legacy dest: consoleTruth_consistent
          split: prod.splits option.splits if_splits)
  qed
  then show ?thesis by (simp add: consistent_def)
qed

text \<open>
  C17: a device is only talked to under its lock.  Either no byte is sent and the lock table is as it
  was, or the lock of the target device was free, is held under a fresh token while the verifier
  runs and other requests go on, and afterwards only that very lock is given back.
\<close>

theorem verify_under_lock:
  assumes "consoleTruthVerify env reg claims i labID phase st = (st', res)"
  shows "(vh_net st' = vh_net st \<and> vh_locks st' = vh_locks st \<and> \<not> gr_Passed res)
    \<or> (\<exists>e sess w1 l1 w2 l2 token. Lookup reg labID phase = Some e
        \<and> lock_of (vh_locks st) (i, re_TargetDevice e) = None
        \<and> lock_of l1 = (lock_of (vh_locks st))((i, re_TargetDevice e) \<mapsto> (token, HolderVerify))
        \<and> ve_meanwhile env (w1, l1) = (w2, l2)
        \<and> vh_net st' = fst (verify_run env e sess (vh_net st))
        \<and> lock_of (vh_locks st') =
            (if \<exists>h. lock_of l2 (i, re_TargetDevice e) = Some (token, h)
             then (lock_of l2)((i, re_TargetDevice e) := None) else lock_of l2))"
proof -
  obtain w1 q where v: "verify_session env claims i (vh_world st) = (w1, q)" by fastforce
  have nop: "\<not> gr_Passed (refusal msg)" for msg by (simp add: refusal_def)
  show ?thesis
  proof (cases q)
    case (Inl r)
    then show ?thesis using assms v verify_session_refused [OF v [unfolded Inl]]
      by (auto simp: consoleTruthVerify_def)
  next
    case (Inr sess)
    show ?thesis
    proof (cases "\<exists>e. Lookup reg labID phase = Some e \<and> mget (s_NodeMap sess) (re_TargetDevice e) \<noteq> None")
      case False
      then show ?thesis using assms v Inr legacyVerify_refuses nop
        by (auto simp: consoleTruthVerify_def split: option.splits if_splits)
    next
      case True
      then obtain e where e: "Lookup reg labID phase = Some e"
          "mget (s_NodeMap sess) (re_TargetDevice e) \<noteq> None" by blast
      let ?k = "(i, re_TargetDevice e)"
      obtain l1 t where l: "TryLock (vh_locks st) (fst ?k) (snd ?k) HolderVerify = (l1, t)" by fastforce
      show ?thesis
      proof (cases t)
        case (Inl h)
        have "l1 = vh_locks st"
          using l Inl by (auto simp: TryLock_def Let_def split: option.splits)
        then show ?thesis using assms v Inr e l Inl nop by (auto simp: consoleTruthVerify_def)
      next
        case (Inr u)
        obtain token where u: "u = (?k, token)" "lock_of l1 = (lock_of (vh_locks st))(?k \<mapsto> (token, HolderVerify))"
          using cl.acquire_ok [OF l [unfolded Inr]] by blast
        note free = cl.acquire_ok_free [OF l [unfolded Inr]]
        obtain c result where r: "verify_run env e sess (vh_net st) = (c, result)" by fastforce
        obtain w2 l2 where m: "ve_meanwhile env (w1, l1) = (w2, l2)" by fastforce
        have st': "vh_net st' = c" "vh_locks st' = run_unlock l2 u"
          using assms v \<open>q = Inr sess\<close> e l Inr r m
          by (auto simp: consoleTruthVerify_def verify_locked_def)
        have "lock_of (run_unlock l2 u) = (if \<exists>h. lock_of l2 ?k = Some (token, h)
            then (lock_of l2)(?k := None) else lock_of l2)"
          using cl.release_own [of l2 ?k token] cl.release_stale [of l2 ?k token] u(1) by auto
        then show ?thesis using e(1) free u(2) m r st' by (metis fst_conv)
      qed
    qed
  qed
qed

section \<open>The deadline\<close>








section \<open>The lab of the session\<close>

text \<open>The same table with other lab numbers.\<close>

definition relabel :: "(Session \<Rightarrow> int) \<Rightarrow> 's world \<Rightarrow> 's world" where
  "relabel f w = w\<lparr>w_rows := map (\<lambda>s. s\<lparr>s_LabID := f s\<rparr>) (w_rows w)\<rparr>"

lemma find_relabel:
  "find (\<lambda>s. s_ID s = i) (map (\<lambda>s. s\<lparr>s_LabID := f s\<rparr>) t)
     = map_option (\<lambda>s. s\<lparr>s_LabID := f s\<rparr>) (find (\<lambda>s. s_ID s = i) t)"
  by (induction t) auto

lemma GetByID_relabel:
  "GetByID (relabel f w) i =
     (relabel f (fst (GetByID w i)),
      case snd (GetByID w i) of Inl e \<Rightarrow> Inl e | Inr s \<Rightarrow> Inr (s\<lparr>s_LabID := f s\<rparr>))"
  by (auto simp: GetByID_def db_read_def row_result_def next_outcome_def relabel_def find_relabel
      split: list.splits db_outcome.splits option.splits prod.splits sum.splits)

lemma ResolveVerifySession_relabel [simp]:
  "ResolveVerifySession (s\<lparr>s_LabID := l\<rparr>) h = ResolveVerifySession s h"
  by (simp add: ResolveVerifySession_def)

lemma verify_run_relabel [simp]: "verify_run env e (s\<lparr>s_LabID := l\<rparr>) c = verify_run env e s c"
  by (simp add: verify_run_def)

lemma verify_session_relabel:
  "verify_session env claims i (relabel f w) =
     (relabel f (fst (verify_session env claims i w)),
      case snd (verify_session env claims i w) of Inl r \<Rightarrow> Inl r | Inr s \<Rightarrow> Inr (s\<lparr>s_LabID := f s\<rparr>))"
  by (auto simp: verify_session_def GetByID_relabel split: option.splits prod.splits sum.splits)

lemma verify_locked_relabel:
  "verify_locked env e sess (st\<lparr>vh_world := w, vh_locks := k\<rparr>) = (st2, r) \<Longrightarrow>
     \<exists>st3. verify_locked env e (sess\<lparr>s_LabID := l\<rparr>) (st\<lparr>vh_world := w', vh_locks := k\<rparr>) = (st3, r)
      \<and> vh_app st3 = vh_app st2"
  by (auto simp: verify_locked_def split: prod.splits if_splits)

lemma consoleTruth_relabel:
  "snd (consoleTruthVerify env reg c i labID phase (st\<lparr>vh_world := relabel f (vh_world st)\<rparr>))
     = snd (consoleTruthVerify env reg c i labID phase st)
   \<and> vh_app (fst (consoleTruthVerify env reg c i labID phase (st\<lparr>vh_world := relabel f (vh_world st)\<rparr>)))
     = vh_app (fst (consoleTruthVerify env reg c i labID phase st))"
proof -
  obtain w1 q where v: "verify_session env c i (vh_world st) = (w1, q)" by fastforce
  show ?thesis
  proof (cases q)
    case (Inr sess)
    show ?thesis
    proof (cases "Lookup reg labID phase")
      case (Some e)
      obtain l1 t where l: "TryLock (vh_locks st) i (re_TargetDevice e) HolderVerify = (l1, t)" by fastforce
      obtain st2 res where k: "verify_locked env e sess (st\<lparr>vh_world := w1, vh_locks := l1\<rparr>) = (st2, res)"
        by fastforce
      show ?thesis
        using verify_locked_relabel [OF k, of "f sess" "relabel f w1"] v Inr Some l k
        by (auto simp: consoleTruthVerify_def verify_session_relabel split: sum.splits)
    qed (use v Inr in \<open>simp add: consoleTruthVerify_def verify_session_relabel\<close>)
  qed (use v in \<open>simp add: consoleTruthVerify_def verify_session_relabel\<close>)
qed

text \<open>
  Which lab a session runs does not matter to its verification.  Give every session any lab
  number: the answer to a verify request and what it does to the progress table stay the same, so a
  session of one lab can earn the phases of another.
\<close>

theorem verify_ignores_session_lab:
  "snd (Verify env reg claims labParam body (st\<lparr>vh_world := relabel f (vh_world st)\<rparr>))
     = snd (Verify env reg claims labParam body st)
   \<and> vh_app (fst (Verify env reg claims labParam body (st\<lparr>vh_world := relabel f (vh_world st)\<rparr>)))
     = vh_app (fst (Verify env reg claims labParam body st))"
proof (cases "verify_request labParam body")
  case (Inr x)
  obtain labID req where x: "x = (labID, req)" by fastforce
  show ?thesis
  proof (cases "\<exists>i c. ve_uuid env (rq_SessionID req) = Some i \<and> claims = Some c")
    case True
    then obtain i c where ic: "ve_uuid env (rq_SessionID req) = Some i" "claims = Some c" by blast
    show ?thesis
      using Inr x ic consoleTruth_relabel [of env reg c i labID "rq_Phase req" f st]
      by (auto simp: Verify_def Let_def split: prod.splits)
  next
    case False
    then show ?thesis using Inr x by (auto simp: Verify_def Let_def split: option.splits)
  qed
qed (simp add: Verify_def)

section \<open>A passing run\<close>

text \<open>Build of lab 2 on a switch that is the root bridge.\<close>

definition root_reply :: "string \<Rightarrow> string" where
  "root_reply line = (if has_prefix line ''show'' then ''This bridge is the root'' @ crlf else []) @ ''SW1#''"

definition root_env :: "(demo, string list) verify_env" where
  "root_env = \<lparr>ve_uuid = demo_pu, ve_VerifyConsoleTruthEnabled = True,
     ve_GNS3ComputeHost = ''10.0.0.1'', ve_io = line_device root_reply, ve_fuel = 1,
     ve_ctxErr = (\<lambda>d s. None), ve_meanwhile = (\<lambda>wl. wl), ve_meanwhile_app = (\<lambda>a. a)\<rparr>"

definition sw1_row :: Session where
  "sw1_row = demo_session
     \<lparr>s_NodeMap := [(''SW1'', \<lparr>ni_GNS3NodeID = ''n1'', ni_ConsolePort = 5000,
        ni_ConsoleType = ''telnet'', ni_NodeType = ''iou'', ni_MAC = []\<rparr>)]\<rparr>"

definition sw1_entry :: "string list RegistryEntry" where
  "sw1_entry = \<lparr>re_Factory = Lab02BuildVerifier, re_TargetDevice = ''SW1''\<rparr>"

lemma root_console:
  assumes "ahead ctx" "mget nodes ''SW1'' = Some addr"
  shows "\<exists>q. telnet_console 1 (line_device root_reply) ctx nodes ''SW1'' cmd_stp []
    = (q, Inr (''This bridge is the root'' @ crlf))"
proof -
  have "prompted iosPromptRe (root_reply crlf) []" "prompted iosPromptRe (root_reply tl0) []"
    "prompted iosPromptRe (root_reply (cmd_stp @ crlf)) (''This bridge is the root'' @ crlf)"
    by code_simp+
  from RunCommand_line [where n = 0 and q = "[]", OF assms this] show ?thesis
    by (auto simp: telnet_console_def)
qed

lemma root_run: "\<exists>q r. verify_run root_env sw1_entry sw1_row [] = (q, r) \<and> vr_Passed r"
proof -
  let ?vs = "ResolveVerifySession sw1_row ''10.0.0.1''"
  have a: "ahead (verifyCtx root_env [])"
    by (simp add: ahead_def verifyCtx_def Let_def root_env_def line_device_def verify_timeout_def)
  have "mget (ls_ConsoleNodes ?vs) ''SW1'' = Some \<lparr>na_Host = ''10.0.0.1'', na_Port = 5000\<rparr>"
    by (simp add: ResolveVerifySession_def sw1_row_def)
  from root_console [OF a this] obtain q where q:
    "telnet_console 1 (line_device root_reply) (verifyCtx root_env []) (ls_ConsoleNodes ?vs) ''SW1''
       cmd_stp [] = (q, Inr (''This bridge is the root'' @ crlf))" by blast
  have "re_MatchString isRootRe (''This bridge is the root'' @ crlf)" by code_simp
  then obtain i where p: "ParseSTP (''This bridge is the root'' @ crlf) = Inr i" "st_IsRoot i"
    by (simp add: ParseSTP_def)
  have f: "ve_GNS3ComputeHost root_env = ''10.0.0.1''" "ve_fuel root_env = 1"
    "ve_io root_env = line_device root_reply" by (simp_all add: root_env_def)
  show ?thesis
    using q p
    by (auto simp: verify_run_def sw1_entry_def f Let_def Lab02BuildVerifier_def chain_def
        ExpectRootBridge_def add_assertion_def New_def Run_def judge_def evSTPTable_def
        IOSCollector_def ios_run_def)
qed

definition sw1_state :: "(demo, string list) vstate" where
  "sw1_state = \<lparr>vh_world = demo_world\<lparr>w_rows := [sw1_row]\<rparr>, vh_locks = NewConsoleLock,
     vh_app = \<lparr>ap_db = \<lparr>db_users = [\<lparr>u_ID = 1, u_Email = ''a@b.c'', u_Name = ''A'', u_Plan = PlanFree,
         u_PlanExpiresAt = None, u_StripeCustomerID = None, u_IsAdmin = False, u_CreatedAt = 0,
         u_UpdatedAt = 0, u_PasswordHash = ''h''\<rparr>], db_tokens = [], db_progress = [],
         db_phases = [(2, ''build'')], db_labs = [2], db_certs = [], db_teams = [], db_members = []\<rparr>,
       ap_faults = [], ap_now = 0, ap_fresh = 3, ap_rand = []\<rparr>,
     vh_net = []\<rparr>"

definition sw1_claims :: Claims where
  "sw1_claims = \<lparr>cl_Subject = ''1'', cl_Plan = PlanFree, cl_IsAdmin = False\<rparr>"

definition sw1_body :: string where
  "sw1_body = ''{'' @ [CHR 0x22] @ ''phase'' @ [CHR 0x22] @ '':'' @ [CHR 0x22] @ ''build'' @ [CHR 0x22]
     @ '','' @ [CHR 0x22] @ ''session_id'' @ [CHR 0x22] @ '':'' @ [CHR 0x22] @ ''7'' @ [CHR 0x22] @ ''}''"

lemma sw1_request:
  "verify_request ''2'' sw1_body = Inr (2, \<lparr>rq_Phase = ''build'', rq_Config = [], rq_SessionID = ''7''\<rparr>)"
  by code_simp

lemma sw1_session:
  "verify_session root_env sw1_claims 7 (vh_world sw1_state) = (vh_world sw1_state, Inr sw1_row)"
  by code_simp

lemma sw1_consoleTruth:
  "\<exists>st2 g. consoleTruthVerify root_env verifyReg sw1_claims 7 2 ''build'' sw1_state = (st2, g)
     \<and> gr_Passed g \<and> vh_app st2 = vh_app sw1_state"
proof -
  obtain q r where r: "verify_run root_env sw1_entry sw1_row [] = (q, r)" "vr_Passed r"
    using root_run by blast
  have e: "Lookup verifyReg 2 ''build'' = Some sw1_entry"
    by (simp add: Lookup_def verifyReg_def register_defs Register_def Let_def sw1_entry_def)
  have n: "mget (s_NodeMap sw1_row) (re_TargetDevice sw1_entry) \<noteq> None"
    by (simp add: sw1_row_def sw1_entry_def)
  have x: "cx_Err (verifyCtx root_env []) q = None" "ve_meanwhile root_env wl = wl"
    "ve_meanwhile_app root_env a = a" for wl a
    by (simp_all add: verifyCtx_def Let_def root_env_def)
  have s: "vh_net sw1_state = []" "vh_locks sw1_state = NewConsoleLock" by (simp_all add: sw1_state_def)
  show ?thesis
    using r n
    by (auto simp: consoleTruthVerify_def sw1_session e verify_locked_def s x graded_def
        TryLock_def NewConsoleLock_def Let_def)
qed

lemma sw1_marked:
  "db_progress (ap_db (fst (progressMark (vh_app sw1_state) 1 2 ''build''))) =
     [\<lparr>up_ID = 3, up_UserID = 1, up_LabID = 2, up_Phase = ''build'', up_CompletedAt = 0\<rparr>]"
  by code_simp

lemma sw1_verify:
  "\<exists>st' g. Verify root_env verifyReg (Some sw1_claims) ''2'' sw1_body sw1_state = (st', VerifyJSON g)
     \<and> gr_Passed g \<and> db_progress (ap_db (vh_app st')) =
         [\<lparr>up_ID = 3, up_UserID = 1, up_LabID = 2, up_Phase = ''build'', up_CompletedAt = 0\<rparr>]"
proof -
  obtain st2 g where c: "consoleTruthVerify root_env verifyReg sw1_claims 7 2 ''build'' sw1_state = (st2, g)"
      "gr_Passed g" "vh_app st2 = vh_app sw1_state" using sw1_consoleTruth by blast
  have u: "ve_uuid root_env ''7'' = Some 7" "ve_uuid root_env (cl_Subject sw1_claims) = Some 1"
    "ve_VerifyConsoleTruthEnabled root_env"
    by (simp_all add: root_env_def demo_pu_def sw1_claims_def)
  show ?thesis
    using c u sw1_marked by (auto simp: Verify_def sw1_request maybeMarkProgress_def)
qed


theorem verify_answer_consistent_witness:
  "\<exists>st' g. Verify root_env verifyReg (Some sw1_claims) ''2'' sw1_body sw1_state = (st', VerifyJSON g)
     \<and> gr_Score g = 100 \<and> gr_Failures g = []"
proof -
  obtain st' g where "Verify root_env verifyReg (Some sw1_claims) ''2'' sw1_body sw1_state = (st', VerifyJSON g)"
      "gr_Passed g" using sw1_verify by blast
  then show ?thesis using verify_answer_consistent by blast
qed

theorem verify_under_lock_witness:
  "\<exists>st2 g. consoleTruthVerify root_env verifyReg sw1_claims 7 2 ''build'' sw1_state = (st2, g)
     \<and> lock_of (vh_locks st2) (7, ''SW1'') = None"
proof -
  obtain st2 g where c: "consoleTruthVerify root_env verifyReg sw1_claims 7 2 ''build'' sw1_state = (st2, g)"
      "gr_Passed g" using sw1_consoleTruth by blast
  have e: "Lookup verifyReg 2 ''build'' = Some sw1_entry"
    by (simp add: Lookup_def verifyReg_def register_defs Register_def Let_def sw1_entry_def)
  have m: "ve_meanwhile root_env wl = wl" for wl by (simp add: root_env_def)
  have t: "re_TargetDevice sw1_entry = ''SW1''" by (simp add: sw1_entry_def)
  from verify_under_lock [OF c(1)] c(2) e show ?thesis using c(1) by (auto simp: m t)
qed

section \<open>The registry and the topologies\<close>

definition registered_targets :: "(int \<times> string) list" where
  "registered_targets = [(1, ''SW1''), (2, ''SW1''), (2, ''SW3''), (3, ''SW1''), (8, ''SW1''),
     (15, ''SW1''), (16, ''SW1''), (47, ''SW1''), (47, ''R1'')]"

lemma lookup_target:
  "Lookup verifyReg labID phase = Some e \<Longrightarrow> (labID, re_TargetDevice e) \<in> set registered_targets"
  unfolding Lookup_def verifyReg_def register_defs Register_def NewVerifierRegistry_def Let_def
  by (auto simp: registered_targets_def split: if_splits)

lemma targets_declared:
  "list_all (\<lambda>(l, d). d \<in> set (node_names (lookupTopologyTemplate l))) registered_targets"
  by code_simp

text \<open>
  Every registered verifier can run.  Its lab has a live session, its target device is a node of
  the lab's topology, and for every session it has at least one check, all of them made of the
  expectations of the engine; so a passed result always rests on answers of the device.
\<close>

theorem registered_verifiers_can_run:
  assumes "Lookup verifyReg labID phase = Some e"
  shows "HasLiveSession labID
    \<and> re_TargetDevice e \<in> set (node_names (lookupTopologyTemplate labID))
    \<and> built (re_Factory e sess) \<and> re_Factory e sess \<noteq> []"
proof -
  have n: "re_TargetDevice e \<in> set (node_names (lookupTopologyTemplate labID))"
    using lookup_target [OF assms] targets_declared by (auto simp: list_all_iff)
  then have "HasLiveSession labID" by (auto simp: HasLiveSession_def node_names_def)
  then show ?thesis using n lookup_entries [OF assms] by blast
qed

theorem registered_verifiers_can_run_witness:
  "HasLiveSession 2 \<and> ''SW1'' \<in> set (node_names (lookupTopologyTemplate 2))"
proof -
  have e: "Lookup verifyReg 2 ''build'' = Some sw1_entry"
    by (simp add: Lookup_def verifyReg_def register_defs Register_def Let_def sw1_entry_def)
  from registered_verifiers_can_run [OF e] show ?thesis by (simp add: sw1_entry_def)
qed
end
