(* ===== verification/Response.thy ===== *)
theory Response
  imports Json
begin

text \<open>
  \<open>pkg/response\<close>: what a handler writes.  A reply is a status with a body of data, an error body, or
  nothing; \<open>ReplyPanic\<close> is a handler that dereferences nil.  Request bodies are read by \<open>json_body\<close>.
\<close>

record ErrorBody =
  eb_Error :: string
  eb_Code :: string

datatype 'd reply = Reply int 'd | ReplyError int ErrorBody | ReplyEmpty int | ReplyPanic

definition JSON :: "int \<Rightarrow> 'd \<Rightarrow> 'd reply" where "JSON status d = Reply status d"
definition NoContent :: "'d reply" where "NoContent = ReplyEmpty 204"

definition Error :: "int \<Rightarrow> string \<Rightarrow> 'd reply" where
  "Error status message = ReplyError status \<lparr>eb_Error = message, eb_Code = []\<rparr>"

definition ErrorCode :: "int \<Rightarrow> string \<Rightarrow> string \<Rightarrow> 'd reply" where
  "ErrorCode status message code = ReplyError status \<lparr>eb_Error = message, eb_Code = code\<rparr>"

definition Unauthorized :: "'d reply" where "Unauthorized = Error 401 ''authentication required''"

definition Forbidden :: "string \<Rightarrow> 'd reply" where
  "Forbidden msg = Error 403 (if msg = [] then ''insufficient permissions'' else msg)"

definition NotFound :: "'d reply" where "NotFound = Error 404 ''not found''"

definition InternalError :: "'d reply" where
  "InternalError = Error 500 ''an unexpected error occurred''"

definition reply_status :: "'d reply \<Rightarrow> int" where
  "reply_status r = (case r of Reply s _ \<Rightarrow> s | ReplyError s _ \<Rightarrow> s | ReplyEmpty s \<Rightarrow> s | ReplyPanic \<Rightarrow> 500)"

text \<open>\<open>json.NewDecoder(r.Body).Decode(&req)\<close>: text after the first value is not looked at.\<close>

definition json_body :: "'a json_dest \<Rightarrow> 'a \<Rightarrow> string \<Rightarrow> 'a option" where
  "json_body d z body = (case fst (Decode d body z) of Inl e \<Rightarrow> None | Inr a \<Rightarrow> Some a)"

lemmas reply_defs = JSON_def NoContent_def Error_def ErrorCode_def Unauthorized_def Forbidden_def
  NotFound_def InternalError_def

end
