(* ===== verification/Certificates.thy ===== *)
theory Certificates
  imports AppDb Response
begin

text \<open>
  \<open>internal/progress/progress_handler.go\<close>, \<open>internal/certificate/service.go\<close> and \<open>handler.go\<close>: the
  endpoints that read and write progress, and the certificate for a complete catalogue.  \<open>pu\<close> is
  \<open>uuid.Parse\<close>.
\<close>

section \<open>Progress\<close>

text \<open>Without claims the handler panics: \<open>None\<close>.  A subject that is no UUID reads as \<open>uuid.Nil\<close>.\<close>

definition mustUserID :: "(string \<Rightarrow> uuid option) \<Rightarrow> Claims option \<Rightarrow> uuid option" where
  "mustUserID pu claims =
     (case claims of None \<Rightarrow> None
      | Some c \<Rightarrow> Some (case pu (cl_Subject c) of None \<Rightarrow> uuid_nil | Some i \<Rightarrow> i))"

record ProgressSummary =
  ps_TotalPhases :: int
  ps_CompletedPhases :: int
  ps_ReadinessPct :: int
  ps_Items :: "UserProgress list"

datatype progress_data = Summary ProgressSummary | Marked

definition validPhases :: "string list" where
  "validPhases = [PhaseBuild, PhaseAttack, PhaseHarden]"

definition parseParams :: "string \<Rightarrow> string \<Rightarrow> progress_data reply + int \<times> string" where
  "parseParams labParam phase =
     (case atoi labParam of
        (_, Some e) \<Rightarrow> Inl (Error 400 ''invalid lab id'')
      | (labID, None) \<Rightarrow>
          if labID < 1 then Inl (Error 400 ''invalid lab id'')
          else if phase \<notin> set validPhases
          then Inl (Error 400 ''invalid phase (must be build, attack, or harden)'')
          else Inr (labID, phase))"

definition handle_progress_get ::
  "(string \<Rightarrow> uuid option) \<Rightarrow> app \<Rightarrow> Claims option \<Rightarrow> app \<times> progress_data reply" where
  "handle_progress_get pu a claims =
     (case mustUserID pu claims of
        None \<Rightarrow> (a, ReplyPanic)
      | Some i \<Rightarrow>
     (case GetAll a i of
        (a1, Inl e) \<Rightarrow> (a1, InternalError)
      | (a1, Inr items) \<Rightarrow>
     (case TotalPhases a1 of (a2, t) \<Rightarrow>
        let totalPhases = (case t of Inl e \<Rightarrow> 1 | Inr n \<Rightarrow> if n = 0 then 1 else n);
            completed = int (length items)
        in (a2, JSON 200 (Summary \<lparr>ps_TotalPhases = totalPhases, ps_CompletedPhases = completed,
              ps_ReadinessPct = completed * 100 div totalPhases, ps_Items = items\<rparr>)))))"

definition handle_mark ::
  "(string \<Rightarrow> uuid option) \<Rightarrow> app \<Rightarrow> Claims option \<Rightarrow> string \<Rightarrow> string \<Rightarrow> app \<times> progress_data reply" where
  "handle_mark pu a claims labParam phaseParam =
     (case mustUserID pu claims of
        None \<Rightarrow> (a, ReplyPanic)
      | Some i \<Rightarrow>
     (case parseParams labParam phaseParam of
        Inl resp \<Rightarrow> (a, resp)
      | Inr (labID, phase) \<Rightarrow>
     (case PhaseExists a labID phase of
        (a1, Inl e) \<Rightarrow> (a1, InternalError)
      | (a1, Inr ex) \<Rightarrow>
          if \<not> ex then (a1, Error 400 ''no such lab or phase'')
          else (case progressMark a1 i labID phase of
                  (a2, Some e) \<Rightarrow> (a2, InternalError)
                | (a2, None) \<Rightarrow> (a2, JSON 200 Marked)))))"

definition handle_unmark ::
  "(string \<Rightarrow> uuid option) \<Rightarrow> app \<Rightarrow> Claims option \<Rightarrow> string \<Rightarrow> string \<Rightarrow> app \<times> progress_data reply" where
  "handle_unmark pu a claims labParam phaseParam =
     (case mustUserID pu claims of
        None \<Rightarrow> (a, ReplyPanic)
      | Some i \<Rightarrow>
     (case parseParams labParam phaseParam of
        Inl resp \<Rightarrow> (a, resp)
      | Inr (labID, phase) \<Rightarrow>
     (case progressUnmark a i labID phase of
        (a1, Some e) \<Rightarrow> (a1, InternalError)
      | (a1, None) \<Rightarrow> (a1, NoContent))))"

section \<open>Certificates\<close>

definition ErrNotEligible :: gerr where
  "ErrNotEligible = Sentinel ''not eligible: complete every lab in the catalog first''"
definition ErrCertNotFound :: gerr where "ErrCertNotFound = Sentinel ''certificate not found''"

definition getByUserID :: "app \<Rightarrow> uuid \<Rightarrow> app \<times> (gerr + Certificate)" where
  "getByUserID a i =
     (case sql_row (\<lambda>d. find (\<lambda>c. ce_UserID c = i) (db_certs d)) a of
        (a1, Inl e) \<Rightarrow> (a1, Inl (if errors_is e pgx_ErrNoRows then ErrCertNotFound else e))
      | (a1, Inr c) \<Rightarrow> (a1, Inr c))"

definition code_chars :: string where "code_chars = ''ABCDEFGHJKLMNPQRSTUVWXYZ23456789''"

text \<open>
  \<open>rand.Int(rand.Reader, 32)\<close> reads one byte and keeps its low five bits; a value of 32 or more cannot
  come up.
\<close>

definition rand_below_32 :: "app \<Rightarrow> app \<times> (gerr + nat)" where
  "rand_below_32 a =
     (case take_random a of
        (a1, Inl e) \<Rightarrow> (a1, Inl e)
      | (a1, Inr []) \<Rightarrow> (a1, Inl (Sentinel ''unexpected EOF''))
      | (a1, Inr (b # bs)) \<Rightarrow> (a1, Inr (of_char b mod 32)))"

fun code_tail :: "nat \<Rightarrow> app \<Rightarrow> app \<times> (gerr + string)" where
  "code_tail 0 a = (a, Inr [])"
| "code_tail (Suc n) a =
     (case rand_below_32 a of
        (a1, Inl e) \<Rightarrow> (a1, Inl e)
      | (a1, Inr k) \<Rightarrow>
          (case code_tail n a1 of
             (a2, Inl e) \<Rightarrow> (a2, Inl e)
           | (a2, Inr cs) \<Rightarrow> (a2, Inr (code_chars ! k # cs))))"

definition generateVerifyCode :: "app \<Rightarrow> app \<times> (gerr + string)" where
  "generateVerifyCode a =
     (case code_tail 6 a of (a1, Inl e) \<Rightarrow> (a1, Inl e) | (a1, Inr cs) \<Rightarrow> (a1, Inr (''NB-'' @ cs)))"

definition insert_cert :: "Certificate \<Rightarrow> appdb \<Rightarrow> appdb" where
  "insert_cert c d = d\<lparr>db_certs := db_certs d @ [c]\<rparr>"

definition issue_certificate :: "app \<Rightarrow> uuid \<Rightarrow> app \<times> (gerr + Certificate)" where
  "issue_certificate a i =
     (case generateVerifyCode a of
        (a1, Inl e) \<Rightarrow> (a1, Inl (Wrapf ''generate code: '' e []))
      | (a1, Inr code) \<Rightarrow>
     (case take_uuid a1 of (new, a2) \<Rightarrow>
      let cert = \<lparr>ce_ID = new, ce_UserID = i, ce_IssuedAt = ap_now a2, ce_VerifyCode = code\<rparr> in
     (case sql_returning (insert_cert cert) (\<lambda>d. find (\<lambda>c. ce_ID c = new) (db_certs d)) a2 of
        (a3, Inl e) \<Rightarrow> (a3, Inl (Wrapf ''insert certificate: '' e []))
      | (a3, Inr c) \<Rightarrow> (a3, Inr c))))"

text \<open>The mail about a new certificate runs in the background.\<close>

definition not_eligible :: "app \<Rightarrow> uuid \<Rightarrow> app \<times> gerr" where
  "not_eligible a i =
     (case CountCompleted a i of (a1, c) \<Rightarrow>
      case TotalPhases a1 of (a2, t) \<Rightarrow>
        (a2, Wrapf [] ErrNotEligible ('': '' @ itoa (case c of Inl e \<Rightarrow> 0 | Inr n \<Rightarrow> n) @ ''/''
               @ itoa (case t of Inl e \<Rightarrow> 0 | Inr n \<Rightarrow> n) @ '' phases completed'')))"

definition GetOrCreate :: "app \<Rightarrow> uuid \<Rightarrow> app \<times> (gerr + Certificate)" where
  "GetOrCreate a i =
     (case getByUserID a i of
        (a1, Inr existing) \<Rightarrow> (a1, Inr existing)
      | (a1, Inl e) \<Rightarrow>
          if \<not> errors_is e ErrCertNotFound then (a1, Inl e)
          else
            (case AllPhasesCompleted a1 i of
               (a2, Inl e) \<Rightarrow> (a2, Inl e)
             | (a2, Inr ok) \<Rightarrow>
                 if \<not> ok then (case not_eligible a2 i of (a3, e) \<Rightarrow> (a3, Inl e))
                 else issue_certificate a2 i))"

record VerifiedCertificate =
  vc_Name :: string
  vc_IssuedAt :: int
  vc_VerifyCode :: string

definition VerifyByCode :: "app \<Rightarrow> string \<Rightarrow> app \<times> (gerr + VerifiedCertificate)" where
  "VerifyByCode a code =
     (case sql_row (\<lambda>d. case find (\<lambda>c. ce_VerifyCode c = code) (db_certs d) of
                          None \<Rightarrow> None
                        | Some c \<Rightarrow>
                            (case find (\<lambda>u. u_ID u = ce_UserID c) (db_users d) of
                               None \<Rightarrow> None
                             | Some u \<Rightarrow> Some (c, u_Name u))) a of
        (a1, Inl e) \<Rightarrow> (a1, Inl (if errors_is e pgx_ErrNoRows then ErrCertNotFound else e))
      | (a1, Inr (c, name)) \<Rightarrow>
          (a1, Inr \<lparr>vc_Name = name, vc_IssuedAt = ce_IssuedAt c, vc_VerifyCode = ce_VerifyCode c\<rparr>))"

datatype cert_data = CertJSON Certificate | CertValid VerifiedCertificate | CertInvalid

definition handle_cert_get ::
  "(string \<Rightarrow> uuid option) \<Rightarrow> app \<Rightarrow> Claims option \<Rightarrow> app \<times> cert_data reply" where
  "handle_cert_get pu a claims =
     (case mustUserID pu claims of
        None \<Rightarrow> (a, ReplyPanic)
      | Some i \<Rightarrow>
     (case usersGetByID a i of
        (a1, Inl e) \<Rightarrow> (a1, InternalError)
      | (a1, Inr user) \<Rightarrow>
     (case GetOrCreate a1 i of
        (a2, Inl e) \<Rightarrow>
          (a2, if errors_is e ErrNotEligible then ErrorCode 409 (err_text e) ''NOT_ELIGIBLE''
               else InternalError)
      | (a2, Inr cert) \<Rightarrow> (a2, JSON 200 (CertJSON cert)))))"

definition handle_cert_verify :: "app \<Rightarrow> string \<Rightarrow> app \<times> cert_data reply" where
  "handle_cert_verify a code =
     (case VerifyByCode a code of
        (a1, Inl e) \<Rightarrow>
          (a1, if errors_is e ErrCertNotFound then JSON 404 CertInvalid else InternalError)
      | (a1, Inr v) \<Rightarrow> (a1, JSON 200 (CertValid v)))"

section \<open>Properties\<close>

lemma rand32_frame: "rand_below_32 a = (a1, r) \<Longrightarrow> ap_db a1 = ap_db a"
  by (auto simp: rand_below_32_def dest: random_frame split: prod.splits sum.splits list.splits)

lemma rand32_bound: "rand_below_32 a = (a1, Inr k) \<Longrightarrow> k < 32"
  by (auto simp: rand_below_32_def split: prod.splits sum.splits list.splits)

lemma code_tail_ok:
  "code_tail n a = (a1, r) \<Longrightarrow> ap_db a1 = ap_db a \<and>
     (\<forall>cs. r = Inr cs \<longrightarrow> length cs = n \<and> set cs \<subseteq> set code_chars)"
proof (induction n arbitrary: a a1 r)
  case (Suc n)
  obtain b q where b: "rand_below_32 a = (b, q)" by fastforce
  show ?case
  proof (cases q)
    case (Inl e)
    then show ?thesis using Suc.prems b rand32_frame [OF b] by auto
  next
    case (Inr k)
    obtain c p where c: "code_tail n b = (c, p)" by fastforce
    have "k < length code_chars" using rand32_bound [OF b [unfolded Inr]] by (simp add: code_chars_def)
    then have "code_chars ! k \<in> set code_chars" by simp
    then show ?thesis using Suc.prems b Inr c Suc.IH [OF c] rand32_frame [OF b] by (cases p) auto
  qed
qed simp

lemma generateVerifyCode_ok:
  "generateVerifyCode a = (a1, r) \<Longrightarrow> ap_db a1 = ap_db a \<and>
     (\<forall>code. r = Inr code \<longrightarrow> (\<exists>cs. code = ''NB-'' @ cs \<and> length cs = 6 \<and> set cs \<subseteq> set code_chars))"
  by (auto simp: generateVerifyCode_def dest: code_tail_ok split: prod.splits sum.splits)

lemma issue_certificate_rows:
  assumes "issue_certificate a i = (a1, r)"
  shows "ap_db a1 = ap_db a \<or> (\<exists>c cs. ap_db a1 = insert_cert c (ap_db a) \<and> ce_UserID c = i
     \<and> ce_VerifyCode c = ''NB-'' @ cs \<and> length cs = 6 \<and> set cs \<subseteq> set code_chars)"
proof -
  obtain b q where g: "generateVerifyCode a = (b, q)" by fastforce
  note gk = generateVerifyCode_ok [OF g]
  show ?thesis
  proof (cases q)
    case (Inl e)
    then show ?thesis using assms g gk by (simp add: issue_certificate_def)
  next
    case (Inr code)
    obtain new b2 where u: "take_uuid b = (new, b2)" by fastforce
    have d: "ap_db b2 = ap_db a" using u gk by (auto simp: take_uuid_def)
    let ?c = "\<lparr>ce_ID = new, ce_UserID = i, ce_IssuedAt = ap_now b2, ce_VerifyCode = code\<rparr>"
    obtain b3 x where x: "sql_exec (insert_cert ?c) b2 = (b3, x)" by fastforce
    have "ap_db a1 = ap_db b3"
      using assms g Inr u x
      by (auto simp: issue_certificate_def Let_def sql_returning_def split: option.splits)
    then show ?thesis using exec_outcome [OF x] d gk Inr by (cases "ap_db b3 = ap_db b2") fastforce+
  qed
qed

lemma getByUserID_cases:
  "getByUserID a i = (a1, r) \<Longrightarrow> ap_db a1 = ap_db a \<and> (\<forall>c. r = Inr c \<longrightarrow> c \<in> set (db_certs (ap_db a)))"
  by (auto simp: getByUserID_def find_Some_iff dest: row_frame dest!: row_value
      split: prod.splits sum.splits)

lemma not_eligible_frame: "not_eligible a i = (a1, e) \<Longrightarrow> ap_db a1 = ap_db a"
  by (auto simp: not_eligible_def CountCompleted_def TotalPhases_def dest!: query_frame split: prod.splits)

text \<open>
  C25: certificates are issued for complete catalogues only.  Whatever statements fail, a request for
  a certificate changes nothing but the certificate table; a row it adds belongs to the caller, who
  had completed every phase of the catalogue, and carries a code of six characters of the alphabet.
\<close>

theorem certificate_needs_all_phases:
  assumes "GetOrCreate a i = (a1, r)"
  shows "(ap_db a1)\<lparr>db_certs := db_certs (ap_db a)\<rparr> = ap_db a
    \<and> (\<forall>c \<in> set (db_certs (ap_db a1)). c \<in> set (db_certs (ap_db a)) \<or>
         ce_UserID c = i \<and> all_phases_done i (ap_db a)
         \<and> (\<exists>cs. ce_VerifyCode c = ''NB-'' @ cs \<and> length cs = 6 \<and> set cs \<subseteq> set code_chars))"
proof -
  obtain b q where g: "getByUserID a i = (b, q)" by fastforce
  note gk = getByUserID_cases [OF g]
  show ?thesis
  proof (cases "\<exists>e. q = Inl e \<and> errors_is e ErrCertNotFound")
    case False
    then show ?thesis using assms g gk by (auto simp: GetOrCreate_def split: sum.splits)
  next
    case True
    then obtain e where e: "q = Inl e" "errors_is e ErrCertNotFound" by blast
    obtain c p where c: "AllPhasesCompleted b i = (c, p)" by fastforce
    have cd: "ap_db c = ap_db a" using query_frame [OF c [unfolded AllPhasesCompleted_def]] gk by simp
    show ?thesis
    proof (cases "p = Inr True")
      case False
      then show ?thesis using assms g e c cd
        by (auto simp: GetOrCreate_def split: sum.splits if_splits prod.splits dest!: not_eligible_frame)
    next
      case True
      have "all_phases_done i (ap_db a)"
        using query_value [OF c [unfolded AllPhasesCompleted_def True]] gk by simp
      moreover have "issue_certificate c i = (a1, r)" using assms g e c True by (simp add: GetOrCreate_def)
      from issue_certificate_rows [OF this] cd
      have "ap_db a1 = ap_db a \<or> (\<exists>c cs. ap_db a1 = insert_cert c (ap_db a) \<and> ce_UserID c = i
         \<and> ce_VerifyCode c = ''NB-'' @ cs \<and> length cs = 6 \<and> set cs \<subseteq> set code_chars)" by simp
      ultimately show ?thesis by (auto simp: insert_cert_def)
    qed
  qed
qed

section \<open>Marking one's own progress\<close>

lemma constraints_mark:
  assumes "constraints_ok d" "i \<in> set (user_ids d)" "labID \<in> set (db_labs d)" "phase \<in> set validPhases"
  shows "constraints_ok (insert_progress new now i labID phase d)"
proof (cases "(i, labID, phase) \<in> set (map progress_key (db_progress d))")
  case False
  then have "distinct (map progress_key (db_progress (insert_progress new now i labID phase d)))"
    using assms(1) by (simp add: insert_progress_def constraints_ok_def progress_key_def)
  moreover have "user_ids (insert_progress new now i labID phase d) = user_ids d"
    by (simp add: insert_progress_def user_ids_def)
  ultimately show ?thesis
    using assms False by (auto simp: constraints_ok_def insert_progress_def validPhases_def)
qed (use assms in \<open>simp add: insert_progress_def\<close>)

text \<open>What a student must have to mark a phase: an account, and a phase of the catalogue.\<close>

definition can_mark :: "uuid \<Rightarrow> app \<Rightarrow> int \<times> string \<Rightarrow> bool" where
  "can_mark i a lp =
     (calm a \<and> constraints_ok (ap_db a) \<and> i \<in> set (user_ids (ap_db a)) \<and> lp \<in> set (db_phases (ap_db a))
      \<and> 1 \<le> fst lp \<and> int4 (fst lp) \<and> fst lp \<in> set (db_labs (ap_db a)) \<and> snd lp \<in> set validPhases)"

lemma mark_step:
  assumes "can_mark i a lp" "mustUserID pu claims = Some i"
  shows "\<exists>a'. handle_mark pu a claims (itoa (fst lp)) (snd lp) = (a', JSON 200 Marked)
    \<and> (\<forall>lp'. can_mark i a lp' \<longrightarrow> can_mark i a' lp') \<and> db_phases (ap_db a') = db_phases (ap_db a)
    \<and> set (map progress_key (db_progress (ap_db a'))) =
        insert (i, lp) (set (map progress_key (db_progress (ap_db a))))"
proof -
  obtain labID phase where lp: "lp = (labID, phase)" by fastforce
  have m: "calm a" "constraints_ok (ap_db a)" "i \<in> set (user_ids (ap_db a))" "(labID, phase) \<in> set (db_phases (ap_db a))"
    "1 \<le> labID" "int4 labID" "labID \<in> set (db_labs (ap_db a))" "phase \<in> set validPhases"
    using assms(1) lp by (simp_all add: can_mark_def)
  have "atoi (itoa labID) = (labID, None)"
    using m(5,6) by (intro atoi_itoa) (simp_all add: int64_min_def int64_max_def int4_def)
  then have p: "parseParams (itoa labID) phase = Inr (labID, phase)" using m(5,8) by (simp add: parseParams_def)
  obtain new b where u: "take_uuid a = (new, b)" by fastforce
  have b: "calm b" "ap_db b = ap_db a" using u m(1) by (auto simp: take_uuid_def calm_def)
  let ?f = "insert_progress new (ap_now a) i labID phase"
  have c: "constraints_ok (?f (ap_db a))" using constraints_mark m by blast
  have "handle_mark pu a claims (itoa labID) phase = (b\<lparr>ap_db := ?f (ap_db a)\<rparr>, JSON 200 Marked)"
    using assms(2) p m(1,4,6) u b c by (simp add: handle_mark_def PhaseExists_def progressMark_def)
  moreover have "user_ids (?f d) = user_ids d" "db_phases (?f d) = db_phases d" "db_labs (?f d) = db_labs d" for d
    by (simp_all add: insert_progress_def user_ids_def)
  moreover have "set (map progress_key (db_progress (?f (ap_db a)))) =
      insert (i, lp) (set (map progress_key (db_progress (ap_db a))))"
    by (auto simp: insert_progress_def progress_key_def lp)
  ultimately show ?thesis using lp c b by (auto simp: can_mark_def)
qed

text \<open>\<open>PUT /api/v1/progress/{labID}/{phase}\<close> for a list of phases.\<close>

definition mark_all :: "(string \<Rightarrow> uuid option) \<Rightarrow> Claims option \<Rightarrow> (int \<times> string) list \<Rightarrow> app \<Rightarrow> app" where
  "mark_all pu claims lps a = foldl (\<lambda>b lp. fst (handle_mark pu b claims (itoa (fst lp)) (snd lp))) a lps"

lemma mark_all_done:
  assumes "\<forall>lp \<in> set lps. can_mark i a lp" "mustUserID pu claims = Some i"
  shows "db_phases (ap_db (mark_all pu claims lps a)) = db_phases (ap_db a)
    \<and> (calm a \<longrightarrow> calm (mark_all pu claims lps a))
    \<and> set (map progress_key (db_progress (ap_db (mark_all pu claims lps a)))) =
        Pair i ` set lps \<union> set (map progress_key (db_progress (ap_db a)))"
  using assms(1)
proof (induction lps arbitrary: a)
  case (Cons lp lps)
  have "can_mark i a lp" using Cons.prems by simp
  from mark_step [OF this assms(2)] obtain a' where
    s: "handle_mark pu a claims (itoa (fst lp)) (snd lp) = (a', JSON 200 Marked)"
    "\<forall>lp'. can_mark i a lp' \<longrightarrow> can_mark i a' lp'" "db_phases (ap_db a') = db_phases (ap_db a)"
    "set (map progress_key (db_progress (ap_db a'))) =
        insert (i, lp) (set (map progress_key (db_progress (ap_db a))))" by blast
  from s(2) \<open>can_mark i a lp\<close> have "can_mark i a' lp" by blast
  then have "calm a'" by (simp add: can_mark_def)
  then show ?case using Cons.IH [of a'] Cons.prems s by (auto simp: mark_all_def)
qed (simp add: mark_all_def)

text \<open>
  A certificate can be earned without a single verification.  A student who sends the request that
  marks a phase for every phase of the catalogue is eligible for the certificate afterwards.
\<close>

theorem certificate_by_self_report:
  assumes "list_all (can_mark i a) (db_phases (ap_db a))" "calm a" "mustUserID pu claims = Some i"
  shows "snd (AllPhasesCompleted (mark_all pu claims (db_phases (ap_db a)) a) i) = Inr True"
proof -
  let ?a = "mark_all pu claims (db_phases (ap_db a)) a"
  have k: "db_phases (ap_db ?a) = db_phases (ap_db a)" "calm ?a"
    "Pair i ` set (db_phases (ap_db a)) \<subseteq> set (map progress_key (db_progress (ap_db ?a)))"
    using mark_all_done [OF _ assms(3)] assms(1,2) by (auto simp: list_all_iff)
  then have "all_phases_done i (ap_db ?a)"
    by (fastforce simp: all_phases_done_def list_all_iff list_ex_iff)
  then show ?thesis using k(2) by (simp add: AllPhasesCompleted_def)
qed

definition student_app :: app where
  "student_app = \<lparr>ap_db = \<lparr>db_users = [\<lparr>u_ID = 2, u_Email = ''s@x.io'', u_Name = ''S'', u_Plan = PlanPro,
         u_PlanExpiresAt = None, u_StripeCustomerID = None, u_IsAdmin = False, u_CreatedAt = 0,
         u_UpdatedAt = 0, u_PasswordHash = ''h''\<rparr>],
       db_tokens = [], db_progress = [], db_phases = [(1, ''build''), (1, ''attack''), (2, ''build'')],
       db_labs = [1, 2], db_certs = [], db_teams = [], db_members = []\<rparr>,
     ap_faults = [], ap_now = 100, ap_fresh = 3, ap_rand = [''A'', ''b'', ''c'', ''d'', ''e'', ''f'']\<rparr>"

definition student_claims :: Claims where
  "student_claims = \<lparr>cl_Subject = ''2'', cl_Plan = PlanPro, cl_IsAdmin = False\<rparr>"

definition student_pu :: "string \<Rightarrow> uuid option" where
  "student_pu t = (if t = ''2'' then Some 2 else None)"

lemma student_calm: "calm student_app"
  by (simp add: calm_def student_app_def)

lemma student_user: "mustUserID student_pu (Some student_claims) = Some 2"
  by (simp add: mustUserID_def student_pu_def student_claims_def)

lemma student_can: "list_all (can_mark 2 student_app) (db_phases (ap_db student_app))"
proof -
  have "constraints_ok (ap_db student_app)" by code_simp
  then have "can_mark 2 student_app lp" if "lp \<in> set [(1, ''build''), (1, ''attack''), (2, ''build'')]" for lp
    using that student_calm
    by (auto simp: can_mark_def student_app_def user_ids_def int4_def validPhases_def
        PhaseBuild_def PhaseAttack_def)
  moreover have "db_phases (ap_db student_app) = [(1, ''build''), (1, ''attack''), (2, ''build'')]"
    by (simp add: student_app_def)
  ultimately show ?thesis by (simp add: list_all_iff)
qed

theorem certificate_by_self_report_witness:
  "snd (AllPhasesCompleted (mark_all student_pu (Some student_claims)
     [(1, ''build''), (1, ''attack''), (2, ''build'')] student_app) 2) = Inr True"
  using certificate_by_self_report [OF student_can student_calm student_user]
  by (simp add: student_app_def)

definition certified :: "app \<times> (gerr + Certificate)" where
  "certified = GetOrCreate (mark_all student_pu (Some student_claims) (db_phases (ap_db student_app)) student_app) 2"

lemma certified_ok: "is_ok (snd certified)"
  by code_simp

theorem certificate_needs_all_phases_witness:
  "list_all (\<lambda>c. ce_UserID c = 2 \<and> length (ce_VerifyCode c) = 9) (db_certs (ap_db (fst certified)))"
proof -
  let ?a = "mark_all student_pu (Some student_claims) (db_phases (ap_db student_app)) student_app"
  have n: "db_certs (ap_db ?a) = []" by code_simp
  obtain a1 r where c: "GetOrCreate ?a 2 = (a1, r)" by fastforce
  from certificate_needs_all_phases [OF c] n c show ?thesis
    by (auto simp: certified_def list_all_iff)
qed

end
