(* ===== verification/Teams.thy ===== *)
theory Teams
  imports Certificates
begin

text \<open>
  \<open>internal/team/repository.go\<close> and \<open>handler.go\<close>: the team of a bootcamp user, its members and seats.
  Creating a team is a transaction; \<open>AddMember\<close> is cut between its two statements.  The order of
  names is the collation of the database, a parameter.
\<close>

section \<open>Repository\<close>

definition ErrTeamNotFound :: gerr where "ErrTeamNotFound = Sentinel ''team not found''"
definition ErrSeatLimit :: gerr where "ErrSeatLimit = Sentinel ''seat limit reached''"

definition RoleOwner :: string where "RoleOwner = ''owner''"
definition RoleMember :: string where "RoleMember = ''member''"

definition GetByOwnerID :: "app \<Rightarrow> uuid \<Rightarrow> app \<times> (gerr + Team)" where
  "GetByOwnerID a owner =
     (case sql_row (\<lambda>d. find (\<lambda>t. te_OwnerID t = owner) (db_teams d)) a of
        (a1, Inl e) \<Rightarrow>
          (a1, Inl (if errors_is e pgx_ErrNoRows then ErrTeamNotFound else Wrapf ''GetByOwnerID: '' e []))
      | (a1, Inr t) \<Rightarrow> (a1, Inr t))"

definition insert_team :: "Team \<Rightarrow> appdb \<Rightarrow> appdb" where
  "insert_team t d = d\<lparr>db_teams := db_teams d @ [t]\<rparr>"

text \<open>\<open>INSERT INTO team_members ... ON CONFLICT DO NOTHING\<close>\<close>

definition insert_member :: "int \<Rightarrow> uuid \<Rightarrow> uuid \<Rightarrow> string \<Rightarrow> appdb \<Rightarrow> appdb" where
  "insert_member now teamID userID role d =
     (if (teamID, userID) \<in> set (map member_key (db_members d)) then d
      else d\<lparr>db_members := db_members d @
             [\<lparr>tm_TeamID = teamID, tm_UserID = userID, tm_Role = role, tm_JoinedAt = now\<rparr>]\<rparr>)"

text \<open>A transaction works on the state; rolling back restores the tables it began with.\<close>

definition rollback :: "appdb \<Rightarrow> app \<Rightarrow> app" where "rollback d a = a\<lparr>ap_db := d\<rparr>"

definition tx_commit :: "appdb \<Rightarrow> app \<Rightarrow> 'a \<Rightarrow> app \<times> (gerr + 'a)" where
  "tx_commit d a x =
     (case stmt_outcome a of
        (StmtOk, a1) \<Rightarrow> (a1, Inr x)
      | (StmtUnacked, a1) \<Rightarrow> (a1, Inl err_sql)
      | (StmtLost, a1) \<Rightarrow> (rollback d a1, Inl err_sql))"

definition create_team :: "app \<Rightarrow> uuid \<Rightarrow> string \<Rightarrow> app \<times> (gerr + Team)" where
  "create_team a ownerID teamName =
     (case sql_query (\<lambda>d. d) a of
        (a1, Inl e) \<Rightarrow> (a1, Inl e)
      | (a1, Inr d) \<Rightarrow>
     (case take_uuid a1 of (new, a2) \<Rightarrow>
     (case sql_returning (insert_team \<lparr>te_ID = new, te_Name = teamName, te_OwnerID = ownerID,
                te_SeatCount = 5, te_CreatedAt = ap_now a2\<rparr>)
             (\<lambda>d. find (\<lambda>t. te_ID t = new) (db_teams d)) a2 of
        (a3, Inl e) \<Rightarrow> (rollback d a3, Inl (Wrapf ''create team: '' e []))
      | (a3, Inr t) \<Rightarrow>
     (case sql_exec (insert_member (ap_now a3) (te_ID t) ownerID RoleOwner) a3 of
        (a4, Some e) \<Rightarrow> (rollback d a4, Inl (Wrapf ''add owner as member: '' e []))
      | (a4, None) \<Rightarrow> tx_commit d a4 t))))"

definition GetOrCreateForOwner :: "app \<Rightarrow> uuid \<Rightarrow> string \<Rightarrow> app \<times> (gerr + Team)" where
  "GetOrCreateForOwner a ownerID teamName =
     (case GetByOwnerID a ownerID of
        (a1, Inr t) \<Rightarrow> (a1, Inr t)
      | (a1, Inl e) \<Rightarrow>
          if \<not> errors_is e ErrTeamNotFound then (a1, Inl e) else create_team a1 ownerID teamName)"

text \<open>A member with the columns of the user that are read.\<close>

definition member_user :: "appdb \<Rightarrow> TeamMember \<Rightarrow> (TeamMember \<times> User) option" where
  "member_user d m =
     (case find (\<lambda>u. u_ID u = tm_UserID m) (db_users d) of
        None \<Rightarrow> None
      | Some u \<Rightarrow> Some (m, (User.truncate u)\<lparr>u_PlanExpiresAt := None, u_StripeCustomerID := None\<rparr>))"

definition team_members :: "uuid \<Rightarrow> appdb \<Rightarrow> TeamMember list" where
  "team_members teamID d = filter (\<lambda>m. tm_TeamID m = teamID) (db_members d)"

definition GetMembersByTeamID :: "app \<Rightarrow> uuid \<Rightarrow> app \<times> (gerr + (TeamMember \<times> User) list)" where
  "GetMembersByTeamID a teamID =
     sql_query (\<lambda>d. List.map_filter (member_user d)
       (order_by (\<lambda>m m'. tm_JoinedAt m \<le> tm_JoinedAt m') (team_members teamID d))) a"

record TeamMemberProgress =
  mp_UserID :: uuid
  mp_Email :: string
  mp_Name :: string
  mp_CompletedPhases :: int
  mp_TotalPhases :: int

definition member_progress :: "appdb \<Rightarrow> TeamMember \<Rightarrow> TeamMemberProgress option" where
  "member_progress d m =
     (case find (\<lambda>u. u_ID u = tm_UserID m) (db_users d) of
        None \<Rightarrow> None
      | Some u \<Rightarrow> Some \<lparr>mp_UserID = u_ID u, mp_Email = u_Email u, mp_Name = u_Name u,
          mp_CompletedPhases = int (length (filter (\<lambda>p. up_UserID p = u_ID u) (db_progress d))),
          mp_TotalPhases = 42\<rparr>)"

definition MemberProgress ::
  "(string \<Rightarrow> string \<Rightarrow> bool) \<Rightarrow> app \<Rightarrow> uuid \<Rightarrow> app \<times> (gerr + TeamMemberProgress list)" where
  "MemberProgress collate a teamID =
     sql_query (\<lambda>d. order_by (\<lambda>p q. collate (mp_Name p) (mp_Name q))
       (List.map_filter (member_progress d) (team_members teamID d))) a"

definition addmember_check :: "app \<Rightarrow> uuid \<Rightarrow> app \<times> gerr option" where
  "addmember_check a teamID =
     (case sql_row (\<lambda>d. map_option (\<lambda>t. (int (length (team_members teamID d)), te_SeatCount t))
             (find (\<lambda>t. te_ID t = teamID) (db_teams d))) a of
        (a1, Inl e) \<Rightarrow> (a1, Some e)
      | (a1, Inr (cnt, limit)) \<Rightarrow> (a1, if limit \<le> cnt then Some ErrSeatLimit else None))"

definition addmember_insert :: "app \<Rightarrow> uuid \<Rightarrow> uuid \<Rightarrow> string \<Rightarrow> app \<times> gerr option" where
  "addmember_insert a teamID userID role = sql_exec (insert_member (ap_now a) teamID userID role) a"

definition AddMember :: "app \<Rightarrow> uuid \<Rightarrow> uuid \<Rightarrow> string \<Rightarrow> app \<times> gerr option" where
  "AddMember a teamID userID role =
     (case addmember_check a teamID of
        (a1, Some e) \<Rightarrow> (a1, Some e)
      | (a1, None) \<Rightarrow> addmember_insert a1 teamID userID role)"

definition delete_member :: "uuid \<Rightarrow> uuid \<Rightarrow> appdb \<Rightarrow> appdb" where
  "delete_member teamID userID d =
     d\<lparr>db_members := filter (\<lambda>m. \<not> (tm_TeamID m = teamID \<and> tm_UserID m = userID \<and> tm_Role m \<noteq> RoleOwner))
        (db_members d)\<rparr>"

definition RemoveMember :: "app \<Rightarrow> uuid \<Rightarrow> uuid \<Rightarrow> app \<times> gerr option" where
  "RemoveMember a teamID userID = sql_exec (delete_member teamID userID) a"

section \<open>Handlers\<close>

datatype team_data =
    TeamJSON Team "(TeamMember \<times> User) list"
  | MemberAdded
  | TeamProgress uuid "TeamMemberProgress list"

definition team_of :: "app \<Rightarrow> uuid \<Rightarrow> app \<times> (gerr + Team)" where
  "team_of a ownerID =
     (case usersGetByID a ownerID of (a1, owner) \<Rightarrow>
        let teamName = (case owner of
              Inl e \<Rightarrow> ''My Team''
            | Inr u \<Rightarrow> if u_Name u \<noteq> [] then u_Name u @ [CHR 0x27] @ ''s Team'' else ''My Team'')
        in GetOrCreateForOwner a1 ownerID teamName)"

definition handle_team_get ::
  "(string \<Rightarrow> uuid option) \<Rightarrow> app \<Rightarrow> Claims option \<Rightarrow> app \<times> team_data reply" where
  "handle_team_get pu a claims =
     (case mustUserID pu claims of
        None \<Rightarrow> (a, ReplyPanic)
      | Some ownerID \<Rightarrow>
     (case team_of a ownerID of
        (a1, Inl e) \<Rightarrow> (a1, InternalError)
      | (a1, Inr _) \<Rightarrow>
     (case GetByOwnerID a1 ownerID of
        (a2, Inl e) \<Rightarrow> (a2, InternalError)
      | (a2, Inr t) \<Rightarrow>
     (case GetMembersByTeamID a2 (te_ID t) of
        (a3, Inl e) \<Rightarrow> (a3, InternalError)
      | (a3, Inr members) \<Rightarrow> (a3, JSON 200 (TeamJSON t members))))))"

definition dest_inviteRequest :: "string json_dest" where
  "dest_inviteRequest = dest_struct [(''email'', dest_string)]"

definition handle_invite ::
  "(string \<Rightarrow> uuid option) \<Rightarrow> app \<Rightarrow> Claims option \<Rightarrow> string \<Rightarrow> app \<times> team_data reply" where
  "handle_invite pu a claims body =
     (case mustUserID pu claims of
        None \<Rightarrow> (a, ReplyPanic)
      | Some ownerID \<Rightarrow>
     (case team_of a ownerID of
        (a1, Inl e) \<Rightarrow> (a1, InternalError)
      | (a1, Inr t) \<Rightarrow>
     (case json_body dest_inviteRequest [] body of
        None \<Rightarrow> (a1, Error 400 ''email is required'')
      | Some email \<Rightarrow>
          if email = [] then (a1, Error 400 ''email is required'')
          else
     (case usersGetByEmail a1 email of
        (a2, Inl e) \<Rightarrow>
          (a2, if errors_is e user_not_found
               then Error 404 (''no NetBreaker account for that email '' @ em_dash
                      @ '' ask them to sign up first'')
               else InternalError)
      | (a2, Inr invitee) \<Rightarrow>
     (case AddMember a2 (te_ID t) (u_ID invitee) RoleMember of
        (a3, Some e) \<Rightarrow>
          (a3, if errors_is e ErrSeatLimit
               then ErrorCode 409 (''seat limit reached '' @ em_dash @ '' remove a member or add seats'')
                      ''SEAT_LIMIT''
               else InternalError)
      | (a3, None) \<Rightarrow> (a3, JSON 200 MemberAdded))))))"

definition handle_remove_member ::
  "(string \<Rightarrow> uuid option) \<Rightarrow> app \<Rightarrow> Claims option \<Rightarrow> string \<Rightarrow> app \<times> team_data reply" where
  "handle_remove_member pu a claims userParam =
     (case mustUserID pu claims of
        None \<Rightarrow> (a, ReplyPanic)
      | Some ownerID \<Rightarrow>
     (case team_of a ownerID of
        (a1, Inl e) \<Rightarrow> (a1, InternalError)
      | (a1, Inr t) \<Rightarrow>
     (case pu userParam of
        None \<Rightarrow> (a1, Error 400 ''invalid user id'')
      | Some memberID \<Rightarrow>
     (case RemoveMember a1 (te_ID t) memberID of
        (a2, Some e) \<Rightarrow> (a2, InternalError)
      | (a2, None) \<Rightarrow> (a2, NoContent)))))"

definition handle_team_progress ::
  "(string \<Rightarrow> string \<Rightarrow> bool) \<Rightarrow> (string \<Rightarrow> uuid option) \<Rightarrow> app \<Rightarrow> Claims option
     \<Rightarrow> app \<times> team_data reply" where
  "handle_team_progress collate pu a claims =
     (case mustUserID pu claims of
        None \<Rightarrow> (a, ReplyPanic)
      | Some ownerID \<Rightarrow>
     (case team_of a ownerID of
        (a1, Inl e) \<Rightarrow> (a1, InternalError)
      | (a1, Inr t) \<Rightarrow>
     (case MemberProgress collate a1 (te_ID t) of
        (a2, Inl e) \<Rightarrow> (a2, InternalError)
      | (a2, Inr rows) \<Rightarrow> (a2, JSON 200 (TeamProgress (te_ID t) rows)))))"

section \<open>The team invariant\<close>

text \<open>Nobody sits without a seat, and every team has its owner as a member.\<close>

definition seat_free :: "uuid \<Rightarrow> appdb \<Rightarrow> bool" where
  "seat_free teamID d =
     list_all (\<lambda>t. te_ID t = teamID \<longrightarrow> int (length (team_members teamID d)) < te_SeatCount t) (db_teams d)"

definition team_ok :: "appdb \<Rightarrow> Team \<Rightarrow> bool" where
  "team_ok d t =
     (int (length (team_members (te_ID t) d)) \<le> te_SeatCount t
      \<and> list_ex (\<lambda>m. tm_UserID m = te_OwnerID t \<and> tm_Role m = RoleOwner) (team_members (te_ID t) d))"

definition teams_ok :: "appdb \<Rightarrow> bool" where "teams_ok d = list_all (team_ok d) (db_teams d)"

lemma team_members_insert:
  "team_members i (insert_member now teamID userID role d) =
     (if i = teamID \<and> (teamID, userID) \<notin> set (map member_key (db_members d))
      then team_members i d @ [\<lparr>tm_TeamID = teamID, tm_UserID = userID, tm_Role = role, tm_JoinedAt = now\<rparr>]
      else team_members i d)"
  by (simp add: team_members_def insert_member_def)

lemma db_teams_member [simp]:
  "db_teams (insert_member now t u r d) = db_teams d" "db_teams (delete_member t u d) = db_teams d"
  by (simp_all add: insert_member_def delete_member_def)

lemma teams_ok_insert: "teams_ok d \<Longrightarrow> seat_free teamID d \<Longrightarrow> teams_ok (insert_member now teamID u r d)"
  by (auto simp: teams_ok_def team_ok_def seat_free_def team_members_insert list_all_iff)

lemma teams_ok_delete: "teams_ok d \<Longrightarrow> teams_ok (delete_member teamID u d)"
proof -
  have f: "team_members i (delete_member teamID u d) =
      filter (\<lambda>m. \<not> (tm_TeamID m = teamID \<and> tm_UserID m = u \<and> tm_Role m \<noteq> RoleOwner)) (team_members i d)" for i
    by (simp add: team_members_def delete_member_def) (metis (no_types, lifting) conj_commute)
  assume d: "teams_ok d"
  show ?thesis
    unfolding teams_ok_def list_all_iff
  proof
    fix t
    assume "t \<in> set (db_teams (delete_member teamID u d))"
    then have t: "team_ok d t" using d by (simp add: teams_ok_def list_all_iff)
    have "length (team_members (te_ID t) (delete_member teamID u d)) \<le> length (team_members (te_ID t) d)"
      unfolding f by (rule length_filter_le)
    then have "int (length (team_members (te_ID t) (delete_member teamID u d))) \<le> te_SeatCount t"
      using t by (simp add: team_ok_def)
    moreover have "list_ex (\<lambda>m. tm_UserID m = te_OwnerID t \<and> tm_Role m = RoleOwner)
        (team_members (te_ID t) (delete_member teamID u d))"
      using t by (auto simp: team_ok_def f list_ex_iff)
    ultimately show "team_ok (delete_member teamID u d) t" by (simp add: team_ok_def)
  qed
qed

text \<open>A new team, with its owner in the first of five seats.\<close>

lemma teams_ok_create:
  assumes "teams_ok d" "constraints_ok d" "te_ID t \<notin> set (map te_ID (db_teams d))" "te_SeatCount t = 5"
  shows "teams_ok (insert_member now (te_ID t) (te_OwnerID t) RoleOwner (insert_team t d))"
proof -
  have "tm_TeamID ` set (db_members d) \<subseteq> set (map te_ID (db_teams d))"
    using assms(2) by (auto simp: constraints_ok_def list_all_iff)
  then have "te_ID t \<notin> tm_TeamID ` set (db_members d)" using assms(3) by blast
  then have none: "team_members (te_ID t) (insert_team t d) = []"
    by (simp add: team_members_def insert_team_def filter_empty_conv image_iff) metis
  have "(te_ID t, te_OwnerID t) \<notin> set (map member_key (db_members (insert_team t d)))"
  proof
    assume "(te_ID t, te_OwnerID t) \<in> set (map member_key (db_members (insert_team t d)))"
    then obtain m where "m \<in> set (db_members (insert_team t d))" "tm_TeamID m = te_ID t"
      by (auto simp: member_key_def)
    then have "m \<in> set (team_members (te_ID t) (insert_team t d))" by (simp add: team_members_def)
    then show False using none by simp
  qed
  moreover have "team_members i (insert_team t d) = team_members i d" for i
    by (simp add: team_members_def insert_team_def)
  ultimately show ?thesis
    using assms(1,3,4) none
    by (auto simp: teams_ok_def team_ok_def team_members_insert insert_team_def list_all_iff list_ex_iff)
qed

lemma find_last: "\<forall>x \<in> set xs. \<not> P x \<Longrightarrow> find P (xs @ [y]) = (if P y then Some y else None)"
  by (induction xs) auto

lemma tx_commit_db: "tx_commit d a x = (a1, r) \<Longrightarrow> ap_db a1 = d \<or> ap_db a1 = ap_db a"
  by (auto simp: tx_commit_def stmt_outcome_def rollback_def split: list.splits stmt_outcome.splits)

lemma create_team_rows:
  assumes "create_team a owner name = (a1, r)" "constraints_ok (ap_db a)"
  shows "ap_db a1 = ap_db a \<or> (\<exists>t now. te_ID t \<notin> set (map te_ID (db_teams (ap_db a))) \<and> te_SeatCount t = 5
    \<and> te_OwnerID t = owner \<and> ap_db a1 = insert_member now (te_ID t) owner RoleOwner (insert_team t (ap_db a)))"
proof -
  obtain b q where b: "sql_query (\<lambda>d. d) a = (b, q)" by fastforce
  show ?thesis
  proof (cases q)
    case (Inl e)
    then show ?thesis using assms b query_frame [OF b] by (simp add: create_team_def)
  next
    case (Inr d)
    then have d: "d = ap_db a" "ap_db b = ap_db a" using query_value [of "\<lambda>d. d" a b d] query_frame [OF b] b by auto
    obtain new b2 where u: "take_uuid b = (new, b2)" by fastforce
    have b2: "ap_db b2 = ap_db a" using u d by (auto simp: take_uuid_def)
    let ?t = "\<lparr>te_ID = new, te_Name = name, te_OwnerID = owner, te_SeatCount = 5, te_CreatedAt = ap_now b2\<rparr>"
    obtain b3 x where x: "sql_exec (insert_team ?t) b2 = (b3, x)" by fastforce
    show ?thesis
    proof (cases "x = None")
      case False
      then show ?thesis using assms b Inr u x d
        by (auto simp: create_team_def sql_returning_def rollback_def)
    next
      case True
      have c: "constraints_ok (insert_team ?t (ap_db a))" "ap_db b3 = insert_team ?t (ap_db a)"
        using x True b2 by (auto simp: sql_exec_def stmt_outcome_def split: list.splits stmt_outcome.splits if_splits)
      have n: "new \<notin> set (map te_ID (db_teams (ap_db a)))"
        using c(1) by (simp add: constraints_ok_def insert_team_def)
      have f: "find (\<lambda>t. te_ID t = new) (db_teams (ap_db b3)) = Some ?t"
      proof -
        have "\<forall>t \<in> set (db_teams (ap_db a)). te_ID t \<noteq> new" using n by auto
        then show ?thesis by (simp add: c(2) insert_team_def find_last)
      qed
      obtain b4 y where y: "sql_exec (insert_member (ap_now b3) new owner RoleOwner) b3 = (b4, y)" by fastforce
      show ?thesis
      proof (cases "y = None")
        case False
        then show ?thesis using assms b Inr u x d True f y
          by (auto simp: create_team_def sql_returning_def rollback_def)
      next
        case True
        have m: "ap_db b4 = insert_member (ap_now b3) new owner RoleOwner (insert_team ?t (ap_db a))"
          using y True c(2)
          by (auto simp: sql_exec_def stmt_outcome_def split: list.splits stmt_outcome.splits if_splits)
        have "tx_commit (ap_db a) b4 ?t = (a1, r)"
          using assms b Inr u x d \<open>x = None\<close> f y True by (simp add: create_team_def sql_returning_def)
        from tx_commit_db [OF this] consider "ap_db a1 = ap_db a" | "ap_db a1 = ap_db b4" by blast
        then show ?thesis
        proof cases
          case 2
          then have "te_ID ?t \<notin> set (map te_ID (db_teams (ap_db a))) \<and> te_SeatCount ?t = 5
            \<and> te_OwnerID ?t = owner
            \<and> ap_db a1 = insert_member (ap_now b3) (te_ID ?t) owner RoleOwner (insert_team ?t (ap_db a))"
            using m n by simp
          then show ?thesis by blast
        qed simp
      qed
    qed
  qed
qed

lemma GetByOwnerID_frame: "GetByOwnerID a owner = (a1, r) \<Longrightarrow> ap_db a1 = ap_db a"
  by (auto simp: GetByOwnerID_def dest: row_frame split: prod.splits sum.splits)

text \<open>
  C26: the team invariant.  Each operation on teams, whatever statements fail, keeps every team within
  its seats and keeps its owner among its members: opening a team, adding a member in one go,
  removing one.
\<close>

theorem team_invariant:
  assumes "teams_ok (ap_db a)" "constraints_ok (ap_db a)"
  shows "teams_ok (ap_db (fst (GetOrCreateForOwner a owner name)))
    \<and> teams_ok (ap_db (fst (AddMember a teamID userID role)))
    \<and> teams_ok (ap_db (fst (RemoveMember a teamID userID)))"
proof (intro conjI)
  obtain b q where b: "GetByOwnerID a owner = (b, q)" by fastforce
  obtain c r where c: "create_team b owner name = (c, r)" by fastforce
  have d: "ap_db b = ap_db a" using GetByOwnerID_frame [OF b] .
  then have "teams_ok (ap_db c)"
    using create_team_rows [OF c] assms teams_ok_create [of "ap_db a"] by auto
  then show "teams_ok (ap_db (fst (GetOrCreateForOwner a owner name)))"
    using assms b c d by (auto simp: GetOrCreateForOwner_def split: sum.splits)
next
  obtain b q where b: "addmember_check a teamID = (b, q)" by fastforce
  have d: "ap_db b = ap_db a"
    using b by (auto simp: addmember_check_def dest: row_frame split: prod.splits sum.splits)
  show "teams_ok (ap_db (fst (AddMember a teamID userID role)))"
  proof (cases q)
    case None
    obtain x where x: "sql_row (\<lambda>d. map_option (\<lambda>t. (int (length (team_members teamID d)), te_SeatCount t))
             (find (\<lambda>t. te_ID t = teamID) (db_teams d))) a = (b, Inr x)"
      using b None by (auto simp: addmember_check_def split: prod.splits sum.splits)
    obtain t where t: "find (\<lambda>t. te_ID t = teamID) (db_teams (ap_db a)) = Some t"
        "x = (int (length (team_members teamID (ap_db a))), te_SeatCount t)"
      using row_value [OF x] by auto
    have "int (length (team_members teamID (ap_db a))) < te_SeatCount t"
      using b None x t(2) by (auto simp: addmember_check_def split: if_splits)
    moreover have "inj_on te_ID (set (db_teams (ap_db a)))"
      using assms(2) by (simp add: constraints_ok_def distinct_map)
    moreover have "t \<in> set (db_teams (ap_db a))" "te_ID t = teamID" using t(1) by (auto simp: find_Some_iff)
    ultimately have "seat_free teamID (ap_db a)" by (auto simp: seat_free_def list_all_iff dest: inj_onD)
    then have i: "teams_ok (insert_member (ap_now b) teamID userID role (ap_db a))"
      using assms(1) by (rule teams_ok_insert [rotated])
    obtain e y where e: "sql_exec (insert_member (ap_now b) teamID userID role) b = (e, y)" by fastforce
    show ?thesis
      using b None e i d assms(1) exec_outcome [OF e] by (auto simp: AddMember_def addmember_insert_def)
  next
    case (Some e)
    then show ?thesis using b d assms by (simp add: AddMember_def)
  qed
next
  show "teams_ok (ap_db (fst (RemoveMember a teamID userID)))"
    using assms(1) teams_ok_delete exec_outcome [of "delete_member teamID userID" a]
    by (cases "sql_exec (delete_member teamID userID) a") (auto simp: RemoveMember_def)
qed

text \<open>
  Two invitations at once exceed the seats.  When two requests both find a free seat before either
  inserts, two different people who are not members yet are both added, even into the last seat.
\<close>

theorem concurrent_invites_exceed_seats:
  assumes "calm a" "addmember_check a teamID = (b, None)" "addmember_check b teamID = (c, None)"
    and "addmember_insert c teamID u1 role = (d, None)" "addmember_insert d teamID u2 role = (e, None)"
    and "u1 \<noteq> u2" "(teamID, u1) \<notin> set (map member_key (db_members (ap_db a)))"
    and "(teamID, u2) \<notin> set (map member_key (db_members (ap_db a)))"
  shows "length (team_members teamID (ap_db e)) = length (team_members teamID (ap_db a)) + 2"
proof -
  have bc: "b = a" "c = a"
    using assms(1-3) by (auto simp: addmember_check_def split: option.splits)
  have d: "ap_db d = insert_member (ap_now a) teamID u1 role (ap_db a)" "calm d"
    using assms(1,4) bc by (auto simp: addmember_insert_def split: if_splits)
  have e: "ap_db e = insert_member (ap_now d) teamID u2 role (ap_db d)"
    using assms(5) d(2) by (auto simp: addmember_insert_def split: if_splits)
  have "(teamID, u2) \<notin> set (map member_key (db_members (ap_db d)))"
    using assms(6,8) by (auto simp: d(1) insert_member_def member_key_def)
  then show ?thesis using assms(7) by (simp add: e d(1) team_members_insert)
qed

section \<open>A full team\<close>

definition demo_member :: "uuid \<Rightarrow> string \<Rightarrow> TeamMember" where
  "demo_member i role = \<lparr>tm_TeamID = 50, tm_UserID = i, tm_Role = role, tm_JoinedAt = 0\<rparr>"

definition demo_account :: "uuid \<Rightarrow> string \<Rightarrow> UserFull" where
  "demo_account i email = \<lparr>u_ID = i, u_Email = email, u_Name = [], u_Plan = PlanBootcamp,
     u_PlanExpiresAt = None, u_StripeCustomerID = None, u_IsAdmin = False, u_CreatedAt = 0,
     u_UpdatedAt = 0, u_PasswordHash = ''h''\<rparr>"

definition team_app :: app where
  "team_app = \<lparr>ap_db = \<lparr>db_users = [demo_account 1 ''a'', demo_account 2 ''b'', demo_account 3 ''c''],
       db_tokens = [], db_progress = [], db_phases = [], db_labs = [], db_certs = [],
       db_teams = [\<lparr>te_ID = 50, te_Name = ''T'', te_OwnerID = 1, te_SeatCount = 2, te_CreatedAt = 0\<rparr>],
       db_members = [demo_member 1 RoleOwner]\<rparr>,
     ap_faults = [], ap_now = 100, ap_fresh = 60, ap_rand = []\<rparr>"

lemma team_app_ok: "teams_ok (ap_db team_app)" "constraints_ok (ap_db team_app)" "calm team_app"
  by (code_simp, code_simp, simp add: calm_def team_app_def)

theorem team_invariant_witness:
  "teams_ok (ap_db (fst (AddMember team_app 50 2 RoleMember)))
   \<and> length (team_members 50 (ap_db (fst (AddMember team_app 50 2 RoleMember)))) = 2"
proof -
  have "length (team_members 50 (ap_db (fst (AddMember team_app 50 2 RoleMember)))) = 2" by code_simp
  then show ?thesis using team_invariant [OF team_app_ok(1,2)] by blast
qed

theorem concurrent_invites_exceed_seats_witness:
  "length (team_members 50 (ap_db (fst (addmember_insert
     (fst (addmember_insert team_app 50 2 RoleMember)) 50 3 RoleMember)))) = 3"
proof -
  let ?d = "fst (addmember_insert team_app 50 2 RoleMember)"
  have "snd (addmember_check team_app 50) = None" "snd (addmember_insert team_app 50 2 RoleMember) = None"
    "snd (addmember_insert ?d 50 3 RoleMember) = None"
    "length (team_members 50 (ap_db team_app)) = 1"
    by code_simp+
  moreover have "fst (addmember_check team_app 50) = team_app"
    using team_app_ok(3) by (simp add: addmember_check_def split: option.splits)
  ultimately have "addmember_check team_app 50 = (team_app, None)"
    "addmember_insert team_app 50 2 RoleMember = (?d, None)"
    "addmember_insert ?d 50 3 RoleMember = (fst (addmember_insert ?d 50 3 RoleMember), None)"
    by (simp_all add: prod_eq_iff)
  from concurrent_invites_exceed_seats [OF team_app_ok(3) this(1,1,2,3)]
  show ?thesis
    using \<open>length (team_members 50 (ap_db team_app)) = 1\<close>
    by (simp add: team_app_def demo_member_def member_key_def)
qed

end
