(* ===== verification/AuthService.thy ===== *)
theory AuthService
  imports AppDb Response
begin

text \<open>
  \<open>internal/auth/service.go\<close> and \<open>handler.go\<close>, and the token functions of \<open>pkg/jwt\<close>: registration,
  login, rotation of refresh tokens, logout.  JWT signatures, bcrypt and the text form of a UUID are
  third party, SHA-256 is any function of the token; they are the fields of \<open>auth_env\<close>.  \<open>Refresh\<close> and \<open>Register\<close> are cut
  after their first statement, so that two requests can be interleaved there.
\<close>

section \<open>Access tokens\<close>

record AccessClaims = Claims +
  ac_IssuedAt :: int
  ac_ExpiresAt :: int

record auth_env =
  ae_sign :: "AccessClaims \<Rightarrow> gerr + string"
  ae_uuidString :: "uuid \<Rightarrow> string"
  ae_bcryptGenerate :: "string \<Rightarrow> gerr + string"
  ae_bcryptCompare :: "string \<Rightarrow> string \<Rightarrow> bool"
  ae_sha256 :: "string \<Rightarrow> string"
  ae_accessTTL :: int
  ae_refreshTTL :: int

definition GenerateAccessToken :: "auth_env \<Rightarrow> int \<Rightarrow> uuid \<Rightarrow> string \<Rightarrow> bool \<Rightarrow> int \<Rightarrow> gerr + string" where
  "GenerateAccessToken env now userID plan isAdmin ttl =
     ae_sign env \<lparr>cl_Subject = ae_uuidString env userID, cl_Plan = plan, cl_IsAdmin = isAdmin,
       ac_IssuedAt = now, ac_ExpiresAt = now + ttl\<rparr>"

definition jwt_ErrTokenExpired :: gerr where "jwt_ErrTokenExpired = Sentinel ''token has invalid claims: token is expired''"
definition ErrTokenExpired :: gerr where "ErrTokenExpired = Sentinel ''token is expired''"
definition ErrAccessTokenInvalid :: gerr where "ErrAccessTokenInvalid = Sentinel ''token is invalid''"

text \<open>
  The library's \<open>ParseWithClaims\<close> is given the signing methods for which the key function returns a
  key; it answers with the claims and whether the token is valid.
\<close>

definition rsa_method :: "string \<Rightarrow> bool" where
  "rsa_method alg = (alg \<in> {''RS256'', ''RS384'', ''RS512''})"

definition ParseAccessToken ::
  "((string \<Rightarrow> bool) \<Rightarrow> string \<Rightarrow> gerr + AccessClaims \<times> bool) \<Rightarrow> string \<Rightarrow> gerr + AccessClaims" where
  "ParseAccessToken parseWithClaims tokenStr =
     (case parseWithClaims rsa_method tokenStr of
        Inl e \<Rightarrow> Inl (if errors_is e jwt_ErrTokenExpired then ErrTokenExpired else ErrAccessTokenInvalid)
      | Inr (claims, valid) \<Rightarrow> if valid then Inr claims else Inl ErrAccessTokenInvalid)"

section \<open>The service\<close>

definition ErrInvalidCredentials :: gerr where "ErrInvalidCredentials = Sentinel ''invalid email or password''"
definition ErrEmailTaken :: gerr where "ErrEmailTaken = Sentinel ''email already registered''"
definition ErrTokenInvalid :: gerr where "ErrTokenInvalid = Sentinel ''refresh token invalid''"

record TokenPair =
  tp_AccessToken :: string
  tp_RefreshToken :: string

definition hex_digit :: "nat \<Rightarrow> char" where
  "hex_digit n = (if n < 10 then char_of (48 + n) else char_of (87 + n))"

definition hex_encode :: "string \<Rightarrow> string" where
  "hex_encode bs = concat (map (\<lambda>b. [hex_digit (of_char b div 16), hex_digit (of_char b mod 16)]) bs)"

definition hashToken :: "auth_env \<Rightarrow> string \<Rightarrow> string" where
  "hashToken env raw = hex_encode (ae_sha256 env raw)"

text \<open>The 32 bytes \<open>crypto/rand\<close> delivers are read from the state.\<close>

definition generateRandom32 :: "app \<Rightarrow> app \<times> (gerr + string)" where
  "generateRandom32 a =
     (case take_random a of (a1, Inl e) \<Rightarrow> (a1, Inl e) | (a1, Inr b) \<Rightarrow> (a1, Inr (hex_encode b)))"

definition insert_token :: "RefreshToken \<Rightarrow> appdb \<Rightarrow> appdb" where
  "insert_token t d = d\<lparr>db_tokens := db_tokens d @ [t]\<rparr>"

text \<open>\<open>UPDATE refresh_tokens SET revoked_at = NOW() WHERE P\<close>\<close>

definition revoke_tokens :: "int \<Rightarrow> (RefreshToken \<Rightarrow> bool) \<Rightarrow> appdb \<Rightarrow> appdb" where
  "revoke_tokens now P d =
     d\<lparr>db_tokens := map (\<lambda>t. if P t then t\<lparr>rt_RevokedAt := Some now\<rparr> else t) (db_tokens d)\<rparr>"

definition issueTokenPair :: "auth_env \<Rightarrow> app \<Rightarrow> uuid \<Rightarrow> string \<Rightarrow> bool \<Rightarrow> app \<times> (gerr + TokenPair)" where
  "issueTokenPair env a userID plan isAdmin =
     (case GenerateAccessToken env (ap_now a) userID plan isAdmin (ae_accessTTL env) of
        Inl e \<Rightarrow> (a, Inl (Wrapf ''sign access token: '' e []))
      | Inr accessToken \<Rightarrow>
     (case generateRandom32 a of
        (a1, Inl e) \<Rightarrow> (a1, Inl (Wrapf ''generate refresh token: '' e []))
      | (a1, Inr rawRefresh) \<Rightarrow>
     (case sql_exec (insert_token \<lparr>rt_UserID = userID, rt_Hash = hashToken env rawRefresh,
             rt_ExpiresAt = ap_now a1 + ae_refreshTTL env, rt_RevokedAt = None\<rparr>) a1 of
        (a2, Some e) \<Rightarrow> (a2, Inl (Wrapf ''store refresh token: '' e []))
      | (a2, None) \<Rightarrow> (a2, Inr \<lparr>tp_AccessToken = accessToken, tp_RefreshToken = rawRefresh\<rparr>))))"

definition issue_for ::
  "auth_env \<Rightarrow> app \<Rightarrow> User \<Rightarrow> app \<times> (gerr + User \<times> TokenPair)" where
  "issue_for env a user =
     (case issueTokenPair env a (u_ID user) (u_Plan user) (u_IsAdmin user) of
        (a1, Inl e) \<Rightarrow> (a1, Inl e)
      | (a1, Inr tokens) \<Rightarrow> (a1, Inr (user, tokens)))"

subsection \<open>Registration\<close>

definition same_email :: "string \<Rightarrow> 'z User_scheme \<Rightarrow> bool" where
  "same_email email u = (to_lower (u_Email u) = to_lower email)"

definition insert_user :: "uuid \<Rightarrow> int \<Rightarrow> string \<Rightarrow> string \<Rightarrow> string \<Rightarrow> appdb \<Rightarrow> appdb" where
  "insert_user new now email hash name d =
     d\<lparr>db_users := db_users d @
        [\<lparr>u_ID = new, u_Email = email, u_Name = name, u_Plan = PlanFree, u_PlanExpiresAt = None,
          u_StripeCustomerID = None, u_IsAdmin = False, u_CreatedAt = now, u_UpdatedAt = now,
          u_PasswordHash = hash\<rparr>]\<rparr>"

definition register_check :: "app \<Rightarrow> string \<Rightarrow> app \<times> gerr option" where
  "register_check a email =
     (case sql_query (\<lambda>d. list_ex (same_email email) (db_users d)) a of
        (a1, Inl e) \<Rightarrow> (a1, Some (Wrapf ''check email: '' e []))
      | (a1, Inr ex) \<Rightarrow> (a1, if ex then Some ErrEmailTaken else None))"

definition register_insert ::
  "auth_env \<Rightarrow> app \<Rightarrow> string \<Rightarrow> string \<Rightarrow> string \<Rightarrow> app \<times> (gerr + User \<times> TokenPair)" where
  "register_insert env a email password name =
     (case ae_bcryptGenerate env password of
        Inl e \<Rightarrow> (a, Inl (Wrapf ''hash password: '' e []))
      | Inr hash \<Rightarrow>
     (case take_uuid a of (new, a1) \<Rightarrow>
     (case sql_returning (insert_user new (ap_now a1) email hash name)
             (find_user (\<lambda>u. u_ID u = new)) a1 of
        (a2, Inl e) \<Rightarrow> (a2, Inl (Wrapf ''insert user: '' e []))
      | (a2, Inr user) \<Rightarrow> issue_for env a2 user)))"

definition authRegister ::
  "auth_env \<Rightarrow> app \<Rightarrow> string \<Rightarrow> string \<Rightarrow> string \<Rightarrow> app \<times> (gerr + User \<times> TokenPair)" where
  "authRegister env a email password name =
     (case register_check a email of
        (a1, Some e) \<Rightarrow> (a1, Inl e)
      | (a1, None) \<Rightarrow> register_insert env a1 email password name)"

subsection \<open>Login\<close>

definition plan_expired :: "int \<Rightarrow> 'z User_scheme \<Rightarrow> bool" where
  "plan_expired now u = (case u_PlanExpiresAt u of None \<Rightarrow> False | Some t \<Rightarrow> t < now)"

definition downgrade :: "'z User_scheme \<Rightarrow> 'z User_scheme" where
  "downgrade u = u\<lparr>u_Plan := PlanFree, u_PlanExpiresAt := None\<rparr>"

text \<open>The errors of the two updates are dropped.\<close>

definition login_downgrade :: "app \<Rightarrow> User \<Rightarrow> app \<times> User" where
  "login_downgrade a user =
     (if plan_expired (ap_now a) user
      then (fst (sql_exec (update_users (ap_now a) (\<lambda>u. u_ID u = u_ID user) downgrade) a), downgrade user)
      else (a, user))"

definition login_as :: "auth_env \<Rightarrow> app \<Rightarrow> User \<Rightarrow> app \<times> (gerr + User \<times> TokenPair)" where
  "login_as env a user =
     (case login_downgrade a user of (a1, user1) \<Rightarrow>
        let a2 = fst (sql_exec (revoke_tokens (ap_now a1)
                   (\<lambda>t. rt_UserID t = u_ID user1 \<and> rt_RevokedAt t = None)) a1)
        in issue_for env a2 user1)"

definition Login :: "auth_env \<Rightarrow> app \<Rightarrow> string \<Rightarrow> string \<Rightarrow> app \<times> (gerr + User \<times> TokenPair)" where
  "Login env a email password =
     (case sql_row (\<lambda>d. find (same_email email) (db_users d)) a of
        (a1, Inl e) \<Rightarrow>
          (a1, Inl (if errors_is e pgx_ErrNoRows then ErrInvalidCredentials else Wrapf ''get user: '' e []))
      | (a1, Inr full) \<Rightarrow>
          if \<not> ae_bcryptCompare env (u_PasswordHash full) password then (a1, Inl ErrInvalidCredentials)
          else login_as env a1 (User.truncate full))"

subsection \<open>Refresh and logout\<close>

text \<open>The look-up and the checks on the row; on success the hash and the user.\<close>

definition refresh_check :: "auth_env \<Rightarrow> app \<Rightarrow> string \<Rightarrow> app \<times> (gerr + string \<times> uuid)" where
  "refresh_check env a rawToken =
     (let hash = hashToken env rawToken in
      case sql_row (\<lambda>d. find (\<lambda>t. rt_Hash t = hash) (db_tokens d)) a of
        (a1, Inl e) \<Rightarrow>
          (a1, Inl (if errors_is e pgx_ErrNoRows then ErrTokenInvalid
                    else Wrapf ''lookup refresh token: '' e []))
      | (a1, Inr t) \<Rightarrow>
          if rt_RevokedAt t \<noteq> None
          then (fst (sql_exec (revoke_tokens (ap_now a1) (\<lambda>s. rt_UserID s = rt_UserID t)) a1),
                Inl ErrTokenInvalid)
          else if ap_now a1 > rt_ExpiresAt t then (a1, Inl ErrTokenInvalid)
          else (a1, Inr (hash, rt_UserID t)))"

definition refresh_rotate ::
  "auth_env \<Rightarrow> app \<Rightarrow> string \<Rightarrow> uuid \<Rightarrow> app \<times> (gerr + string \<times> string)" where
  "refresh_rotate env a hash userID =
     (case sql_exec (revoke_tokens (ap_now a) (\<lambda>t. rt_Hash t = hash)) a of
        (a1, Some e) \<Rightarrow> (a1, Inl (Wrapf ''revoke old token: '' e []))
      | (a1, None) \<Rightarrow>
     (case sql_row (find_user (\<lambda>u. u_ID u = userID)) a1 of
        (a2, Inl e) \<Rightarrow> (a2, Inl (Wrapf ''get user: '' e []))
      | (a2, Inr user) \<Rightarrow>
     (case issue_for env a2 user of
        (a3, Inl e) \<Rightarrow> (a3, Inl e)
      | (a3, Inr (u, tokens)) \<Rightarrow> (a3, Inr (tp_AccessToken tokens, tp_RefreshToken tokens)))))"

definition Refresh :: "auth_env \<Rightarrow> app \<Rightarrow> string \<Rightarrow> app \<times> (gerr + string \<times> string)" where
  "Refresh env a rawToken =
     (case refresh_check env a rawToken of
        (a1, Inl e) \<Rightarrow> (a1, Inl e)
      | (a1, Inr (hash, userID)) \<Rightarrow> refresh_rotate env a1 hash userID)"

definition Logout :: "auth_env \<Rightarrow> app \<Rightarrow> string \<Rightarrow> app \<times> gerr option" where
  "Logout env a rawToken =
     sql_exec (revoke_tokens (ap_now a)
       (\<lambda>t. rt_Hash t = hashToken env rawToken \<and> rt_RevokedAt t = None)) a"

section \<open>The handlers\<close>

record Cookie =
  ck_CookieName :: string
  ck_Value :: string
  ck_Path :: string
  ck_Expires :: "int option"
  ck_MaxAge :: int
  ck_HttpOnly :: bool
  ck_Secure :: bool
  ck_SameSiteStrict :: bool

definition refreshCookieName :: string where "refreshCookieName = ''refresh_token''"
definition refreshCookiePath :: string where "refreshCookiePath = ''/api/v1/auth''"

text \<open>The connection: whether it is TLS, the \<open>X-Forwarded-Proto\<close> header, the refresh cookie.\<close>

record auth_request =
  aq_TLS :: bool
  aq_ForwardedProto :: string
  aq_cookie :: "string option"
  aq_body :: string

definition isSecure :: "auth_request \<Rightarrow> bool" where
  "isSecure r = (aq_TLS r \<or> aq_ForwardedProto r = ''https'')"

definition setRefreshCookie :: "auth_env \<Rightarrow> int \<Rightarrow> auth_request \<Rightarrow> string \<Rightarrow> Cookie" where
  "setRefreshCookie env now r token =
     \<lparr>ck_CookieName = refreshCookieName, ck_Value = token, ck_Path = refreshCookiePath,
      ck_Expires = Some (now + ae_refreshTTL env), ck_MaxAge = 0, ck_HttpOnly = True,
      ck_Secure = isSecure r, ck_SameSiteStrict = True\<rparr>"

definition clearRefreshCookie :: "auth_request \<Rightarrow> Cookie" where
  "clearRefreshCookie r =
     \<lparr>ck_CookieName = refreshCookieName, ck_Value = [], ck_Path = refreshCookiePath,
      ck_Expires = None, ck_MaxAge = -1, ck_HttpOnly = True,
      ck_Secure = isSecure r, ck_SameSiteStrict = True\<rparr>"

record registerRequest =
  rr_Email :: string
  rr_Password :: string
  rr_Name :: string

definition dest_registerRequest :: "registerRequest json_dest" where
  "dest_registerRequest = dest_struct
     [field ''email'' rr_Email (\<lambda>v a. a\<lparr>rr_Email := v\<rparr>) dest_string,
      field ''password'' rr_Password (\<lambda>v a. a\<lparr>rr_Password := v\<rparr>) dest_string,
      field ''name'' rr_Name (\<lambda>v a. a\<lparr>rr_Name := v\<rparr>) dest_string]"

definition dest_loginRequest :: "registerRequest json_dest" where
  "dest_loginRequest = dest_struct
     [field ''email'' rr_Email (\<lambda>v a. a\<lparr>rr_Email := v\<rparr>) dest_string,
      field ''password'' rr_Password (\<lambda>v a. a\<lparr>rr_Password := v\<rparr>) dest_string]"

definition zero_credentials :: registerRequest where
  "zero_credentials = \<lparr>rr_Email = [], rr_Password = [], rr_Name = []\<rparr>"

datatype auth_data = AuthSession string User | AuthAccess string

text \<open>
  A handler gives the state, the cookie it sets, and the reply.  The welcome mail runs in the
  background and touches nothing here.
\<close>

type_synonym auth_answer = "app \<times> Cookie option \<times> auth_data reply"

definition handle_register :: "auth_env \<Rightarrow> app \<Rightarrow> auth_request \<Rightarrow> auth_answer" where
  "handle_register env a r =
     (case json_body dest_registerRequest zero_credentials (aq_body r) of
        None \<Rightarrow> (a, None, Error 400 ''invalid request body'')
      | Some req \<Rightarrow>
          if rr_Email req = [] \<or> rr_Password req = []
          then (a, None, Error 400 ''email and password are required'')
          else if length (rr_Password req) < 8
          then (a, None, Error 400 ''password must be at least 8 characters'')
          else
            (case authRegister env a (rr_Email req) (rr_Password req) (rr_Name req) of
               (a1, Inl e) \<Rightarrow>
                 (a1, None, if errors_is e ErrEmailTaken
                            then Error 409 ''an account with this email already exists''
                            else InternalError)
             | (a1, Inr (user, tokens)) \<Rightarrow>
                 (a1, Some (setRefreshCookie env (ap_now a1) r (tp_RefreshToken tokens)),
                  JSON 201 (AuthSession (tp_AccessToken tokens) user))))"

definition handle_login :: "auth_env \<Rightarrow> app \<Rightarrow> auth_request \<Rightarrow> auth_answer" where
  "handle_login env a r =
     (case json_body dest_loginRequest zero_credentials (aq_body r) of
        None \<Rightarrow> (a, None, Error 400 ''invalid request body'')
      | Some req \<Rightarrow>
          (case Login env a (rr_Email req) (rr_Password req) of
             (a1, Inl e) \<Rightarrow>
               (a1, None, if errors_is e ErrInvalidCredentials
                          then Error 401 ''invalid email or password''
                          else InternalError)
           | (a1, Inr (user, tokens)) \<Rightarrow>
               (a1, Some (setRefreshCookie env (ap_now a1) r (tp_RefreshToken tokens)),
                JSON 200 (AuthSession (tp_AccessToken tokens) user))))"

definition handle_refresh :: "auth_env \<Rightarrow> app \<Rightarrow> auth_request \<Rightarrow> auth_answer" where
  "handle_refresh env a r =
     (case aq_cookie r of
        None \<Rightarrow> (a, None, Unauthorized)
      | Some c \<Rightarrow>
          (case Refresh env a c of
             (a1, Inl e) \<Rightarrow> (a1, Some (clearRefreshCookie r), Unauthorized)
           | (a1, Inr (accessToken, newRefresh)) \<Rightarrow>
               (a1, Some (setRefreshCookie env (ap_now a1) r newRefresh),
                JSON 200 (AuthAccess accessToken))))"

definition handle_logout :: "auth_env \<Rightarrow> app \<Rightarrow> auth_request \<Rightarrow> auth_answer" where
  "handle_logout env a r =
     ((case aq_cookie r of None \<Rightarrow> a | Some c \<Rightarrow> fst (Logout env a c)),
      Some (clearRefreshCookie r), NoContent)"

section \<open>Properties\<close>

lemma constraints_revoke [simp]: "constraints_ok (revoke_tokens now P d) = constraints_ok d"
  by (rule constraints_columns) (simp_all add: revoke_tokens_def)

lemma revoke_users [simp]: "db_users (revoke_tokens now P d) = db_users d"
  by (simp add: revoke_tokens_def)

lemma constraints_downgrade [simp]:
  assumes "constraints_ok d"
  shows "constraints_ok (update_users now P downgrade d)"
proof -
  have "list_all (\<lambda>u. u_Plan u \<in> {PlanFree, PlanPro, PlanBootcamp}) (db_users (update_users now P downgrade d))"
    using assms by (auto simp: constraints_ok_def update_users_def downgrade_def list_all_iff)
  then have "constraints_ok (update_users now P downgrade d) = constraints_ok d"
    using assms
    by (intro constraints_columns) (auto simp: update_users_def downgrade_def constraints_ok_def)
  then show ?thesis using assms by simp
qed

lemma update_users_tokens [simp]: "db_tokens (update_users now P f d) = db_tokens d"
  by (simp add: update_users_def)

text \<open>A token pair that is issued adds exactly one row.\<close>

lemma issue_ok:
  assumes "calm a" "issue_for env a user = (a1, Inr (u, tp))"
  shows "u = user \<and> calm a1 \<and> ap_now a1 = ap_now a \<and> constraints_ok (ap_db a1)
    \<and> db_users (ap_db a1) = db_users (ap_db a)
    \<and> db_tokens (ap_db a1) = db_tokens (ap_db a) @
        [\<lparr>rt_UserID = u_ID user, rt_Hash = hashToken env (tp_RefreshToken tp),
          rt_ExpiresAt = ap_now a + ae_refreshTTL env, rt_RevokedAt = None\<rparr>]
    \<and> GenerateAccessToken env (ap_now a) (u_ID user) (u_Plan user) (u_IsAdmin user) (ae_accessTTL env)
        = Inr (tp_AccessToken tp)"
proof -
  obtain acc where g: "GenerateAccessToken env (ap_now a) (u_ID user) (u_Plan user) (u_IsAdmin user)
      (ae_accessTTL env) = Inr acc"
    using assms by (auto simp: issue_for_def issueTokenPair_def split: sum.splits prod.splits)
  obtain b r where r: "generateRandom32 a = (b, Inr r)"
    using assms g by (auto simp: issue_for_def issueTokenPair_def split: sum.splits prod.splits)
  have b: "calm b" "ap_now b = ap_now a" "ap_db b = ap_db a"
    using assms(1) r
    by (auto simp: generateRandom32_def take_random_def calm_def split: list.splits prod.splits sum.splits)
  show ?thesis
    using assms(2) g r b
    by (auto simp: issue_for_def issueTokenPair_def insert_token_def split: if_splits)
qed

text \<open>The tokens of a user that have not been revoked.\<close>

definition open_tokens :: "uuid \<Rightarrow> appdb \<Rightarrow> RefreshToken list" where
  "open_tokens i d = filter (\<lambda>t. rt_UserID t = i \<and> rt_RevokedAt t = None) (db_tokens d)"

lemma open_after_revoke:
  "(\<And>t. rt_UserID t = i \<Longrightarrow> rt_RevokedAt t = None \<Longrightarrow> P t) \<Longrightarrow> open_tokens i (revoke_tokens now P d) = []"
  by (auto simp: open_tokens_def revoke_tokens_def filter_empty_conv)

lemma login_spec:
  assumes "calm a" "constraints_ok (ap_db a)"
    and "Login env a email password = (a1, Inr (u, tp))"
  shows "\<exists>full \<in> set (db_users (ap_db a)). same_email email full \<and> u_ID u = u_ID full
    \<and> ae_bcryptCompare env (u_PasswordHash full) password
    \<and> u_Plan u = (if plan_expired (ap_now a) full then PlanFree else u_Plan full)
    \<and> open_tokens (u_ID full) (ap_db a1) =
        [\<lparr>rt_UserID = u_ID full, rt_Hash = hashToken env (tp_RefreshToken tp),
          rt_ExpiresAt = ap_now a + ae_refreshTTL env, rt_RevokedAt = None\<rparr>]
    \<and> GenerateAccessToken env (ap_now a) (u_ID full) (u_Plan u) (u_IsAdmin full) (ae_accessTTL env)
        = Inr (tp_AccessToken tp)"
proof -
  obtain full where f: "find (same_email email) (db_users (ap_db a)) = Some full"
    using assms(1,3) by (auto simp: Login_def split: option.splits)
  have m: "full \<in> set (db_users (ap_db a))" "same_email email full" using f by (auto simp: find_Some_iff)
  have c: "ae_bcryptCompare env (u_PasswordHash full) password"
    "login_as env a (User.truncate full) = (a1, Inr (u, tp))"
    using assms(1,3) f by (auto simp: Login_def split: if_splits)
  obtain b user where d: "login_downgrade a (User.truncate full) = (b, user)" by fastforce
  have b: "calm b" "ap_now b = ap_now a" "constraints_ok (ap_db b)"
    "user = (if plan_expired (ap_now a) full then downgrade (User.truncate full) else User.truncate full)"
    using d assms(1,2)
    by (auto simp: login_downgrade_def plan_expired_def split: if_splits option.splits)
  have id: "u_ID user = u_ID full" "u_IsAdmin user = u_IsAdmin full"
    "u_Plan user = (if plan_expired (ap_now a) full then PlanFree else u_Plan full)"
    using b(4) by (auto simp: downgrade_def)
  let ?P = "\<lambda>t. rt_UserID t = u_ID user \<and> rt_RevokedAt t = None"
  let ?b = "b\<lparr>ap_db := revoke_tokens (ap_now b) ?P (ap_db b)\<rparr>"
  have i: "issue_for env ?b user = (a1, Inr (u, tp))"
    using c(2) d b by (simp add: login_as_def Let_def)
  note k = issue_ok [OF _ i]
  have "open_tokens (u_ID user) (revoke_tokens (ap_now b) ?P (ap_db b)) = []"
    by (rule open_after_revoke) simp
  then show ?thesis
    using k b m c(1) id by (intro bexI [of _ full]) (auto simp: open_tokens_def)
qed

text \<open>
  What a login gives.  When no statement fails, the answer is for a user with that email, up to
  letter case, whose password hash matches; afterwards that user has exactly one refresh token that
  is not revoked, the one handed out; and the access token carries the stored plan, or the free plan
  when the stored one has expired.
\<close>

theorem login_single_session:
  assumes "calm a" "constraints_ok (ap_db a)"
    and "Login env a email password = (a1, Inr (u, tp))"
  shows "\<exists>full \<in> set (db_users (ap_db a)). same_email email full \<and> u_ID u = u_ID full
    \<and> ae_bcryptCompare env (u_PasswordHash full) password
    \<and> u_Plan u = (if plan_expired (ap_now a) full then PlanFree else u_Plan full)
    \<and> open_tokens (u_ID full) (ap_db a1) =
        [\<lparr>rt_UserID = u_ID full, rt_Hash = hashToken env (tp_RefreshToken tp),
          rt_ExpiresAt = ap_now a + ae_refreshTTL env, rt_RevokedAt = None\<rparr>]
    \<and> GenerateAccessToken env (ap_now a) (u_ID full) (u_Plan u) (u_IsAdmin full) (ae_accessTTL env)
        = Inr (tp_AccessToken tp)"
  by (rule login_spec [OF assms])

text \<open>A refresh that succeeds, statement by statement.\<close>

lemma refresh_check_ok:
  assumes "calm a" "refresh_check env a raw = (a1, Inr (hash, i))"
  shows "a1 = a \<and> hash = hashToken env raw \<and> (\<exists>t \<in> set (db_tokens (ap_db a)). rt_Hash t = hash
      \<and> rt_UserID t = i \<and> rt_RevokedAt t = None \<and> ap_now a \<le> rt_ExpiresAt t)"
  using assms
  by (auto simp: refresh_check_def Let_def find_Some_iff split: option.splits if_splits)

lemma refresh_rotate_ok:
  assumes "calm a" "refresh_rotate env a hash i = (a1, Inr (acc, raw1))"
  shows "\<exists>full \<in> set (db_users (ap_db a)). u_ID full = i \<and> calm a1 \<and> ap_now a1 = ap_now a
    \<and> constraints_ok (ap_db a1) \<and> db_users (ap_db a1) = db_users (ap_db a)
    \<and> db_tokens (ap_db a1) = db_tokens (revoke_tokens (ap_now a) (\<lambda>t. rt_Hash t = hash) (ap_db a)) @
        [\<lparr>rt_UserID = i, rt_Hash = hashToken env raw1,
          rt_ExpiresAt = ap_now a + ae_refreshTTL env, rt_RevokedAt = None\<rparr>]
    \<and> GenerateAccessToken env (ap_now a) i (u_Plan full) (u_IsAdmin full) (ae_accessTTL env) = Inr acc"
proof -
  let ?b = "a\<lparr>ap_db := revoke_tokens (ap_now a) (\<lambda>t. rt_Hash t = hash) (ap_db a)\<rparr>"
  have c: "constraints_ok (ap_db a)"
    using assms by (auto simp: refresh_rotate_def split: if_splits)
  obtain user where u: "find_user (\<lambda>u. u_ID u = i) (ap_db ?b) = Some user"
    using assms c by (auto simp: refresh_rotate_def split: option.splits)
  obtain full where f: "full \<in> set (db_users (ap_db a))" "u_ID full = i" "user = User.truncate full"
    using find_user_Some [OF u] by auto
  obtain a3 v tp where i: "issue_for env ?b user = (a3, Inr (v, tp))" "acc = tp_AccessToken tp"
      "raw1 = tp_RefreshToken tp" "a3 = a1"
    using assms c u by (auto simp: refresh_rotate_def split: prod.splits sum.splits)
  show ?thesis using issue_ok [OF _ i(1)] assms(1) f i(2-4) by auto
qed


text \<open>
  Two refreshes at once defeat the detection.  When two requests with the same token both pass the
  look-up before either rotates, both get a new pair, and both new refresh tokens stay open.
\<close>

theorem concurrent_refresh_forks:
  assumes "calm a" "refresh_check env a raw = (b1, Inr (hash, i))"
    and "refresh_check env b1 raw = (b2, Inr (hash', i'))"
    and "refresh_rotate env b2 hash i = (a1, Inr (acc1, raw1))"
    and "refresh_rotate env a1 hash' i' = (a2, Inr (acc2, raw2))"
  shows "map rt_Hash (open_tokens i (ap_db a2)) =
      map rt_Hash (filter (\<lambda>t. rt_Hash t \<noteq> hashToken env raw) (open_tokens i (ap_db a)))
        @ [hashToken env raw1, hashToken env raw2]
    \<and> hashToken env raw1 \<noteq> hashToken env raw2"
proof -
  have e: "b1 = a" "hash = hashToken env raw" using refresh_check_ok [OF assms(1,2)] by auto
  have e2: "b2 = a" "hash' = hashToken env raw" "i' = i"
    using refresh_check_ok [OF assms(1), of env raw b2] assms(2,3) e by auto
  let ?h = "hashToken env raw"
  have 1: "calm a1" "constraints_ok (ap_db a1)"
    "db_tokens (ap_db a1) = db_tokens (revoke_tokens (ap_now a) (\<lambda>t. rt_Hash t = ?h) (ap_db a)) @
        [\<lparr>rt_UserID = i, rt_Hash = hashToken env raw1,
          rt_ExpiresAt = ap_now a + ae_refreshTTL env, rt_RevokedAt = None\<rparr>]"
    using refresh_rotate_ok [OF assms(1), of env hash i a1 acc1 raw1] assms(4) e e2 by auto
  have 2: "constraints_ok (ap_db a2)"
    "db_tokens (ap_db a2) = db_tokens (revoke_tokens (ap_now a1) (\<lambda>t. rt_Hash t = ?h) (ap_db a1)) @
        [\<lparr>rt_UserID = i, rt_Hash = hashToken env raw2,
          rt_ExpiresAt = ap_now a1 + ae_refreshTTL env, rt_RevokedAt = None\<rparr>]"
    using refresh_rotate_ok [OF 1(1), of env hash' i' a2 acc2 raw2] assms(5) e e2 by auto
  have u: "distinct (map rt_Hash (db_tokens (ap_db a1)))" "distinct (map rt_Hash (db_tokens (ap_db a2)))"
    using 1(2) 2(1) by (simp_all add: constraints_ok_def)
  obtain t where "t \<in> set (db_tokens (ap_db a))" "rt_Hash t = ?h"
    using refresh_check_ok [OF assms(1,2)] e by auto
  then have n: "hashToken env raw1 \<noteq> ?h" "hashToken env raw2 \<noteq> ?h" "hashToken env raw1 \<noteq> hashToken env raw2"
    using u 1(3) 2(2) by (force simp: revoke_tokens_def comp_def)+
  let ?P = "\<lambda>t. rt_UserID t = i \<and> rt_RevokedAt t = None" and ?N = "filter (\<lambda>t. rt_Hash t \<noteq> ?h)"
  let ?R = "\<lambda>now. map (\<lambda>t. if rt_Hash t = ?h then t\<lparr>rt_RevokedAt := Some now\<rparr> else t)"
  have F: "map rt_Hash (filter ?P (?R now ts)) = map rt_Hash (?N (filter ?P ts))"
    "map rt_Hash (?N (filter ?P (?R now ts))) = map rt_Hash (?N (filter ?P ts))"
    for now and ts :: "RefreshToken list"
    by (induction ts) auto
  show ?thesis
    using n unfolding open_tokens_def 2(2) 1(3) revoke_tokens_def
    by (simp add: F del: filter_filter map_map)
qed

text \<open>A refresh signs the stored plan, whether it has expired or not; only a login downgrades.\<close>

lemma refresh_signs_stored_plan:
  assumes "calm a" "Refresh env a raw = (a1, Inr (acc, raw1))"
  shows "\<exists>full \<in> set (db_users (ap_db a)). \<exists>t \<in> set (db_tokens (ap_db a)).
      rt_Hash t = hashToken env raw \<and> rt_UserID t = u_ID full
      \<and> GenerateAccessToken env (ap_now a) (u_ID full) (u_Plan full) (u_IsAdmin full) (ae_accessTTL env)
          = Inr acc
      \<and> db_users (ap_db a1) = db_users (ap_db a)"
proof -
  obtain b hash i where c: "refresh_check env a raw = (b, Inr (hash, i))"
    using assms(2) by (auto simp: Refresh_def split: prod.splits sum.splits)
  note ck = refresh_check_ok [OF assms(1) c]
  have "refresh_rotate env a hash i = (a1, Inr (acc, raw1))"
    using assms(2) c ck by (auto simp: Refresh_def)
  from refresh_rotate_ok [OF assms(1) this] ck show ?thesis by auto
qed

section \<open>A small instance\<close>

definition demo_auth :: auth_env where
  "demo_auth = \<lparr>ae_sign = (\<lambda>c. Inr (cl_Plan c)), ae_uuidString = (\<lambda>i. ''u''),
     ae_bcryptGenerate = (\<lambda>p. Inr p), ae_bcryptCompare = (\<lambda>h p. h = p), ae_sha256 = (\<lambda>t. t),
     ae_accessTTL = 900, ae_refreshTTL = 1000\<rparr>"

definition demo_user :: UserFull where
  "demo_user = \<lparr>u_ID = 1, u_Email = ''Ann@x.io'', u_Name = ''Ann'', u_Plan = PlanPro,
     u_PlanExpiresAt = Some 50, u_StripeCustomerID = None, u_IsAdmin = False, u_CreatedAt = 0,
     u_UpdatedAt = 0, u_PasswordHash = ''secret''\<rparr>"

definition demo_app :: app where
  "demo_app = \<lparr>ap_db = \<lparr>db_users = [demo_user],
       db_tokens = [\<lparr>rt_UserID = 1, rt_Hash = hashToken demo_auth ''old'', rt_ExpiresAt = 500,
                     rt_RevokedAt = None\<rparr>],
       db_progress = [], db_phases = [(1, ''build'')], db_labs = [1], db_certs = [], db_teams = [],
       db_members = []\<rparr>,
     ap_faults = [], ap_now = 100, ap_fresh = 2, ap_rand = [''r1'', ''r2'', ''r3'']\<rparr>"

lemma demo_calm [simp]: "calm demo_app"
  by (simp add: calm_def demo_app_def)

lemma demo_constraints [simp]: "constraints_ok (ap_db demo_app)"
  by code_simp

theorem login_single_session_witness:
  "\<exists>a1 u tp. Login demo_auth demo_app ''ann@X.io'' ''secret'' = (a1, Inr (u, tp))
     \<and> u_Plan u = PlanFree \<and> length (open_tokens 1 (ap_db a1)) = 1"
proof -
  have "is_ok (snd (Login demo_auth demo_app ''ann@X.io'' ''secret''))"
    by code_simp
  then obtain a1 u tp where l: "Login demo_auth demo_app ''ann@X.io'' ''secret'' = (a1, Inr (u, tp))"
    by (cases "Login demo_auth demo_app ''ann@X.io'' ''secret''") (auto simp: is_ok_def split: sum.splits)
  have "db_users (ap_db demo_app) = [demo_user]" "ap_now demo_app = 100" by (simp_all add: demo_app_def)
  then show ?thesis
    using login_single_session [OF demo_calm demo_constraints l] l
    by (auto simp: demo_user_def plan_expired_def)
qed



theorem concurrent_refresh_forks_witness:
  "length (open_tokens 1 (ap_db
     (fst (refresh_rotate demo_auth
       (fst (refresh_rotate demo_auth demo_app (hashToken demo_auth ''old'') 1))
       (hashToken demo_auth ''old'') 1)))) = 2"
proof -
  let ?h = "hashToken demo_auth ''old''"
  let ?a1 = "fst (refresh_rotate demo_auth demo_app ?h 1)"
  have "snd (refresh_check demo_auth demo_app ''old'') = Inr (?h, 1)"
    "snd (refresh_rotate demo_auth demo_app ?h 1) = Inr (PlanPro, hex_encode ''r1'')"
    "snd (refresh_rotate demo_auth ?a1 ?h 1) = Inr (PlanPro, hex_encode ''r2'')"
    by code_simp+
  then have r: "refresh_rotate demo_auth demo_app ?h 1 = (?a1, Inr (PlanPro, hex_encode ''r1''))"
    "refresh_rotate demo_auth ?a1 ?h 1
       = (fst (refresh_rotate demo_auth ?a1 ?h 1), Inr (PlanPro, hex_encode ''r2''))"
    by (simp_all add: prod_eq_iff)
  obtain b where b: "refresh_check demo_auth demo_app ''old'' = (b, Inr (?h, 1))"
    using \<open>snd (refresh_check demo_auth demo_app ''old'') = Inr (?h, 1)\<close> by (cases "refresh_check demo_auth demo_app ''old''") auto
  then have "b = demo_app" using refresh_check_ok [OF demo_calm] by blast
  then have b': "refresh_check demo_auth demo_app ''old'' = (demo_app, Inr (?h, 1))" using b by simp
  from concurrent_refresh_forks [OF demo_calm b' b' r]
  have "map rt_Hash (open_tokens 1 (ap_db (fst (refresh_rotate demo_auth ?a1 ?h 1)))) =
      map rt_Hash (filter (\<lambda>t. rt_Hash t \<noteq> ?h) (open_tokens 1 (ap_db demo_app)))
        @ [hashToken demo_auth (hex_encode ''r1''), hashToken demo_auth (hex_encode ''r2'')]" by blast
  moreover have "filter (\<lambda>t. rt_Hash t \<noteq> ?h) (open_tokens 1 (ap_db demo_app)) = []"
    by (simp add: open_tokens_def demo_app_def)
  ultimately show ?thesis by (metis append_Nil length_map list.simps(8) length_Cons list.size(3) numeral_2_eq_2)
qed

text \<open>
  Emails are looked up without regard to letter case, but the column is unique as text: two
  registrations at the same time with different spellings both succeed.
\<close>

lemma registrations_race:
  "let a1 = fst (register_check demo_app ''bob@x.io'');
       a2 = fst (register_check a1 ''BOB@x.io'');
       (a3, r1) = register_insert demo_auth a2 ''bob@x.io'' ''password1'' ''Bob'';
       (a4, r2) = register_insert demo_auth a3 ''BOB@x.io'' ''password2'' ''Bob''
   in snd (register_check demo_app ''bob@x.io'') = None \<and> snd (register_check a1 ''BOB@x.io'') = None
      \<and> is_ok r1 \<and> is_ok r2
      \<and> length (filter (same_email ''bob@x.io'') (db_users (ap_db a4))) = 2"
  by code_simp

end
