(* ===== verification/Accounts.thy ===== *)
theory Accounts
  imports AuthService Certificates Sessions
begin

text \<open>
  \<open>internal/users/handler.go\<close>, \<open>internal/subscription\<close> and \<open>internal/admin/handler.go\<close>: the account
  endpoints, the subscription endpoints with the Stripe webhook, and the administration endpoints.
  The calls into the Stripe library are fields of \<open>stripe_env\<close>.
\<close>

section \<open>The own account\<close>

definition handle_me :: "(string \<Rightarrow> uuid option) \<Rightarrow> app \<Rightarrow> Claims option \<Rightarrow> app \<times> User reply" where
  "handle_me pu a claims =
     (case claims of
        None \<Rightarrow> (a, ReplyPanic)
      | Some c \<Rightarrow>
     (case pu (cl_Subject c) of
        None \<Rightarrow> (a, Unauthorized)
      | Some i \<Rightarrow>
     (case usersGetByID a i of
        (a1, Inl e) \<Rightarrow> (a1, NotFound)
      | (a1, Inr user) \<Rightarrow> (a1, JSON 200 user))))"

definition dest_updateRequest :: "string json_dest" where
  "dest_updateRequest = dest_struct [(''name'', dest_string)]"

definition handle_me_update ::
  "(string \<Rightarrow> uuid option) \<Rightarrow> app \<Rightarrow> Claims option \<Rightarrow> string \<Rightarrow> app \<times> User reply" where
  "handle_me_update pu a claims body =
     (case mustUserID pu claims of
        None \<Rightarrow> (a, ReplyPanic)
      | Some i \<Rightarrow>
     (case json_body dest_updateRequest [] body of
        None \<Rightarrow> (a, Error 400 ''invalid request body'')
      | Some name \<Rightarrow>
          if name = [] then (a, Error 400 ''name is required'')
          else (case UpdateName a i name of
                  (a1, Inl e) \<Rightarrow> (a1, InternalError)
                | (a1, Inr user) \<Rightarrow> (a1, JSON 200 user))))"

definition handle_me_delete ::
  "(string \<Rightarrow> uuid option) \<Rightarrow> app \<Rightarrow> Claims option \<Rightarrow> app \<times> User reply" where
  "handle_me_delete pu a claims =
     (case mustUserID pu claims of
        None \<Rightarrow> (a, ReplyPanic)
      | Some i \<Rightarrow>
     (case usersDelete a i of
        (a1, Some e) \<Rightarrow> (a1, InternalError)
      | (a1, None) \<Rightarrow> (a1, NoContent)))"

section \<open>Subscriptions\<close>

record StripeSubscription =
  ss_Status :: string
  ss_Customer :: "string option"
  ss_Items :: "string option option list option"
  ss_CurrentPeriodEnd :: int

record StripeCheckout =
  sc_Metadata :: "(string, string) gomap"
  sc_Customer :: "string option"

record StripeEvent =
  sv_Type :: string
  sv_Raw :: string

record checkout_params =
  cp_Price :: string
  cp_SuccessURL :: string
  cp_CancelURL :: string
  cp_CustomerEmail :: string
  cp_Metadata :: "(string, string) gomap"

text \<open>
  Configuration, the library (decoding, signatures, the two session calls), the text form of a UUID,
  and \<open>AddDate(0, 1, 0)\<close> in the time zone of the server.
\<close>

record stripe_env =
  se_ProPriceID :: string
  se_BootcampPriceID :: string
  se_FrontendURL :: string
  se_WebhookSecret :: string
  se_uuidString :: "uuid \<Rightarrow> string"
  se_addMonth :: "int \<Rightarrow> int"
  se_ConstructEvent :: "string \<Rightarrow> string \<Rightarrow> string \<Rightarrow> gerr + StripeEvent"
  se_decodeCheckout :: "string \<Rightarrow> gerr + StripeCheckout"
  se_decodeSubscription :: "string \<Rightarrow> gerr + StripeSubscription"
  se_newCheckout :: "checkout_params \<Rightarrow> gerr + string"
  se_newPortal :: "string \<Rightarrow> string \<Rightarrow> gerr + string"

datatype sub_data = PlanData string "int option" | UrlData string | EmptyData

definition GetPlan :: "app \<Rightarrow> uuid \<Rightarrow> app \<times> (gerr + string \<times> int option)" where
  "GetPlan a i =
     (case usersGetByID a i of
        (a1, Inl e) \<Rightarrow> (a1, Inl e)
      | (a1, Inr user) \<Rightarrow> (a1, Inr (u_Plan user, u_PlanExpiresAt user)))"

definition CreateCheckoutSession :: "stripe_env \<Rightarrow> app \<Rightarrow> uuid \<Rightarrow> string \<Rightarrow> app \<times> (gerr + string)" where
  "CreateCheckoutSession env a i planName =
     (case usersGetByID a i of
        (a1, Inl e) \<Rightarrow> (a1, Inl e)
      | (a1, Inr user) \<Rightarrow>
          (a1, case se_newCheckout env
                 \<lparr>cp_Price = (if planName = PlanBootcamp then se_BootcampPriceID env else se_ProPriceID env),
                  cp_SuccessURL = se_FrontendURL env @ ''/dashboard?upgraded=true'',
                  cp_CancelURL = se_FrontendURL env @ ''/pricing'',
                  cp_CustomerEmail = u_Email user,
                  cp_Metadata = [(''user_id'', se_uuidString env i), (''plan'', planName)]\<rparr> of
               Inl e \<Rightarrow> Inl (Wrapf ''create checkout session: '' e [])
             | Inr url \<Rightarrow> Inr url))"

definition CreatePortalSession :: "stripe_env \<Rightarrow> app \<Rightarrow> uuid \<Rightarrow> app \<times> (gerr + string)" where
  "CreatePortalSession env a i =
     (case usersGetByID a i of
        (a1, Inl e) \<Rightarrow> (a1, Inl e)
      | (a1, Inr user) \<Rightarrow>
          (a1, case u_StripeCustomerID user of
                 None \<Rightarrow> Inl (Errorf ''user has no Stripe customer'')
               | Some c \<Rightarrow>
                   (case se_newPortal env c (se_FrontendURL env @ ''/dashboard'') of
                      Inl e \<Rightarrow> Inl (Wrapf ''create portal session: '' e [])
                    | Inr url \<Rightarrow> Inr url)))"

definition handle_subscription ::
  "(string \<Rightarrow> uuid option) \<Rightarrow> app \<Rightarrow> Claims option \<Rightarrow> app \<times> sub_data reply" where
  "handle_subscription pu a claims =
     (case mustUserID pu claims of
        None \<Rightarrow> (a, ReplyPanic)
      | Some i \<Rightarrow>
     (case GetPlan a i of
        (a1, Inl e) \<Rightarrow> (a1, InternalError)
      | (a1, Inr (plan, exp)) \<Rightarrow> (a1, JSON 200 (PlanData plan exp))))"

definition dest_planRequest :: "string json_dest" where
  "dest_planRequest = dest_struct [(''plan'', dest_string)]"

definition handle_checkout ::
  "stripe_env \<Rightarrow> (string \<Rightarrow> uuid option) \<Rightarrow> app \<Rightarrow> Claims option \<Rightarrow> string \<Rightarrow> app \<times> sub_data reply" where
  "handle_checkout env pu a claims body =
     (case mustUserID pu claims of
        None \<Rightarrow> (a, ReplyPanic)
      | Some i \<Rightarrow>
     (case json_body dest_planRequest [] body of
        None \<Rightarrow> (a, Error 400 ''invalid request body'')
      | Some plan \<Rightarrow>
          if plan \<noteq> ''pro'' \<and> plan \<noteq> ''bootcamp'' then (a, Error 400 ''plan must be pro or bootcamp'')
          else (case CreateCheckoutSession env a i plan of
                  (a1, Inl e) \<Rightarrow> (a1, InternalError)
                | (a1, Inr url) \<Rightarrow> (a1, JSON 200 (UrlData url)))))"

definition handle_portal ::
  "stripe_env \<Rightarrow> (string \<Rightarrow> uuid option) \<Rightarrow> app \<Rightarrow> Claims option \<Rightarrow> app \<times> sub_data reply" where
  "handle_portal env pu a claims =
     (case mustUserID pu claims of
        None \<Rightarrow> (a, ReplyPanic)
      | Some i \<Rightarrow>
     (case CreatePortalSession env a i of
        (a1, Inl e) \<Rightarrow> (a1, InternalError)
      | (a1, Inr url) \<Rightarrow> (a1, JSON 200 (UrlData url))))"

subsection \<open>The webhook\<close>

text \<open>Items and prices are pointers that can be nil.\<close>

fun plan_of_items :: "stripe_env \<Rightarrow> string option option list \<Rightarrow> string option" where
  "plan_of_items env [] = None"
| "plan_of_items env (Some (Some priceID) # items) =
     (if priceID = se_BootcampPriceID env then Some PlanBootcamp
      else if priceID = se_ProPriceID env then Some PlanPro
      else plan_of_items env items)"
| "plan_of_items env (item # items) = plan_of_items env items"

definition planFromSubscription :: "stripe_env \<Rightarrow> StripeSubscription \<Rightarrow> string" where
  "planFromSubscription env sub =
     (case ss_Items sub of
        None \<Rightarrow> PlanPro
      | Some items \<Rightarrow> (case plan_of_items env items of None \<Rightarrow> PlanPro | Some p \<Rightarrow> p))"

definition set_plan :: "string \<Rightarrow> int option \<Rightarrow> UserFull \<Rightarrow> UserFull" where
  "set_plan plan exp u = u\<lparr>u_Plan := plan, u_PlanExpiresAt := exp\<rparr>"

definition onSubscriptionDeleted :: "app \<Rightarrow> StripeSubscription \<Rightarrow> app \<times> gerr option" where
  "onSubscriptionDeleted a sub =
     (case ss_Customer sub of
        None \<Rightarrow> (a, Some (Errorf ''subscription.deleted: missing customer''))
      | Some c \<Rightarrow>
          sql_exec (update_users (ap_now a) (\<lambda>u. u_StripeCustomerID u = Some c) (set_plan PlanFree None)) a)"

definition onSubscriptionUpdated :: "stripe_env \<Rightarrow> app \<Rightarrow> StripeSubscription \<Rightarrow> app \<times> gerr option" where
  "onSubscriptionUpdated env a sub =
     (if ss_Status sub \<noteq> ''active'' \<and> ss_Status sub \<noteq> ''trialing'' then onSubscriptionDeleted a sub
      else case ss_Customer sub of
        None \<Rightarrow> (a, Some (Errorf ''subscription.updated: missing customer''))
      | Some c \<Rightarrow>
          sql_exec (update_users (ap_now a) (\<lambda>u. u_StripeCustomerID u = Some c)
            (set_plan (planFromSubscription env sub) (Some (ss_CurrentPeriodEnd sub * 1000000000)))) a)"

definition onCheckoutCompleted :: "stripe_env \<Rightarrow> app \<Rightarrow> StripeCheckout \<Rightarrow> app \<times> gerr option" where
  "onCheckoutCompleted env a sess =
     (let planName = (let p = mget0 [] (sc_Metadata sess) ''plan'' in if p = [] then PlanPro else p);
          userIDStr = mget0 [] (sc_Metadata sess) ''user_id'';
          mine = (\<lambda>u. se_uuidString env (u_ID u) = userIDStr)
      in if userIDStr = [] then (a, Some (Errorf ''checkout.session.completed: missing user_id in metadata''))
         else
           let a1 = (case sc_Customer sess of
                 None \<Rightarrow> a
               | Some c \<Rightarrow> fst (sql_exec (update_users (ap_now a) mine (u_StripeCustomerID_update (\<lambda>_. Some c))) a))
           in (case sql_exec (update_users (ap_now a1) mine (set_plan planName (Some (se_addMonth env (ap_now a1))))) a1 of
                 (a2, Some e) \<Rightarrow> (a2, Some (Wrapf (''activate plan for user '' @ userIDStr @ '': '') e []))
               | (a2, None) \<Rightarrow> (a2, None)))"

definition handleEvent :: "stripe_env \<Rightarrow> app \<Rightarrow> StripeEvent \<Rightarrow> app \<times> gerr option" where
  "handleEvent env a event =
     (if sv_Type event = ''checkout.session.completed'' then
        (case se_decodeCheckout env (sv_Raw event) of
           Inl e \<Rightarrow> (a, Some (Wrapf ''unmarshal checkout.session: '' e []))
         | Inr sess \<Rightarrow> onCheckoutCompleted env a sess)
      else if sv_Type event = ''customer.subscription.updated'' then
        (case se_decodeSubscription env (sv_Raw event) of
           Inl e \<Rightarrow> (a, Some (Wrapf ''unmarshal subscription.updated: '' e []))
         | Inr sub \<Rightarrow> onSubscriptionUpdated env a sub)
      else if sv_Type event = ''customer.subscription.deleted'' then
        (case se_decodeSubscription env (sv_Raw event) of
           Inl e \<Rightarrow> (a, Some (Wrapf ''unmarshal subscription.deleted: '' e []))
         | Inr sub \<Rightarrow> onSubscriptionDeleted a sub)
      else (a, None))"

definition webhook_limit :: nat where "webhook_limit = 1048576"

text \<open>The body as it is read, or the error of reading it.\<close>

definition StripeWebhook :: "stripe_env \<Rightarrow> app \<Rightarrow> gerr + string \<Rightarrow> string \<Rightarrow> app \<times> sub_data reply" where
  "StripeWebhook env a body sig =
     (case body of
        Inl e \<Rightarrow> (a, Error 400 ''failed to read body'')
      | Inr b \<Rightarrow>
          (case se_ConstructEvent env (take webhook_limit b) sig (se_WebhookSecret env) of
             Inl e \<Rightarrow> (a, ReplyEmpty 400)
           | Inr event \<Rightarrow> (fst (handleEvent env a event), ReplyEmpty 200)))"

section \<open>Administration\<close>

record AdminStats =
  as_total :: int
  as_free :: int
  as_pro :: int
  as_bootcamp :: int
  as_progress :: int
  as_certificates :: int
  as_mrr :: int

datatype admin_data = StatsJSON AdminStats | UsersJSON "User list" int int | PlanJSON string

text \<open>A count whose query fails stays 0.\<close>

definition count_or_0 :: "(appdb \<Rightarrow> int) \<Rightarrow> app \<Rightarrow> app \<times> int" where
  "count_or_0 q a = (case sql_query q a of (a1, Inl e) \<Rightarrow> (a1, 0) | (a1, Inr n) \<Rightarrow> (a1, n))"

definition users_on :: "string \<Rightarrow> appdb \<Rightarrow> int" where
  "users_on plan d = int (length (filter (\<lambda>u. u_Plan u = plan) (db_users d)))"

definition Stats :: "app \<Rightarrow> app \<times> admin_data reply" where
  "Stats a =
     (case count_or_0 (\<lambda>d. int (length (db_users d))) a of (a1, totalUsers) \<Rightarrow>
      case count_or_0 (users_on ''free'') a1 of (a2, freeUsers) \<Rightarrow>
      case count_or_0 (users_on ''pro'') a2 of (a3, proUsers) \<Rightarrow>
      case count_or_0 (users_on ''bootcamp'') a3 of (a4, bootcampUsers) \<Rightarrow>
      case count_or_0 (\<lambda>d. int (length (db_progress d))) a4 of (a5, totalProgress) \<Rightarrow>
      case count_or_0 (\<lambda>d. int (length (db_certs d))) a5 of (a6, totalCerts) \<Rightarrow>
        (a6, JSON 200 (StatsJSON \<lparr>as_total = totalUsers, as_free = freeUsers, as_pro = proUsers,
           as_bootcamp = bootcampUsers, as_progress = totalProgress, as_certificates = totalCerts,
           as_mrr = proUsers * 9 + bootcampUsers * 49\<rparr>)))"

definition page_of :: "string \<Rightarrow> int" where
  "page_of s = (let n = fst (atoi s) in if n < 1 then 1 else n)"

definition limit_of :: "string \<Rightarrow> int" where
  "limit_of s = (let n = fst (atoi s) in if n < 1 \<or> 100 < n then 50 else n)"

text \<open>The columns the listing reads; \<open>(page-1)*limit\<close> is a 64-bit product.\<close>

definition listed_user :: "UserFull \<Rightarrow> User" where
  "listed_user u = (User.truncate u)\<lparr>u_StripeCustomerID := None\<rparr>"

definition wrap64 :: "int \<Rightarrow> int" where
  "wrap64 n = (n + 2 ^ 63) mod 2 ^ 64 - 2 ^ 63"

definition handle_admin_users :: "app \<Rightarrow> string \<Rightarrow> string \<Rightarrow> string \<Rightarrow> app \<times> admin_data reply" where
  "handle_admin_users a pageParam limitParam plan =
     (let page = page_of pageParam; limit = limit_of limitParam; offset = wrap64 ((page - 1) * limit) in
      if offset < 0 then (snd (stmt_outcome a), InternalError)
      else
        (case sql_query (\<lambda>d. take (nat limit) (drop (nat offset)
                (order_by (\<lambda>u v. u_CreatedAt u \<ge> u_CreatedAt v)
                   (map listed_user (filter (\<lambda>u. plan = [] \<or> u_Plan u = plan) (db_users d)))))) a of
           (a1, Inl e) \<Rightarrow> (a1, InternalError)
         | (a1, Inr us) \<Rightarrow> (a1, JSON 200 (UsersJSON us page limit))))"

definition handle_set_plan ::
  "(string \<Rightarrow> uuid option) \<Rightarrow> app \<Rightarrow> string \<Rightarrow> string \<Rightarrow> app \<times> admin_data reply" where
  "handle_set_plan pu a idParam body =
     (case pu idParam of
        None \<Rightarrow> (a, Error 400 ''invalid user id'')
      | Some i \<Rightarrow>
     (case json_body dest_planRequest [] body of
        None \<Rightarrow> (a, Error 400 ''plan required'')
      | Some plan \<Rightarrow>
          if plan = [] then (a, Error 400 ''plan required'')
          else if plan \<noteq> PlanFree \<and> plan \<noteq> PlanPro \<and> plan \<noteq> PlanBootcamp
          then (a, Error 400 ''plan must be free, pro, or bootcamp'')
          else (case sql_exec (update_users (ap_now a) (\<lambda>u. u_ID u = i) (u_Plan_update (\<lambda>_. plan))) a of
                  (a1, Some e) \<Rightarrow> (a1, InternalError)
                | (a1, None) \<Rightarrow> (a1, JSON 200 (PlanJSON plan)))))"

section \<open>Properties of the webhook\<close>

lemma update_users_frame:
  "u \<in> set (db_users d) \<Longrightarrow> \<not> P u \<Longrightarrow> u \<in> set (db_users (update_users now P f d))"
  by (force simp: update_users_def)

lemma exec_users_frame:
  "u \<in> set (db_users (ap_db a)) \<Longrightarrow> \<not> P u \<Longrightarrow>
     u \<in> set (db_users (ap_db (fst (sql_exec (update_users now P f) a))))"
  using update_users_frame exec_outcome [of "update_users now P f" a]
  by (cases "sql_exec (update_users now P f) a") fastforce

text \<open>The user an event is about: named in the metadata, or holding the customer id.\<close>

definition event_about :: "stripe_env \<Rightarrow> StripeEvent \<Rightarrow> UserFull \<Rightarrow> bool" where
  "event_about env event u =
     (if sv_Type event = ''checkout.session.completed'' then
        (case se_decodeCheckout env (sv_Raw event) of
           Inl e \<Rightarrow> False
         | Inr sess \<Rightarrow> se_uuidString env (u_ID u) = mget0 [] (sc_Metadata sess) ''user_id'')
      else
        (case se_decodeSubscription env (sv_Raw event) of
           Inl e \<Rightarrow> False
         | Inr sub \<Rightarrow> u_StripeCustomerID u \<noteq> None \<and> ss_Customer sub = u_StripeCustomerID u))"

lemma deleted_frame:
  "u \<in> set (db_users (ap_db a)) \<Longrightarrow> \<not> (u_StripeCustomerID u \<noteq> None \<and> ss_Customer sub = u_StripeCustomerID u) \<Longrightarrow>
     u \<in> set (db_users (ap_db (fst (onSubscriptionDeleted a sub))))"
  by (auto simp: onSubscriptionDeleted_def intro!: exec_users_frame split: option.splits)

lemma updated_frame:
  "u \<in> set (db_users (ap_db a)) \<Longrightarrow> \<not> (u_StripeCustomerID u \<noteq> None \<and> ss_Customer sub = u_StripeCustomerID u) \<Longrightarrow>
     u \<in> set (db_users (ap_db (fst (onSubscriptionUpdated env a sub))))"
  by (auto simp: onSubscriptionUpdated_def intro!: exec_users_frame deleted_frame split: option.splits)

lemma checkout_frame:
  assumes "u \<in> set (db_users (ap_db a))" "se_uuidString env (u_ID u) \<noteq> mget0 [] (sc_Metadata sess) ''user_id''"
  shows "u \<in> set (db_users (ap_db (fst (onCheckoutCompleted env a sess))))"
proof -
  let ?P = "\<lambda>u. se_uuidString env (u_ID u) = mget0 [] (sc_Metadata sess) ''user_id''"
  have F: "u \<in> set (db_users (ap_db (fst (sql_exec (update_users now ?P f) b))))"
    if "u \<in> set (db_users (ap_db b))" for b now f
    using exec_users_frame [of u b ?P now f] that assms(2) by simp
  have G: "fst (case x of (a2, Some e) \<Rightarrow> (a2, Some (w e)) | (a2, None) \<Rightarrow> (a2, None)) = fst x"
    for x :: "app \<times> gerr option" and w :: "gerr \<Rightarrow> gerr"
    by (auto split: prod.splits option.splits)
  show ?thesis
    using assms(1) by (auto simp: onCheckoutCompleted_def Let_def G intro!: F split: option.splits)
qed

text \<open>
  C27: who the Stripe webhook can change.  A request whose signature is refused changes nothing and is
  answered 400.  An accepted one changes no user other than the one the event names or whose
  customer id it carries, and is answered 200 whatever happened to the update.
\<close>

theorem webhook_frame:
  "(\<forall>e. se_ConstructEvent env (take webhook_limit b) sig (se_WebhookSecret env) = Inl e \<longrightarrow>
       StripeWebhook env a (Inr b) sig = (a, ReplyEmpty 400))
   \<and> (\<forall>event. se_ConstructEvent env (take webhook_limit b) sig (se_WebhookSecret env) = Inr event \<longrightarrow>
       snd (StripeWebhook env a (Inr b) sig) = ReplyEmpty 200
       \<and> (\<forall>u \<in> set (db_users (ap_db a)). \<not> event_about env event u \<longrightarrow>
            u \<in> set (db_users (ap_db (fst (StripeWebhook env a (Inr b) sig))))))"
proof -
  have "u \<in> set (db_users (ap_db (fst (handleEvent env a event))))"
    if "u \<in> set (db_users (ap_db a))" "\<not> event_about env event u" for u event
    using that
    by (auto simp: handleEvent_def event_about_def intro: checkout_frame updated_frame deleted_frame
        split: sum.splits if_splits)
  then show ?thesis by (simp add: StripeWebhook_def)
qed

definition demo_stripe :: stripe_env where
  "demo_stripe = \<lparr>se_ProPriceID = ''price_pro'', se_BootcampPriceID = ''price_boot'', se_FrontendURL = [],
     se_WebhookSecret = ''whsec'', se_uuidString = (\<lambda>i. itoa (int i)), se_addMonth = (\<lambda>t. t + 1000),
     se_ConstructEvent = (\<lambda>b sig secret. if sig = secret then Inr \<lparr>sv_Type = ''customer.subscription.updated'',
        sv_Raw = b\<rparr> else Inl (Sentinel ''bad signature'')),
     se_decodeCheckout = (\<lambda>b. Inl (Sentinel ''json'')),
     se_decodeSubscription = (\<lambda>b. Inr \<lparr>ss_Status = ''active'', ss_Customer = Some b,
        ss_Items = Some [None, Some (Some ''price_boot'')], ss_CurrentPeriodEnd = 7\<rparr>),
     se_newCheckout = (\<lambda>p. Inl (Sentinel ''offline'')), se_newPortal = (\<lambda>c r. Inl (Sentinel ''offline''))\<rparr>"

theorem webhook_frame_witness:
  "snd (StripeWebhook demo_stripe demo_app (Inr ''cus_9'') ''whsec'') = ReplyEmpty 200
   \<and> demo_user \<in> set (db_users (ap_db (fst (StripeWebhook demo_stripe demo_app (Inr ''cus_9'') ''whsec''))))"
proof -
  let ?ev = "\<lparr>sv_Type = ''customer.subscription.updated'', sv_Raw = ''cus_9''\<rparr>"
  have c: "se_ConstructEvent demo_stripe (take webhook_limit ''cus_9'') ''whsec'' (se_WebhookSecret demo_stripe) = Inr ?ev"
    by (simp add: demo_stripe_def webhook_limit_def)
  have u: "demo_user \<in> set (db_users (ap_db demo_app))" "\<not> event_about demo_stripe ?ev demo_user"
    by (simp_all add: demo_app_def event_about_def demo_stripe_def demo_user_def)
  show ?thesis
    using webhook_frame [of demo_stripe "''cus_9''" "''whsec''" demo_app] c u by blast
qed

text \<open>An update that the database did not take is acknowledged all the same, and Stripe will not repeat it.\<close>

lemma webhook_drops_update:
  assumes "se_ConstructEvent env (take webhook_limit b) sig (se_WebhookSecret env) = Inr event"
    and "sv_Type event = ''customer.subscription.updated''"
    and "ap_faults a = replicate 2 StmtLost"
  shows "snd (StripeWebhook env a (Inr b) sig) = ReplyEmpty 200
    \<and> ap_db (fst (StripeWebhook env a (Inr b) sig)) = ap_db a"
  using assms
  by (auto simp: StripeWebhook_def handleEvent_def onSubscriptionUpdated_def onSubscriptionDeleted_def
      sql_exec_def stmt_outcome_def numeral_2_eq_2 split: sum.splits option.splits)

section \<open>Plans given by an administrator\<close>

lemma find_mapped:
  "(\<And>u. P (g u) = P u) \<Longrightarrow> find P (map g xs) = map_option g (find P xs)"
  by (induction xs) auto

text \<open>
  A plan an administrator sets does not survive the next login of a user whose previous plan had
  expired: the expiry date stays in the row, and the login downgrades the account.
\<close>

theorem admin_plan_lost_at_login:
  assumes "calm a" "constraints_ok (ap_db a)"
    and "full \<in> set (db_users (ap_db a))" "plan_expired (ap_now a) full"
    and "pu idParam = Some (u_ID full)"
    and "handle_set_plan pu a idParam body = (b, Reply 200 (PlanJSON plan))"
    and "Login env b email password = (c, Inr (u, tp))" "u_ID u = u_ID full"
  shows "(\<exists>v \<in> set (db_users (ap_db b)). u_ID v = u_ID full \<and> u_Plan v = plan)
    \<and> u_Plan u = PlanFree"
proof -
  let ?f = "update_users (ap_now a) (\<lambda>u. u_ID u = u_ID full) (u_Plan_update (\<lambda>_. plan))"
  have b: "b = a\<lparr>ap_db := ?f (ap_db a)\<rparr>" "constraints_ok (?f (ap_db a))"
    using assms(1,5,6)
    by (auto simp: handle_set_plan_def reply_defs split: option.splits if_splits prod.splits)
  let ?v = "full\<lparr>u_Plan := plan, u_UpdatedAt := ap_now a\<rparr>"
  have v: "?v \<in> set (db_users (ap_db b))" using assms(3) by (force simp: b(1) update_users_def)
  have cb: "calm b" "constraints_ok (ap_db b)" "ap_now b = ap_now a" using b assms(1) by simp_all
  obtain w where w: "w \<in> set (db_users (ap_db b))" "u_ID u = u_ID w"
      "u_Plan u = (if plan_expired (ap_now b) w then PlanFree else u_Plan w)"
    using login_spec [OF cb(1,2) assms(7)] by blast
  have "w = ?v"
    using constraints_user_unique [OF cb(2) w(1) v] w(2) assms(8) by simp
  then have "plan_expired (ap_now b) w" using assms(4) cb(3) by (simp add: plan_expired_def)
  then show ?thesis using v w(3) by (intro conjI bexI [of _ ?v]) auto
qed

definition expired_pu :: "string \<Rightarrow> uuid option" where
  "expired_pu t = (if t = ''1'' then Some 1 else None)"

definition plan_body :: string where
  "plan_body = ''{'' @ [CHR 0x22] @ ''plan'' @ [CHR 0x22] @ '':'' @ [CHR 0x22] @ ''pro'' @ [CHR 0x22] @ ''}''"

theorem admin_plan_lost_at_login_witness:
  "\<exists>c u tp. Login demo_auth (fst (handle_set_plan expired_pu demo_app ''1'' plan_body)) ''ann@x.io'' ''secret''
       = (c, Inr (u, tp)) \<and> u_Plan u = PlanFree"
proof -
  let ?b = "fst (handle_set_plan expired_pu demo_app ''1'' plan_body)"
  have "snd (handle_set_plan expired_pu demo_app ''1'' plan_body) = Reply 200 (PlanJSON PlanPro)"
    by code_simp
  then have s: "handle_set_plan expired_pu demo_app ''1'' plan_body = (?b, Reply 200 (PlanJSON PlanPro))"
    by (simp add: prod_eq_iff)
  have "case snd (Login demo_auth ?b ''ann@x.io'' ''secret'') of Inl e \<Rightarrow> False | Inr (u, tp) \<Rightarrow> u_ID u = 1"
    by code_simp
  then obtain c u tp where l: "Login demo_auth ?b ''ann@x.io'' ''secret'' = (c, Inr (u, tp))" "u_ID u = 1"
    by (cases "Login demo_auth ?b ''ann@x.io'' ''secret''") (auto split: sum.splits)
  have d: "demo_user \<in> set (db_users (ap_db demo_app))" "plan_expired (ap_now demo_app) demo_user"
    "expired_pu ''1'' = Some (u_ID demo_user)" "u_ID u = u_ID demo_user"
    using l(2) by (simp_all add: demo_app_def demo_user_def plan_expired_def expired_pu_def)
  from admin_plan_lost_at_login [OF demo_calm demo_constraints d(1,2,3) s l(1) d(4)] l(1)
  show ?thesis by blast
qed

section \<open>Deleting an account\<close>

text \<open>
  The foreign key of \<open>lab_sessions\<close> cascades as well: the statement that deletes the user deletes the
  rows of the user's sessions.
\<close>

definition delete_account :: "uuid \<Rightarrow> 's world \<Rightarrow> app \<Rightarrow> 's world \<times> app \<times> gerr option" where
  "delete_account i w a =
     (case usersDelete a i of (a1, r) \<Rightarrow>
        (if i \<in> set (user_ids (ap_db a)) \<and> i \<notin> set (user_ids (ap_db a1))
         then w\<lparr>w_rows := filter (\<lambda>s. s_UserID s \<noteq> i) (w_rows w)\<rparr> else w, a1, r))"

lemma constraints_delete:
  assumes "constraints_ok d"
  shows "constraints_ok (delete_user i d)"
proof -
  have u: "set (user_ids (delete_user i d)) = set (user_ids d) - {i}"
    by (auto simp: user_ids_def delete_user_def Let_def)
  have du: "distinct (user_ids (delete_user i d))"
    using assms by (simp add: constraints_ok_def user_ids_def delete_user_def Let_def distinct_map_filter)
  have t: "tm_TeamID m \<in> set (map te_ID (db_teams (delete_user i d)))"
    if "m \<in> set (db_members (delete_user i d))" for m
    using that assms by (fastforce simp: constraints_ok_def delete_user_def Let_def list_all_iff)
  have k: "db_users (delete_user i d) = filter (\<lambda>u. u_ID u \<noteq> i) (db_users d)"
    "db_tokens (delete_user i d) = filter (\<lambda>t. rt_UserID t \<noteq> i) (db_tokens d)"
    "db_progress (delete_user i d) = filter (\<lambda>p. up_UserID p \<noteq> i) (db_progress d)"
    "db_certs (delete_user i d) = filter (\<lambda>c. ce_UserID c \<noteq> i) (db_certs d)"
    "db_teams (delete_user i d) = filter (\<lambda>t. te_OwnerID t \<noteq> i) (db_teams d)"
    "db_labs (delete_user i d) = db_labs d"
    by (simp_all add: delete_user_def Let_def)
  have m: "set (db_members (delete_user i d)) \<subseteq> {m \<in> set (db_members d). tm_UserID m \<noteq> i}"
    "distinct (map member_key (db_members (delete_user i d)))"
    using assms by (auto simp: delete_user_def Let_def constraints_ok_def distinct_map_filter)
  show ?thesis
    using assms u du t m unfolding constraints_ok_def k
    by (auto simp: distinct_map_filter list_all_iff)
qed

text \<open>
  C33: deleting an account.  When the statement does not fail, no table refers to the user any more, the
  rows of the other users stay, and the constraints hold; but the compute host is not told: a project
  the user had there stays, and no row of the session table leads to it any more.
\<close>

theorem account_deletion:
  assumes "calm a" "constraints_ok (ap_db a)" "i \<in> set (user_ids (ap_db a))"
    and "delete_account i w a = (w', a', r)"
  shows "r = None \<and> constraints_ok (ap_db a') \<and> i \<notin> set (user_ids (ap_db a'))
    \<and> list_all (\<lambda>p. up_UserID p \<noteq> i) (db_progress (ap_db a'))
    \<and> list_all (\<lambda>c. ce_UserID c \<noteq> i) (db_certs (ap_db a'))
    \<and> list_all (\<lambda>m. tm_UserID m \<noteq> i) (db_members (ap_db a'))
    \<and> db_users (ap_db a') = filter (\<lambda>u. u_ID u \<noteq> i) (db_users (ap_db a))
    \<and> w_rows w' = filter (\<lambda>s. s_UserID s \<noteq> i) (w_rows w) \<and> w_srv w' = w_srv w"
proof -
  have c: "constraints_ok (delete_user i (ap_db a))" using constraints_delete assms(2) .
  have d: "usersDelete a i = (a\<lparr>ap_db := delete_user i (ap_db a)\<rparr>, None)"
    using assms(1) c by (simp add: usersDelete_def)
  have n: "i \<notin> set (user_ids (delete_user i (ap_db a)))" by (auto simp: user_ids_def delete_user_def Let_def)
  have e: "a' = a\<lparr>ap_db := delete_user i (ap_db a)\<rparr>" "r = None"
    "w' = w\<lparr>w_rows := filter (\<lambda>s. s_UserID s \<noteq> i) (w_rows w)\<rparr>"
    using assms(3,4) d n by (auto simp: delete_account_def)
  show ?thesis using c n by (simp add: e) (simp add: delete_user_def Let_def list_all_iff)
qed

theorem account_deletion_witness:
  "db_users (ap_db (fst (snd (delete_account 1
     \<lparr>w_rows = [], w_fresh = 0, w_faults = [], w_now = 0, w_srv = (5::int)\<rparr> demo_app)))) = []"
proof -
  let ?w = "\<lparr>w_rows = [], w_fresh = 0, w_faults = [], w_now = 0, w_srv = (5::int)\<rparr>"
  obtain w' a' r where d: "delete_account 1 ?w demo_app = (w', a', r)" by (metis prod_cases3)
  have u: "db_users (ap_db demo_app) = [demo_user]" "u_ID demo_user = 1"
    by (simp_all add: demo_app_def demo_user_def)
  then have i: "1 \<in> set (user_ids (ap_db demo_app))" by (simp add: user_ids_def)
  from account_deletion [OF demo_calm demo_constraints i d]
  have "db_users (ap_db a') = []" by (simp add: u)
  then show ?thesis unfolding d by simp
qed

end
