(* ===== verification/LabContent.thy ===== *)
theory LabContent
  imports AppDb Response LabCatalog
begin

text \<open>
  \<open>internal/labs\<close> (\<open>repository.go\<close>, \<open>service.go\<close>, \<open>handler.go\<close>) and \<open>pkg/storage/s3.go\<close>: the lab
  catalogue, what a caller sees of a lab, and the download link of its configuration.  The tables of
  the catalogue are only written by migrations, so they are an argument of every operation.
\<close>

section \<open>The catalogue\<close>

record LabPhase =
  lp_ID :: uuid
  lp_LabID :: int
  lp_Phase :: string
  lp_Title :: string
  lp_Content :: string
  lp_IsProOnly :: bool

record Lab =
  lab_ID :: int
  lab_Slug :: string
  lab_Title :: string
  lab_Topic :: string
  lab_Difficulty :: string
  lab_IsFree :: bool
  lab_SortOrder :: int
  lab_ShortDesc :: string
  lab_BookRef :: string
  lab_HasLiveSession :: bool
  lab_Phases :: "LabPhase list"

text \<open>\<open>lt_Legend\<close> is the text of the JSON value.\<close>

record LabTopology =
  lt_LabID :: int
  lt_SVGSmall :: string
  lt_SVGLarge :: string
  lt_Legend :: string

text \<open>The rows of the tables, with their nullable columns.\<close>

record lab_row =
  lr_ID :: int
  lr_Slug :: string
  lr_Title :: string
  lr_Topic :: string
  lr_Difficulty :: string
  lr_IsFree :: bool
  lr_SortOrder :: int
  lr_ShortDesc :: "string option"
  lr_BookRef :: "string option"

record topology_row =
  tr_LabID :: int
  tr_SVGSmall :: string
  tr_SVGLarge :: string
  tr_Legend :: "string option"

record config_row =
  cr_LabID :: int
  cr_StorageKey :: string
  cr_Filename :: string

record content =
  ct_labs :: "lab_row list"
  ct_phases :: "LabPhase list"
  ct_topologies :: "topology_row list"
  ct_configs :: "config_row list"

definition coalesce :: "'a \<Rightarrow> 'a option \<Rightarrow> 'a" where
  "coalesce z x = (case x of None \<Rightarrow> z | Some y \<Rightarrow> y)"

section \<open>The repository\<close>

definition ErrLabNotFound :: gerr where "ErrLabNotFound = Sentinel ''lab not found''"

definition scan_lab :: "lab_row \<Rightarrow> Lab" where
  "scan_lab r = \<lparr>lab_ID = lr_ID r, lab_Slug = lr_Slug r, lab_Title = lr_Title r, lab_Topic = lr_Topic r,
     lab_Difficulty = lr_Difficulty r, lab_IsFree = lr_IsFree r, lab_SortOrder = lr_SortOrder r,
     lab_ShortDesc = coalesce [] (lr_ShortDesc r), lab_BookRef = coalesce [] (lr_BookRef r),
     lab_HasLiveSession = False, lab_Phases = []\<rparr>"

definition select_labs :: "content \<Rightarrow> string \<Rightarrow> string \<Rightarrow> Lab list" where
  "select_labs ct topic difficulty =
     map scan_lab (order_by (\<lambda>x y. lr_SortOrder x \<le> lr_SortOrder y)
       (filter (\<lambda>r. (topic = [] \<or> lr_Topic r = topic) \<and> (difficulty = [] \<or> lr_Difficulty r = difficulty))
         (ct_labs ct)))"

definition labsList :: "content \<Rightarrow> app \<Rightarrow> string \<Rightarrow> string \<Rightarrow> app \<times> (gerr + Lab list)" where
  "labsList ct a topic difficulty =
     (case sql_query (\<lambda>_. select_labs ct topic difficulty) a of
        (a1, Inl e) \<Rightarrow> (a1, Inl (Wrapf ''list labs: '' e []))
      | (a1, Inr ls) \<Rightarrow> (a1, Inr ls))"

text \<open>A query for one row of a lab; an id out of range never reaches the server.\<close>

definition lab_lookup :: "string \<Rightarrow> int \<Rightarrow> 'a option \<Rightarrow> app \<Rightarrow> app \<times> (gerr + 'a)" where
  "lab_lookup what labID row a =
     (if \<not> int4 labID then (a, Inl (Wrapf what err_int4 []))
      else case sql_row (\<lambda>_. row) a of
             (a1, Inl e) \<Rightarrow> (a1, Inl (if errors_is e pgx_ErrNoRows then ErrLabNotFound else Wrapf what e []))
           | (a1, Inr x) \<Rightarrow> (a1, Inr x))"

definition find_lab :: "content \<Rightarrow> int \<Rightarrow> lab_row option" where
  "find_lab ct labID = find (\<lambda>r. lr_ID r = labID) (ct_labs ct)"

definition labsGetByID :: "content \<Rightarrow> app \<Rightarrow> int \<Rightarrow> app \<times> (gerr + Lab)" where
  "labsGetByID ct a labID = lab_lookup ''GetByID: '' labID (map_option scan_lab (find_lab ct labID)) a"

text \<open>\<open>CASE phase WHEN 'build' THEN 1 ... END\<close>\<close>

definition phase_rank :: "string \<Rightarrow> nat" where
  "phase_rank ph = (if ph = PhaseBuild then 1 else if ph = PhaseAttack then 2 else if ph = PhaseHarden then 3 else 4)"

definition select_phases :: "content \<Rightarrow> int \<Rightarrow> LabPhase list" where
  "select_phases ct labID =
     order_by (\<lambda>p q. phase_rank (lp_Phase p) \<le> phase_rank (lp_Phase q))
       (filter (\<lambda>p. lp_LabID p = labID) (ct_phases ct))"

definition GetPhases :: "content \<Rightarrow> app \<Rightarrow> int \<Rightarrow> app \<times> (gerr + LabPhase list)" where
  "GetPhases ct a labID =
     (if \<not> int4 labID then (a, Inl (Wrapf ''get phases: '' err_int4 []))
      else case sql_query (\<lambda>_. select_phases ct labID) a of
             (a1, Inl e) \<Rightarrow> (a1, Inl (Wrapf ''get phases: '' e []))
           | (a1, Inr ps) \<Rightarrow> (a1, Inr ps))"

definition scan_topology :: "topology_row \<Rightarrow> LabTopology" where
  "scan_topology r = \<lparr>lt_LabID = tr_LabID r, lt_SVGSmall = tr_SVGSmall r, lt_SVGLarge = tr_SVGLarge r,
     lt_Legend = coalesce ''[]'' (tr_Legend r)\<rparr>"

definition GetTopology :: "content \<Rightarrow> app \<Rightarrow> int \<Rightarrow> app \<times> (gerr + LabTopology)" where
  "GetTopology ct a labID =
     lab_lookup ''GetTopology: '' labID
       (map_option scan_topology (find (\<lambda>r. tr_LabID r = labID) (ct_topologies ct))) a"

definition GetConfigKey :: "content \<Rightarrow> app \<Rightarrow> int \<Rightarrow> app \<times> (gerr + string \<times> string)" where
  "GetConfigKey ct a labID =
     lab_lookup ''GetConfigKey: '' labID
       (map_option (\<lambda>r. (cr_StorageKey r, cr_Filename r)) (find (\<lambda>r. cr_LabID r = labID) (ct_configs ct))) a"

section \<open>Object storage\<close>

text \<open>
  The client of the object store is third party: its operations are parameters over the state of the
  store.  A body is a string, with the size as the caller gives it.
\<close>

record 's minio =
  mn_BucketExists :: "string \<Rightarrow> 's \<Rightarrow> 's \<times> (gerr + bool)"
  mn_MakeBucket :: "string \<Rightarrow> 's \<Rightarrow> 's \<times> gerr option"
  mn_PutObject :: "string \<Rightarrow> string \<Rightarrow> string \<Rightarrow> int \<Rightarrow> string \<Rightarrow> 's \<Rightarrow> 's \<times> gerr option"
  mn_PresignedGetObject :: "string \<Rightarrow> string \<Rightarrow> int \<Rightarrow> gerr + string"
  mn_RemoveObject :: "string \<Rightarrow> string \<Rightarrow> 's \<Rightarrow> 's \<times> gerr option"

record 's storage =
  sc_mc :: "'s minio"
  sc_bucket :: string

definition storageNew :: "gerr + 's minio \<Rightarrow> string \<Rightarrow> 's \<Rightarrow> 's \<times> (gerr + 's storage)" where
  "storageNew client bucket s =
     (case client of
        Inl e \<Rightarrow> (s, Inl (Wrapf ''create minio client: '' e []))
      | Inr mc \<Rightarrow>
     (case mn_BucketExists mc bucket s of
        (s1, Inl e) \<Rightarrow> (s1, Inl (Wrapf ''check bucket: '' e []))
      | (s1, Inr True) \<Rightarrow> (s1, Inr \<lparr>sc_mc = mc, sc_bucket = bucket\<rparr>)
      | (s1, Inr False) \<Rightarrow>
          (case mn_MakeBucket mc bucket s1 of
             (s2, Some e) \<Rightarrow> (s2, Inl (Wrapf ''create bucket: '' e []))
           | (s2, None) \<Rightarrow> (s2, Inr \<lparr>sc_mc = mc, sc_bucket = bucket\<rparr>))))"

definition Upload :: "'s storage \<Rightarrow> string \<Rightarrow> string \<Rightarrow> int \<Rightarrow> string \<Rightarrow> 's \<Rightarrow> 's \<times> gerr option" where
  "Upload c key body len contentType s =
     (case mn_PutObject (sc_mc c) (sc_bucket c) key body len contentType s of
        (s1, Some e) \<Rightarrow> (s1, Some (Wrapf (''upload '' @ key @ '': '') e []))
      | (s1, None) \<Rightarrow> (s1, None))"

definition PresignedDownloadURL :: "'s storage \<Rightarrow> string \<Rightarrow> int \<Rightarrow> gerr + string" where
  "PresignedDownloadURL c key expiry =
     (case mn_PresignedGetObject (sc_mc c) (sc_bucket c) key expiry of
        Inl e \<Rightarrow> Inl (Wrapf (''presign '' @ key @ '': '') e [])
      | Inr u \<Rightarrow> Inr u)"

definition storageDelete :: "'s storage \<Rightarrow> string \<Rightarrow> 's \<Rightarrow> 's \<times> gerr option" where
  "storageDelete c key s = mn_RemoveObject (sc_mc c) (sc_bucket c) key s"

section \<open>The service\<close>

definition visible_phases :: "bool \<Rightarrow> bool \<Rightarrow> LabPhase list \<Rightarrow> LabPhase list" where
  "visible_phases isPro isFree phases =
     (if \<not> isPro \<and> \<not> isFree
      then map (\<lambda>p. p\<lparr>lp_Content := []\<rparr>) (filter (\<lambda>p. lp_Phase p = PhaseBuild) phases)
      else phases)"

definition GetLabForUser :: "content \<Rightarrow> app \<Rightarrow> int \<Rightarrow> bool \<Rightarrow> app \<times> (gerr + Lab)" where
  "GetLabForUser ct a labID isPro =
     (case labsGetByID ct a labID of
        (a1, Inl e) \<Rightarrow> (a1, Inl e)
      | (a1, Inr lab) \<Rightarrow>
     (case GetPhases ct a1 labID of
        (a2, Inl e) \<Rightarrow> (a2, Inl e)
      | (a2, Inr phases) \<Rightarrow>
          (a2, Inr (lab\<lparr>lab_HasLiveSession := HasLiveSession labID,
                        lab_Phases := visible_phases isPro (lab_IsFree lab) phases\<rparr>))))"

definition GetPresignedURL :: "content \<Rightarrow> 's storage \<Rightarrow> app \<Rightarrow> int \<Rightarrow> app \<times> (gerr + string)" where
  "GetPresignedURL ct c a labID =
     (case GetConfigKey ct a labID of
        (a1, Inl e) \<Rightarrow> (a1, Inl (if errors_is e ErrLabNotFound then ErrLabNotFound else e))
      | (a1, Inr (key, filename)) \<Rightarrow> (a1, PresignedDownloadURL c key 3600000000000))"

section \<open>The handlers\<close>

datatype lab_data = LabsJSON "Lab list" | LabJSON Lab | TopologyJSON LabTopology | DownloadURL string

definition handle_labs_list :: "content \<Rightarrow> app \<Rightarrow> string \<Rightarrow> string \<Rightarrow> app \<times> lab_data reply" where
  "handle_labs_list ct a topic difficulty =
     (case labsList ct a topic difficulty of
        (a1, Inl e) \<Rightarrow> (a1, InternalError)
      | (a1, Inr ls) \<Rightarrow> (a1, JSON 200 (LabsJSON ls)))"

definition lab_reply :: "lab_data reply \<Rightarrow> app \<times> (gerr + lab_data) \<Rightarrow> app \<times> lab_data reply" where
  "lab_reply missing r =
     (case r of
        (a1, Inl e) \<Rightarrow> (a1, if errors_is e ErrLabNotFound then missing else InternalError)
      | (a1, Inr d) \<Rightarrow> (a1, JSON 200 d))"

definition handle_lab_get :: "content \<Rightarrow> app \<Rightarrow> Claims option \<Rightarrow> string \<Rightarrow> app \<times> lab_data reply" where
  "handle_lab_get ct a claims idParam =
     (case atoi idParam of
        (_, Some e) \<Rightarrow> (a, Error 400 ''invalid lab id'')
      | (labID, None) \<Rightarrow>
          let isPro = (case claims of None \<Rightarrow> False | Some c \<Rightarrow> IsProOrAbove (Some c)) in
          lab_reply NotFound (apsnd (map_sum id LabJSON) (GetLabForUser ct a labID isPro)))"

definition handle_lab_topology :: "content \<Rightarrow> app \<Rightarrow> string \<Rightarrow> app \<times> lab_data reply" where
  "handle_lab_topology ct a idParam =
     (case atoi idParam of
        (_, Some e) \<Rightarrow> (a, Error 400 ''invalid lab id'')
      | (labID, None) \<Rightarrow> lab_reply NotFound (apsnd (map_sum id TopologyJSON) (GetTopology ct a labID)))"

definition handle_lab_config :: "content \<Rightarrow> 's storage \<Rightarrow> app \<Rightarrow> string \<Rightarrow> app \<times> lab_data reply" where
  "handle_lab_config ct c a idParam =
     (case atoi idParam of
        (_, Some e) \<Rightarrow> (a, Error 400 ''invalid lab id'')
      | (labID, None) \<Rightarrow>
          lab_reply (Error 404 ''config file not yet available for this lab'')
            (apsnd (map_sum id DownloadURL) (GetPresignedURL ct c a labID)))"

section \<open>Order\<close>

lemma set_insert_by [simp]: "set (insert_by le x xs) = insert x (set xs)"
  by (induction xs) auto

lemma set_order_by [simp]: "set (order_by le xs) = set xs"
  by (induction xs) (simp_all add: order_by_def)

lemma length_order_by [simp]: "length (order_by le xs) = length xs"
proof -
  have "length (insert_by le x ys) = Suc (length ys)" for x ys by (induction ys) auto
  then show ?thesis by (induction xs) (simp_all add: order_by_def)
qed

lemma sorted_order_by: "sorted (map f (order_by (\<lambda>x y. f x \<le> (f y :: 'k :: linorder)) xs))"
proof -
  have "sorted (map f ys) \<Longrightarrow> sorted (map f (insert_by (\<lambda>x y. f x \<le> f y) x ys))" for x ys
    by (induction ys) auto
  then show ?thesis by (induction xs) (simp_all add: order_by_def)
qed

lemma build_phases_kept:
  "filter (\<lambda>p. lp_Phase p = PhaseBuild) (order_by (\<lambda>p q. phase_rank (lp_Phase p) \<le> phase_rank (lp_Phase q)) ps)
     = filter (\<lambda>p. lp_Phase p = PhaseBuild) ps"
  (is "?F (order_by ?le ps) = _")
proof -
  have "?F (insert_by ?le p qs) = (if lp_Phase p = PhaseBuild then p # ?F qs else ?F qs)" for p qs
  proof (cases "lp_Phase p = PhaseBuild")
    case True
    then have "insert_by ?le p qs = p # qs"
      by (cases qs) (simp_all add: phase_rank_def PhaseBuild_def PhaseAttack_def PhaseHarden_def)
    then show ?thesis using True by simp
  next
    case False
    have "?F (insert_by ?le p qs) = ?F qs" by (induction qs) (use False in auto)
    then show ?thesis using False by simp
  qed
  then show ?thesis by (induction ps) (simp_all add: order_by_def)
qed

section \<open>The paywall\<close>

text \<open>What an unpaid caller may know of a lab: its row and the shell of its build phase.\<close>

definition shell :: "content \<Rightarrow> int \<Rightarrow> lab_row option \<times> LabPhase list" where
  "shell ct labID =
     (find_lab ct labID,
      map (\<lambda>p. p\<lparr>lp_Content := []\<rparr>)
        (filter (\<lambda>p. lp_LabID p = labID \<and> lp_Phase p = PhaseBuild) (ct_phases ct)))"

lemma unpaid_view:
  assumes "find_lab ct labID = Some row" "\<not> lr_IsFree row"
  shows "visible_phases False (lr_IsFree row) (select_phases ct labID) = snd (shell ct labID)"
  using assms(2)
  by (simp add: visible_phases_def select_phases_def build_phases_kept shell_def conj_commute)

lemma GetLabForUser_unpaid:
  assumes "shell ct labID = shell ct' labID"
    and "\<And>row. find_lab ct labID = Some row \<Longrightarrow> \<not> lr_IsFree row"
  shows "GetLabForUser ct a labID False = GetLabForUser ct' a labID False"
proof -
  have f: "find_lab ct' labID = find_lab ct labID" using assms(1) by (simp add: shell_def)
  have g: "labsGetByID ct' a labID = labsGetByID ct a labID" by (simp add: labsGetByID_def f)
  have ph: "(case GetPhases ct b labID of (a2, Inl e) \<Rightarrow> (a2, Inl e)
      | (a2, Inr phases) \<Rightarrow> (a2, Inr (lab\<lparr>lab_HasLiveSession := h, lab_Phases := visible_phases False free phases\<rparr>)))
    = (case GetPhases ct' b labID of (a2, Inl e) \<Rightarrow> (a2, Inl e)
      | (a2, Inr phases) \<Rightarrow> (a2, Inr (lab\<lparr>lab_HasLiveSession := h, lab_Phases := visible_phases False free phases\<rparr>)))"
    if "find_lab ct labID = Some row" "free = lr_IsFree row" for row free b h and lab :: Lab
  proof -
    have v: "visible_phases False free (select_phases ct labID) = visible_phases False free (select_phases ct' labID)"
      using unpaid_view [OF that(1)] unpaid_view [of ct' labID row] that assms f by simp
    show ?thesis
      by (simp add: GetPhases_def sql_query_def v split: prod.splits stmt_outcome.splits)
  qed
  have row: "\<exists>row. find_lab ct labID = Some row \<and> lab_IsFree lab = lr_IsFree row"
    if "labsGetByID ct a labID = (b, Inr lab)" for b lab
    using that
    by (auto simp: labsGetByID_def lab_lookup_def sql_row_def sql_query_def scan_lab_def
        split: if_splits prod.splits sum.splits option.splits stmt_outcome.splits)
  obtain b q where bq: "labsGetByID ct a labID = (b, q)" by fastforce
  show ?thesis
  proof (cases q)
    case (Inl e)
    then show ?thesis using bq g by (simp add: GetLabForUser_def)
  next
    case (Inr lab)
    then obtain row where r: "find_lab ct labID = Some row" "lab_IsFree lab = lr_IsFree row"
      using row bq by blast
    show ?thesis using ph [OF r, where b = b and lab = lab and h = "HasLiveSession labID"] bq g Inr by (simp add: GetLabForUser_def)
  qed
qed

text \<open>
  C31: the paywall.  What a caller without a paid plan, or without a token, gets for a lab that is not
  free is the same for any two catalogues that agree on the lab's row and on its build phase up to the
  content: nothing of any content and nothing of the other phases reaches the answer.
\<close>

theorem paywall_hides_content:
  assumes "atoi idParam = (labID, None)" "shell ct labID = shell ct' labID"
    and "\<not> IsProOrAbove claims" "pred_option (\<lambda>row. \<not> lr_IsFree row) (find_lab ct labID)"
  shows "handle_lab_get ct a claims idParam = handle_lab_get ct' a claims idParam"
proof -
  have "GetLabForUser ct a labID False = GetLabForUser ct' a labID False"
    using assms(2,4) by (intro GetLabForUser_unpaid) auto
  then show ?thesis
    using assms(1,3) by (auto simp: handle_lab_get_def Let_def split: option.splits)
qed

definition demo_phase :: "uuid \<Rightarrow> string \<Rightarrow> string \<Rightarrow> LabPhase" where
  "demo_phase i ph text = \<lparr>lp_ID = i, lp_LabID = 15, lp_Phase = ph, lp_Title = ''T'', lp_Content = text,
     lp_IsProOnly = True\<rparr>"

definition demo_content :: "LabPhase list \<Rightarrow> content" where
  "demo_content ps = \<lparr>ct_labs = [\<lparr>lr_ID = 15, lr_Slug = ''root'', lr_Title = ''R'', lr_Topic = ''stp'',
       lr_Difficulty = ''hard'', lr_IsFree = False, lr_SortOrder = 1, lr_ShortDesc = None, lr_BookRef = None\<rparr>],
     ct_phases = ps, ct_topologies = [], ct_configs = []\<rparr>"

definition demo_reader :: app where
  "demo_reader = \<lparr>ap_db = \<lparr>db_users = [], db_tokens = [], db_progress = [], db_phases = [], db_labs = [],
       db_certs = [], db_teams = [], db_members = []\<rparr>,
     ap_faults = [], ap_now = 0, ap_fresh = 0, ap_rand = []\<rparr>"

theorem paywall_hides_content_witness:
  "handle_lab_get (demo_content [demo_phase 1 ''harden'' ''secret'', demo_phase 2 ''build'' ''steps'']) demo_reader None ''15''
     = handle_lab_get (demo_content [demo_phase 2 ''build'' []]) demo_reader None ''15''"
proof -
  let ?c = "demo_content [demo_phase 1 ''harden'' ''secret'', demo_phase 2 ''build'' ''steps'']"
    and ?d = "demo_content [demo_phase 2 ''build'' []]"
  have s: "shell ?c 15 = shell ?d 15" by code_simp
  have f: "pred_option (\<lambda>row. \<not> lr_IsFree row) (find_lab ?c 15)"
    by (simp add: demo_content_def find_lab_def)
  have n: "atoi ''15'' = (15, None)" by code_simp
  have i: "\<not> IsProOrAbove None" by (simp add: IsProOrAbove_def HasPlan_def)
  show ?thesis by (rule paywall_hides_content [OF n s i f])
qed

text \<open>
  A paid caller, and everybody on a free lab, gets the whole lab: every phase of it once, with its
  content, in the order build, attack, harden, and the flag that says whether the lab can be started.
\<close>

theorem lab_detail_complete:
  assumes "calm a" "int4 labID" "find_lab ct labID = Some row" "isPro \<or> lr_IsFree row"
  shows "\<exists>lab. GetLabForUser ct a labID isPro = (a, Inr lab)
    \<and> lab_HasLiveSession lab = HasLiveSession labID \<and> lab_Title lab = lr_Title row
    \<and> set (lab_Phases lab) = {p \<in> set (ct_phases ct). lp_LabID p = labID}
    \<and> length (lab_Phases lab) = length (filter (\<lambda>p. lp_LabID p = labID) (ct_phases ct))
    \<and> sorted (map (\<lambda>p. phase_rank (lp_Phase p)) (lab_Phases lab))"
  using assms
  by (auto simp: GetLabForUser_def labsGetByID_def lab_lookup_def GetPhases_def scan_lab_def
      visible_phases_def select_phases_def sorted_order_by)

theorem lab_detail_complete_witness:
  "\<exists>lab. GetLabForUser (demo_content [demo_phase 1 ''harden'' ''end'', demo_phase 2 ''build'' ''start''])
       demo_reader 15 True = (demo_reader, Inr lab) \<and> length (lab_Phases lab) = 2"
proof -
  let ?c = "demo_content [demo_phase 1 ''harden'' ''end'', demo_phase 2 ''build'' ''start'']"
  have k: "calm demo_reader" "int4 15" by (simp_all add: calm_def demo_reader_def int4_def)
  obtain row where r: "find_lab ?c 15 = Some row" by (simp add: demo_content_def find_lab_def)
  have l: "length (filter (\<lambda>p. lp_LabID p = 15) (ct_phases ?c)) = 2"
    by (simp add: demo_content_def demo_phase_def)
  have p: "True \<or> lr_IsFree row" by simp
  from lab_detail_complete [OF k r p] l show ?thesis by metis
qed

end
