(* ===== verification/RateLimit.thy ===== *)
theory RateLimit
  imports Prelude
begin

text \<open>
  \<open>pkg/ratelimit/ratelimit.go\<close>: the token bucket per client address.  Tokens are counted exactly, in
  sixty-thousand-millionths of a token: with a limit of \<open>n\<close> requests a minute, \<open>n\<close> of these units
  arrive every nanosecond.  (The code counts in \<open>float64\<close>, with its rounding.)  A request and a
  clean-up are one step each.
\<close>

section \<open>Buckets\<close>

definition token :: int where "token = 60000000000"

record bucket =
  bk_tokens :: int
  bk_lastSeen :: int

record Limiter =
  lm_buckets :: "(string, bucket) gomap"
  lm_rate :: int
  lm_capacity :: int

definition ratelimitNew :: "int \<Rightarrow> Limiter" where
  "ratelimitNew ratePerMinute =
     \<lparr>lm_buckets = [], lm_rate = ratePerMinute, lm_capacity = ratePerMinute * token\<rparr>"

definition fresh_bucket :: "Limiter \<Rightarrow> int \<Rightarrow> bucket" where
  "fresh_bucket l now = \<lparr>bk_tokens = lm_capacity l, bk_lastSeen = now\<rparr>"

definition refill :: "Limiter \<Rightarrow> bucket \<Rightarrow> int \<Rightarrow> int" where
  "refill l b now = min (lm_capacity l) (bk_tokens b + (now - bk_lastSeen b) * lm_rate l)"

definition allow :: "Limiter \<Rightarrow> string \<Rightarrow> int \<Rightarrow> Limiter \<times> bool" where
  "allow l ip now =
     (let b = mget0 (fresh_bucket l now) (lm_buckets l) ip;
          tokens = refill l b now;
          ok = (token \<le> tokens);
          b' = \<lparr>bk_tokens = (if ok then tokens - token else tokens), bk_lastSeen = now\<rparr>
      in (l\<lparr>lm_buckets := mput ip b' (lm_buckets l)\<rparr>, ok))"

definition cleanup :: "Limiter \<Rightarrow> int \<Rightarrow> Limiter" where
  "cleanup l now =
     (let cutoff = now - 600000000000 in
      l\<lparr>lm_buckets := filter (\<lambda>e. \<not> bk_lastSeen (snd e) < cutoff) (lm_buckets l)\<rparr>)"

section \<open>The middleware\<close>

text \<open>\<open>net.SplitHostPort\<close>, the host only.\<close>

definition split_host :: "string \<Rightarrow> string option" where
  "split_host s =
     (if CHR '':'' \<notin> set s then None
      else
        let port = takeWhile (\<lambda>c. c \<noteq> CHR '':'') (rev s);
            before = take (length s - length port - 1) s
        in if take 1 s = ''[''
           then (let host = takeWhile (\<lambda>c. c \<noteq> CHR '']'') (tl s); rest = drop (length host + 2) s in
                 if CHR '']'' \<notin> set s \<or> length host + 2 \<noteq> length before
                   \<or> CHR ''['' \<in> set (tl s) \<or> CHR '']'' \<in> set rest
                 then None else Some host)
           else if CHR '':'' \<in> set before \<or> CHR ''['' \<in> set s \<or> CHR '']'' \<in> set s then None
           else Some before)"

definition client_ip :: "string \<Rightarrow> string" where
  "client_ip remoteAddr = (case split_host remoteAddr of None \<Rightarrow> remoteAddr | Some h \<Rightarrow> h)"

datatype 'r limited = TooManyRequests | Passed 'r

definition ratelimitMiddleware :: "Limiter \<Rightarrow> (unit \<Rightarrow> 'r) \<Rightarrow> string \<Rightarrow> int \<Rightarrow> Limiter \<times> 'r limited" where
  "ratelimitMiddleware l next_h remoteAddr now =
     (case allow l (client_ip remoteAddr) now of
        (l1, ok) \<Rightarrow> (l1, if ok then Passed (next_h ()) else TooManyRequests))"

section \<open>Histories\<close>

datatype event = Request string int | Cleanup int

primrec event_time :: "event \<Rightarrow> int" where
  "event_time (Request ip t) = t"
| "event_time (Cleanup t) = t"

primrec limiter_step :: "Limiter \<Rightarrow> event \<Rightarrow> Limiter" where
  "limiter_step l (Request ip t) = fst (allow l ip t)"
| "limiter_step l (Cleanup t) = cleanup l t"

text \<open>The answers to the requests of a history.\<close>

fun answers :: "Limiter \<Rightarrow> event list \<Rightarrow> (string \<times> bool) list" where
  "answers l [] = []"
| "answers l (Request ip t # es) = (case allow l ip t of (l1, ok) \<Rightarrow> (ip, ok) # answers l1 es)"
| "answers l (Cleanup t # es) = answers (cleanup l t) es"

definition served :: "string \<Rightarrow> (string \<times> bool) list \<Rightarrow> int" where
  "served ip as = int (length (filter (\<lambda>a. a = (ip, True)) as))"

section \<open>What a bucket is worth\<close>

text \<open>The units a client could draw on at a time.\<close>

definition level :: "Limiter \<Rightarrow> string \<Rightarrow> int \<Rightarrow> int" where
  "level l ip now = refill l (mget0 (fresh_bucket l now) (lm_buckets l) ip) now"

definition limiter_ok :: "Limiter \<Rightarrow> int \<Rightarrow> bool" where
  "limiter_ok l now =
     (0 \<le> lm_rate l \<and> lm_capacity l = lm_rate l * token \<and> gomap_ok (lm_buckets l)
      \<and> list_all (\<lambda>e. 0 \<le> bk_tokens (snd e) \<and> bk_tokens (snd e) \<le> lm_capacity l \<and> bk_lastSeen (snd e) \<le> now)
          (lm_buckets l))"

lemma limiter_ok_bucket:
  "limiter_ok l now \<Longrightarrow> mget (lm_buckets l) ip = Some b \<Longrightarrow>
     0 \<le> bk_tokens b \<and> bk_tokens b \<le> lm_capacity l \<and> bk_lastSeen b \<le> now"
  by (auto simp: limiter_ok_def list_all_iff dest!: map_of_SomeD)

lemma limiter_ok_later: "limiter_ok l t \<Longrightarrow> t \<le> u \<Longrightarrow> limiter_ok l u"
  by (auto simp: limiter_ok_def list_all_iff)

lemma level_fresh: "mget (lm_buckets l) ip = None \<Longrightarrow> level l ip t = lm_capacity l"
  by (simp add: level_def refill_def fresh_bucket_def mget0_def)

lemma level_bounds:
  assumes "limiter_ok l t" "t \<le> u"
  shows "0 \<le> level l ip u" "level l ip u \<le> lm_capacity l"
proof -
  have r: "0 \<le> lm_rate l" "0 \<le> lm_capacity l" using assms(1) by (auto simp: limiter_ok_def token_def)
  show "0 \<le> level l ip u"
  proof (cases "mget (lm_buckets l) ip")
    case (Some b)
    then have "0 \<le> bk_tokens b" "0 \<le> (u - bk_lastSeen b) * lm_rate l"
      using limiter_ok_bucket [OF assms(1)] assms(2) r(1) by fastforce+
    then show ?thesis using Some r(2) by (simp add: level_def refill_def mget0_def)
  qed (use r(2) in \<open>simp add: level_fresh\<close>)
  show "level l ip u \<le> lm_capacity l" by (simp add: level_def refill_def)
qed

text \<open>Waiting adds at most the rate, and never takes away.\<close>

lemma level_wait:
  assumes "limiter_ok l s" "s \<le> t" "t \<le> u"
  shows "level l ip u \<le> level l ip t + (u - t) * lm_rate l" "level l ip t \<le> level l ip u"
    "level l ip u = min (lm_capacity l) (level l ip t + (u - t) * lm_rate l)"
proof -
  have r: "0 \<le> lm_rate l" "0 \<le> (u - t) * lm_rate l" using assms by (auto simp: limiter_ok_def)
  show *: "level l ip u = min (lm_capacity l) (level l ip t + (u - t) * lm_rate l)"
  proof (cases "mget (lm_buckets l) ip")
    case None
    then show ?thesis using r(2) by (simp add: level_fresh)
  next
    case (Some b)
    have "(u - bk_lastSeen b) * lm_rate l = (t - bk_lastSeen b) * lm_rate l + (u - t) * lm_rate l"
      by (simp add: algebra_simps)
    then show ?thesis using Some r(2) by (simp add: level_def refill_def mget0_def min_def)
  qed
  show "level l ip u \<le> level l ip t + (u - t) * lm_rate l" using * by simp
  show "level l ip t \<le> level l ip u" using * r(2) by (simp add: level_def refill_def)
qed

section \<open>Steps\<close>

lemma allow_result:
  assumes "allow l ip t = (l1, ok)"
  shows "ok = (token \<le> level l ip t)"
    "lm_rate l1 = lm_rate l" "lm_capacity l1 = lm_capacity l"
    "mget (lm_buckets l1) = (mget (lm_buckets l))
       (ip \<mapsto> \<lparr>bk_tokens = level l ip t - (if ok then token else 0), bk_lastSeen = t\<rparr>)"
  using assms by (auto simp: allow_def Let_def level_def)

lemma allow_level:
  assumes "limiter_ok l t" "allow l ip t = (l1, ok)"
  shows "level l1 ip' t = level l ip' t - (if ok \<and> ip' = ip then token else 0)"
proof (cases "ip' = ip")
  case True
  have "0 \<le> level l ip t" "level l ip t \<le> lm_capacity l" using level_bounds [OF assms(1)] by auto
  moreover have "level l1 ip t = min (lm_capacity l) (level l ip t - (if ok then token else 0))"
    using allow_result(3,4) [OF assms(2)] by (simp add: level_def [of l1] refill_def mget0_def)
  ultimately show ?thesis using True by (simp add: token_def min_def)
next
  case False
  then show ?thesis
    using allow_result(2,3,4) [OF assms(2)] by (simp add: level_def refill_def mget0_def fresh_bucket_def)
qed

lemma set_update: "set (mput k v m) \<subseteq> insert (k, v) (set m)"
  by (induction m) auto

lemma allow_ok:
  assumes "limiter_ok l t" "allow l ip t = (l1, ok)"
  shows "limiter_ok l1 t"
proof -
  note a = allow_result [OF assms(2)]
  obtain b where b: "lm_buckets l1 = mput ip b (lm_buckets l)"
    "b = \<lparr>bk_tokens = level l ip t - (if ok then token else 0), bk_lastSeen = t\<rparr>"
    using assms(2) by (auto simp: allow_def Let_def level_def)
  have "0 \<le> bk_tokens b" "bk_tokens b \<le> lm_capacity l"
    using level_bounds [OF assms(1), of t ip] a(1) b(2) by (auto simp: token_def)
  then show ?thesis
    using assms(1) a(2,3) b set_update [of ip b "lm_buckets l"]
    by (fastforce simp: limiter_ok_def list_all_iff)
qed

lemma cleanup_get:
  assumes "gomap_ok (lm_buckets l)"
  shows "mget (lm_buckets (cleanup l t)) ip =
    (case mget (lm_buckets l) ip of None \<Rightarrow> None
     | Some b \<Rightarrow> if bk_lastSeen b < t - 600000000000 then None else Some b)"
proof -
  have "distinct (map fst m) \<Longrightarrow> map_of (filter (\<lambda>e. \<not> P (snd e)) m) k =
      (case map_of m k of None \<Rightarrow> None | Some v \<Rightarrow> if P v then None else Some v)" for m :: "('k \<times> 'v) list" and P k
    by (induction m) (auto simp: map_of_eq_None_iff split: option.splits dest: map_of_SomeD image_eqI)
  then show ?thesis using assms by (simp add: cleanup_def Let_def gomap_ok_def)
qed

text \<open>
  A client that was idle for ten minutes would have a full bucket: forgetting it changes nothing.
\<close>

lemma cleanup_level:
  assumes "limiter_ok l t" "t \<le> u"
  shows "level (cleanup l t) ip u = level l ip u"
proof -
  have k: "lm_rate (cleanup l t) = lm_rate l" "lm_capacity (cleanup l t) = lm_capacity l"
    by (simp_all add: cleanup_def Let_def)
  have g: "gomap_ok (lm_buckets l)" using assms(1) by (simp add: limiter_ok_def)
  show ?thesis
  proof (cases "mget (lm_buckets l) ip")
    case None
    then show ?thesis using k cleanup_get [OF g, of t ip] by (simp add: level_fresh)
  next
    case (Some b)
    show ?thesis
    proof (cases "bk_lastSeen b < t - 600000000000")
      case True
      have r: "0 \<le> lm_rate l" "lm_capacity l = lm_rate l * token" "0 \<le> bk_tokens b"
        using assms(1) limiter_ok_bucket [OF assms(1) Some] by (auto simp: limiter_ok_def)
      have "token \<le> u - bk_lastSeen b" using True assms(2) by (simp add: token_def)
      then have "lm_capacity l \<le> (u - bk_lastSeen b) * lm_rate l"
        using mult_left_mono [of token "u - bk_lastSeen b" "lm_rate l"] r(1,2) by (simp add: mult.commute)
      then have "level l ip u = lm_capacity l" using Some r(3) by (simp add: level_def refill_def mget0_def)
      then show ?thesis using k cleanup_get [OF g, of t ip] Some True by (simp add: level_fresh)
    next
      case False
      then show ?thesis using k cleanup_get [OF g, of t ip] Some by (simp add: level_def refill_def mget0_def)
    qed
  qed
qed

lemma cleanup_ok: "limiter_ok l t \<Longrightarrow> limiter_ok (cleanup l t) t"
  by (auto simp: limiter_ok_def cleanup_def Let_def list_all_iff gomap_ok_def distinct_map_filter)

lemma cleanup_rate [simp]:
  "lm_rate (cleanup l t) = lm_rate l" "lm_capacity (cleanup l t) = lm_capacity l"
  by (simp_all add: cleanup_def Let_def)

lemma New_ok: "0 \<le> n \<Longrightarrow> limiter_ok (ratelimitNew n) t"
  by (simp add: limiter_ok_def ratelimitNew_def gomap_ok_def)

fun in_order :: "int \<Rightarrow> event list \<Rightarrow> bool" where
  "in_order t [] = True"
| "in_order t (e # es) = (t \<le> event_time e \<and> in_order (event_time e) es)"


section \<open>How many requests are let through\<close>

lemma step_ok:
  assumes "limiter_ok l t" "t \<le> event_time e"
  shows "limiter_ok (limiter_step l e) (event_time e)"
proof (cases e)
  case (Request ip u)
  then show ?thesis
    using allow_ok [OF limiter_ok_later [OF assms(1)], of u ip] assms(2) by (cases "allow l ip u") auto
next
  case (Cleanup u)
  then show ?thesis using cleanup_ok [OF limiter_ok_later [OF assms(1)], of u] assms(2) by simp
qed

lemma step_rate [simp]:
  "lm_rate (limiter_step l e) = lm_rate l" "lm_capacity (limiter_step l e) = lm_capacity l"
  by (cases e; simp add: allow_def cleanup_def Let_def)+



lemma foldl_rate [simp]:
  "lm_rate (foldl limiter_step l es) = lm_rate l" "lm_capacity (foldl limiter_step l es) = lm_capacity l"
  by (induction es arbitrary: l) simp_all



section \<open>Who is never refused\<close>

fun request_times :: "string \<Rightarrow> event list \<Rightarrow> int list" where
  "request_times ip [] = []"
| "request_times ip (Request ip' t # es) = (if ip' = ip then t # request_times ip es else request_times ip es)"
| "request_times ip (Cleanup t # es) = request_times ip es"

fun paced :: "int \<Rightarrow> int list \<Rightarrow> bool" where
  "paced n (s # t # ts) = (token \<le> (t - s) * n \<and> paced n (t # ts))"
| "paced n ts = True"

lemma served_paced:
  assumes "limiter_ok l t0" "in_order t0 es" "1 \<le> lm_rate l" "paced (lm_rate l) (request_times ip es)"
    and "case request_times ip es of [] \<Rightarrow> True | t # ts \<Rightarrow> token \<le> level l ip t"
  shows "served ip (answers l es) = int (length (request_times ip es))"
  using assms
proof (induction es arbitrary: l t0)
  case Nil
  then show ?case by (simp add: served_def)
next
  case (Cons e es)
  let ?u = "event_time e" and ?l = "limiter_step l e"
  have u: "t0 \<le> ?u" "in_order ?u es" using Cons.prems(2) by auto
  have ok: "limiter_ok l ?u" "limiter_ok ?l ?u"
    using limiter_ok_later [OF Cons.prems(1) u(1)] step_ok [OF Cons.prems(1) u(1)] by auto
  have later: "?u \<le> t" if "request_times ip es = t # ts" for t ts
  proof -
    have "in_order s es \<Longrightarrow> request_times ip es = t # ts \<Longrightarrow> s \<le> t" for s
      by (induction es arbitrary: s rule: request_times.induct) (auto split: if_splits dest: order_trans)
    then show ?thesis using u(2) that by blast
  qed
  have cap: "token \<le> lm_capacity l"
    using Cons.prems(1,3) mult_right_mono [of 1 "lm_rate l" token] by (simp add: limiter_ok_def token_def)
  show ?case
  proof (cases e)
    case (Cleanup t)
    have "token \<le> level ?l ip t'" if "request_times ip es = t' # ts" for t' ts
      using that later [OF that] Cons.prems(5) cleanup_level [OF ok(1)] Cleanup by simp
    then show ?thesis
      using Cons.IH [OF ok(2) u(2)] Cons.prems(3,4) Cleanup by (simp split: list.splits)
  next
    case (Request ip' t)
    obtain l1 k where a: "allow l ip' t = (l1, k)" by fastforce
    have lv: "level l1 ip t = level l ip t - (if k \<and> ip = ip' then token else 0)"
      using allow_level [OF _ a] ok(1) Request by simp
    have l1: "?l = l1" "lm_rate l1 = lm_rate l" "lm_capacity l1 = lm_capacity l"
      using a Request allow_result(2,3) [OF a] by auto
    have ok1: "limiter_ok l1 t" using ok(2) l1(1) Request by simp
    have grow: "level l1 ip t' = min (lm_capacity l) (level l1 ip t + (t' - t) * lm_rate l)" if "t \<le> t'" for t'
      unfolding l1(2,3) [symmetric] by (rule level_wait(3) [OF ok1 order_refl that])
    have base: "level l ip t' = min (lm_capacity l) (level l ip t + (t' - t) * lm_rate l)" if "t \<le> t'" for t'
    proof (rule level_wait(3) [OF _ order_refl that])
      show "limiter_ok l t" using ok(1) Request by simp
    qed
    show ?thesis
    proof (cases "ip' = ip")
      case True
      have k using Cons.prems(5) allow_result(1) [OF a] Request True by simp
      have nn: "0 \<le> level l1 ip t" using level_bounds(1) [OF ok1] by simp
      have "token \<le> level l1 ip t'" if r: "request_times ip es = t' # ts" for t' ts
      proof -
        have "token \<le> (t' - t) * lm_rate l" using Cons.prems(4) Request True r by simp
        moreover have "t \<le> t'" using later [OF r] Request by simp
        ultimately show ?thesis unfolding grow [OF \<open>t \<le> t'\<close>] using nn cap by simp
      qed
      moreover have "paced (lm_rate l1) (request_times ip es)"
        using Cons.prems(4) Request True l1 by (cases "request_times ip es") auto
      ultimately have "served ip (answers l1 es) = int (length (request_times ip es))"
        using Cons.IH [of l1 t] ok1 u(2) Cons.prems(3) l1 Request by (simp split: list.splits)
      then show ?thesis using Request True a \<open>k\<close> by (simp add: served_def)
    next
      case False
      have "token \<le> level l1 ip t'" if "request_times ip es = t' # ts" for t' ts
      proof -
        have "t \<le> t'" using later [OF that] Request by simp
        moreover have "token \<le> level l ip t'" using Cons.prems(5) Request False that by simp
        ultimately show ?thesis unfolding grow [OF \<open>t \<le> t'\<close>] base [OF \<open>t \<le> t'\<close>] lv using False by simp
      qed
      then have "served ip (answers l1 es) = int (length (request_times ip es))"
        using Cons.IH [of l1 t] ok1 u(2) Cons.prems(3,4) l1 Request False by (simp split: list.splits)
      then show ?thesis using Request False a by (simp add: served_def)
    qed
  qed
qed

text \<open>A client that leaves enough time between its requests is never refused.\<close>

theorem paced_client_served:
  assumes "1 \<le> n" "in_order t es" "paced n (request_times ip es)"
  shows "served ip (answers (ratelimitNew n) es) = int (length (request_times ip es))"
proof -
  have "token \<le> level (ratelimitNew n) ip u" for u
    using assms(1) by (simp add: level_fresh ratelimitNew_def token_def)
  then show ?thesis
    using served_paced [OF New_ok [of n t] assms(2)] assms(1,3)
    by (simp add: ratelimitNew_def split: list.splits)
qed

section \<open>The clean-up cannot be seen\<close>

definition same_levels :: "int \<Rightarrow> Limiter \<Rightarrow> Limiter \<Rightarrow> bool" where
  "same_levels t l l' = (limiter_ok l t \<and> limiter_ok l' t \<and> lm_rate l = lm_rate l'
     \<and> (\<forall>ip u. t \<le> u \<longrightarrow> level l ip u = level l' ip u))"

fun is_request :: "event \<Rightarrow> bool" where
  "is_request (Request ip t) = True"
| "is_request (Cleanup t) = False"

lemma same_levels_answers:
  assumes "same_levels t l l'" "in_order t es"
  shows "answers l es = answers l' (filter is_request es)"
  using assms
proof (induction es arbitrary: t l l')
  case (Cons e es)
  let ?u = "event_time e"
  have u: "t \<le> ?u" "in_order ?u es" using Cons.prems(2) by auto
  have ok: "limiter_ok l ?u" "limiter_ok l' ?u" "lm_rate l = lm_rate l'"
    using Cons.prems(1) u(1) limiter_ok_later by (auto simp: same_levels_def)
  have lv: "level l ip v = level l' ip v" if "?u \<le> v" for ip v
    using Cons.prems(1) u(1) that by (simp add: same_levels_def)
  show ?case
  proof (cases e)
    case (Cleanup v)
    have "same_levels v (cleanup l v) l'"
      using ok lv Cleanup cleanup_ok [of l v] cleanup_level [of l v]
      by (simp add: same_levels_def)
    then show ?thesis using Cons.IH u(2) Cleanup by simp
  next
    case (Request ip v)
    obtain l1 k where a: "allow l ip v = (l1, k)" by fastforce
    obtain l2 k' where b: "allow l' ip v = (l2, k')" by fastforce
    have k: "k = k'" using allow_result(1) [OF a] allow_result(1) [OF b] lv Request by simp
    have o: "limiter_ok l1 v" "limiter_ok l2 v" using allow_ok [OF _ a] allow_ok [OF _ b] ok Request by auto
    have r: "lm_rate l1 = lm_rate l2" "lm_capacity l1 = lm_capacity l2"
      using allow_result(2) [OF a] allow_result(2) [OF b] ok(3) o by (auto simp: limiter_ok_def)
    have eq: "level l1 i v = level l2 i v" for i
      using allow_level [OF _ a] allow_level [OF _ b] ok lv Request k by simp
    have "level l1 i w = level l2 i w" if "v \<le> w" for i w
      unfolding level_wait(3) [OF o(1) order_refl that] level_wait(3) [OF o(2) order_refl that] eq r ..
    then have "same_levels v l1 l2" using o r by (simp add: same_levels_def)
    then show ?thesis using Cons.IH u(2) Request a b k by simp
  qed
qed simp

text \<open>
  Forgetting idle clients is invisible.  Whenever the clean-up runs, every request gets the answer
  it would get from a limiter that never forgets a client.
\<close>

theorem cleanup_unobservable:
  assumes "0 \<le> n" "in_order t es"
  shows "answers (ratelimitNew n) es = answers (ratelimitNew n) (filter is_request es)"
  using same_levels_answers [of t "ratelimitNew n" "ratelimitNew n"] assms New_ok
  by (simp add: same_levels_def)

theorem cleanup_unobservable_witness:
  "answers (ratelimitNew 1) [Request ''a'' 0, Cleanup 700000000000, Request ''a'' 700000000001]
     = answers (ratelimitNew 1) [Request ''a'' 0, Request ''a'' 700000000001]"
  using cleanup_unobservable [of 1 0 "[Request ''a'' 0, Cleanup 700000000000, Request ''a'' 700000000001]"]
  by simp

end
