(* ===== verification/Config.thy ===== *)
theory Config
  imports Prelude "HOL-Library.AList"
begin

text \<open>
  \<open>pkg/config/config.go\<close>, with \<open>time.ParseDuration\<close> and \<open>strconv.ParseBool\<close> of the standard library, and
  the parts of \<open>cmd/server/main.go\<close> that depend on the configuration.  The environment, after the
  \<open>.env\<close> file has been read, is a map.  Fractions of a duration are exact here; the library rounds them
  through \<open>float64\<close>.
\<close>

section \<open>Durations\<close>

definition err_duration :: gerr where "err_duration = Sentinel ''time: invalid duration''"

text \<open>\<open>unitMap\<close>; the micro sign has two spellings in UTF-8.\<close>

definition duration_units :: "(string \<times> nat) list" where
  "duration_units =
     [(''ns'', 1), (''us'', 1000), ([CHR 0xC2, CHR 0xB5, CHR ''s''], 1000), ([CHR 0xCE, CHR 0xBC, CHR ''s''], 1000),
      (''ms'', 1000000), (''s'', 1000000000), (''m'', 60000000000), (''h'', 3600000000000)]"

definition is_number_char :: "char \<Rightarrow> bool" where
  "is_number_char c = (c = CHR ''.'' \<or> is_digit c)"

text \<open>\<open>leadingFraction\<close>: the digits that fit, and the power of ten they are over.\<close>

fun leading_fraction :: "nat \<Rightarrow> nat \<Rightarrow> string \<Rightarrow> nat \<times> nat" where
  "leading_fraction x scale [] = (x, scale)"
| "leading_fraction x scale (c # cs) =
     (if (2 ^ 63 - 1) div 10 < x then (x, scale)
      else let y = 10 * x + digit_val c in
        if 2 ^ 63 < y then (x, scale) else leading_fraction y (10 * scale) cs)"

text \<open>One number with its unit: the nanoseconds, and the rest of the text.\<close>

definition duration_term :: "string \<Rightarrow> (nat \<times> string) option" where
  "duration_term s =
     (let ds = takeWhile is_digit s; s1 = dropWhile is_digit s;
          fs = (if take 1 s1 = ''.'' then takeWhile is_digit (tl s1) else []);
          s2 = (if take 1 s1 = ''.'' then dropWhile is_digit (tl s1) else s1);
          u = takeWhile (\<lambda>c. \<not> is_number_char c) s2;
          v = digits_val ds; (f, scale) = leading_fraction 0 1 fs
      in if ds = [] \<and> fs = [] \<or> 2 ^ 63 < v \<or> u = [] then None
         else (case map_of duration_units u of
                 None \<Rightarrow> None
               | Some unit \<Rightarrow>
                   if 2 ^ 63 div unit < v then None
                   else let w = v * unit + f * unit div scale in
                     if 2 ^ 63 < w then None else Some (w, dropWhile (\<lambda>c. \<not> is_number_char c) s2)))"

lemma duration_term_shorter: "duration_term s = Some (w, r) \<Longrightarrow> length r < length s"
proof -
  assume h: "duration_term s = Some (w, r)"
  define s1 where "s1 = dropWhile is_digit s"
  define s2 where "s2 = (if take 1 s1 = ''.'' then dropWhile is_digit (tl s1) else s1)"
  have u: "takeWhile (\<lambda>c. \<not> is_number_char c) s2 \<noteq> []" "r = dropWhile (\<lambda>c. \<not> is_number_char c) s2"
    using h by (auto simp: duration_term_def Let_def s1_def s2_def split: if_splits prod.splits option.splits)
  have "length r < length s2"
    using u by (metis length_dropWhile_le takeWhile_dropWhile_id append_self_conv2 le_neq_implies_less length_append
        add_cancel_left_left length_0_conv)
  also have "length s2 \<le> length s1"
    using length_dropWhile_le [of is_digit "tl s1"] by (auto simp: s2_def)
  also have "length s1 \<le> length s" by (simp add: s1_def length_dropWhile_le)
  finally show ?thesis .
qed

function duration_sum :: "nat \<Rightarrow> string \<Rightarrow> nat option" where
  "duration_sum d s =
     (if s = [] then Some d
      else case duration_term s of
             None \<Rightarrow> None
           | Some (w, r) \<Rightarrow> if 2 ^ 63 < d + w then None else duration_sum (d + w) r)"
  by pat_completeness auto

termination
  by (relation "measure (\<lambda>(d, s). length s)") (auto dest: duration_term_shorter)

declare duration_sum.simps [simp del]

definition ParseDuration :: "string \<Rightarrow> gerr + int" where
  "ParseDuration orig =
     (let neg = (take 1 orig = ''-''); s = (if take 1 orig = ''-'' \<or> take 1 orig = ''+'' then tl orig else orig) in
      if s = ''0'' then Inr 0
      else if s = [] then Inl err_duration
      else case duration_sum 0 s of
             None \<Rightarrow> Inl err_duration
           | Some d \<Rightarrow>
               if neg then Inr (- int d)
               else if 2 ^ 63 - 1 < d then Inl err_duration else Inr (int d))"

definition ParseBool :: "string \<Rightarrow> bool option" where
  "ParseBool s =
     (if s \<in> {''1'', ''t'', ''T'', ''TRUE'', ''true'', ''True''} then Some True
      else if s \<in> {''0'', ''f'', ''F'', ''FALSE'', ''false'', ''False''} then Some False
      else None)"

section \<open>The environment\<close>

type_synonym environ = "string \<Rightarrow> string"

definition getEnv :: "environ \<Rightarrow> string \<Rightarrow> string \<Rightarrow> string" where
  "getEnv env key fallback = (if env key \<noteq> [] then env key else fallback)"

text \<open>\<open>None\<close>: the process panics.\<close>

definition mustGetEnv :: "environ \<Rightarrow> string \<Rightarrow> string option" where
  "mustGetEnv env key = (if env key = [] then None else Some (env key))"

definition getIntEnv :: "environ \<Rightarrow> string \<Rightarrow> int \<Rightarrow> int" where
  "getIntEnv env key fallback =
     (if env key = [] then fallback
      else case atoi (env key) of (n, None) \<Rightarrow> n | (n, Some e) \<Rightarrow> fallback)"

definition getBoolEnv :: "environ \<Rightarrow> string \<Rightarrow> bool \<Rightarrow> bool" where
  "getBoolEnv env key fallback =
     (if env key = [] then fallback else case ParseBool (env key) of None \<Rightarrow> fallback | Some b \<Rightarrow> b)"

definition parseDuration :: "environ \<Rightarrow> string \<Rightarrow> string \<Rightarrow> gerr + int" where
  "parseDuration env key fallback =
     (case ParseDuration (getEnv env key fallback) of
        Inl e \<Rightarrow> Inl (Wrapf (''invalid duration for '' @ key @ '': '') e [])
      | Inr d \<Rightarrow> Inr d)"

section \<open>The configuration\<close>

definition gns3RecommendedMaxSessions :: int where "gns3RecommendedMaxSessions = 4"

record Config =
  cf_Port :: string
  cf_Env :: string
  cf_FrontendURL :: string
  cf_DatabaseURL :: string
  cf_JWTPrivateKeyPath :: string
  cf_JWTPublicKeyPath :: string
  cf_JWTAccessTTL :: int
  cf_JWTRefreshTTL :: int
  cf_StripeSecretKey :: string
  cf_StripeWebhookSecret :: string
  cf_StripeProPriceID :: string
  cf_StripeBootcampPriceID :: string
  cf_StorageEndpoint :: string
  cf_StorageAccessKey :: string
  cf_StorageSecretKey :: string
  cf_StorageBucket :: string
  cf_StorageUseSSL :: bool
  cf_ResendAPIKey :: string
  cf_EmailFrom :: string
  cf_GNS3ServerURL :: string
  cf_GNS3ComputeHost :: string
  cf_GNS3Username :: string
  cf_GNS3Password :: string
  cf_GNS3MaxSessions :: int
  cf_KaliPinnedTag :: string
  cf_VerifyConsoleTruthEnabled :: bool
  cf_GNS3IdleTimeout :: int
  cf_GNS3SessionTTL :: int
  cf_GNS3ReaperTick :: int
  cf_GNS3OpTimeout :: int

definition required_keys :: "string list" where
  "required_keys = [''DATABASE_URL'', ''STRIPE_SECRET_KEY'', ''STRIPE_WEBHOOK_SECRET'', ''STRIPE_PRO_PRICE_ID'',
     ''STRIPE_BOOTCAMP_PRICE_ID'', ''STORAGE_ACCESS_KEY'', ''STORAGE_SECRET_KEY'', ''RESEND_API_KEY'']"

definition duration_keys :: "(string \<times> string) list" where
  "duration_keys = [(''JWT_ACCESS_TTL'', ''15m''), (''JWT_REFRESH_TTL'', ''720h''), (''GNS3_IDLE_TIMEOUT'', ''15m''),
     (''GNS3_SESSION_TTL'', ''1h''), (''GNS3_REAPER_TICK'', ''30s''), (''GNS3_OP_TIMEOUT'', ''20s'')]"

text \<open>The struct literal, once no required key is missing.\<close>

definition base_config :: "environ \<Rightarrow> Config" where
  "base_config env =
     \<lparr>cf_Port = getEnv env ''PORT'' ''8080'', cf_Env = getEnv env ''ENV'' ''development'',
      cf_FrontendURL = getEnv env ''FRONTEND_URL'' ''http://localhost:5173'',
      cf_DatabaseURL = env ''DATABASE_URL'',
      cf_JWTPrivateKeyPath = getEnv env ''JWT_PRIVATE_KEY_PATH'' ''./keys/private.pem'',
      cf_JWTPublicKeyPath = getEnv env ''JWT_PUBLIC_KEY_PATH'' ''./keys/public.pem'',
      cf_JWTAccessTTL = 0, cf_JWTRefreshTTL = 0,
      cf_StripeSecretKey = env ''STRIPE_SECRET_KEY'', cf_StripeWebhookSecret = env ''STRIPE_WEBHOOK_SECRET'',
      cf_StripeProPriceID = env ''STRIPE_PRO_PRICE_ID'',
      cf_StripeBootcampPriceID = env ''STRIPE_BOOTCAMP_PRICE_ID'',
      cf_StorageEndpoint = getEnv env ''STORAGE_ENDPOINT'' ''minio:9000'',
      cf_StorageAccessKey = env ''STORAGE_ACCESS_KEY'', cf_StorageSecretKey = env ''STORAGE_SECRET_KEY'',
      cf_StorageBucket = getEnv env ''STORAGE_BUCKET'' ''netbreaker-configs'',
      cf_StorageUseSSL = getBoolEnv env ''STORAGE_USE_SSL'' False,
      cf_ResendAPIKey = env ''RESEND_API_KEY'',
      cf_EmailFrom = getEnv env ''EMAIL_FROM'' ''noreply@netbreaker.io'',
      cf_GNS3ServerURL = getEnv env ''GNS3_SERVER_URL'' ''http://gns3:3080'',
      cf_GNS3ComputeHost = getEnv env ''GNS3_COMPUTE_HOST'' [],
      cf_GNS3Username = getEnv env ''GNS3_USERNAME'' [], cf_GNS3Password = getEnv env ''GNS3_PASSWORD'' [],
      cf_GNS3MaxSessions = getIntEnv env ''GNS3_MAX_SESSIONS'' 3,
      cf_KaliPinnedTag = getEnv env ''KALI_PINNED_TAG'' ''netbreaker-kali:latest'',
      cf_VerifyConsoleTruthEnabled = getBoolEnv env ''VERIFY_CONSOLE_TRUTH_ENABLED'' False,
      cf_GNS3IdleTimeout = 0, cf_GNS3SessionTTL = 0, cf_GNS3ReaperTick = 0, cf_GNS3OpTimeout = 0\<rparr>"

definition with_durations :: "Config \<Rightarrow> int list \<Rightarrow> Config" where
  "with_durations c ds =
     c\<lparr>cf_JWTAccessTTL := ds ! 0, cf_JWTRefreshTTL := ds ! 1, cf_GNS3IdleTimeout := ds ! 2,
       cf_GNS3SessionTTL := ds ! 3, cf_GNS3ReaperTick := ds ! 4, cf_GNS3OpTimeout := ds ! 5\<rparr>"

fun read_durations :: "environ \<Rightarrow> (string \<times> string) list \<Rightarrow> gerr + int list" where
  "read_durations env [] = Inr []"
| "read_durations env ((k, fallback) # ks) =
     (case parseDuration env k fallback of
        Inl e \<Rightarrow> Inl e
      | Inr d \<Rightarrow> (case read_durations env ks of Inl e \<Rightarrow> Inl e | Inr ds \<Rightarrow> Inr (d # ds)))"

datatype loaded = LoadPanic string | LoadError gerr | Loaded Config

definition Load :: "environ \<Rightarrow> loaded" where
  "Load env =
     (case find (\<lambda>k. mustGetEnv env k = None) required_keys of
        Some k \<Rightarrow> LoadPanic (''required env var '' @ k @ '' not set'')
      | None \<Rightarrow>
          (case read_durations env duration_keys of
             Inl e \<Rightarrow> LoadError e
           | Inr ds \<Rightarrow> Loaded (with_durations (base_config env) ds)))"

definition IsProd :: "Config \<Rightarrow> bool" where "IsProd c = (cf_Env c = ''production'')"

definition over_provisioned :: "Config \<Rightarrow> bool" where
  "over_provisioned c = (gns3RecommendedMaxSessions < cf_GNS3MaxSessions c)"

section \<open>What main makes of it\<close>

definition migrateURL :: "string \<Rightarrow> string" where
  "migrateURL url =
     (case cut_prefix url ''postgres://'' of
        Some rest \<Rightarrow> ''pgx5://'' @ rest
      | None \<Rightarrow> (case cut_prefix url ''postgresql://'' of Some rest \<Rightarrow> ''pgx5://'' @ rest | None \<Rightarrow> url))"

definition main_computeHost :: "Config \<Rightarrow> string" where
  "main_computeHost c = (if cf_GNS3ComputeHost c = [] then ''localhost'' else cf_GNS3ComputeHost c)"

definition gns3_configured :: "Config \<Rightarrow> bool" where
  "gns3_configured c = (cf_GNS3ServerURL c \<noteq> [])"

section \<open>Durations are read back\<close>

text \<open>A duration written as whole numbers with their units, one after the other.\<close>

definition print_duration :: "(nat \<times> string) list \<Rightarrow> string" where
  "print_duration ts = concat (map (\<lambda>(n, u). itoa (int n) @ u) ts)"

definition nanoseconds :: "(nat \<times> string) list \<Rightarrow> nat" where
  "nanoseconds ts = sum_list (map (\<lambda>(n, u). n * the (map_of duration_units u)) ts)"

definition unit_ok :: "string \<Rightarrow> bool" where
  "unit_ok u = (u \<in> fst ` set duration_units)"

lemma unit_chars:
  assumes "unit_ok u"
  shows "u \<noteq> [] \<and> list_all (\<lambda>c. \<not> is_number_char c) u \<and> (\<exists>k. map_of duration_units u = Some k \<and> 0 < k)"
proof -
  have l: "list_all (\<lambda>(u, k). u \<noteq> [] \<and> list_all (\<lambda>c. \<not> is_number_char c) u \<and> map_of duration_units u = Some k \<and> 0 < k)
      duration_units"
    by (simp add: duration_units_def is_number_char_def is_digit_def)
  obtain k where "(u, k) \<in> set duration_units" using assms by (auto simp: unit_ok_def)
  from l [unfolded list_all_iff, rule_format, OF this] show ?thesis by (auto simp: list_all_iff)
qed

lemma span_digits:
  "takeWhile is_digit (nat_digits n @ u @ r) = nat_digits n" "dropWhile is_digit (nat_digits n @ u @ r) = u @ r"
  if "u \<noteq> []" "list_all (\<lambda>c. \<not> is_number_char c) u"
proof -
  have h: "\<not> is_digit (hd u)" using that by (cases u) (auto simp: is_number_char_def)
  have d: "list_all is_digit (nat_digits n)" using nat_digits_digit by (simp add: list_all_iff)
  show "takeWhile is_digit (nat_digits n @ u @ r) = nat_digits n"
    using d h that(1) by (subst takeWhile_append2) (auto simp: list_all_iff takeWhile_eq_Nil_iff)
  show "dropWhile is_digit (nat_digits n @ u @ r) = u @ r"
    using d h that(1) by (subst dropWhile_append2) (auto simp: list_all_iff dropWhile_eq_self_iff)
qed

lemma span_unit:
  assumes "list_all (\<lambda>c. \<not> is_number_char c) u" "r = [] \<or> is_number_char (hd r)"
  shows "takeWhile (\<lambda>c. \<not> is_number_char c) (u @ r) = u" "dropWhile (\<lambda>c. \<not> is_number_char c) (u @ r) = r"
  using assms by (auto simp: list_all_iff takeWhile_append2 dropWhile_append2 takeWhile_eq_Nil_iff dropWhile_eq_self_iff)

lemma duration_term_print:
  assumes "unit_ok u" "r = [] \<or> is_number_char (hd r)" "map_of duration_units u = Some k" "n * k \<le> 2 ^ 63"
  shows "duration_term (nat_digits n @ u @ r) = Some (n * k, r)"
proof -
  have u: "u \<noteq> []" "list_all (\<lambda>c. \<not> is_number_char c) u" "0 < k"
    using unit_chars [OF assms(1)] assms(3) by auto
  have dot: "take 1 (u @ r) \<noteq> ''.''" using u by (cases u) (auto simp: is_number_char_def)
  have n: "n \<le> 2 ^ 63 div k" using assms(4) u(3) by (simp add: less_eq_div_iff_mult_less_eq)
  then have n2: "n \<le> 2 ^ 63" by (rule order_trans) (rule div_le_dividend)
  show ?thesis
    unfolding duration_term_def Let_def span_digits [OF u(1,2)]
    using dot n n2 u(1) assms(3,4) span_unit [OF u(2) assms(2)]
    by (simp add: digits_val_nat_digits)
qed

lemma print_starts: "print_duration ts = [] \<or> is_number_char (hd (print_duration ts))"
proof (cases ts)
  case (Cons t ts')
  obtain n u where t: "t = (n, u)" by fastforce
  have "is_digit (hd (nat_digits n))" using nat_digits_digit [of n] by (cases "nat_digits n") auto
  then show ?thesis using Cons t by (simp add: print_duration_def itoa_def is_number_char_def)
qed (simp add: print_duration_def)

lemma duration_sum_print:
  assumes "list_all (\<lambda>t. unit_ok (snd t)) ts" "d + nanoseconds ts \<le> 2 ^ 63"
  shows "duration_sum d (print_duration ts) = Some (d + nanoseconds ts)"
  using assms
proof (induction ts arbitrary: d)
  case Nil
  then show ?case by (simp add: duration_sum.simps print_duration_def nanoseconds_def)
next
  case (Cons t ts)
  obtain n u where t: "t = (n, u)" by fastforce
  obtain k where k: "map_of duration_units u = Some k" using unit_chars [of u] Cons.prems(1) t by auto
  have p: "print_duration (t # ts) = nat_digits n @ u @ print_duration ts"
    by (simp add: print_duration_def t itoa_def)
  have n: "nanoseconds (t # ts) = n * k + nanoseconds ts" by (simp add: nanoseconds_def t k)
  have "duration_term (nat_digits n @ u @ print_duration ts) = Some (n * k, print_duration ts)"
    using Cons.prems t n by (intro duration_term_print print_starts k) auto
  then show ?case
    using Cons.IH [of "d + n * k"] Cons.prems n
    by (subst duration_sum.simps) (simp add: p add.assoc)
qed

lemma ParseDuration_print:
  assumes "ts \<noteq> []" "list_all (\<lambda>t. unit_ok (snd t)) ts" "nanoseconds ts \<le> 2 ^ 63 - 1"
  shows "ParseDuration (print_duration ts) = Inr (int (nanoseconds ts))"
proof -
  obtain n u ts' where t: "ts = (n, u) # ts'" using assms(1) by (cases ts) auto
  have u: "u \<noteq> []" "list_all (\<lambda>c. \<not> is_number_char c) u" using unit_chars [of u] assms(2) t by auto
  have p: "print_duration ts = nat_digits n @ u @ print_duration ts'"
    by (simp add: print_duration_def t itoa_def)
  obtain c cs where c: "nat_digits n = c # cs" by (cases "nat_digits n") auto
  have "is_digit c" using nat_digits_digit [of n] c by simp
  then have s: "take 1 (print_duration ts) \<noteq> ''-''" "take 1 (print_duration ts) \<noteq> ''+''"
    using p c by auto
  have z: "print_duration ts \<noteq> ''0''" "print_duration ts \<noteq> []" using p c u(1) by (auto simp: append_eq_Cons_conv)
  have "duration_sum 0 (print_duration ts) = Some (nanoseconds ts)"
    using duration_sum_print [OF assms(2), of 0] assms(3) by simp
  then show ?thesis using s z assms(3) by (simp add: ParseDuration_def)
qed

text \<open>
  Durations are read as they are written.  A setting made of whole numbers with units, in any order
  and repetition, that add up to at most \<open>2 ^ 63 - 1\<close> nanoseconds is read as exactly that sum, be it
  the variable or, when that is not set, the fallback.
\<close>

theorem duration_roundtrip:
  assumes "getEnv env key fallback = print_duration ts"
    and "ts \<noteq> []" "list_all (\<lambda>t. unit_ok (snd t)) ts" "nanoseconds ts \<le> 2 ^ 63 - 1"
  shows "parseDuration env key fallback = Inr (int (nanoseconds ts))"
  using ParseDuration_print [OF assms(2-4)] by (simp add: parseDuration_def assms(1))

theorem duration_roundtrip_witness:
  "parseDuration (\<lambda>k. []) ''GNS3_SESSION_TTL'' ''1h15m30s'' = Inr 4530000000000"
proof -
  let ?ts = "[(1, ''h''), (15, ''m''), (30, ''s'')] :: (nat \<times> string) list"
  have p: "print_duration ?ts = ''1h15m30s''" by code_simp
  have n: "nanoseconds ?ts = 4530000000000" by (simp add: nanoseconds_def duration_units_def)
  have u: "list_all (\<lambda>t. unit_ok (snd t)) ?ts" by (simp add: unit_ok_def duration_units_def)
  have g: "getEnv (\<lambda>k. []) ''GNS3_SESSION_TTL'' ''1h15m30s'' = print_duration ?ts" unfolding p by (simp add: getEnv_def)
  have "nanoseconds ?ts \<le> 2 ^ 63 - 1" unfolding n by simp
  from duration_roundtrip [OF g _ u this] show ?thesis unfolding n by simp
qed

section \<open>When the server starts\<close>

lemma find_None_all: "find P xs = None \<longleftrightarrow> list_all (\<lambda>x. \<not> P x) xs"
  by (auto simp: find_None_iff list_all_iff)

lemma read_durations_ok:
  "read_durations env ks = Inr ds \<longleftrightarrow>
     list_all2 (\<lambda>k d. ParseDuration (getEnv env (fst k) (snd k)) = Inr d) ks ds"
proof (induction ks arbitrary: ds)
  case (Cons k ks)
  obtain key fallback where k: "k = (key, fallback)" by fastforce
  show ?case
  proof (cases ds)
    case Nil
    then show ?thesis by (auto simp: k split: sum.splits)
  next
    case d: (Cons d ds')
    then show ?thesis using Cons.IH [of ds'] by (auto simp: k parseDuration_def split: sum.splits)
  qed
qed auto

text \<open>
  The configuration loads exactly when every required variable is set and the six durations parse, and
  then a GNS3 server is always configured: the empty string falls back to the default address.
\<close>

theorem load_config:
  "(\<exists>c. Load env = Loaded c) =
     (list_all (\<lambda>k. env k \<noteq> []) required_keys
      \<and> (\<exists>ds. list_all2 (\<lambda>k d. ParseDuration (getEnv env (fst k) (snd k)) = Inr d) duration_keys ds))
   \<and> (\<forall>c. Load env = Loaded c \<longrightarrow> gns3_configured c)"
proof
  have g: "gns3_configured (with_durations (base_config env) ds)" for ds
    by (simp add: gns3_configured_def with_durations_def base_config_def getEnv_def)
  show "\<forall>c. Load env = Loaded c \<longrightarrow> gns3_configured c"
    using g by (auto simp: Load_def split: option.splits sum.splits)
  show "(\<exists>c. Load env = Loaded c) =
     (list_all (\<lambda>k. env k \<noteq> []) required_keys
      \<and> (\<exists>ds. list_all2 (\<lambda>k d. ParseDuration (getEnv env (fst k) (snd k)) = Inr d) duration_keys ds))"
  proof (cases "find (\<lambda>k. mustGetEnv env k = None) required_keys")
    case None
    then have "list_all (\<lambda>k. env k \<noteq> []) required_keys" by (auto simp: find_None_all mustGetEnv_def list_all_iff split: if_splits)
    then show ?thesis
      unfolding read_durations_ok [symmetric] using None by (auto simp: Load_def split: sum.splits)
  next
    case (Some k)
    then have "k \<in> set required_keys" "env k = []" by (auto simp: find_Some_iff mustGetEnv_def split: if_splits)
    then show ?thesis using Some by (auto simp: Load_def list_all_iff)
  qed
qed

end
