(* ===== verification/Server.thy ===== *)
theory Server
  imports VerificationHandler Teams Accounts LabContent RateLimit Config
begin

text \<open>
  The server as \<open>cmd/server/main.go\<close> puts it together: the table of routes with their middleware, the
  rate limiter in front, and the handlers of the other theories behind.  Matching a path against a
  pattern follows the documentation of the router; \<open>RealIP\<close>, \<open>Logger\<close>, \<open>Timeout\<close> and the CORS headers
  are third-party middleware and left out.
\<close>

section \<open>Routes\<close>

datatype endpoint =
    EpHealth | EpRegister | EpLogin | EpRefresh | EpWebhook
  | EpLabs | EpLab | EpLabTopology | EpCertVerify
  | EpLogout | EpMe | EpMeUpdate | EpMeDelete | EpProgress | EpVerify | EpMark | EpUnmark
  | EpSubscription | EpCheckout
  | EpLabConfig | EpCertificate | EpPortal
  | EpLaunch | EpSession | EpHeartbeat | EpEndSession | EpConsole | EpConsoleVNC
  | EpTeam | EpInvite | EpRemoveMember | EpTeamProgress
  | EpStats | EpAdminUsers | EpSetPlan

datatype guard = OptionalJWT | RequireJWT | Plans "string list" | AdminOnly

record route =
  ro_Method :: string
  ro_Pattern :: string
  ro_Guards :: "guard list"
  ro_Endpoint :: endpoint

definition route_of :: "guard list \<Rightarrow> string \<times> string \<times> endpoint \<Rightarrow> route" where
  "route_of gs r = \<lparr>ro_Method = fst r, ro_Pattern = fst (snd r), ro_Guards = gs, ro_Endpoint = snd (snd r)\<rparr>"

definition under :: "string \<Rightarrow> (string \<times> string \<times> endpoint) list \<Rightarrow> (string \<times> string \<times> endpoint) list" where
  "under prefix rs = map (\<lambda>(m, p, e). (m, prefix @ p, e)) rs"

definition session_routes :: "(string \<times> string \<times> endpoint) list" where
  "session_routes =
     [(''POST'', ''/labs/{labID}/session'', EpLaunch),
      (''GET'', ''/labsessions/{id}'', EpSession),
      (''POST'', ''/labsessions/{id}/heartbeat'', EpHeartbeat),
      (''DELETE'', ''/labsessions/{id}'', EpEndSession),
      (''GET'', ''/labsessions/{id}/console/{node}'', EpConsole),
      (''GET'', ''/labsessions/{id}/console/{node}/vnc'', EpConsoleVNC)]"

definition public_routes :: "(string \<times> string \<times> endpoint) list" where
  "public_routes =
     [(''POST'', ''/auth/register'', EpRegister),
      (''POST'', ''/auth/login'', EpLogin),
      (''POST'', ''/auth/refresh'', EpRefresh),
      (''POST'', ''/webhooks/stripe'', EpWebhook),
      (''GET'', ''/certificate/verify/{code}'', EpCertVerify)]"

definition catalogue_routes :: "(string \<times> string \<times> endpoint) list" where
  "catalogue_routes =
     [(''GET'', ''/labs'', EpLabs),
      (''GET'', ''/labs/{id}'', EpLab),
      (''GET'', ''/labs/{id}/topology'', EpLabTopology)]"

definition account_routes :: "(string \<times> string \<times> endpoint) list" where
  "account_routes =
     [(''POST'', ''/auth/logout'', EpLogout),
      (''GET'', ''/me'', EpMe),
      (''PATCH'', ''/me'', EpMeUpdate),
      (''DELETE'', ''/me'', EpMeDelete),
      (''GET'', ''/progress'', EpProgress),
      (''POST'', ''/labs/{id}/verify'', EpVerify),
      (''PUT'', ''/progress/{labID}/{phase}'', EpMark),
      (''DELETE'', ''/progress/{labID}/{phase}'', EpUnmark),
      (''GET'', ''/subscription'', EpSubscription),
      (''POST'', ''/subscription/checkout'', EpCheckout)]"

definition paid_routes :: "(string \<times> string \<times> endpoint) list" where
  "paid_routes =
     [(''GET'', ''/labs/{id}/config'', EpLabConfig),
      (''GET'', ''/certificate'', EpCertificate),
      (''POST'', ''/subscription/portal'', EpPortal)] @ session_routes"

definition team_routes :: "(string \<times> string \<times> endpoint) list" where
  "team_routes =
     [(''GET'', ''/team'', EpTeam),
      (''POST'', ''/team/invite'', EpInvite),
      (''DELETE'', ''/team/members/{userID}'', EpRemoveMember),
      (''GET'', ''/team/progress'', EpTeamProgress)]"

definition admin_routes :: "(string \<times> string \<times> endpoint) list" where
  "admin_routes =
     [(''GET'', ''/admin/stats'', EpStats),
      (''GET'', ''/admin/users'', EpAdminUsers),
      (''PATCH'', ''/admin/users/{id}/plan'', EpSetPlan)]"

definition api :: string where "api = ''/api/v1''"

definition routes :: "route list" where
  "routes =
     map (route_of []) ((''GET'', ''/health'', EpHealth) # under api public_routes)
     @ map (route_of [OptionalJWT]) (under api catalogue_routes)
     @ map (route_of [RequireJWT]) (under api account_routes)
     @ map (route_of [RequireJWT, Plans [''pro'', ''bootcamp'']]) (under api paid_routes)
     @ map (route_of [RequireJWT, Plans [''bootcamp'']]) (under api team_routes)
     @ map (route_of [RequireJWT, AdminOnly]) (under api admin_routes)"

section \<open>Matching\<close>

text \<open>A parameter stands for one segment that is not empty.\<close>

definition is_param :: "string \<Rightarrow> bool" where
  "is_param p = (p \<noteq> [] \<and> hd p = CHR ''{'')"

definition param_name :: "string \<Rightarrow> string" where
  "param_name p = butlast (tl p)"

fun match_segments :: "string list \<Rightarrow> string list \<Rightarrow> (string, string) gomap option" where
  "match_segments [] [] = Some []"
| "match_segments (p # ps) (s # ss) =
     (if is_param p then if s = [] then None else map_option (\<lambda>m. (param_name p, s) # m) (match_segments ps ss)
      else if p = s then match_segments ps ss else None)"
| "match_segments _ _ = None"

definition match_path :: "string \<Rightarrow> string \<Rightarrow> (string, string) gomap option" where
  "match_path pattern path = match_segments (split_on CHR ''/'' pattern) (split_on CHR ''/'' path)"

definition find_route :: "string \<Rightarrow> string \<Rightarrow> route option" where
  "find_route meth path = find (\<lambda>r. ro_Method r = meth \<and> match_path (ro_Pattern r) path \<noteq> None) routes"

section \<open>Middleware\<close>

fun flatten_result :: "'r middleware_result middleware_result \<Rightarrow> 'r middleware_result" where
  "flatten_result (Rejected status message) = Rejected status message"
| "flatten_result (Served r) = r"

fun run_guards ::
  "(string \<Rightarrow> gerr + Claims) \<Rightarrow> guard list \<Rightarrow> (http_request \<Rightarrow> 'r) \<Rightarrow> http_request \<Rightarrow> 'r middleware_result" where
  "run_guards parse [] h r = Served (h r)"
| "run_guards parse (OptionalJWT # gs) h r = flatten_result (OptionalJWTMiddleware parse (run_guards parse gs h) r)"
| "run_guards parse (RequireJWT # gs) h r = flatten_result (JWTMiddleware parse (run_guards parse gs h) r)"
| "run_guards parse (Plans ps # gs) h r = flatten_result (RequirePlan ps (run_guards parse gs h) r)"
| "run_guards parse (AdminOnly # gs) h r = flatten_result (RequireAdmin (run_guards parse gs h) r)"

text \<open>A request as it reaches the router, and the answers.\<close>

record api_request =
  hq_Method :: string
  hq_Path :: string
  hq_RemoteAddr :: string
  hq_http :: http_request
  hq_conn :: auth_request
  hq_query :: "(string, string) gomap"
  hq_signature :: string
  hq_readError :: "gerr option"

datatype api_response =
    ApiNotFound | ApiMethodNotAllowed | ApiTooManyRequests | ApiRejected int string
  | ApiHealth
  | ApiAuth "Cookie option" "auth_data reply"
  | ApiUser "User reply"
  | ApiProgress "progress_data reply"
  | ApiCert "cert_data reply"
  | ApiLab "lab_data reply"
  | ApiSub "sub_data reply"
  | ApiTeam "team_data reply"
  | ApiAdmin "admin_data reply"
  | ApiSession http_resp
  | ApiConsole console_result
  | ApiVerify verify_response

text \<open>The endpoint a request reaches, with the parameters of its path and the claims of its context.\<close>

definition dispatch ::
  "(string \<Rightarrow> gerr + Claims) \<Rightarrow> api_request
     \<Rightarrow> api_response + endpoint \<times> (string, string) gomap \<times> Claims option" where
  "dispatch parse q =
     (case find_route (hq_Method q) (hq_Path q) of
        None \<Rightarrow>
          Inl (if list_ex (\<lambda>r. match_path (ro_Pattern r) (hq_Path q) \<noteq> None) routes
               then ApiMethodNotAllowed else ApiNotFound)
      | Some r \<Rightarrow>
          (case run_guards parse (ro_Guards r) ClaimsFromCtx (hq_http q) of
             Rejected status message \<Rightarrow> Inl (ApiRejected status message)
           | Served claims \<Rightarrow>
               Inr (ro_Endpoint r, the (match_path (ro_Pattern r) (hq_Path q)), claims)))"

section \<open>The handlers behind the routes\<close>

record ('s, 'c, 'm) server_env =
  en_auth :: auth_env
  en_parseWithClaims :: "(string \<Rightarrow> bool) \<Rightarrow> string \<Rightarrow> gerr + AccessClaims \<times> bool"
  en_stripe :: stripe_env
  en_verify :: "('s, 'c) verify_env"
  en_service :: "'s Service"
  en_console :: "'s console_env"
  en_content :: content
  en_storage :: "'m storage"
  en_collate :: "string \<Rightarrow> string \<Rightarrow> bool"

text \<open>\<open>sr_provisioning\<close>: the provisioning goroutines that have been started.\<close>

record ('s, 'c) server =
  sr_state :: "('s, 'c) vstate"
  sr_limiter :: Limiter
  sr_provisioning :: "(uuid \<times> int) list"

definition bearer_parse :: "('s, 'c, 'm) server_env \<Rightarrow> string \<Rightarrow> gerr + Claims" where
  "bearer_parse env t = map_sum id Claims.truncate (ParseAccessToken (en_parseWithClaims env) t)"

definition on_app ::
  "(app \<Rightarrow> app \<times> 'r) \<Rightarrow> ('r \<Rightarrow> api_response) \<Rightarrow> ('s, 'c) server \<Rightarrow> ('s, 'c) server \<times> api_response" where
  "on_app f k sv =
     (case f (vh_app (sr_state sv)) of
        (a, r) \<Rightarrow> (sv\<lparr>sr_state := (sr_state sv)\<lparr>vh_app := a\<rparr>\<rparr>, k r))"

definition on_world ::
  "('s world \<Rightarrow> 's world \<times> 'r) \<Rightarrow> ('r \<Rightarrow> api_response) \<Rightarrow> ('s, 'c) server \<Rightarrow> ('s, 'c) server \<times> api_response" where
  "on_world f k sv =
     (case f (vh_world (sr_state sv)) of
        (w, r) \<Rightarrow> (sv\<lparr>sr_state := (sr_state sv)\<lparr>vh_world := w\<rparr>\<rparr>, k r))"

definition on_console ::
  "('s world \<times> nat ConsoleLock \<Rightarrow> ('s world \<times> nat ConsoleLock) \<times> console_result) \<Rightarrow> ('s, 'c) server
     \<Rightarrow> ('s, 'c) server \<times> api_response" where
  "on_console f sv =
     (case f (vh_world (sr_state sv), vh_locks (sr_state sv)) of
        ((w, l), r) \<Rightarrow> (sv\<lparr>sr_state := (sr_state sv)\<lparr>vh_world := w, vh_locks := l\<rparr>\<rparr>, ApiConsole r))"

definition handle_delete_me ::
  "(string \<Rightarrow> uuid option) \<Rightarrow> Claims option \<Rightarrow> ('s, 'c) server \<Rightarrow> ('s, 'c) server \<times> api_response" where
  "handle_delete_me pu claims sv =
     (case handle_me_delete pu (vh_app (sr_state sv)) claims of
        (a, r) \<Rightarrow>
          (sv\<lparr>sr_state := (sr_state sv)\<lparr>vh_app := a, vh_world := (case mustUserID pu claims of
               None \<Rightarrow> vh_world (sr_state sv)
             | Some i \<Rightarrow> fst (delete_account i (vh_world (sr_state sv)) (vh_app (sr_state sv))))\<rparr>\<rparr>,
           ApiUser r))"

definition handle ::
  "('s, 'c, 'm) server_env \<Rightarrow> endpoint \<Rightarrow> (string, string) gomap \<Rightarrow> api_request \<Rightarrow> Claims option
     \<Rightarrow> ('s, 'c) server \<Rightarrow> ('s, 'c) server \<times> api_response" where
  "handle env ep ps q claims =
     (let pu = ve_uuid (en_verify env); body = aq_body (hq_conn q); param = mget0 [] ps;
          query = mget0 [] (hq_query q);
          auth = (\<lambda>f. on_app (\<lambda>a. f (en_auth env) a (hq_conn q)) (\<lambda>(c, r). ApiAuth c r))
      in case ep of
        EpHealth \<Rightarrow> (\<lambda>sv. (sv, ApiHealth))
      | EpRegister \<Rightarrow> auth handle_register
      | EpLogin \<Rightarrow> auth handle_login
      | EpRefresh \<Rightarrow> auth handle_refresh
      | EpLogout \<Rightarrow> auth handle_logout
      | EpWebhook \<Rightarrow>
          on_app (\<lambda>a. StripeWebhook (en_stripe env) a
            (case hq_readError q of None \<Rightarrow> Inr body | Some e \<Rightarrow> Inl e) (hq_signature q)) ApiSub
      | EpLabs \<Rightarrow>
          on_app (\<lambda>a. handle_labs_list (en_content env) a (query ''topic'') (query ''difficulty'')) ApiLab
      | EpLab \<Rightarrow> on_app (\<lambda>a. handle_lab_get (en_content env) a claims (param ''id'')) ApiLab
      | EpLabTopology \<Rightarrow> on_app (\<lambda>a. handle_lab_topology (en_content env) a (param ''id'')) ApiLab
      | EpLabConfig \<Rightarrow>
          on_app (\<lambda>a. handle_lab_config (en_content env) (en_storage env) a (param ''id'')) ApiLab
      | EpCertVerify \<Rightarrow> on_app (\<lambda>a. handle_cert_verify a (param ''code'')) ApiCert
      | EpCertificate \<Rightarrow> on_app (\<lambda>a. handle_cert_get pu a claims) ApiCert
      | EpMe \<Rightarrow> on_app (\<lambda>a. handle_me pu a claims) ApiUser
      | EpMeUpdate \<Rightarrow> on_app (\<lambda>a. handle_me_update pu a claims body) ApiUser
      | EpMeDelete \<Rightarrow> handle_delete_me pu claims
      | EpProgress \<Rightarrow> on_app (\<lambda>a. handle_progress_get pu a claims) ApiProgress
      | EpMark \<Rightarrow> on_app (\<lambda>a. handle_mark pu a claims (param ''labID'') (param ''phase'')) ApiProgress
      | EpUnmark \<Rightarrow> on_app (\<lambda>a. handle_unmark pu a claims (param ''labID'') (param ''phase'')) ApiProgress
      | EpVerify \<Rightarrow>
          (\<lambda>sv. case Verify (en_verify env) verifyReg claims (param ''id'') body (sr_state sv) of
             (st, r) \<Rightarrow> (sv\<lparr>sr_state := st\<rparr>, ApiVerify r))
      | EpSubscription \<Rightarrow> on_app (\<lambda>a. handle_subscription pu a claims) ApiSub
      | EpCheckout \<Rightarrow> on_app (\<lambda>a. handle_checkout (en_stripe env) pu a claims body) ApiSub
      | EpPortal \<Rightarrow> on_app (\<lambda>a. handle_portal (en_stripe env) pu a claims) ApiSub
      | EpLaunch \<Rightarrow>
          (\<lambda>sv. case handle_launch pu (en_service env) (vh_world (sr_state sv)) claims (param ''labID'') of
             (w, spawn, r) \<Rightarrow>
               (sv\<lparr>sr_state := (sr_state sv)\<lparr>vh_world := w\<rparr>,
                   sr_provisioning := sr_provisioning sv @ (case spawn of None \<Rightarrow> [] | Some p \<Rightarrow> [p])\<rparr>,
                ApiSession r))
      | EpSession \<Rightarrow> on_world (\<lambda>w. handle_get pu w claims (param ''id'')) ApiSession
      | EpHeartbeat \<Rightarrow> on_world (\<lambda>w. handle_heartbeat pu w claims (param ''id'')) ApiSession
      | EpEndSession \<Rightarrow> on_world (\<lambda>w. handle_end pu (en_service env) w claims (param ''id'')) ApiSession
      | EpConsole \<Rightarrow>
          on_console (\<lambda>wl. console pu (en_service env) (en_console env) wl claims (param ''id'') (param ''node''))
      | EpConsoleVNC \<Rightarrow>
          on_console (\<lambda>wl. consoleVNC pu (en_service env) (en_console env) wl claims (param ''id'') (param ''node''))
      | EpTeam \<Rightarrow> on_app (\<lambda>a. handle_team_get pu a claims) ApiTeam
      | EpInvite \<Rightarrow> on_app (\<lambda>a. handle_invite pu a claims body) ApiTeam
      | EpRemoveMember \<Rightarrow> on_app (\<lambda>a. handle_remove_member pu a claims (param ''userID'')) ApiTeam
      | EpTeamProgress \<Rightarrow> on_app (\<lambda>a. handle_team_progress (en_collate env) pu a claims) ApiTeam
      | EpStats \<Rightarrow> on_app Stats ApiAdmin
      | EpAdminUsers \<Rightarrow>
          on_app (\<lambda>a. handle_admin_users a (query ''page'') (query ''limit'') (query ''plan'')) ApiAdmin
      | EpSetPlan \<Rightarrow> on_app (\<lambda>a. handle_set_plan pu a (param ''id'') body) ApiAdmin)"

text \<open>One request: the limiter, the router with its middleware, the handler.\<close>

definition route_request ::
  "('s, 'c, 'm) server_env \<Rightarrow> api_request \<Rightarrow> ('s, 'c) server \<Rightarrow> ('s, 'c) server \<times> api_response" where
  "route_request env q sv =
     (case dispatch (bearer_parse env) q of
        Inl resp \<Rightarrow> (sv, resp)
      | Inr (ep, ps, claims) \<Rightarrow> handle env ep ps q claims sv)"

definition serve ::
  "('s, 'c, 'm) server_env \<Rightarrow> api_request \<Rightarrow> ('s, 'c) server \<Rightarrow> ('s, 'c) server \<times> api_response" where
  "serve env q sv =
     (case ratelimitMiddleware (sr_limiter sv) (\<lambda>_. route_request env q sv) (hq_RemoteAddr q)
             (ap_now (vh_app (sr_state sv))) of
        (l1, TooManyRequests) \<Rightarrow> (sv\<lparr>sr_limiter := l1\<rparr>, ApiTooManyRequests)
      | (l1, RateLimit.Passed (sv1, resp)) \<Rightarrow> (sv1\<lparr>sr_limiter := l1\<rparr>, resp))"

text \<open>What \<open>main\<close> builds from the configuration.\<close>

definition main_service :: "Config \<Rightarrow> 's GNS3Client \<Rightarrow> 's Service" where
  "main_service c g = NewService g (cf_GNS3MaxSessions c) ''local'' (main_computeHost c)"

definition main_reaper :: "Config \<Rightarrow> 's GNS3Client \<Rightarrow> 's Reaper" where
  "main_reaper c g = NewReaper g (cf_GNS3IdleTimeout c) (cf_GNS3SessionTTL c) (cf_GNS3ReaperTick c) (cf_GNS3OpTimeout c)"

definition main_limiter :: Limiter where "main_limiter = ratelimitNew 100"

section \<open>The table of routes\<close>

fun overlap :: "string list \<Rightarrow> string list \<Rightarrow> bool" where
  "overlap [] [] = True"
| "overlap (p # ps) (q # qs) = ((is_param p \<or> is_param q \<or> p = q) \<and> overlap ps qs)"
| "overlap _ _ = False"

fun apart :: "route list \<Rightarrow> bool" where
  "apart [] = True"
| "apart (r # rs) =
     (list_all (\<lambda>s. ro_Method r \<noteq> ro_Method s
          \<or> \<not> overlap (split_on CHR ''/'' (ro_Pattern r)) (split_on CHR ''/'' (ro_Pattern s))) rs
      \<and> apart rs)"

lemma match_overlap:
  "match_segments ps ss = Some m \<Longrightarrow> match_segments qs ss = Some m' \<Longrightarrow> overlap ps qs"
proof (induction ps ss arbitrary: qs m m' rule: match_segments.induct)
  case 1
  then show ?case by (cases qs) auto
next
  case (2 p ps s ss)
  then show ?case by (cases qs) (auto split: if_splits)
qed auto

lemma apart_find:
  "apart rs \<Longrightarrow> r \<in> set rs \<Longrightarrow> match_path (ro_Pattern r) path \<noteq> None \<Longrightarrow>
     find (\<lambda>s. ro_Method s = ro_Method r \<and> match_path (ro_Pattern s) path \<noteq> None) rs = Some r"
  by (induction rs) (auto simp: list_all_iff match_path_def dest: match_overlap)

lemma routes_apart: "apart routes"
  by code_simp

text \<open>
  The order of the routes does not matter.  A request whose method and path fit a route is given
  to that route: no other route of the table fits the same request.
\<close>

theorem route_unique:
  assumes "r \<in> set routes" "match_path (ro_Pattern r) path \<noteq> None"
  shows "find_route (ro_Method r) path = Some r"
  using apart_find [OF routes_apart assms] by (simp add: find_route_def)

theorem route_unique_witness:
  "map_option ro_Endpoint (find_route ''GET'' ''/api/v1/labs/15/topology'') = Some EpLabTopology"
proof -
  let ?r = "route_of [OptionalJWT] (''GET'', ''/api/v1/labs/{id}/topology'', EpLabTopology)"
  have "list_ex (\<lambda>r. r = ?r) routes" by code_simp
  then have "?r \<in> set routes" by (auto simp: list_ex_iff)
  moreover have "match_path (ro_Pattern ?r) ''/api/v1/labs/15/topology'' = Some [(''id'', ''15'')]" by code_simp
  ultimately show ?thesis using route_unique [of ?r "''/api/v1/labs/15/topology''"] by (simp add: route_of_def)
qed

section \<open>Who reaches what\<close>

datatype authority = Anyone | SignedIn | OnPlan "string list" | Administrator

fun policy :: "endpoint \<Rightarrow> authority" where
  "policy EpHealth = Anyone" | "policy EpRegister = Anyone" | "policy EpLogin = Anyone"
| "policy EpRefresh = Anyone" | "policy EpWebhook = Anyone" | "policy EpCertVerify = Anyone"
| "policy EpLabs = Anyone" | "policy EpLab = Anyone" | "policy EpLabTopology = Anyone"
| "policy EpLabConfig = OnPlan [PlanPro, PlanBootcamp]" | "policy EpCertificate = OnPlan [PlanPro, PlanBootcamp]"
| "policy EpPortal = OnPlan [PlanPro, PlanBootcamp]" | "policy EpLaunch = OnPlan [PlanPro, PlanBootcamp]"
| "policy EpSession = OnPlan [PlanPro, PlanBootcamp]" | "policy EpHeartbeat = OnPlan [PlanPro, PlanBootcamp]"
| "policy EpEndSession = OnPlan [PlanPro, PlanBootcamp]" | "policy EpConsole = OnPlan [PlanPro, PlanBootcamp]"
| "policy EpConsoleVNC = OnPlan [PlanPro, PlanBootcamp]"
| "policy EpTeam = OnPlan [PlanBootcamp]" | "policy EpInvite = OnPlan [PlanBootcamp]"
| "policy EpRemoveMember = OnPlan [PlanBootcamp]" | "policy EpTeamProgress = OnPlan [PlanBootcamp]"
| "policy EpStats = Administrator" | "policy EpAdminUsers = Administrator" | "policy EpSetPlan = Administrator"
| "policy _ = SignedIn"

fun authorised :: "authority \<Rightarrow> Claims option \<Rightarrow> bool" where
  "authorised Anyone claims = True"
| "authorised SignedIn claims = (claims \<noteq> None)"
| "authorised (OnPlan plans) claims = (\<exists>c. claims = Some c \<and> cl_Plan c \<in> set plans)"
| "authorised Administrator claims = (\<exists>c. claims = Some c \<and> cl_IsAdmin c)"

definition guards_for :: "authority \<Rightarrow> guard list list" where
  "guards_for a = (case a of Anyone \<Rightarrow> [[], [OptionalJWT]] | SignedIn \<Rightarrow> [[RequireJWT]]
     | OnPlan ps \<Rightarrow> [[RequireJWT, Plans ps]] | Administrator \<Rightarrow> [[RequireJWT, AdminOnly]])"

lemma routes_guarded: "list_all (\<lambda>r. ro_Guards r \<in> set (guards_for (policy (ro_Endpoint r)))) routes"
  by code_simp

lemma guards_enforce:
  assumes "gs \<in> set (guards_for a)" "run_guards parse gs ClaimsFromCtx r = Served claims" "hr_claims r = None"
  shows "authorised a claims \<and> (claims = None \<or> claims = parseBearer parse r)"
proof (cases "parseBearer parse r")
  case None
  then show ?thesis
    using assms by (cases a) (auto simp: guards_for_def OptionalJWTMiddleware_def JWTMiddleware_def ClaimsFromCtx_def)
next
  case (Some c)
  then show ?thesis
    using assms
    by (cases a) (auto simp: guards_for_def OptionalJWTMiddleware_def JWTMiddleware_def RequirePlan_def
        RequireAdmin_def ClaimsFromCtx_def list_ex_iff intro!: exI [of _ c] split: if_splits)
qed

lemma dispatch_authorised:
  assumes "dispatch parse q = Inr (ep, ps, claims)" "hr_claims (hq_http q) = None"
  shows "authorised (policy ep) claims \<and> (claims = None \<or> claims = parseBearer parse (hq_http q))"
proof -
  obtain r where r: "find_route (hq_Method q) (hq_Path q) = Some r" "ro_Endpoint r = ep"
    "run_guards parse (ro_Guards r) ClaimsFromCtx (hq_http q) = Served claims"
    using assms(1) by (auto simp: dispatch_def split: option.splits middleware_result.splits)
  have "r \<in> set routes" using r(1) by (auto simp: find_route_def find_Some_iff)
  then have "ro_Guards r \<in> set (guards_for (policy ep))" using routes_guarded r(2) by (auto simp: list_all_iff)
  then show ?thesis using guards_enforce r(3) assms(2) by blast
qed

text \<open>
  C28: access control.  Whatever the request, the endpoint it reaches is one the policy opens to the
  caller: the claims a handler sees come from the token of the request and from nowhere else, the paid
  endpoints need a paid plan in them, the team endpoints the bootcamp plan, and the administration
  endpoints the administrator's flag.
\<close>

theorem access_policy:
  assumes "dispatch parse q = Inr (ep, ps, claims)" "hr_claims (hq_http q) = None"
  shows "authorised (policy ep) claims \<and> (claims = None \<or> claims = parseBearer parse (hq_http q))"
  by (rule dispatch_authorised [OF assms])

section \<open>Requests without a token\<close>

text \<open>The tables an anonymous request cannot touch.\<close>

definition same_records :: "appdb \<Rightarrow> appdb \<Rightarrow> bool" where
  "same_records d d' = (db_progress d' = db_progress d \<and> db_certs d' = db_certs d \<and> db_teams d' = db_teams d
     \<and> db_members d' = db_members d \<and> db_phases d' = db_phases d \<and> db_labs d' = db_labs d)"

lemma same_records_refl [simp]: "same_records d d"
  by (simp add: same_records_def)

lemma same_records_trans: "same_records d e \<Longrightarrow> same_records e f \<Longrightarrow> same_records d f"
  by (simp add: same_records_def)

definition account_write :: "(appdb \<Rightarrow> appdb) \<Rightarrow> bool" where
  "account_write f = (\<forall>d. same_records d (f d))"

lemma account_writes [simp]:
  "account_write (update_users now P g)" "account_write (insert_user new now email hash name)"
  "account_write (insert_token t)" "account_write (revoke_tokens now Q)"
  by (simp_all add: account_write_def same_records_def update_users_def insert_user_def insert_token_def
      revoke_tokens_def)

lemma exec_account: "sql_exec f a = (a1, r) \<Longrightarrow> account_write f \<Longrightarrow> same_records (ap_db a) (ap_db a1)"
  using exec_outcome [of f a a1 r] by (auto simp: account_write_def)

lemma exec_account_fst: "account_write f \<Longrightarrow> same_records (ap_db a) (ap_db (fst (sql_exec f a)))"
  using exec_account by (cases "sql_exec f a") auto

lemma query_records: "sql_query q a = (a1, r) \<Longrightarrow> same_records (ap_db a) (ap_db a1)"
  using query_frame by fastforce

lemma row_records: "sql_row q a = (a1, r) \<Longrightarrow> same_records (ap_db a) (ap_db a1)"
  using row_frame by fastforce

lemma random32_frame: "generateRandom32 a = (a1, r) \<Longrightarrow> ap_db a1 = ap_db a"
  by (auto simp: generateRandom32_def dest: random_frame split: prod.splits sum.splits)

lemma issue_records:
  assumes "issue_for env a u = (a1, r)"
  shows "same_records (ap_db a) (ap_db a1)"
proof -
  obtain b q where b: "generateRandom32 a = (b, q)" by fastforce
  have d: "ap_db b = ap_db a" using random32_frame [OF b] .
  have "same_records (ap_db a) (ap_db (fst (issueTokenPair env a (u_ID u) (u_Plan u) (u_IsAdmin u))))"
  proof (cases q)
    case (Inr raw)
    let ?e = "sql_exec (insert_token \<lparr>rt_UserID = u_ID u, rt_Hash = hashToken env raw,
             rt_ExpiresAt = ap_now b + ae_refreshTTL env, rt_RevokedAt = None\<rparr>) b"
    obtain c x where c: "?e = (c, x)" by fastforce
    have "same_records (ap_db a) (ap_db c)" using exec_account [OF c] d by simp
    then show ?thesis using b c d Inr by (simp add: issueTokenPair_def split: sum.splits option.splits)
  qed (use b d in \<open>simp add: issueTokenPair_def split: sum.splits\<close>)
  then show ?thesis using assms by (auto simp: issue_for_def split: prod.splits sum.splits)
qed

lemma register_records:
  assumes "authRegister env a email password name = (a1, r)"
  shows "same_records (ap_db a) (ap_db a1)"
proof -
  obtain b x where b: "register_check a email = (b, x)" by fastforce
  have s: "same_records (ap_db a) (ap_db b)"
    using b query_records by (fastforce simp: register_check_def split: prod.splits sum.splits)
  show ?thesis
  proof (cases "x = None \<and> (\<exists>h. ae_bcryptGenerate env password = Inr h)")
    case False
    then show ?thesis
      using assms b s by (auto simp: authRegister_def register_insert_def split: option.splits sum.splits)
  next
    case True
    then obtain h where h: "x = None" "ae_bcryptGenerate env password = Inr h" by blast
    obtain new c where c: "take_uuid b = (new, c)" by fastforce
    have cd: "ap_db c = ap_db b" using c by (auto simp: take_uuid_def)
    obtain e y where e: "sql_exec (insert_user new (ap_now c) email h name) c = (e, y)" by fastforce
    have se: "same_records (ap_db a) (ap_db e)" using exec_account [OF e] s cd same_records_trans by force
    have "same_records (ap_db e) (ap_db a1)" if "ap_db a1 \<noteq> ap_db e"
      using that assms b h c e
      by (auto simp: authRegister_def register_insert_def sql_returning_def
          split: option.splits dest: issue_records)
    then show ?thesis using se same_records_trans by (cases "ap_db a1 = ap_db e") auto
  qed
qed

lemma login_records:
  assumes "Login env a email password = (a1, r)"
  shows "same_records (ap_db a) (ap_db a1)"
proof -
  have as: "same_records (ap_db b) (ap_db (fst (login_as env b u)))" for b u
  proof -
    obtain c v where c: "login_downgrade b u = (c, v)" by fastforce
    have "same_records (ap_db b) (ap_db c)"
      using c exec_account_fst [OF account_writes(1)] by (auto simp: login_downgrade_def split: if_splits)
    moreover let ?d = "fst (sql_exec (revoke_tokens (ap_now c) (\<lambda>t. rt_UserID t = u_ID v \<and> rt_RevokedAt t = None)) c)"
    have "same_records (ap_db c) (ap_db ?d)" by (rule exec_account_fst) simp
    moreover obtain e x where e: "issue_for env ?d v = (e, x)" by fastforce
    ultimately have "same_records (ap_db b) (ap_db e)" using issue_records [OF e] same_records_trans by blast
    then show ?thesis using c e by (simp add: login_as_def Let_def)
  qed
  obtain b x where b: "sql_row (\<lambda>d. find (same_email email) (db_users d)) a = (b, x)" by fastforce
  show ?thesis
    using assms b row_records [OF b] as [of b] same_records_trans
    by (auto simp: Login_def split: sum.splits if_splits) (metis fst_conv)
qed

lemma refresh_records:
  assumes "Refresh env a raw = (a1, r)"
  shows "same_records (ap_db a) (ap_db a1)"
proof -
  obtain b x where b: "refresh_check env a raw = (b, x)" by fastforce
  have s: "same_records (ap_db a) (ap_db b)"
  proof -
    obtain c y where c: "sql_row (\<lambda>d. find (\<lambda>t. rt_Hash t = hashToken env raw) (db_tokens d)) a = (c, y)" by fastforce
    have "same_records (ap_db c) (ap_db (fst (sql_exec (revoke_tokens (ap_now c) P) c)))" for P
      by (rule exec_account_fst) simp
    then show ?thesis
      using b c row_records [OF c] same_records_trans
      by (auto simp: refresh_check_def Let_def split: sum.splits if_splits)
  qed
  show ?thesis
  proof (cases x)
    case (Inl e)
    then show ?thesis using assms b s by (simp add: Refresh_def)
  next
    case (Inr hi)
    obtain h i where hi: "hi = (h, i)" by fastforce
    obtain c y where c: "sql_exec (revoke_tokens (ap_now b) (\<lambda>t. rt_Hash t = h)) b = (c, y)" by fastforce
    obtain d z where d: "sql_row (find_user (\<lambda>u. u_ID u = i)) c = (d, z)" by fastforce
    have "same_records (ap_db a) (ap_db c)" using exec_account [OF c] s same_records_trans by simp
    moreover have "same_records (ap_db a) (ap_db d)" using calculation row_records [OF d] same_records_trans by blast
    moreover have "same_records (ap_db d) (ap_db (fst (issue_for env d u)))" for u
      using issue_records by (cases "issue_for env d u") auto
    ultimately show ?thesis
      using assms b c d Inr hi same_records_trans
      by (auto simp: Refresh_def refresh_rotate_def split: option.splits sum.splits prod.splits)
        (metis fst_conv same_records_trans)+
  qed
qed

lemma webhook_records: "same_records (ap_db a) (ap_db (fst (StripeWebhook env a body sig)))"
proof -
  have e: "same_records (ap_db b) (ap_db (fst (sql_exec (update_users n P g) b)))" for b n P g
    by (rule exec_account_fst) simp
  have d: "same_records (ap_db b) (ap_db (fst (onSubscriptionDeleted b sub)))" for b sub
    using e by (simp add: onSubscriptionDeleted_def split: option.splits)
  have u: "same_records (ap_db b) (ap_db (fst (onSubscriptionUpdated env b sub)))" for b sub
    using e d by (simp add: onSubscriptionUpdated_def split: option.splits)
  have c: "same_records (ap_db b) (ap_db (fst (onCheckoutCompleted env b sess)))" for b sess
  proof -
    have w: "fst (case x of (y, Some z) \<Rightarrow> (y, Some (f z)) | (y, None) \<Rightarrow> (y, None)) = fst x"
      for x :: "app \<times> gerr option" and f :: "gerr \<Rightarrow> gerr"
      by (auto split: prod.splits option.splits)
    show ?thesis
      using e same_records_trans [OF e e] by (simp add: onCheckoutCompleted_def Let_def w split: option.splits)
  qed
  show ?thesis
    using d u c by (auto simp: StripeWebhook_def handleEvent_def split: sum.splits)
qed

lemma cert_verify_records: "same_records (ap_db a) (ap_db (fst (handle_cert_verify a code)))"
  using row_records
  by (fastforce simp: handle_cert_verify_def VerifyByCode_def split: prod.splits sum.splits)

lemma auth_records:
  "same_records (ap_db a) (ap_db (fst (handle_register env a r)))"
  "same_records (ap_db a) (ap_db (fst (handle_login env a r)))"
  "same_records (ap_db a) (ap_db (fst (handle_refresh env a r)))"
  by (auto simp: handle_register_def handle_login_def handle_refresh_def
      dest: register_records login_records refresh_records split: option.splits prod.splits sum.splits)

lemma lab_lookup_records: "lab_lookup what i row a = (a1, r) \<Longrightarrow> same_records (ap_db a) (ap_db a1)"
  by (auto simp: lab_lookup_def dest: row_records split: prod.splits sum.splits if_splits)

lemma phases_records: "GetPhases ct a i = (a1, r) \<Longrightarrow> same_records (ap_db a) (ap_db a1)"
  by (auto simp: GetPhases_def dest: query_records split: prod.splits sum.splits if_splits)

lemma lab_reply_records: "fst (lab_reply m (apsnd f p)) = fst p"
  by (cases p) (auto simp: lab_reply_def split: sum.splits)

lemma lab_records:
  "same_records (ap_db a) (ap_db (fst (handle_labs_list ct a t d)))"
  "same_records (ap_db a) (ap_db (fst (handle_lab_get ct a claims i)))"
  "same_records (ap_db a) (ap_db (fst (handle_lab_topology ct a i)))"
proof -
  have "same_records (ap_db a) (ap_db (fst (GetLabForUser ct a n pro)))" for n pro
    by (auto simp: GetLabForUser_def labsGetByID_def
        dest!: lab_lookup_records phases_records intro: same_records_trans split: prod.splits sum.splits)
  then show "same_records (ap_db a) (ap_db (fst (handle_lab_get ct a claims i)))"
    by (auto simp: handle_lab_get_def Let_def lab_reply_records split: prod.splits option.splits)
  have "same_records (ap_db a) (ap_db (fst (GetTopology ct a n)))" for n
    by (cases "GetTopology ct a n") (auto simp: GetTopology_def dest: lab_lookup_records)
  then show "same_records (ap_db a) (ap_db (fst (handle_lab_topology ct a i)))"
    by (auto simp: handle_lab_topology_def lab_reply_records split: prod.splits option.splits)
  show "same_records (ap_db a) (ap_db (fst (handle_labs_list ct a t d)))"
    by (auto simp: handle_labs_list_def labsList_def dest: query_records split: prod.splits sum.splits)
qed

text \<open>
  C29: what an anonymous request can change.  A request without a valid token leaves the lab sessions
  and the compute host, the console locks and the network, the progress, certificates, teams and the
  catalogue as they are, and starts no provisioning; it can only reach the user and token tables.
\<close>

theorem anonymous_frame:
  assumes "parseBearer (bearer_parse env) (hq_http q) = None" "hr_claims (hq_http q) = None"
    and "serve env q sv = (sv', resp)"
  shows "vh_world (sr_state sv') = vh_world (sr_state sv) \<and> vh_locks (sr_state sv') = vh_locks (sr_state sv)
    \<and> vh_net (sr_state sv') = vh_net (sr_state sv) \<and> sr_provisioning sv' = sr_provisioning sv
    \<and> same_records (ap_db (vh_app (sr_state sv))) (ap_db (vh_app (sr_state sv')))"
proof -
  let ?ok = "\<lambda>sv'. vh_world (sr_state sv') = vh_world (sr_state sv) \<and> vh_locks (sr_state sv') = vh_locks (sr_state sv)
    \<and> vh_net (sr_state sv') = vh_net (sr_state sv) \<and> sr_provisioning sv' = sr_provisioning sv
    \<and> same_records (ap_db (vh_app (sr_state sv))) (ap_db (vh_app (sr_state sv')))"
  have on: "?ok (fst (on_app f k sv))" if "\<And>a. same_records (ap_db a) (ap_db (fst (f a)))" for f k
    using that by (auto simp: on_app_def split: prod.splits) (metis fst_conv)
  have "?ok (fst (route_request env q sv))"
  proof (cases "dispatch (bearer_parse env) q")
    case (Inr x)
    obtain ep ps claims where x: "x = (ep, ps, claims)" by (cases x)
    have "authorised (policy ep) claims \<and> claims = None"
      using dispatch_authorised [OF Inr [unfolded x] assms(2)] assms(1) by auto
    then have "policy ep = Anyone" by (cases "policy ep") auto
    then show ?thesis
      by (cases ep)
        (simp_all add: route_request_def Inr x handle_def Let_def on auth_records webhook_records
          cert_verify_records lab_records)
  qed (simp add: route_request_def)
  then show ?thesis
    using assms(3)
    by (auto simp: serve_def ratelimitMiddleware_def split: prod.splits limited.splits if_splits)
qed

section \<open>No handler panics\<close>

text \<open>The answer of a handler that dereferenced nil.\<close>

fun panicked :: "api_response \<Rightarrow> bool" where
  "panicked (ApiAuth c r) = (r = ReplyPanic)"
| "panicked (ApiUser r) = (r = ReplyPanic)"
| "panicked (ApiProgress r) = (r = ReplyPanic)"
| "panicked (ApiCert r) = (r = ReplyPanic)"
| "panicked (ApiLab r) = (r = ReplyPanic)"
| "panicked (ApiSub r) = (r = ReplyPanic)"
| "panicked (ApiTeam r) = (r = ReplyPanic)"
| "panicked (ApiAdmin r) = (r = ReplyPanic)"
| "panicked (ApiSession r) = (r = HttpPanic)"
| "panicked (ApiConsole r) = (r = CHttp HttpPanic)"
| "panicked (ApiVerify r) = (r = VerifyPanic)"
| "panicked _ = False"

lemma reply_not_panic [simp]:
  "JSON s d \<noteq> ReplyPanic" "NoContent \<noteq> ReplyPanic" "Error s m \<noteq> ReplyPanic" "ErrorCode s m c \<noteq> ReplyPanic"
  "Unauthorized \<noteq> ReplyPanic" "Forbidden m \<noteq> ReplyPanic" "NotFound \<noteq> ReplyPanic" "InternalError \<noteq> ReplyPanic"
  by (simp_all add: reply_defs)

lemma mustUserID_Some [simp]: "mustUserID pu (Some c) \<noteq> None"
  by (simp add: mustUserID_def)

lemma account_no_panic:
  "snd (handle_me pu a (Some c)) \<noteq> ReplyPanic" "snd (handle_me_update pu a (Some c) body) \<noteq> ReplyPanic"
  "snd (handle_me_delete pu a (Some c)) \<noteq> ReplyPanic"
  by (auto simp: handle_me_def handle_me_update_def handle_me_delete_def
      split: option.splits prod.splits sum.splits)

lemma progress_no_panic:
  "snd (handle_progress_get pu a (Some c)) \<noteq> ReplyPanic"
  "snd (handle_mark pu a (Some c) l ph) \<noteq> ReplyPanic" "snd (handle_unmark pu a (Some c) l ph) \<noteq> ReplyPanic"
proof -
  have p: "parseParams l ph \<noteq> Inl ReplyPanic" by (auto simp: parseParams_def split: prod.splits option.splits)
  show "snd (handle_progress_get pu a (Some c)) \<noteq> ReplyPanic"
    by (auto simp: handle_progress_get_def Let_def split: option.splits prod.splits sum.splits)
  show "snd (handle_mark pu a (Some c) l ph) \<noteq> ReplyPanic" "snd (handle_unmark pu a (Some c) l ph) \<noteq> ReplyPanic"
    using p by (auto simp: handle_mark_def handle_unmark_def split: option.splits prod.splits sum.splits)
qed

lemma record_no_panic:
  "snd (handle_cert_get pu a (Some c)) \<noteq> ReplyPanic" "snd (handle_cert_verify a code) \<noteq> ReplyPanic"
  "snd (handle_team_get pu a (Some c)) \<noteq> ReplyPanic" "snd (handle_invite pu a (Some c) body) \<noteq> ReplyPanic"
  "snd (handle_remove_member pu a (Some c) u) \<noteq> ReplyPanic"
  "snd (handle_team_progress col pu a (Some c)) \<noteq> ReplyPanic"
  by (auto simp: handle_cert_get_def handle_cert_verify_def handle_team_get_def handle_invite_def
      handle_remove_member_def handle_team_progress_def split: option.splits prod.splits sum.splits)

lemma billing_no_panic:
  "snd (handle_subscription pu a (Some c)) \<noteq> ReplyPanic" "snd (handle_checkout env pu a (Some c) body) \<noteq> ReplyPanic"
  "snd (handle_portal env pu a (Some c)) \<noteq> ReplyPanic" "snd (StripeWebhook env a b sig) \<noteq> ReplyPanic"
  "snd (Stats a) \<noteq> ReplyPanic" "snd (handle_admin_users a p l f) \<noteq> ReplyPanic"
  "snd (handle_set_plan pu a i body) \<noteq> ReplyPanic"
  by (auto simp: handle_subscription_def handle_checkout_def handle_portal_def StripeWebhook_def Stats_def
      handle_admin_users_def handle_set_plan_def Let_def split: option.splits prod.splits sum.splits)

lemma auth_no_panic:
  "snd (snd (handle_register env a r)) \<noteq> ReplyPanic" "snd (snd (handle_login env a r)) \<noteq> ReplyPanic"
  "snd (snd (handle_refresh env a r)) \<noteq> ReplyPanic" "snd (snd (handle_logout env a r)) \<noteq> ReplyPanic"
  by (auto simp: handle_register_def handle_login_def handle_refresh_def handle_logout_def
      split: option.splits prod.splits sum.splits)

lemma lab_no_panic:
  "snd (handle_labs_list ct a t d) \<noteq> ReplyPanic" "snd (handle_lab_get ct a claims i) \<noteq> ReplyPanic"
  "snd (handle_lab_topology ct a i) \<noteq> ReplyPanic" "snd (handle_lab_config ct st a i) \<noteq> ReplyPanic"
proof -
  have "m \<noteq> ReplyPanic \<Longrightarrow> snd (lab_reply m r) \<noteq> ReplyPanic" for m r
    by (auto simp: lab_reply_def split: prod.splits sum.splits)
  then show "snd (handle_labs_list ct a t d) \<noteq> ReplyPanic" "snd (handle_lab_get ct a claims i) \<noteq> ReplyPanic"
    "snd (handle_lab_topology ct a i) \<noteq> ReplyPanic" "snd (handle_lab_config ct st a i) \<noteq> ReplyPanic"
    by (auto simp: handle_labs_list_def handle_lab_get_def handle_lab_topology_def handle_lab_config_def Let_def
        split: option.splits prod.splits sum.splits)
qed

lemma launch_no_panic:
  assumes "world_ok w"
  shows "snd (snd (handle_launch pu s w claims l)) \<noteq> HttpPanic"
proof -
  have c: "snd (launch_create s w1 u n) \<noteq> LPanic" for w1 u n
    by (auto simp: launch_create_def split: prod.splits sum.splits if_splits)
  have "snd (Launch s w u n pro) \<noteq> LPanic" for u n pro
  proof (cases "launch_admit s w u n pro")
    case (Pair w1 x)
    then show ?thesis using admit_no_panic [OF assms Pair] c [of w1 u n] by (cases x) (auto simp: Launch_def)
  qed
  then show ?thesis
    by (auto simp: handle_launch_def split: prod.splits option.splits launched.splits) (metis snd_conv)+
qed

lemma session_no_panic:
  "snd (handle_get pu w claims i) \<noteq> HttpPanic" "snd (handle_heartbeat pu w claims i) \<noteq> HttpPanic"
  "snd (handle_end pu s w claims i) \<noteq> HttpPanic"
proof -
  have l: "snd (load_owned pu w claims i) \<noteq> Inl HttpPanic"
    by (auto simp: load_owned_def split: prod.splits option.splits sum.splits if_splits)
  then show "snd (handle_get pu w claims i) \<noteq> HttpPanic" "snd (handle_heartbeat pu w claims i) \<noteq> HttpPanic"
    "snd (handle_end pu s w claims i) \<noteq> HttpPanic"
    by (auto simp: handle_get_def handle_heartbeat_def handle_end_def split: prod.splits sum.splits option.splits)
qed

lemma console_no_panic:
  "snd (console pu s ce wl claims i n) \<noteq> CHttp HttpPanic" "snd (consoleVNC pu s ce wl claims i n) \<noteq> CHttp HttpPanic"
proof -
  have c: "snd (console_checks pu w claims i n) \<noteq> Inl HttpPanic" for w
    by (auto simp: console_checks_def split: prod.splits option.splits sum.splits if_splits)
  have "snd (console_session s ce sess n info wl') \<noteq> CHttp HttpPanic" for sess info wl'
    by (auto simp: console_session_def Let_def split: if_splits)
  then show "snd (console pu s ce wl claims i n) \<noteq> CHttp HttpPanic"
    using c [of "fst wl"]
    by (auto simp: console_def split: prod.splits sum.splits if_splits) (metis snd_conv)
  show "snd (consoleVNC pu s ce wl claims i n) \<noteq> CHttp HttpPanic"
    using c [of "fst wl"] by (auto simp: consoleVNC_def Let_def split: prod.splits sum.splits if_splits)
qed

lemma verify_no_panic: "snd (Verify env reg (Some c) l body st) \<noteq> VerifyPanic"
proof -
  have "verify_request l body \<noteq> Inl VerifyPanic"
    by (auto simp: verify_request_def split: prod.splits option.splits sum.splits if_splits)
  then show ?thesis
    by (auto simp: Verify_def Let_def split: sum.splits prod.splits option.splits if_splits)
qed

text \<open>
  C30: no request makes a handler panic.  While the session table is consistent, a request as it comes
  from the network never ends in the dereference of a nil pointer: the endpoints that read the claims
  of the context are only reached with claims in it, and a session that is resumed has its project.
\<close>

theorem serve_never_panics:
  assumes "hr_claims (hq_http q) = None" "world_ok (vh_world (sr_state sv))" "serve env q sv = (sv', resp)"
  shows "\<not> panicked resp"
proof -
  have "\<not> panicked (snd (handle env ep ps q claims sv))" if "authorised (policy ep) claims" for ep ps claims
  proof (cases claims)
    case (Some c)
    show ?thesis
      unfolding Some
      by (cases ep)
        (auto simp: handle_def Let_def on_app_def on_world_def on_console_def handle_delete_me_def split: prod.splits
          dest!: arg_cong [where f = snd]
          simp: account_no_panic progress_no_panic record_no_panic billing_no_panic auth_no_panic lab_no_panic
            launch_no_panic [OF assms(2)] session_no_panic console_no_panic verify_no_panic)
  next
    case None
    then have "policy ep = Anyone" using that by (cases "policy ep") auto
    then show ?thesis
      by (cases ep)
        (auto simp: handle_def Let_def on_app_def split: prod.splits dest!: arg_cong [where f = snd]
          simp: record_no_panic billing_no_panic auth_no_panic lab_no_panic)
  qed
  then have "\<not> panicked (snd (route_request env q sv))"
    using dispatch_authorised [OF _ assms(1)]
    by (auto simp: route_request_def dispatch_def split: sum.splits option.splits middleware_result.splits)
  then show ?thesis
    using assms(3)
    by (auto simp: serve_def ratelimitMiddleware_def split: prod.splits limited.splits if_splits)
qed

section \<open>A server\<close>

definition demo_storage :: "unit storage" where
  "demo_storage = \<lparr>sc_mc = \<lparr>mn_BucketExists = (\<lambda>b s. (s, Inr True)), mn_MakeBucket = (\<lambda>b s. (s, None)),
       mn_PutObject = (\<lambda>b k c n t s. (s, None)), mn_PresignedGetObject = (\<lambda>b k e. Inr k),
       mn_RemoveObject = (\<lambda>b k s. (s, None))\<rparr>, sc_bucket = ''configs''\<rparr>"

definition demo_jwt :: "(string \<Rightarrow> bool) \<Rightarrow> string \<Rightarrow> gerr + AccessClaims \<times> bool" where
  "demo_jwt methods t =
     (if t = ''tok'' \<and> methods ''RS256''
      then Inr (\<lparr>cl_Subject = ''1'', cl_Plan = PlanPro, cl_IsAdmin = False, ac_IssuedAt = 0, ac_ExpiresAt = 9\<rparr>, True)
      else Inl (Sentinel ''token is malformed''))"

definition demo_env :: "(demo, string list, unit) server_env" where
  "demo_env = \<lparr>en_auth = demo_auth, en_parseWithClaims = demo_jwt, en_stripe = demo_stripe, en_verify = root_env,
     en_service = demo_service, en_console = closed_env, en_content = demo_content [], en_storage = demo_storage,
     en_collate = string_le\<rparr>"

definition demo_server :: "(demo, string list) server" where
  "demo_server = \<lparr>sr_state = sw1_state, sr_limiter = main_limiter, sr_provisioning = []\<rparr>"

definition demo_request :: "string \<Rightarrow> string \<Rightarrow> string \<Rightarrow> api_request" where
  "demo_request meth path authorization =
     \<lparr>hq_Method = meth, hq_Path = path, hq_RemoteAddr = ''10.0.0.9:4711'',
      hq_http = \<lparr>hr_Authorization = authorization, hr_token = [], hr_claims = None\<rparr>,
      hq_conn = \<lparr>aq_TLS = True, aq_ForwardedProto = [], aq_cookie = None, aq_body = []\<rparr>,
      hq_query = [], hq_signature = [], hq_readError = None\<rparr>"

theorem access_policy_witness:
  "authorised (policy EpLabConfig) (Some \<lparr>cl_Subject = ''1'', cl_Plan = PlanPro, cl_IsAdmin = False\<rparr>)"
proof -
  have "dispatch (bearer_parse demo_env) (demo_request ''GET'' ''/api/v1/labs/15/config'' ''Bearer tok'')
    = Inr (EpLabConfig, [(''id'', ''15'')], Some \<lparr>cl_Subject = ''1'', cl_Plan = PlanPro, cl_IsAdmin = False\<rparr>)"
  proof -
    have r: "find_route ''GET'' ''/api/v1/labs/15/config'' =
        Some (route_of [RequireJWT, Plans [''pro'', ''bootcamp'']] (''GET'', ''/api/v1/labs/{id}/config'', EpLabConfig))"
      by code_simp
    have m: "match_path ''/api/v1/labs/{id}/config'' ''/api/v1/labs/15/config'' = Some [(''id'', ''15'')]" by code_simp
    show ?thesis
      by (simp add: dispatch_def demo_request_def r m route_of_def JWTMiddleware_def RequirePlan_def ClaimsFromCtx_def
          parseBearer_def cut_prefix_def bearer_parse_def ParseAccessToken_def demo_env_def demo_jwt_def
          rsa_method_def Claims.truncate_def PlanPro_def Let_def)
  qed
  moreover have "hr_claims (hq_http (demo_request ''GET'' ''/api/v1/labs/15/config'' ''Bearer tok'')) = None"
    by (simp add: demo_request_def)
  ultimately show ?thesis using access_policy by blast
qed

theorem anonymous_frame_witness:
  "vh_world (sr_state (fst (serve demo_env (demo_request ''DELETE'' ''/api/v1/labsessions/7'' []) demo_server)))
     = vh_world sw1_state"
proof -
  let ?q = "demo_request ''DELETE'' ''/api/v1/labsessions/7'' []"
  obtain sv' resp where s: "serve demo_env ?q demo_server = (sv', resp)" by fastforce
  have "parseBearer (bearer_parse demo_env) (hq_http ?q) = None"
    by (simp add: demo_request_def parseBearer_def cut_prefix_def)
  moreover have "hr_claims (hq_http ?q) = None" by (simp add: demo_request_def)
  ultimately have "vh_world (sr_state sv') = vh_world (sr_state demo_server)"
    using anonymous_frame [OF _ _ s] by blast
  then show ?thesis unfolding s fst_conv by (simp add: demo_server_def)
qed

theorem serve_never_panics_witness:
  "\<not> panicked (snd (serve demo_env (demo_request ''GET'' ''/api/v1/me'' ''Bearer tok'') demo_server))"
proof -
  let ?q = "demo_request ''GET'' ''/api/v1/me'' ''Bearer tok''"
  obtain sv' resp where s: "serve demo_env ?q demo_server = (sv', resp)" by fastforce
  have w: "world_ok (vh_world (sr_state demo_server))" by code_simp
  have c: "hr_claims (hq_http ?q) = None" by (simp add: demo_request_def)
  from serve_never_panics [OF c w s] show ?thesis by (simp add: s)
qed

end
