(* ===== verification/Mail.thy ===== *)
theory Mail
  imports LegacyVerify
begin

text \<open>
  \<open>pkg/email/resend.go\<close>: the mails the server sends.  The HTTP call to the mail service is a parameter: it
  takes the authorization header and the message, and gives a status or an error.
\<close>

record sendRequest =
  sr_From :: string
  sr_To :: string
  sr_Subject :: string
  sr_HTML :: string

record mail_client =
  mc_apiKey :: string
  mc_from :: string

type_synonym 's mail_http = "string \<Rightarrow> sendRequest \<Rightarrow> 's \<Rightarrow> 's \<times> (gerr + int)"

definition newline :: string where "newline = [CHR 0x0A]"
definition tabs :: string where "tabs = [CHR 0x09, CHR 0x09]"

text \<open>The lines of a raw string literal, and its last, indented line.\<close>

definition html_block :: "string list \<Rightarrow> string" where
  "html_block ls = newline @ concat (map (\<lambda>l. tabs @ l @ newline) ls) @ [CHR 0x09]"

definition mail_message :: "mail_client \<Rightarrow> string \<Rightarrow> string \<Rightarrow> string \<Rightarrow> sendRequest" where
  "mail_message c to subject html = \<lparr>sr_From = mc_from c, sr_To = to, sr_Subject = subject, sr_HTML = html\<rparr>"

definition mail_send :: "'s mail_http \<Rightarrow> mail_client \<Rightarrow> string \<Rightarrow> string \<Rightarrow> string \<Rightarrow> 's \<Rightarrow> 's \<times> gerr option" where
  "mail_send http c to subject html s =
     (case http (''Bearer '' @ mc_apiKey c) (mail_message c to subject html) s of
        (s1, Inl e) \<Rightarrow> (s1, Some (Wrapf ''resend request: '' e []))
      | (s1, Inr status) \<Rightarrow>
          (s1, if 400 \<le> status then Some (Errorf (''resend error: status '' @ itoa status)) else None))"

definition welcome_html :: "string \<Rightarrow> string" where
  "welcome_html name = html_block
     [''<h1>Welcome to NetBreaker, '' @ name @ ''!</h1>'',
      ''<p>You now have access to 3 free labs. Build networks, then hack them.</p>'',
      ''<p><a href=\"https://netbreaker.io/labs\">Start your first lab '' @ right_arrow @ ''</a></p>'']"

definition SendWelcome :: "'s mail_http \<Rightarrow> mail_client \<Rightarrow> string \<Rightarrow> string \<Rightarrow> 's \<Rightarrow> 's \<times> gerr option" where
  "SendWelcome http c to name s = mail_send http c to ''Welcome to NetBreaker'' (welcome_html name) s"

definition upgrade_html :: "string \<Rightarrow> string" where
  "upgrade_html name = html_block
     [''<h1>You are now a NetBreaker Pro, '' @ name @ ''!</h1>'',
      ''<p>All 14 labs are now unlocked '' @ em_dash @ '' including full attack walkthroughs and GNS3 config downloads.</p>'',
      ''<p><a href=\"https://netbreaker.io/labs\">Start the next lab '' @ right_arrow @ ''</a></p>'']"

definition SendProUpgrade :: "'s mail_http \<Rightarrow> mail_client \<Rightarrow> string \<Rightarrow> string \<Rightarrow> 's \<Rightarrow> 's \<times> gerr option" where
  "SendProUpgrade http c to name s =
     mail_send http c to (''NetBreaker Pro '' @ em_dash @ '' all labs unlocked'') (upgrade_html name) s"

definition certificate_html :: "string \<Rightarrow> string \<Rightarrow> string" where
  "certificate_html name verifyCode = html_block
     [''<h1>Congratulations, '' @ name @ ''!</h1>'',
      ''<p>You have completed all 14 NetBreaker labs. Your certificate is ready.</p>'',
      ''<p>Certificate code: <strong>'' @ verifyCode @ ''</strong></p>'',
      ''<p><a href=\"https://netbreaker.io/certificate/verify/'' @ verifyCode @ ''\">View your certificate ''
        @ right_arrow @ ''</a></p>'']"

definition SendCertificate ::
  "'s mail_http \<Rightarrow> mail_client \<Rightarrow> string \<Rightarrow> string \<Rightarrow> string \<Rightarrow> 's \<Rightarrow> 's \<times> gerr option" where
  "SendCertificate http c to name verifyCode s =
     mail_send http c to ''Your NetBreaker Certificate is Ready'' (certificate_html name verifyCode) s"

definition invite_html :: "string \<Rightarrow> string \<Rightarrow> string" where
  "invite_html teamName inviteURL = html_block
     [''<h1>You have been invited to join '' @ teamName @ '' on NetBreaker</h1>'',
      ''<p><a href=\"'' @ inviteURL @ ''\">Accept invitation '' @ right_arrow @ ''</a></p>'']"

definition SendTeamInvite ::
  "'s mail_http \<Rightarrow> mail_client \<Rightarrow> string \<Rightarrow> string \<Rightarrow> string \<Rightarrow> 's \<Rightarrow> 's \<times> gerr option" where
  "SendTeamInvite http c to teamName inviteURL s =
     mail_send http c to ''NetBreaker Team Invitation'' (invite_html teamName inviteURL) s"

text \<open>
  The mail of an invitation carries the name of the team as it was typed in: markup in the name is
  markup of the mail.
\<close>

lemma invite_name_verbatim:
  "\<exists>rest. invite_html name url = newline @ tabs @ ''<h1>You have been invited to join '' @ name @ rest"
  by (simp add: invite_html_def html_block_def)

text \<open>A mail counts as sent exactly when the service answered below 400.\<close>

lemma mail_send_ok:
  "mail_send http c to subject html s = (s1, None) \<longleftrightarrow>
     (\<exists>status < 400. http (''Bearer '' @ mc_apiKey c) (mail_message c to subject html) s = (s1, Inr status))"
  by (auto simp: mail_send_def split: prod.splits sum.splits)

end
