(* ===== verification/Float64.thy ===== *)
theory Float64
  imports Prelude Complex_Main "HOL-Library.List_Lexorder" "HOL-Library.Char_ord"
begin

text \<open>
  Go's \<open>float64\<close> as the geometry of \<open>tools/topogen\<close> uses it: binary64 values with rounding to
  nearest, ties to even, after every operation.  A finite value is the rational number it
  stands for; there is one zero (no code of the tool can tell its two signs apart, apart from the
  parameters of \<open>libm\<close>).  The functions of \<open>math\<close> whose result depends on the platform's routine
  are the parameter record \<open>libm\<close>.  The order of strings is the order of their bytes.
\<close>

datatype f64 = Fin rat | PInf | NInf | NaN

section \<open>Rounding\<close>

text \<open>The nearest integer, the even one of two equally near ones.\<close>

definition round_even :: "rat \<Rightarrow> int" where
  "round_even q =
     (let k = \<lfloor>q\<rfloor>; r = q - of_int k
      in if r < 1 / 2 then k else if r > 1 / 2 then k + 1 else if even k then k else k + 1)"

function bits :: "int \<Rightarrow> int" where
  "bits n = (if n \<le> 0 then 0 else 1 + bits (n div 2))"
  by auto
termination
  by (relation "measure nat") auto

declare bits.simps [simp del]

text \<open>The exponent of a positive number: \<open>2 ^ binexp q \<le> q < 2 ^ (binexp q + 1)\<close>.\<close>

definition binexp :: "rat \<Rightarrow> int" where
  "binexp q =
     (case quotient_of q of (n, d) \<Rightarrow>
        (let k = bits n - bits d
         in if 2 powi k \<le> q then k else k - 1))"

definition ulp_exp :: "rat \<Rightarrow> int" where
  "ulp_exp q = max (binexp \<bar>q\<bar> - 52) (- 1074)"

definition rnd_val :: "rat \<Rightarrow> rat" where
  "rnd_val q =
     (if q = 0 then 0
      else of_int (round_even (q / 2 powi ulp_exp q)) * 2 powi ulp_exp q)"

definition rnd :: "rat \<Rightarrow> f64" where
  "rnd q =
     (let v = rnd_val q
      in if v \<ge> 2 ^ 1024 then PInf else if v \<le> - (2 ^ 1024) then NInf else Fin v)"

section \<open>Operations\<close>

definition signed_inf :: "bool \<Rightarrow> f64" where
  "signed_inf pos = (if pos then PInf else NInf)"

fun fadd :: "f64 \<Rightarrow> f64 \<Rightarrow> f64" where
  "fadd (Fin a) (Fin b) = rnd (a + b)"
| "fadd NaN y = NaN"
| "fadd PInf y = (if y = NaN \<or> y = NInf then NaN else PInf)"
| "fadd NInf y = (if y = NaN \<or> y = PInf then NaN else NInf)"
| "fadd (Fin a) y = y"

fun fneg :: "f64 \<Rightarrow> f64" where
  "fneg (Fin a) = Fin (- a)"
| "fneg PInf = NInf"
| "fneg NInf = PInf"
| "fneg NaN = NaN"

fun fmul :: "f64 \<Rightarrow> f64 \<Rightarrow> f64" where
  "fmul (Fin a) (Fin b) = rnd (a * b)"
| "fmul NaN y = NaN"
| "fmul x NaN = NaN"
| "fmul (Fin a) PInf = (if a = 0 then NaN else signed_inf (a > 0))"
| "fmul (Fin a) NInf = (if a = 0 then NaN else signed_inf (a < 0))"
| "fmul PInf (Fin b) = (if b = 0 then NaN else signed_inf (b > 0))"
| "fmul NInf (Fin b) = (if b = 0 then NaN else signed_inf (b < 0))"
| "fmul PInf PInf = PInf"
| "fmul PInf NInf = NInf"
| "fmul NInf PInf = NInf"
| "fmul NInf NInf = PInf"

fun fdiv :: "f64 \<Rightarrow> f64 \<Rightarrow> f64" where
  "fdiv (Fin a) (Fin b) =
     (if b = 0 then (if a = 0 then NaN else signed_inf (a > 0)) else rnd (a / b))"
| "fdiv NaN y = NaN"
| "fdiv x NaN = NaN"
| "fdiv (Fin a) y = Fin 0"
| "fdiv PInf (Fin b) = signed_inf (b \<ge> 0)"
| "fdiv NInf (Fin b) = signed_inf (b < 0)"
| "fdiv x y = NaN"

fun flt :: "f64 \<Rightarrow> f64 \<Rightarrow> bool" where
  "flt (Fin a) (Fin b) = (a < b)"
| "flt NaN y = False"
| "flt x NaN = False"
| "flt PInf y = False"
| "flt x NInf = False"
| "flt NInf y = True"
| "flt x PInf = True"

definition feq :: "f64 \<Rightarrow> f64 \<Rightarrow> bool" where
  "feq x y = (x = y \<and> x \<noteq> NaN)"

instantiation f64 :: "{plus, minus, uminus, times, inverse, abs, ord}"
begin
definition "x + y = fadd x y"
definition "x - y = fadd x (fneg y)"
definition "- x = fneg x"
definition "x * y = fmul x y"
definition "x div y = fdiv x y"
definition "inverse x = fdiv (Fin 1) x"
definition "\<bar>x\<bar> = (case x of Fin a \<Rightarrow> Fin \<bar>a\<bar> | NInf \<Rightarrow> PInf | y \<Rightarrow> y)"
definition "x < y = flt x y"
definition "x \<le> y = (flt x y \<or> feq x y)"
instance ..
end

lemmas f64_ops = plus_f64_def minus_f64_def uminus_f64_def times_f64_def divide_f64_def
  less_f64_def less_eq_f64_def abs_f64_def

definition float_of_int :: "int \<Rightarrow> f64" where
  "float_of_int i = rnd (of_int i)"

text \<open>\<open>math.Pi\<close> and \<open>math.MaxFloat64\<close> as \<open>float64\<close>.\<close>

definition f_pi :: f64 where "f_pi = Fin (884279719003555 / 281474976710656)"
definition f_max :: f64 where "f_max = Fin ((2 ^ 53 - 1) * 2 ^ 971)"

text \<open>\<open>math.Round\<close>: halves away from zero.\<close>

fun math_round :: "f64 \<Rightarrow> f64" where
  "math_round (Fin q) =
     Fin (if q < 0 then - of_int \<lfloor>- q + 1 / 2\<rfloor> else of_int \<lfloor>q + 1 / 2\<rfloor>)"
| "math_round x = x"

text \<open>\<open>math.Max\<close> and \<open>math.Min\<close>.\<close>

definition math_max :: "f64 \<Rightarrow> f64 \<Rightarrow> f64" where
  "math_max x y =
     (if x = PInf \<or> y = PInf then PInf else if x = NaN \<or> y = NaN then NaN
      else if x > y then x else y)"

definition math_min :: "f64 \<Rightarrow> f64 \<Rightarrow> f64" where
  "math_min x y =
     (if x = NInf \<or> y = NInf then NInf else if x = NaN \<or> y = NaN then NaN
      else if x < y then x else y)"

text \<open>\<open>Sprintf("%.0f", x)\<close>.\<close>

fun fmt0 :: "f64 \<Rightarrow> string" where
  "fmt0 (Fin q) = (if q < 0 then ''-'' else []) @ nat_digits (nat (round_even \<bar>q\<bar>))"
| "fmt0 PInf = ''+Inf''"
| "fmt0 NInf = ''-Inf''"
| "fmt0 NaN = ''NaN''"

record libm =
  lm_Hypot :: "f64 \<Rightarrow> f64 \<Rightarrow> f64"
  lm_Atan2 :: "f64 \<Rightarrow> f64 \<Rightarrow> f64"
  lm_Cos :: "f64 \<Rightarrow> f64"
  lm_Sin :: "f64 \<Rightarrow> f64"

section \<open>Comparisons\<close>

lemma f64_less_simps [simp]:
  "Fin a < Fin b \<longleftrightarrow> a < b" "\<not> NaN < x" "\<not> x < NaN" "\<not> PInf < x" "\<not> x < NInf"
  "NInf < Fin a" "NInf < PInf" "Fin a < PInf"
  by (cases x; simp add: less_f64_def)+

lemma f64_le_simps [simp]:
  "Fin a \<le> Fin b \<longleftrightarrow> a \<le> b" "\<not> NaN \<le> x" "\<not> x \<le> NaN" "NInf \<le> Fin a" "NInf \<le> PInf"
  "Fin a \<le> PInf" "NInf \<le> NInf" "PInf \<le> PInf" "\<not> PInf \<le> Fin a" "\<not> Fin a \<le> NInf" "\<not> PInf \<le> NInf"
  by (cases x; auto simp: less_eq_f64_def feq_def)+

lemma f64_less_irrefl [simp]: "\<not> (x :: f64) < x"
  by (cases x) auto

lemma f64_less_trans: "(x :: f64) < y \<Longrightarrow> y < z \<Longrightarrow> x < z"
  by (cases x; cases y; cases z) auto

lemma f64_le_less_trans: "(x :: f64) \<le> y \<Longrightarrow> y < z \<Longrightarrow> x < z"
  by (cases x; cases y; cases z) auto

lemma f64_less_le_trans: "(x :: f64) < y \<Longrightarrow> y \<le> z \<Longrightarrow> x < z"
  by (cases x; cases y; cases z) auto

lemma f64_le_trans: "(x :: f64) \<le> y \<Longrightarrow> y \<le> z \<Longrightarrow> x \<le> z"
  by (cases x; cases y; cases z) auto

lemma f64_less_imp_le: "(x :: f64) < y \<Longrightarrow> x \<le> y"
  by (cases x; cases y) auto

lemma f64_not_less: "x \<noteq> NaN \<Longrightarrow> y \<noteq> NaN \<Longrightarrow> \<not> (x :: f64) < y \<longleftrightarrow> y \<le> x"
  by (cases x; cases y) auto

lemma feq_iff [simp]: "feq (Fin a) y \<longleftrightarrow> y = Fin a"
  by (auto simp: feq_def)

section \<open>Rounding is odd, monotone and exact on representable numbers\<close>

lemma round_even_of_int [simp]: "round_even (of_int k) = k"
  by (simp add: round_even_def)

lemma round_even_near: "of_int (round_even q) - 1 / 2 \<le> q \<and> q \<le> of_int (round_even q) + 1 / 2"
proof -
  have "of_int \<lfloor>q\<rfloor> \<le> q" "q < of_int \<lfloor>q\<rfloor> + 1"
    using floor_correct [of q] by simp_all
  then show ?thesis
    unfolding round_even_def Let_def by (auto; linarith)
qed

lemma round_even_tie:
  assumes "q = of_int k + 1 / 2"
  shows "round_even q = (if even k then k else k + 1)"
proof -
  have "\<lfloor>q\<rfloor> = k"
    by (rule floor_unique) (simp_all add: assms)
  then show ?thesis
    by (simp add: round_even_def assms)
qed

lemma round_even_unique:
  assumes "of_int k - 1 / 2 < q" "q < of_int k + 1 / 2"
  shows "round_even q = k"
proof -
  have "(of_int (round_even q) :: rat) < of_int (k + 1)" "(of_int k :: rat) < of_int (round_even q + 1)"
    using round_even_near [of q] assms by auto
  then show ?thesis
    by linarith
qed

lemma round_even_mono: "p \<le> q \<Longrightarrow> round_even p \<le> round_even q"
proof (rule ccontr)
  assume le: "p \<le> q" and "\<not> round_even p \<le> round_even q"
  then have "(of_int (round_even q + 1) :: rat) \<le> of_int (round_even p)"
    by linarith
  then have "of_int (round_even q) + 1 \<le> (of_int (round_even p) :: rat)"
    by simp
  moreover from this round_even_near [of p] round_even_near [of q] le
  have "q = of_int (round_even q) + 1 / 2" "p = q"
    by linarith+
  ultimately show False
    by simp
qed

lemma round_even_neg: "round_even (- q) = - round_even q"
proof (cases "\<exists>k. q = of_int k + 1 / 2")
  case True
  then obtain k where "q = of_int k + 1 / 2"
    by blast
  moreover from this have "- q = of_int (- k - 1) + 1 / 2"
    by simp
  ultimately show ?thesis
    by (simp only: round_even_tie) auto
next
  case False
  have "q \<noteq> of_int (round_even q) + 1 / 2" "q \<noteq> of_int (round_even q - 1) + 1 / 2"
    using False by blast+
  then have "q \<noteq> of_int (round_even q) - 1 / 2"
    by simp
  with \<open>q \<noteq> of_int (round_even q) + 1 / 2\<close> round_even_near [of q] show ?thesis
    by (intro round_even_unique) auto
qed

lemma bits_bounds: "n > 0 \<Longrightarrow> \<exists>b. bits n = int (Suc b) \<and> 2 ^ b \<le> n \<and> n < 2 ^ Suc b"
proof (induction n rule: bits.induct)
  case (1 n)
  show ?case
  proof (cases "n = 1")
    case True
    then show ?thesis
      by (intro exI [of _ 0]) (simp add: bits.simps)
  next
    case False
    with 1 obtain b where ih: "bits (n div 2) = int (Suc b)" "2 ^ b \<le> n div 2" "n div 2 < 2 ^ Suc b"
      by fastforce
    moreover have "bits n = 1 + bits (n div 2)"
      using 1 by (subst bits.simps) simp
    ultimately show ?thesis
      by (intro exI [of _ "Suc b"]) auto
  qed
qed

lemma binexp_bounds:
  assumes "q > 0"
  shows "2 powi binexp q \<le> q" "q < 2 powi (binexp q + 1)"
proof -
  obtain n d where nd: "quotient_of q = (n, d)"
    by force
  have q: "q = of_int n / of_int d" and d: "d > 0"
    using quotient_of_div [OF nd] quotient_of_denom_pos [OF nd] by auto
  with assms have n: "n > 0"
    by (simp add: zero_less_divide_iff)
  obtain a' where a': "bits n = int (Suc a')" "2 ^ a' \<le> n" "n < 2 ^ Suc a'"
    using bits_bounds [OF n] by blast
  obtain b' where b': "bits d = int (Suc b')" "2 ^ b' \<le> d" "d < 2 ^ Suc b'"
    using bits_bounds [OF d] by blast
  define a b where ab: "a = Suc a'" "b = Suc b'"
  have N': "(2 ^ a' :: rat) \<le> of_int n" "of_int n < (2 ^ a :: rat)"
    and D': "(2 ^ b' :: rat) \<le> of_int d" "of_int d < (2 ^ b :: rat)"
    using a' b' unfolding ab by (metis of_int_le_iff of_int_less_iff of_int_numeral of_int_power)+
  have lo: "2 powi (int a - int b - 1) \<le> q"
  proof -
    have "2 powi (int a - int b - 1) = (2 ^ a' :: rat) / 2 ^ b"
      by (simp add: ab power_int_diff power_int_add)
    also have "\<dots> \<le> q"
      using N' D' d n unfolding q by (intro frac_le) auto
    finally show ?thesis .
  qed
  have hi: "q < 2 powi (int a - int b + 1)"
  proof -
    have "q < (2 ^ a :: rat) / 2 ^ b'"
      using N' D' d unfolding q by (intro frac_less) (auto simp: n order_less_imp_le)
    also have "\<dots> = 2 powi (int a - int b + 1)"
      by (simp add: ab power_int_diff power_int_add)
    finally show ?thesis .
  qed
  show "2 powi binexp q \<le> q" "q < 2 powi (binexp q + 1)"
    using lo hi by (auto simp: binexp_def nd Let_def a'(1) b'(1) ab)
qed

lemma powi_less_cancel: "(2 :: rat) powi a < 2 powi b \<Longrightarrow> a < b"
  by (metis less_numeral_extra(4) not_less one_less_numeral_iff power_int_increasing
      semiring_norm(76) linorder_not_le numeral_One order_less_imp_le one_le_numeral)

lemma binexp_less: "0 < q \<Longrightarrow> q < 2 powi k \<Longrightarrow> binexp q < k"
  using binexp_bounds(1) [of q] by (metis order_le_less_trans powi_less_cancel)

lemma rnd_val_exact:
  assumes "\<bar>m\<bar> < 2 ^ 53" "- 1074 \<le> k"
  shows "rnd_val (of_int m * 2 powi k) = of_int m * 2 powi k"
proof (cases "m = 0")
  case False
  define q :: rat where "q = of_int m * 2 powi k"
  have q0: "\<bar>q\<bar> > 0" "q \<noteq> 0"
    using False by (simp_all add: q_def)
  have "\<bar>of_int m :: rat\<bar> < 2 ^ 53"
    using assms(1) by (metis of_int_abs of_int_less_iff of_int_numeral of_int_power)
  then have "\<bar>q\<bar> < 2 powi (53 + k)"
    by (simp add: q_def abs_mult power_int_add)
  then have "binexp \<bar>q\<bar> < 53 + k"
    by (rule binexp_less [OF q0(1)])
  then have u: "ulp_exp q \<le> k"
    using assms(2) by (simp add: ulp_exp_def)
  define j where "j = nat (k - ulp_exp q)"
  have "(2 powi k :: rat) = 2 powi (int j + ulp_exp q)"
    using u by (simp add: j_def)
  then have k: "(2 powi k :: rat) = 2 ^ j * 2 powi ulp_exp q"
    by (simp add: power_int_add)
  define u where "u = (2 :: rat) powi ulp_exp q"
  have "u \<noteq> 0" and qu: "q = of_int (m * 2 ^ j) * u"
    using k q_def by (simp_all add: u_def)
  then have "q / u = of_int (m * 2 ^ j)"
    by (simp del: of_int_mult)
  then show ?thesis
    unfolding q_def [symmetric] rnd_val_def u_def [symmetric]
    using q0 qu by (simp only: round_even_of_int if_False)
qed (simp add: rnd_val_def)

lemma rnd_val_neg: "rnd_val (- q) = - rnd_val q"
  using round_even_neg [of "q / 2 powi ulp_exp q"]
  by (simp add: rnd_val_def ulp_exp_def)

lemma rnd_neg: "rnd (- q) = fneg (rnd q)"
  by (auto simp: rnd_def rnd_val_neg Let_def)

lemma rnd_val_0 [simp]: "rnd_val 0 = 0"
  by (simp add: rnd_val_def)

text \<open>A multiple of the unit in the last place bounds the rounded value as it bounds the exact one.\<close>

lemma grid_bound:
  assumes "ulp_exp q \<le> k"
  shows "q \<le> of_int m * 2 powi k \<Longrightarrow> rnd_val q \<le> of_int m * 2 powi k"
    and "of_int m * 2 powi k \<le> q \<Longrightarrow> of_int m * 2 powi k \<le> rnd_val q"
proof -
  define u where "u = (2 :: rat) powi ulp_exp q"
  define j where "j = nat (k - ulp_exp q)"
  have u0: "u > 0"
    by (simp add: u_def)
  have "(2 :: rat) powi k = 2 powi (int j + ulp_exp q)"
    using assms by (simp add: j_def)
  then have c: "of_int m * 2 powi k = of_int (m * 2 ^ j) * u"
    by (simp add: power_int_add u_def)
  have v: "rnd_val q = of_int (round_even (q / u)) * u" if "q \<noteq> 0"
    using that by (simp add: rnd_val_def u_def)
  have up: "rnd_val q \<le> of_int i * u" if "q \<noteq> 0" "q / u \<le> of_int i" for i
    using round_even_mono [OF that(2)] u0 that(1) by (simp add: v)
  have lo: "of_int i * u \<le> rnd_val q" if "q \<noteq> 0" "of_int i \<le> q / u" for i
    using round_even_mono [OF that(2)] u0 that(1) by (simp add: v)
  show "q \<le> of_int m * 2 powi k \<Longrightarrow> rnd_val q \<le> of_int m * 2 powi k"
    unfolding c using up [of "m * 2 ^ j"] u0 by (cases "q = 0") (simp_all add: pos_divide_le_eq)
  show "of_int m * 2 powi k \<le> q \<Longrightarrow> of_int m * 2 powi k \<le> rnd_val q"
    unfolding c using lo [of "m * 2 ^ j"] u0 by (cases "q = 0") (simp_all add: pos_le_divide_eq)
qed

lemma rnd_val_sign: "0 \<le> q \<Longrightarrow> 0 \<le> rnd_val q"
  using grid_bound(2) [of q "ulp_exp q" 0] by simp

lemma binexp_mono: "0 < p \<Longrightarrow> p \<le> q \<Longrightarrow> binexp p \<le> binexp q"
  using binexp_less [of p "binexp q + 1"] binexp_bounds(2) [of q] by fastforce

lemma rnd_val_mono_pos:
  assumes "0 < p" "p \<le> q"
  shows "rnd_val p \<le> rnd_val q"
proof (cases "ulp_exp p = ulp_exp q")
  case True
  then have "p / 2 powi ulp_exp q \<le> q / 2 powi ulp_exp q"
    using assms by (simp add: divide_right_mono)
  from round_even_mono [OF this] True assms show ?thesis
    by (simp add: rnd_val_def)
next
  case False
  define b where "b = binexp q"
  have "ulp_exp p \<le> ulp_exp q"
    using binexp_mono [OF assms] assms by (simp add: ulp_exp_def)
  with False have b: "ulp_exp q = b - 52" "ulp_exp p < b" "binexp p + 1 \<le> b"
    using assms by (auto simp: ulp_exp_def b_def)
  have "p \<le> 2 powi (binexp p + 1)"
    using binexp_bounds(2) [OF assms(1)] by simp
  also have "(2 :: rat) powi (binexp p + 1) \<le> 2 powi b"
    using b(3) by (rule power_int_increasing) simp
  finally have "rnd_val p \<le> 2 powi b"
    using grid_bound(1) [of p b 1] b by simp
  also have "\<dots> \<le> rnd_val q"
    using grid_bound(2) [of q b 1] b binexp_bounds(1) [of q] assms by (simp add: b_def)
  finally show ?thesis .
qed

lemma rnd_val_mono:
  assumes "p \<le> q"
  shows "rnd_val p \<le> rnd_val q"
proof -
  consider "0 < p" | "p \<le> 0" "0 \<le> q" | "q < 0"
    by linarith
  then show ?thesis
  proof cases
    case 2
    then show ?thesis
      using rnd_val_sign [of q] rnd_val_sign [of "- p"] by (simp add: rnd_val_neg)
  next
    case 3
    then show ?thesis
      using rnd_val_mono_pos [of "- q" "- p"] assms by (simp add: rnd_val_neg)
  qed (simp add: rnd_val_mono_pos assms)
qed

lemma rnd_not_NaN [simp]: "rnd q \<noteq> NaN"
  by (simp add: rnd_def Let_def)

lemma rnd_mono: "p \<le> q \<Longrightarrow> rnd p \<le> rnd q"
  using rnd_val_mono [of p q] by (auto simp: rnd_def Let_def)

section \<open>Exact arithmetic\<close>

text \<open>Dyadic numbers of moderate size: on them the operations round nothing.\<close>

definition exact :: "rat \<Rightarrow> bool" where
  "exact q \<longleftrightarrow> (\<exists>m k :: int. q = of_int m * 2 powi k \<and> \<bar>m\<bar> < 2 ^ 53 \<and> - 1074 \<le> k \<and> \<bar>q\<bar> < 2 ^ 1024)"

lemma rnd_exact: "exact q \<Longrightarrow> rnd q = Fin q"
  by (auto simp: exact_def rnd_def Let_def rnd_val_exact abs_less_iff)

lemma exact_intro:
  assumes "\<bar>q\<bar> < 2 ^ 40" "q * 2 ^ j \<in> \<int>" "j \<le> 12"
  shows "exact q"
proof -
  obtain m where m: "q * 2 ^ j = of_int m"
    using assms(2) by (auto elim: Ints_cases)
  then have q: "q = of_int m * 2 powi (- int j)"
    by (simp add: power_int_minus field_simps)
  have "\<bar>of_int m :: rat\<bar> < 2 ^ 40 * 2 ^ j"
    unfolding m [symmetric] abs_mult using assms(1) by simp
  also have "\<dots> \<le> 2 ^ 40 * 2 ^ 12"
    by (rule mult_left_mono, rule power_increasing) (use assms(3) in auto)
  finally have "of_int \<bar>m\<bar> < (of_int (2 ^ 52) :: rat)"
    by simp
  then have "\<bar>m\<bar> < 2 ^ 52"
    by (simp only: of_int_less_iff)
  moreover have "\<bar>q\<bar> < 2 ^ 1024"
    using assms(1) by (rule less_le_trans) (rule power_increasing, auto)
  ultimately show ?thesis
    using q assms(3) unfolding exact_def by (intro exI [of _ m] exI [of _ "- int j"]) auto
qed

lemma exact_of_int: "\<bar>i\<bar> < 2 ^ 40 \<Longrightarrow> exact (of_int i)"
proof -
  assume "\<bar>i\<bar> < 2 ^ 40"
  then have "\<bar>of_int i :: rat\<bar> < of_int (2 ^ 40)"
    unfolding of_int_abs [symmetric] of_int_less_iff .
  then show ?thesis
    by (intro exact_intro [of _ 0]) simp_all
qed

lemma float_of_int_exact: "\<bar>i\<bar> < 2 ^ 40 \<Longrightarrow> float_of_int i = Fin (of_int i)"
  by (simp add: float_of_int_def rnd_exact exact_of_int)

lemma rnd_numeral [simp]:
  "rnd 0 = Fin 0" "rnd 1 = Fin 1"
  "(numeral n :: rat) < 2 ^ 40 \<Longrightarrow> rnd (numeral n) = Fin (numeral n)"
  "(numeral n :: rat) < 2 ^ 40 \<Longrightarrow> rnd (- numeral n) = Fin (- numeral n)"
  using exact_intro [of "numeral n" 0] exact_intro [of "- numeral n" 0] exact_intro [of 0 0]
    exact_intro [of 1 0]
  by (simp_all add: rnd_exact)

lemma Fin_ops [simp]:
  "Fin a + Fin b = rnd (a + b)" "Fin a - Fin b = rnd (a - b)" "Fin a * Fin b = rnd (a * b)"
  "b \<noteq> 0 \<Longrightarrow> Fin a / Fin b = rnd (a / b)" "- Fin a = Fin (- a)" "\<bar>Fin a\<bar> = Fin \<bar>a\<bar>"
  by (simp_all add: f64_ops)

lemma rnd_le: "exact b \<Longrightarrow> a \<le> b \<Longrightarrow> rnd a \<le> Fin b"
  using rnd_mono [of a b] by (simp add: rnd_exact)

lemma rnd_ge: "exact b \<Longrightarrow> b \<le> a \<Longrightarrow> Fin b \<le> rnd a"
  using rnd_mono [of b a] by (simp add: rnd_exact)

text \<open>Subtraction is anti-symmetric, so a distance does not depend on the order of its ends.\<close>

lemma fneg_fneg [simp]: "fneg (fneg x) = x"
  by (cases x) auto

lemma fsub_swap: "(x :: f64) - y = - (y - x)"
proof (cases x; cases y)
  fix a b
  assume "x = Fin a" "y = Fin b"
  then show ?thesis
    using rnd_neg [of "b - a"] by (simp add: uminus_f64_def)
qed (simp_all add: f64_ops)

lemma f64_abs_neg [simp]: "\<bar>- (x :: f64)\<bar> = \<bar>x\<bar>"
  by (cases x) (simp_all add: f64_ops)

lemma f64_abs_swap: "\<bar>(x :: f64) - y\<bar> = \<bar>y - x\<bar>"
  by (subst fsub_swap) simp

lemma abs_rnd: "\<bar>rnd q\<bar> = rnd \<bar>q\<bar>"
  by (cases "q \<ge> 0")
    (use rnd_val_sign [of q] rnd_val_sign [of "- q"] in
      \<open>auto simp: rnd_def Let_def abs_f64_def rnd_val_neg\<close>)

text \<open>Numbers that are multiples of a quarter and not large: sums and differences are exact.\<close>

definition quarters :: "rat \<Rightarrow> bool" where
  "quarters q \<longleftrightarrow> 4 * q \<in> \<int>"

lemma quarters_exact: "quarters q \<Longrightarrow> \<bar>q\<bar> < 2 ^ 40 \<Longrightarrow> exact q"
  using exact_intro [of q 2] by (simp add: quarters_def mult.commute)

lemma quarters_intros [intro, simp]:
  "quarters (of_int i)" "quarters (of_nat n)" "quarters (numeral k)" "quarters 0" "quarters 1"
  "quarters a \<Longrightarrow> quarters b \<Longrightarrow> quarters (a + b)"
  "quarters a \<Longrightarrow> quarters b \<Longrightarrow> quarters (a - b)"
  "quarters a \<Longrightarrow> quarters (- a)"
  "quarters a \<Longrightarrow> quarters (of_nat n * a)"
  by (auto simp: quarters_def algebra_simps intro: Ints_add Ints_diff Ints_minus)
    (metis Ints_mult Ints_of_nat mult.left_commute)

lemma rnd_quarters: "quarters q \<Longrightarrow> \<bar>q\<bar> < 2 ^ 40 \<Longrightarrow> rnd q = Fin q"
  by (simp add: rnd_exact quarters_exact)

lemma math_round_numeral: "math_round (Fin (numeral n)) = Fin (numeral n)"
proof -
  have "\<lfloor>of_int (numeral n) + 1 / 2 :: rat\<rfloor> = numeral n"
    by (rule floor_unique) (simp_all del: of_int_numeral)
  then show ?thesis
    by simp
qed

end
