(* ===== verification/SvgExtract.thy ===== *)
theory SvgExtract
  imports Float64 LabCatalog
begin

text \<open>
  \<open>tools/topogen/extract.go\<close>: node positions salvaged from the hand-drawn diagrams.  The XML
  decoder is outside the model: a document is the list of tokens it yields, with what ends it
  (the end of the input, or an error).  The file system is a function from file names to what is
  read and to whether a directory or file can be written.
\<close>

section \<open>The SVG model\<close>

record shape =
  sh_Kind :: string
  sh_X :: f64
  sh_Y :: f64
  sh_W :: f64
  sh_H :: f64
  sh_R :: f64

definition shape_contains :: "shape \<Rightarrow> f64 \<Rightarrow> f64 \<Rightarrow> bool" where
  "shape_contains s px py =
     (if sh_Kind s = ''rect''
      then px \<ge> sh_X s \<and> px \<le> sh_X s + sh_W s \<and> py \<ge> sh_Y s \<and> py \<le> sh_Y s + sh_H s
      else let dx = px - sh_X s; dy = py - sh_Y s in dx * dx + dy * dy \<le> sh_R s * sh_R s)"

definition shape_center :: "shape \<Rightarrow> f64 \<times> f64" where
  "shape_center s =
     (if sh_Kind s = ''rect'' then (sh_X s + sh_W s / Fin 2, sh_Y s + sh_H s / Fin 2)
      else (sh_X s, sh_Y s))"

record textEl =
  te_Content :: string
  te_X :: f64
  te_Y :: f64

record svgDoc =
  svg_Shapes :: "shape list"
  svg_Texts :: "textEl list"

text \<open>Tokens of \<open>encoding/xml\<close>, by local names; comments and the like are one constructor.\<close>

datatype xml_tok =
    StartElement string "(string \<times> string) list"
  | EndElement
  | CharData string
  | OtherToken

type_synonym xml_stream = "xml_tok list \<times> gerr option"

definition io_EOF :: gerr where "io_EOF = Sentinel ''EOF''"

definition attrMap :: "(string \<times> string) list \<Rightarrow> (string, string) gomap" where
  "attrMap attrs = foldl (\<lambda>m a. mput (fst a) (snd a) m) [] attrs"

text \<open>
  \<open>Sscanf(s, "%f", &f)\<close>: a decimal number, \<open>nan\<close> or a signed \<open>inf\<close> at the start; \<open>f\<close> keeps its
  zero when the text is none of them or out of range.  (Hexadecimal and binary exponents, which
  \<open>fmt\<close> also reads, have no place in SVG and are left out.)
\<close>

definition num_digit :: "char \<Rightarrow> bool" where
  "num_digit c = (is_digit c \<or> c = CHR ''_'')"

definition take_sign :: "string \<Rightarrow> string \<times> string" where
  "take_sign s = (if s \<noteq> [] \<and> hd s \<in> {CHR ''+'', CHR ''-''} then ([hd s], tl s) else ([], s))"

definition take_frac :: "string \<Rightarrow> string \<times> string" where
  "take_frac s =
     (if s \<noteq> [] \<and> hd s = CHR ''.''
      then (takeWhile num_digit (tl s), dropWhile num_digit (tl s)) else ([], s))"

text \<open>The exponent: \<open>None\<close> when the letter is not followed by digits.\<close>

definition take_exp :: "string \<Rightarrow> int option" where
  "take_exp s =
     (if s \<noteq> [] \<and> hd s \<in> {CHR ''e'', CHR ''E''}
      then (case take_sign (tl s) of (sg, r) \<Rightarrow>
              (let ds = takeWhile num_digit r
               in if ds = [] \<or> \<not> list_all is_digit ds then None
                  else Some (if sg = ''-'' then - int (digits_val ds) else int (digits_val ds))))
      else Some 0)"

definition num :: "string \<Rightarrow> f64" where
  "num s =
     (let s1 = dropWhile scan_blank s
      in if to_lower (take 3 s1) = ''nan'' then NaN
         else case take_sign s1 of (sg, s2) \<Rightarrow>
           if to_lower (take 3 s2) = ''inf'' then (if sg = ''-'' then NInf else PInf)
           else
             (let ip = takeWhile num_digit s2;
                  (fp, r) = take_frac (dropWhile num_digit s2);
                  ds = ip @ fp
              in case take_exp r of
                   None \<Rightarrow> Fin 0
                 | Some e \<Rightarrow>
                     if ds = [] \<or> \<not> list_all is_digit ds then Fin 0
                     else (let v = of_nat (digits_val ds) * 10 powi (e - int (length fp))
                           in case rnd (if sg = ''-'' then - v else v) of
                                Fin q \<Rightarrow> Fin q | _ \<Rightarrow> Fin 0)))"

definition attr_num :: "(string, string) gomap \<Rightarrow> string \<Rightarrow> f64" where
  "attr_num attrs k = num (mget0 [] attrs k)"

text \<open>The character data up to the end of the element, and the tokens after it.\<close>

fun textContent :: "nat \<Rightarrow> string \<Rightarrow> xml_tok list \<Rightarrow> (string \<times> xml_tok list) option" where
  "textContent 0 sb ts = Some (trim_space sb, ts)"
| "textContent (Suc d) sb [] = None"
| "textContent (Suc d) sb (StartElement n as # ts) = textContent (Suc (Suc d)) sb ts"
| "textContent (Suc d) sb (EndElement # ts) = textContent d sb ts"
| "textContent (Suc d) sb (CharData c # ts) = textContent (Suc d) (sb @ c) ts"
| "textContent (Suc d) sb (OtherToken # ts) = textContent (Suc d) sb ts"

lemma textContent_shorter: "textContent d sb ts = Some (c, rest) \<Longrightarrow> length rest \<le> length ts"
  by (induction d sb ts rule: textContent.induct) auto

definition add_shape :: "shape \<Rightarrow> svgDoc \<Rightarrow> svgDoc" where
  "add_shape s doc = doc\<lparr>svg_Shapes := svg_Shapes doc @ [s]\<rparr>"

definition add_text :: "textEl \<Rightarrow> svgDoc \<Rightarrow> svgDoc" where
  "add_text t doc = doc\<lparr>svg_Texts := svg_Texts doc @ [t]\<rparr>"

text \<open>
  The token loop.  \<open>attrs\<close> is assigned at every start tag before it is read, so the \<open>depth\<close>
  counter that clears it at the end of the root element has no effect and is not kept.
\<close>

function parse_loop :: "gerr option \<Rightarrow> svgDoc \<Rightarrow> xml_tok list \<Rightarrow> gerr + svgDoc" where
  "parse_loop e doc [] = (case e of None \<Rightarrow> Inr doc | Some err \<Rightarrow> Inl err)"
| "parse_loop e doc (StartElement n as # ts) =
     (let attrs = attrMap as
      in if n = ''rect'' then
           parse_loop e (add_shape \<lparr>sh_Kind = ''rect'', sh_X = attr_num attrs ''x'',
             sh_Y = attr_num attrs ''y'', sh_W = attr_num attrs ''width'',
             sh_H = attr_num attrs ''height'', sh_R = Fin 0\<rparr> doc) ts
         else if n = ''circle'' then
           parse_loop e (add_shape \<lparr>sh_Kind = ''circle'', sh_X = attr_num attrs ''cx'',
             sh_Y = attr_num attrs ''cy'', sh_W = Fin 0, sh_H = Fin 0,
             sh_R = attr_num attrs ''r''\<rparr> doc) ts
         else if n = ''text'' then
           (case textContent 1 [] ts of
              None \<Rightarrow> Inl (case e of None \<Rightarrow> io_EOF | Some err \<Rightarrow> err)
            | Some (content, rest) \<Rightarrow>
                parse_loop e (add_text \<lparr>te_Content = content, te_X = attr_num attrs ''x'',
                  te_Y = attr_num attrs ''y''\<rparr> doc) rest)
         else parse_loop e doc ts)"
| "parse_loop e doc (EndElement # ts) = parse_loop e doc ts"
| "parse_loop e doc (CharData c # ts) = parse_loop e doc ts"
| "parse_loop e doc (OtherToken # ts) = parse_loop e doc ts"
  by pat_completeness auto
termination
  by (relation "measure (\<lambda>(e, doc, ts). length ts)") (auto dest: textContent_shorter)

definition parseSVG :: "xml_stream \<Rightarrow> gerr + svgDoc" where
  "parseSVG r = parse_loop (snd r) \<lparr>svg_Shapes = [], svg_Texts = []\<rparr> (fst r)"

text \<open>The first of the large and the small diagram that opens and parses.\<close>

type_synonym baseline = "string \<Rightarrow> int \<Rightarrow> xml_stream option"

definition svg_at :: "baseline \<Rightarrow> string \<Rightarrow> int \<Rightarrow> svgDoc option" where
  "svg_at base dir labID =
     (case base dir labID of
        None \<Rightarrow> None
      | Some r \<Rightarrow> (case parseSVG r of Inl e \<Rightarrow> None | Inr doc \<Rightarrow> Some doc))"

definition loadBaselineSVG :: "baseline \<Rightarrow> int \<Rightarrow> svgDoc option" where
  "loadBaselineSVG base labID =
     (case svg_at base ''svg_large'' labID of
        Some doc \<Rightarrow> Some doc | None \<Rightarrow> svg_at base ''svg_small'' labID)"

section \<open>Positions\<close>

record NodePos =
  np_X :: f64
  np_Y :: f64
  np_W :: f64
  np_H :: f64
  np_R :: f64
  np_Shape :: string

type_synonym positions = "(string, (string, NodePos) gomap) gomap"

definition nodeNamesForLab :: "int \<Rightarrow> string list" where
  "nodeNamesForLab labID = sort (map nt_Name (tt_Nodes (TopologyForLab labID)))"

definition maxNodeShapeArea :: f64 where "maxNodeShapeArea = Fin 20000"

definition isNodeShape :: "shape \<Rightarrow> bool" where
  "isNodeShape s =
     (if sh_Kind s = ''rect'' then sh_W s * sh_H s \<le> maxNodeShapeArea
      else f_pi * sh_R s * sh_R s \<le> maxNodeShapeArea)"

definition nameMatches :: "string \<Rightarrow> string \<Rightarrow> bool" where
  "nameMatches content name =
     (let t = trim_space content
      in equal_fold t name
         \<or> length t > length name \<and> equal_fold (take (length name) t) name
           \<and> t ! length name \<in> {CHR '' '', CHR 0x09, CHR 0x0A})"

definition toNodePos :: "shape \<Rightarrow> NodePos" where
  "toNodePos s =
     (if sh_Kind s = ''rect''
      then \<lparr>np_X = sh_X s, np_Y = sh_Y s, np_W = sh_W s, np_H = sh_H s, np_R = Fin 0, np_Shape = sh_Kind s\<rparr>
      else \<lparr>np_X = sh_X s, np_Y = sh_Y s, np_W = Fin 0, np_H = Fin 0, np_R = sh_R s, np_Shape = sh_Kind s\<rparr>)"

text \<open>
  The two selection loops: the index with the least value among the unused node-sized shapes
  that qualify, the first of equals; \<open>math.MaxFloat64\<close> is the bound they start from.
\<close>

definition shape_area :: "shape \<Rightarrow> f64" where
  "shape_area s = (if sh_Kind s = ''circle'' then f_pi * sh_R s * sh_R s else sh_W s * sh_H s)"

definition pick :: "(shape \<Rightarrow> bool) \<Rightarrow> (shape \<Rightarrow> f64) \<Rightarrow> nat list \<Rightarrow> shape list \<Rightarrow> nat option" where
  "pick qualifies value used shapes =
     fst (foldl (\<lambda>(best, bv) (i, s).
            if i \<in> set used \<or> \<not> isNodeShape s then (best, bv)
            else if qualifies s \<and> value s < bv then (Some i, value s) else (best, bv))
          (None, f_max) (List.enumerate 0 shapes))"

definition center_dist :: "libm \<Rightarrow> f64 \<Rightarrow> f64 \<Rightarrow> shape \<Rightarrow> f64" where
  "center_dist lm x y s = (case shape_center s of (cx, cy) \<Rightarrow> lm_Hypot lm (cx - x) (cy - y))"

definition locateNode :: "libm \<Rightarrow> svgDoc \<Rightarrow> string \<Rightarrow> nat list \<Rightarrow> (NodePos option \<times> nat list)" where
  "locateNode lm doc name used =
     (case find (\<lambda>t. nameMatches (te_Content t) name) (svg_Texts doc) of
        None \<Rightarrow> (None, used)
      | Some t \<Rightarrow>
          (case pick (\<lambda>s. shape_contains s (te_X t) (te_Y t)) shape_area used (svg_Shapes doc) of
             Some i \<Rightarrow> (Some (toNodePos (svg_Shapes doc ! i)), i # used)
           | None \<Rightarrow>
          (case pick (\<lambda>s. True) (center_dist lm (te_X t) (te_Y t)) used (svg_Shapes doc) of
             Some i \<Rightarrow> (Some (toNodePos (svg_Shapes doc ! i)), i # used)
           | None \<Rightarrow> (None, used))))"

section \<open>\<open>cmdExtract\<close>\<close>

definition gate_head :: string where
  "gate_head =
     ''# Extraction Gate Report'' @ [CHR 0x0A, CHR 0x0A] @
     ''Node positions salvaged from baseline SVGs, matched **by name** against the Go topology template.''
     @ [CHR 0x0A, CHR 0x0A] @
     ''| Lab | Node | Status | Source shape |'' @ [CHR 0x0A] @ ''|---|---|---|---|'' @ [CHR 0x0A]"

definition gate_no_svg :: "int \<Rightarrow> string" where
  "gate_no_svg labID =
     ''| '' @ itoa labID @ '' | '' @ em_dash @ '' | **NO SVG** | '' @ em_dash @ '' |'' @ [CHR 0x0A]"

definition gate_missing :: "int \<Rightarrow> string \<Rightarrow> string" where
  "gate_missing labID name =
     ''| '' @ itoa labID @ '' | '' @ name @ '' | MISSING (auto-layout) | '' @ em_dash @ '' |'' @ [CHR 0x0A]"

definition gate_ok :: "int \<Rightarrow> string \<Rightarrow> NodePos \<Rightarrow> string" where
  "gate_ok labID name sp =
     ''| '' @ itoa labID @ '' | '' @ name @ '' | OK | '' @ np_Shape sp @ '' @ ('' @ fmt0 (np_X sp)
     @ '','' @ fmt0 (np_Y sp) @ '') |'' @ [CHR 0x0A]"

text \<open>One lab: positions by name, the shapes used up, and the lines of the report.\<close>

record extraction =
  ex_Per :: "(string, NodePos) gomap"
  ex_Used :: "nat list"
  ex_Gate :: string

definition extract_node :: "libm \<Rightarrow> int \<Rightarrow> svgDoc \<Rightarrow> extraction \<Rightarrow> string \<Rightarrow> extraction" where
  "extract_node lm labID doc st name =
     (case locateNode lm doc name (ex_Used st) of
        (None, used) \<Rightarrow> st\<lparr>ex_Used := used, ex_Gate := ex_Gate st @ gate_missing labID name\<rparr>
      | (Some sp, used) \<Rightarrow>
          st\<lparr>ex_Per := mput name sp (ex_Per st), ex_Used := used,
             ex_Gate := ex_Gate st @ gate_ok labID name sp\<rparr>)"

definition extract_lab :: "libm \<Rightarrow> int \<Rightarrow> svgDoc \<Rightarrow> extraction" where
  "extract_lab lm labID doc =
     foldl (extract_node lm labID doc) \<lparr>ex_Per = [], ex_Used = [], ex_Gate = []\<rparr> (nodeNamesForLab labID)"

definition audited_labs :: "int list" where
  "audited_labs = filter (\<lambda>labID. nodeNamesForLab labID \<noteq> []) [1..46]"

definition extract_step :: "libm \<Rightarrow> baseline \<Rightarrow> positions \<times> string \<Rightarrow> int \<Rightarrow> positions \<times> string" where
  "extract_step lm base acc labID =
     (case acc of (pos, gate) \<Rightarrow>
        (case loadBaselineSVG base labID of
           None \<Rightarrow> (pos, gate @ gate_no_svg labID)
         | Some doc \<Rightarrow>
             (let ex = extract_lab lm labID doc
              in (if ex_Per ex = [] then pos else mput (itoa labID) (ex_Per ex) pos,
                  gate @ ex_Gate ex))))"

definition extract_all :: "libm \<Rightarrow> baseline \<Rightarrow> positions \<times> string" where
  "extract_all lm base = foldl (extract_step lm base) ([], gate_head) audited_labs"

text \<open>
  Output files in the order they are written, or the step at which the command exits with 1.
  \<open>json.MarshalIndent\<close> fails on numbers that are not finite; its text is not modelled.
\<close>

datatype tool_file = PositionsFile positions | ReportFile string

record tool_os =
  os_MkdirAll :: "string \<Rightarrow> bool"
  os_WriteFile :: "string \<Rightarrow> bool"

fun is_finite :: "f64 \<Rightarrow> bool" where
  "is_finite (Fin q) = True"
| "is_finite x = False"

definition marshals :: "positions \<Rightarrow> bool" where
  "marshals pos =
     list_all (\<lambda>e. list_all (\<lambda>p. list_all is_finite
       [np_X (snd p), np_Y (snd p), np_W (snd p), np_H (snd p), np_R (snd p)]) (snd e)) pos"

definition extract_summary :: "positions \<Rightarrow> string \<Rightarrow> string \<Rightarrow> string" where
  "extract_summary pos outPath gatePath =
     (let total = sum_list (map (\<lambda>labID. int (length (nodeNamesForLab labID))) audited_labs);
          found = sum_list (map (\<lambda>e. int (length (snd e))) pos)
      in ''extract: '' @ itoa total @ '' nodes across '' @ itoa (int (length pos)) @ '' labs; ''
         @ itoa found @ '' positions found ('' @ itoa (total - found) @ '' missing ''
         @ [CHR 0xE2, CHR 0x86, CHR 0x92] @ '' auto-layout)'' @ [CHR 0x0A]
         @ ''gate report: '' @ gatePath @ [CHR 0x0A] @ ''positions: '' @ outPath @ [CHR 0x0A])"

definition cmdExtract ::
  "libm \<Rightarrow> baseline \<Rightarrow> tool_os \<Rightarrow> string \<Rightarrow> string \<Rightarrow> (string \<times> tool_file) list \<times> (int + string)" where
  "cmdExtract lm base os outPath gatePath =
     (case extract_all lm base of (pos, gate) \<Rightarrow>
        if \<not> os_MkdirAll os outPath then ([], Inl 1)
        else if \<not> marshals pos then ([], Inl 1)
        else if \<not> os_WriteFile os outPath then ([], Inl 1)
        else if \<not> os_MkdirAll os gatePath then ([(outPath, PositionsFile pos)], Inl 1)
        else if \<not> os_WriteFile os gatePath then ([(outPath, PositionsFile pos)], Inl 1)
        else ([(outPath, PositionsFile pos), (gatePath, ReportFile gate)],
              Inr (extract_summary pos outPath gatePath)))"

section \<open>What the selection loops choose\<close>

definition eligible :: "(shape \<Rightarrow> bool) \<Rightarrow> nat list \<Rightarrow> shape list \<Rightarrow> nat \<Rightarrow> bool" where
  "eligible qualifies used shapes i \<longleftrightarrow>
     i < length shapes \<and> i \<notin> set used \<and> isNodeShape (shapes ! i) \<and> qualifies (shapes ! i)"

definition pick_inv ::
  "(shape \<Rightarrow> bool) \<Rightarrow> (shape \<Rightarrow> f64) \<Rightarrow> nat list \<Rightarrow> shape list \<Rightarrow> nat option \<times> f64 \<Rightarrow> bool" where
  "pick_inv q v used shapes st \<longleftrightarrow>
     (case st of
        (None, bv) \<Rightarrow> bv = f_max \<and> (\<forall>j. eligible q used shapes j \<longrightarrow> \<not> v (shapes ! j) < f_max)
      | (Some i, bv) \<Rightarrow> eligible q used shapes i \<and> bv = v (shapes ! i) \<and> bv < f_max
          \<and> (\<forall>j. eligible q used shapes j \<longrightarrow> \<not> v (shapes ! j) < bv)
          \<and> (\<forall>j<i. eligible q used shapes j \<longrightarrow> \<not> v (shapes ! j) \<le> bv))"

lemma eligible_snoc:
  "eligible q used (shapes @ [s]) j \<longleftrightarrow>
     eligible q used shapes j
     \<or> j = length shapes \<and> j \<notin> set used \<and> isNodeShape s \<and> q s"
  by (auto simp: eligible_def nth_append less_Suc_eq)

lemma eligible_lt: "eligible q used shapes j \<Longrightarrow> j < length shapes"
  by (simp add: eligible_def)

lemma f_max_not_le: "v < f_max \<Longrightarrow> \<not> w < f_max \<Longrightarrow> \<not> w \<le> v"
  using f64_le_less_trans by blast

lemma pick_inv_foldl:
  "pick_inv q v used shapes
     (foldl (\<lambda>(best, bv) (i, s).
            if i \<in> set used \<or> \<not> isNodeShape s then (best, bv)
            else if q s \<and> v s < bv then (Some i, v s) else (best, bv))
          (None, f_max) (List.enumerate 0 shapes))"
proof (induction shapes rule: rev_induct)
  case Nil
  show ?case
    by (simp add: pick_inv_def eligible_def)
next
  case (snoc s shapes)
  then show ?case
    by (simp add: enumerate_append_eq)
      (auto simp: pick_inv_def eligible_snoc nth_append dest: eligible_lt f64_le_less_trans
        f64_less_trans f_max_not_le split: prod.splits option.splits)
qed

lemma pick_Some:
  assumes "pick q v used shapes = Some i"
  shows "eligible q used shapes i" "v (shapes ! i) < f_max"
    and "eligible q used shapes j \<Longrightarrow> \<not> v (shapes ! j) < v (shapes ! i)"
    and "eligible q used shapes j \<Longrightarrow> j < i \<Longrightarrow> \<not> v (shapes ! j) \<le> v (shapes ! i)"
  using pick_inv_foldl [of q v used shapes] assms
  by (auto simp: pick_def pick_inv_def split: option.splits)

lemma pick_None:
  assumes "pick q v used shapes = None" "eligible q used shapes j"
  shows "\<not> v (shapes ! j) < f_max"
  using pick_inv_foldl [of q v used shapes] assms
  by (auto simp: pick_def pick_inv_def split: option.splits)

section \<open>What a located node is\<close>

definition names_text :: "svgDoc \<Rightarrow> string \<Rightarrow> bool" where
  "names_text doc name = list_ex (\<lambda>t. nameMatches (te_Content t) name) (svg_Texts doc)"

abbreviation first_text :: "svgDoc \<Rightarrow> string \<Rightarrow> textEl option" where
  "first_text doc name \<equiv> find (\<lambda>t. nameMatches (te_Content t) name) (svg_Texts doc)"

abbreviation pick_containing :: "svgDoc \<Rightarrow> nat list \<Rightarrow> textEl \<Rightarrow> nat option" where
  "pick_containing doc used t \<equiv>
     pick (\<lambda>s. shape_contains s (te_X t) (te_Y t)) shape_area used (svg_Shapes doc)"

abbreviation pick_nearest :: "libm \<Rightarrow> svgDoc \<Rightarrow> nat list \<Rightarrow> textEl \<Rightarrow> nat option" where
  "pick_nearest lm doc used t \<equiv>
     pick (\<lambda>s. True) (center_dist lm (te_X t) (te_Y t)) used (svg_Shapes doc)"

lemma names_text_iff: "names_text doc name \<longleftrightarrow> first_text doc name \<noteq> None"
  by (auto simp: names_text_def list_ex_iff find_None_iff)

lemma locateNode_cases:
  obtains (no_text) "first_text doc name = None" "locateNode lm doc name used = (None, used)"
  | (found) t i where "first_text doc name = Some t"
      "pick_containing doc used t = Some i \<or> pick_containing doc used t = None \<and> pick_nearest lm doc used t = Some i"
      "locateNode lm doc name used = (Some (toNodePos (svg_Shapes doc ! i)), i # used)"
  | (no_shape) t where "first_text doc name = Some t" "pick_nearest lm doc used t = None"
      "locateNode lm doc name used = (None, used)"
proof (cases "first_text doc name")
  case None
  with no_text show thesis by (simp add: locateNode_def)
next
  case (Some t)
  show thesis
  proof (cases "pick_containing doc used t")
    case c: None
    show thesis
    proof (cases "pick_nearest lm doc used t")
      case None
      with c Some no_shape [of t] show thesis by (simp add: locateNode_def)
    next
      case (Some i)
      with c \<open>first_text doc name = Some t\<close> found [of t i] show thesis by (simp add: locateNode_def)
    qed
  next
    case (Some i)
    with \<open>first_text doc name = Some t\<close> found [of t i] show thesis by (simp add: locateNode_def)
  qed
qed

lemma locateNode_Some:
  assumes "locateNode lm doc name used = (Some sp, used')"
  obtains i where "used' = i # used" "i \<notin> set used" "i < length (svg_Shapes doc)"
    "isNodeShape (svg_Shapes doc ! i)" "sp = toNodePos (svg_Shapes doc ! i)" "names_text doc name"
proof (cases rule: locateNode_cases [where doc = doc and name = name and lm = lm and used = used])
  case (found t i)
  then have "i \<notin> set used \<and> i < length (svg_Shapes doc) \<and> isNodeShape (svg_Shapes doc ! i)"
    by (metis eligible_def pick_Some(1))
  with found assms that [of i] show thesis
    by (simp add: names_text_iff)
qed (use assms in simp_all)

lemma locateNode_None:
  assumes "locateNode lm doc name used = (None, used')"
  shows "used' = used"
    and "\<not> names_text doc name
      \<or> (\<exists>x y. \<forall>i. eligible (\<lambda>_. True) used (svg_Shapes doc) i
            \<longrightarrow> \<not> center_dist lm x y (svg_Shapes doc ! i) < f_max)"
  using assms
  by (cases rule: locateNode_cases [where doc = doc and name = name and lm = lm and used = used]; auto simp: names_text_iff dest: pick_None)+

text \<open>Every position belongs to a shape of its own.\<close>

definition own_shape :: "svgDoc \<Rightarrow> (string \<Rightarrow> nat) \<Rightarrow> string \<times> NodePos \<Rightarrow> bool" where
  "own_shape doc f e \<longleftrightarrow>
     f (fst e) < length (svg_Shapes doc) \<and> isNodeShape (svg_Shapes doc ! f (fst e))
     \<and> snd e = toNodePos (svg_Shapes doc ! f (fst e)) \<and> names_text doc (fst e)"

definition extraction_ok :: "svgDoc \<Rightarrow> string set \<Rightarrow> extraction \<Rightarrow> bool" where
  "extraction_ok doc ns st \<longleftrightarrow>
     gomap_ok (ex_Per st) \<and> fst ` set (ex_Per st) \<subseteq> ns
     \<and> (\<exists>f. inj_on f (fst ` set (ex_Per st)) \<and> f ` fst ` set (ex_Per st) \<subseteq> set (ex_Used st)
           \<and> list_all (own_shape doc f) (ex_Per st))"

lemma set_mput: "gomap_ok m \<Longrightarrow> set (mput k v m) = insert (k, v) {e \<in> set m. fst e \<noteq> k}"
  by (induction m) (auto simp: gomap_ok_def image_iff)

lemma inj_on_update: "inj_on f D \<Longrightarrow> f ` D \<subseteq> U \<Longrightarrow> i \<notin> U \<Longrightarrow> inj_on (f(n := i)) (insert n D)"
  by (auto simp: inj_on_def image_subset_iff)

lemma extraction_ok_intro:
  assumes "gomap_ok (ex_Per st)" "fst ` set (ex_Per st) \<subseteq> ns"
    "inj_on f (fst ` set (ex_Per st))" "f ` fst ` set (ex_Per st) \<subseteq> set (ex_Used st)"
    "list_all (own_shape doc f) (ex_Per st)"
  shows "extraction_ok doc ns st"
  unfolding extraction_ok_def using assms by blast

lemma extract_found_ok:
  assumes ok: "extraction_ok doc ns st" and name: "name \<in> ns"
    and i: "i \<notin> set (ex_Used st)" "i < length (svg_Shapes doc)"
      "isNodeShape (svg_Shapes doc ! i)" "names_text doc name"
  shows "extraction_ok doc ns
    (st\<lparr>ex_Per := mput name (toNodePos (svg_Shapes doc ! i)) (ex_Per st),
        ex_Used := i # ex_Used st, ex_Gate := gt\<rparr>)"
proof -
  obtain f where g: "gomap_ok (ex_Per st)" and ns: "fst ` set (ex_Per st) \<subseteq> ns"
      and f: "inj_on f (fst ` set (ex_Per st))"
      "f ` fst ` set (ex_Per st) \<subseteq> set (ex_Used st)" "list_all (own_shape doc f) (ex_Per st)"
    using ok unfolding extraction_ok_def by blast
  let ?m = "mput name (toNodePos (svg_Shapes doc ! i)) (ex_Per st)"
  let ?f = "f(name := i)"
  have dom: "fst ` set ?m = insert name (fst ` set (ex_Per st))"
    by (auto simp: set_mput [OF g])
  have "inj_on ?f (fst ` set ?m)"
    unfolding dom by (rule inj_on_update [OF f(1,2) i(1)])
  moreover have "?f ` fst ` set ?m \<subseteq> set (i # ex_Used st)"
    unfolding dom using f(2) by auto
  moreover have "list_all (own_shape doc ?f) ?m"
    using f(3) i by (auto simp: set_mput [OF g] list_all_iff own_shape_def)
  moreover have "fst ` set ?m \<subseteq> ns"
    unfolding dom using ns name by simp
  ultimately show ?thesis
    using g by (intro extraction_ok_intro [of _ _ ?f]) simp_all
qed

lemma extract_node_ok:
  assumes "extraction_ok doc ns st" "name \<in> ns"
  shows "extraction_ok doc ns (extract_node lm labID doc st name)"
proof (cases "locateNode lm doc name (ex_Used st)")
  case (Pair r used)
  show ?thesis
  proof (cases r)
    case None
    with Pair have "locateNode lm doc name (ex_Used st) = (None, used)"
      by simp
    from locateNode_None(1) [OF this] this show ?thesis
      using assms(1) by (simp add: extract_node_def extraction_ok_def)
  next
    case (Some sp)
    with Pair have l: "locateNode lm doc name (ex_Used st) = (Some sp, used)"
      by simp
    from locateNode_Some [OF this] obtain i where i: "used = i # ex_Used st"
        "i \<notin> set (ex_Used st)" "i < length (svg_Shapes doc)" "isNodeShape (svg_Shapes doc ! i)"
        "sp = toNodePos (svg_Shapes doc ! i)" "names_text doc name"
      by blast
    show ?thesis
      unfolding extract_node_def l prod.case option.case i(1,5)
      by (rule extract_found_ok [OF assms i(2-4,6)])
  qed
qed

lemma extract_nodes_ok:
  "extraction_ok doc ns st \<Longrightarrow> set names \<subseteq> ns \<Longrightarrow>
     extraction_ok doc ns (foldl (extract_node lm labID doc) st names)"
  by (induction names arbitrary: st) (auto intro: extract_node_ok)

lemma extract_lab_ok: "extraction_ok doc (set (nodeNamesForLab labID)) (extract_lab lm labID doc)"
  unfolding extract_lab_def
  by (rule extract_nodes_ok) (simp_all add: extraction_ok_def)

text \<open>The entries of the positions file.\<close>

definition entry_ok :: "baseline \<Rightarrow> string \<times> (string, NodePos) gomap \<Rightarrow> bool" where
  "entry_ok base e \<longleftrightarrow>
     (\<exists>labID doc f. fst e = itoa labID \<and> 1 \<le> labID \<and> labID \<le> 46
        \<and> loadBaselineSVG base labID = Some doc
        \<and> fst ` set (snd e) \<subseteq> set (nodeNamesForLab labID)
        \<and> inj_on f (fst ` set (snd e)) \<and> list_all (own_shape doc f) (snd e))"

lemma extract_step_ok:
  assumes "list_all (entry_ok base) pos" "gomap_ok pos" "1 \<le> labID" "labID \<le> 46"
  shows "list_all (entry_ok base) (fst (extract_step lm base (pos, gate) labID))
    \<and> gomap_ok (fst (extract_step lm base (pos, gate) labID))"
proof (cases "loadBaselineSVG base labID")
  case None
  then show ?thesis
    using assms by (simp add: extract_step_def)
next
  case (Some doc)
  have "entry_ok base (itoa labID, ex_Per (extract_lab lm labID doc))"
    using extract_lab_ok [of doc labID lm] Some assms(3,4)
    by (auto simp: entry_ok_def extraction_ok_def)
  then show ?thesis
    using Some assms by (auto simp: extract_step_def Let_def set_mput list_all_iff)
qed

lemma extract_steps_ok:
  "list_all (entry_ok base) pos \<Longrightarrow> gomap_ok pos \<Longrightarrow> list_all (\<lambda>l. 1 \<le> l \<and> l \<le> 46) labs \<Longrightarrow>
     list_all (entry_ok base) (fst (foldl (extract_step lm base) (pos, gate) labs))"
proof (induction labs arbitrary: pos gate)
  case (Cons l labs)
  then show ?case
    using extract_step_ok [of base pos l lm gate]
    by (cases "extract_step lm base (pos, gate) l") simp
qed simp

lemma audited_range: "list_all (\<lambda>l. 1 \<le> l \<and> l \<le> 46) audited_labs"
  by (simp add: audited_labs_def list_all_iff)

text \<open>
  C34: every position the extraction writes belongs to a node of the lab's template whose name
  stands in the lab's diagram, and comes from a node-sized shape of that diagram; two nodes of a
  lab never get the same shape.  The background and grid rectangles are not node-sized.
\<close>

theorem extract_positions_own_shapes:
  "list_all (entry_ok base) (fst (extract_all lm base))"
  unfolding extract_all_def
  by (rule extract_steps_ok) (simp_all add: audited_range)

end
