(* ===== verification/TopoLayout.thy ===== *)
theory TopoLayout
  imports SvgExtract "HOL-Library.Multiset"
begin

text \<open>
  \<open>tools/topogen/render.go\<close>, the layout: roles, the grid for nodes without a salvaged position,
  the minimum gap, the two clearances, and the fall-back to a pure grid.
\<close>

section \<open>Roles\<close>

datatype nodeRole = RoleCore | RoleHub | RoleHost | RoleAttacker

definition to_upper :: "string \<Rightarrow> string" where
  "to_upper s = map (\<lambda>c. let n = (of_char c :: nat) in if 97 \<le> n \<and> n \<le> 122 then char_of (n - 32) else c) s"

definition roleOf :: "NodeTemplate \<Rightarrow> nodeRole" where
  "roleOf n =
     (if contains_str (to_upper (nt_Name n)) ''KALI'' then RoleAttacker
      else if nt_NodeType n = ''vpcs'' then RoleHost
      else if nt_NodeType n = ''ethernet_hub'' then RoleHub
      else RoleCore)"

definition roleSubtitle :: "NodeTemplate \<Rightarrow> string" where
  "roleSubtitle n =
     (case roleOf n of
        RoleAttacker \<Rightarrow> ''attacker / observer''
      | RoleHost \<Rightarrow> ''end host''
      | RoleHub \<Rightarrow> ''hub '' @ em_dash @ '' shared domain''
      | RoleCore \<Rightarrow>
          (let u = to_upper (nt_Name n)
           in if u = ''FW1'' then ''firewall''
              else if u = ''SERVER'' \<or> u = ''SRV1'' then ''server''
              else if u = ''AP1'' then ''access point''
              else if nt_NodeType n = ''iou'' then ''l2 switch''
              else if nt_NodeType n = ''dynamips'' then ''router''
              else ''network device''))"

record nodeShape =
  ns_Name :: string
  ns_Role :: nodeRole
  ns_CX :: f64
  ns_CY :: f64
  ns_IsHost :: bool

definition viewW :: f64 where "viewW = Fin 720"
definition viewH :: f64 where "viewH = Fin 490"
definition nodeW :: f64 where "nodeW = Fin 140"
definition nodeH :: f64 where "nodeH = Fin 60"
definition hostR :: f64 where "hostR = Fin 30"
definition cellW :: f64 where "cellW = Fin 190"
definition cellH :: f64 where "cellH = Fin 120"

section \<open>The grid\<close>

text \<open>
  \<open>sort.Slice\<close> on at most twelve elements is insertion sort; longer slices with equal keys would
  be ordered by the library's pattern-defeating quicksort.
\<close>

fun sift :: "('a \<Rightarrow> 'a \<Rightarrow> bool) \<Rightarrow> 'a \<Rightarrow> 'a list \<Rightarrow> 'a list" where
  "sift lt x [] = [x]"
| "sift lt x (y # ys) = (if lt x y then y # sift lt x ys else x # y # ys)"

definition sort_slice :: "('a \<Rightarrow> 'a \<Rightarrow> bool) \<Rightarrow> 'a list \<Rightarrow> 'a list" where
  "sort_slice lt xs = rev (foldl (\<lambda>acc x. sift lt x acc) [] xs)"

definition indices :: "(nodeShape \<Rightarrow> bool) \<Rightarrow> nodeShape list \<Rightarrow> nat list" where
  "indices P shapes = filter (\<lambda>i. P (shapes ! i)) [0..<length shapes]"

definition is_leaf :: "nodeShape \<Rightarrow> bool" where
  "is_leaf s = (ns_Role s = RoleHost \<or> ns_Role s = RoleAttacker)"

definition by_name_order :: "nodeShape list \<Rightarrow> nat list \<Rightarrow> nat list" where
  "by_name_order shapes = sort_slice (\<lambda>i j. ns_Name (shapes ! i) < ns_Name (shapes ! j))"

text \<open>The place of the \<open>k\<close>-th of \<open>n\<close> nodes.\<close>

definition grid_pos :: "nat \<Rightarrow> nat \<Rightarrow> f64 \<Rightarrow> f64 \<Rightarrow> f64 \<times> f64" where
  "grid_pos n k startY rowH =
     (let perRow = (if n \<le> 3 then n else 3);
          row = k div perRow;
          col = k mod perRow;
          rowCount = min perRow (n - row * perRow);
          totalW = float_of_int (int rowCount) * cellW - Fin 50;
          x0 = (viewW - totalW) / Fin 2
      in (x0 + float_of_int (int col) * cellW + cellW / Fin 2,
          startY + float_of_int (int row) * rowH))"

definition place :: "nodeShape list \<Rightarrow> nat list \<Rightarrow> f64 \<Rightarrow> f64 \<Rightarrow> nodeShape list" where
  "place shapes idxs startY rowH =
     foldl (\<lambda>ss (k, idx).
         case grid_pos (length idxs) k startY rowH of
           (x, y) \<Rightarrow> ss[idx := (ss ! idx)\<lparr>ns_CX := x, ns_CY := y\<rparr>])
       shapes (List.enumerate 0 idxs)"

definition placeLeaf :: "nodeShape list \<Rightarrow> nat list \<Rightarrow> f64 \<Rightarrow> f64 \<Rightarrow> nodeShape list" where
  "placeLeaf shapes idxs startY cellHh = place shapes idxs startY cellHh"

definition row_height :: "nat \<Rightarrow> f64" where
  "row_height totalRows =
     (if Fin 110 + float_of_int (int totalRows - 1) * cellH + Fin 60 > Fin 395
      then let h = Fin 225 / float_of_int (int totalRows - 1)
           in if h < Fin 60 then Fin 60 else h
      else cellH)"

definition autoLayout :: "nodeShape list \<Rightarrow> string list \<Rightarrow> nodeShape list" where
  "autoLayout shapes used =
     (let leafIdx = by_name_order shapes (indices (\<lambda>s. ns_Name s \<notin> set used \<and> is_leaf s) shapes);
          coreIdx = by_name_order shapes (indices (\<lambda>s. ns_Name s \<notin> set used \<and> \<not> is_leaf s) shapes);
          shapes1 = place shapes coreIdx (Fin 110) cellH;
          coreRows = max 1 ((length coreIdx + 2) div 3);
          leafRows = max 1 ((length leafIdx + 2) div 3);
          rowH = row_height (coreRows + leafRows);
          leafStart = Fin 110 + rowH * float_of_int (int coreRows);
          shapes2 = (if \<not> feq rowH cellH then place shapes1 coreIdx (Fin 110) rowH else shapes1)
      in placeLeaf shapes2 leafIdx leafStart rowH)"

section \<open>The minimum gap\<close>

definition minGapChip :: f64 where "minGapChip = Fin 66"

definition half_height :: "nodeShape \<Rightarrow> f64" where
  "half_height s = (if ns_IsHost s then hostR else Fin 30)"

text \<open>Horizontally apart: the node is in another column.\<close>

definition apart :: "nodeShape \<Rightarrow> nodeShape \<Rightarrow> bool" where
  "apart s z = (ns_CX s - Fin 70 > ns_CX z + Fin 70 \<or> ns_CX s + Fin 70 < ns_CX z - Fin 70)"

definition above :: "nodeShape \<Rightarrow> nodeShape \<Rightarrow> bool" where
  "above z s = (ns_CY z + half_height z \<le> ns_CY s - half_height s)"

definition below :: "nodeShape \<Rightarrow> nodeShape \<Rightarrow> bool" where
  "below z s = (ns_CY z - half_height z \<ge> ns_CY s + half_height s)"

definition gap_above :: "nodeShape \<Rightarrow> nodeShape \<Rightarrow> f64" where
  "gap_above z s = ns_CY s - half_height s - (ns_CY z + half_height z)"

definition gap_below :: "nodeShape \<Rightarrow> nodeShape \<Rightarrow> f64" where
  "gap_below z s = ns_CY z - half_height z - (ns_CY s + half_height s)"

text \<open>The gap to a neighbour now and after a push, downwards when \<open>down\<close>.\<close>

definition gaps :: "bool \<Rightarrow> nodeShape \<Rightarrow> nodeShape \<Rightarrow> (f64 \<times> f64) option" where
  "gaps down s z =
     (if above z s then
        Some (gap_above z s, if down then gap_above z s + minGapChip else gap_above z s - minGapChip)
      else if below z s then
        Some (gap_below z s, if down then gap_below z s - minGapChip else gap_below z s + minGapChip)
      else None)"

definition score_step :: "bool \<Rightarrow> nodeShape list \<Rightarrow> nat \<Rightarrow> f64 \<times> bool \<Rightarrow> nat \<Rightarrow> f64 \<times> bool" where
  "score_step down shapes i acc j =
     (let s = shapes ! i; z = shapes ! j
      in if j = i \<or> apart s z then acc
         else case gaps down s z of
           None \<Rightarrow> acc
         | Some (curGap, newGap) \<Rightarrow>
             (let n1 = (if curGap < minGapChip then fst acc - (minGapChip - curGap) else fst acc);
                  n2 = (if newGap < minGapChip then n1 + (minGapChip - newGap) else n1)
              in (n2, snd acc \<and> \<not> newGap < Fin 0)))"

definition score :: "bool \<Rightarrow> nodeShape list \<Rightarrow> nat \<Rightarrow> f64 \<times> bool" where
  "score down shapes i = foldl (score_step down shapes i) (Fin 0, True) [0..<length shapes]"

text \<open>The direction with the lower negative score, down first; \<open>None\<close> is \<open>bestDir = 0\<close>.\<close>

definition best_dir :: "nodeShape list \<Rightarrow> nat \<Rightarrow> bool option" where
  "best_dir shapes i =
     fst (foldl (\<lambda>(dir, bestNet) down.
            case score down shapes i of
              (net, valid) \<Rightarrow> if valid \<and> net < bestNet then (Some down, net) else (dir, bestNet))
          (None, Fin 0) [True, False])"

definition push_need :: "bool \<Rightarrow> nodeShape list \<Rightarrow> nat \<Rightarrow> f64" where
  "push_need down shapes i =
     foldl (\<lambda>need j.
         let s = shapes ! i; z = shapes ! j
         in if j = i \<or> apart s z then need
            else if down \<and> above z s then
              (if minGapChip - gap_above z s > need then minGapChip - gap_above z s else need)
            else if \<not> down \<and> below z s then
              (if minGapChip - gap_below z s > need then minGapChip - gap_below z s else need)
            else need)
       (Fin 0) [0..<length shapes]"

definition push_node :: "string list \<Rightarrow> nodeShape list \<times> bool \<Rightarrow> nat \<Rightarrow> nodeShape list \<times> bool" where
  "push_node used st i =
     (case st of (shapes, moved) \<Rightarrow>
        if ns_Name (shapes ! i) \<in> set used then st
        else case best_dir shapes i of
          None \<Rightarrow> st
        | Some down \<Rightarrow>
            (let need = push_need down shapes i; s = shapes ! i
             in if need > Fin 0
                then (shapes[i := s\<lparr>ns_CY := ns_CY s + need * (if down then Fin 1 else Fin (- 1))\<rparr>], True)
                else st))"

definition gap_round :: "string list \<Rightarrow> nodeShape list \<Rightarrow> nodeShape list \<times> bool" where
  "gap_round used shapes = foldl (push_node used) (shapes, False) [0..<length shapes]"

fun gap_rounds :: "nat \<Rightarrow> string list \<Rightarrow> nodeShape list \<Rightarrow> nodeShape list" where
  "gap_rounds 0 used shapes = shapes"
| "gap_rounds (Suc k) used shapes =
     (case gap_round used shapes of (shapes', moved) \<Rightarrow> if moved then gap_rounds k used shapes' else shapes')"

definition enforceAutoMinGap :: "nodeShape list \<Rightarrow> string list \<Rightarrow> nodeShape list" where
  "enforceAutoMinGap shapes used = gap_rounds 8 used shapes"

section \<open>Assembly\<close>

definition start_shape :: "bool \<Rightarrow> (string, NodePos) gomap \<Rightarrow> NodeTemplate \<Rightarrow> nodeShape" where
  "start_shape useExtracted pos n =
     (let s = \<lparr>ns_Name = nt_Name n, ns_Role = roleOf n, ns_CX = Fin 0, ns_CY = Fin 0,
               ns_IsHost = (roleOf n = RoleHost)\<rparr>
      in case (if useExtracted then mget pos (nt_Name n) else None) of
           None \<Rightarrow> s
         | Some p \<Rightarrow>
             if np_Shape p = ''circle'' then s\<lparr>ns_IsHost := True, ns_CX := np_X p, ns_CY := np_Y p\<rparr>
             else s\<lparr>ns_CX := np_X p + np_W p / Fin 2, ns_CY := np_Y p + np_H p / Fin 2\<rparr>)"

definition used_names :: "bool \<Rightarrow> (string, NodePos) gomap \<Rightarrow> TopologyTemplate \<Rightarrow> string list" where
  "used_names useExtracted pos tpl =
     filter (\<lambda>n. useExtracted \<and> mget pos n \<noteq> None) (map nt_Name (tt_Nodes tpl))"

definition min_top :: "nodeShape list \<Rightarrow> f64" where
  "min_top shapes =
     foldl (\<lambda>m s. let t = ns_CY s - half_height s in if t < m then t else m) PInf shapes"

definition max_bottom :: "nodeShape list \<Rightarrow> f64" where
  "max_bottom shapes =
     foldl (\<lambda>m s. let b = ns_CY s + half_height s in if b > m then b else m) NInf shapes"

definition topClearance :: f64 where "topClearance = Fin 55"
definition legendClearance :: f64 where "legendClearance = Fin 395"

definition clear_top :: "nodeShape list \<Rightarrow> nodeShape list" where
  "clear_top shapes =
     (if min_top shapes < topClearance
      then let shift = topClearance - min_top shapes in map (\<lambda>s. s\<lparr>ns_CY := ns_CY s + shift\<rparr>) shapes
      else shapes)"

definition clear_legend :: "nodeShape list \<Rightarrow> nodeShape list" where
  "clear_legend shapes =
     (if max_bottom shapes > legendClearance
      then let scale = Fin 310 / (max_bottom shapes - topClearance)
           in map (\<lambda>s. s\<lparr>ns_CY := topClearance + (ns_CY s - topClearance) * scale\<rparr>) shapes
      else shapes)"

definition by_name :: "nodeShape list \<Rightarrow> (string, nodeShape) gomap" where
  "by_name shapes = foldl (\<lambda>m s. mput (ns_Name s) s m) [] shapes"

definition build_layout :: "TopologyTemplate \<Rightarrow> (string, NodePos) gomap \<Rightarrow> bool \<Rightarrow> nodeShape list" where
  "build_layout tpl pos useExtracted =
     (let used = used_names useExtracted pos tpl
      in clear_legend (clear_top (enforceAutoMinGap
           (autoLayout (map (start_shape useExtracted pos) (tt_Nodes tpl)) used) used)))"

text \<open>Two footprints overlap.\<close>

definition overlap :: "nodeShape \<Rightarrow> nodeShape \<Rightarrow> bool" where
  "overlap a b =
     (let minDX = (if ns_IsHost a \<and> ns_IsHost b then Fin 60
                   else if ns_IsHost a \<or> ns_IsHost b then Fin 100 else Fin 140)
      in \<bar>ns_CX a - ns_CX b\<bar> < minDX \<and> \<bar>ns_CY a - ns_CY b\<bar> < Fin 60)"

text \<open>The double loop over the names, in the order the map yields them.\<close>

fun valid_in_order :: "(string, nodeShape) gomap \<Rightarrow> string list \<Rightarrow> bool" where
  "valid_in_order byName [] = True"
| "valid_in_order byName (a # names) =
     (list_all (\<lambda>b. \<not> overlap (the (mget byName a)) (the (mget byName b))) names
      \<and> valid_in_order byName names)"

definition layoutValid :: "(string, nodeShape) gomap \<Rightarrow> bool" where
  "layoutValid byName = valid_in_order byName (map fst byName)"

definition layout_template :: "TopologyTemplate \<Rightarrow> (string, NodePos) gomap \<Rightarrow> nodeShape list" where
  "layout_template tpl pos =
     (let shapes = build_layout tpl pos True
      in if layoutValid (by_name shapes) then shapes else build_layout tpl pos False)"

definition layoutLab :: "int \<Rightarrow> (string, NodePos) gomap \<Rightarrow> nodeShape list \<times> (string, nodeShape) gomap" where
  "layoutLab labID pos =
     (let shapes = layout_template (TopologyForLab labID) pos in (shapes, by_name shapes))"

section \<open>What the passes keep\<close>

definition skeleton :: "nodeShape \<Rightarrow> string \<times> nodeRole \<times> bool" where
  "skeleton s = (ns_Name s, ns_Role s, ns_IsHost s)"

lemma skeleton_update [simp]:
  "skeleton (s\<lparr>ns_CX := x\<rparr>) = skeleton s" "skeleton (s\<lparr>ns_CY := y\<rparr>) = skeleton s"
  by (simp_all add: skeleton_def)

lemma skeleton_fields [simp]: "fst (skeleton s) = ns_Name s" "fst (snd (skeleton s)) = ns_Role s"
  by (simp_all add: skeleton_def)

lemma map_update_same: "f x = f (xs ! i) \<Longrightarrow> map f (xs[i := x]) = map f xs"
  by (cases "i < length xs") (simp_all add: map_update list_update_same_conv list_update_beyond)

lemma foldl_keeps:
  assumes "\<And>st k. P st \<Longrightarrow> P (f st k)" "P st"
  shows "P (foldl f st ks)"
  using assms(2) by (induction ks arbitrary: st) (simp_all add: assms(1))

lemma place_keeps:
  assumes "\<And>s x y. f (s\<lparr>ns_CX := x, ns_CY := y\<rparr>) = f s"
  shows "map f (place shapes idxs y h) = map f shapes"
  unfolding place_def
  by (rule foldl_keeps [where P = "\<lambda>ss. map f ss = map f shapes"])
    (auto simp: map_update_same assms split: prod.split)

lemma skeleton_place [simp]: "map skeleton (place shapes idxs y h) = map skeleton shapes"
  by (rule place_keeps) simp

lemma skeleton_autoLayout [simp]: "map skeleton (autoLayout shapes used) = map skeleton shapes"
  by (simp add: autoLayout_def placeLeaf_def Let_def)

lemma push_node_keeps:
  assumes "\<And>s y. f (s\<lparr>ns_CY := y\<rparr>) = f s"
  shows "map f (fst (push_node used st i)) = map f (fst st)"
  by (auto simp: push_node_def Let_def map_update_same assms split: prod.split option.split)

lemma gap_round_keeps:
  assumes "\<And>s y. f (s\<lparr>ns_CY := y\<rparr>) = f s"
  shows "map f (fst (gap_round used shapes)) = map f shapes"
  unfolding gap_round_def
  by (rule foldl_keeps [where P = "\<lambda>st. map f (fst st) = map f shapes"])
    (simp_all add: push_node_keeps assms)

lemma gap_rounds_keep:
  assumes "\<And>s y. f (s\<lparr>ns_CY := y\<rparr>) = f s"
  shows "map f (gap_rounds k used shapes) = map f shapes"
proof (induction k arbitrary: shapes)
  case (Suc k)
  then show ?case
    using gap_round_keeps [of f used shapes] assms by (auto split: prod.split)
qed simp

lemma skeleton_enforce [simp]: "map skeleton (enforceAutoMinGap shapes used) = map skeleton shapes"
  unfolding enforceAutoMinGap_def by (rule gap_rounds_keep) simp

lemma skeleton_clear_top [simp]: "map skeleton (clear_top shapes) = map skeleton shapes"
  by (simp add: clear_top_def Let_def)

lemma skeleton_clear_legend [simp]: "map skeleton (clear_legend shapes) = map skeleton shapes"
  by (simp add: clear_legend_def Let_def)

lemma skeleton_build:
  "map skeleton (build_layout tpl pos ue) = map (\<lambda>n. skeleton (start_shape ue pos n)) (tt_Nodes tpl)"
  by (simp add: build_layout_def Let_def)

lemma start_shape_fields [simp]:
  "ns_Name (start_shape ue pos n) = nt_Name n" "ns_Role (start_shape ue pos n) = roleOf n"
  by (auto simp: start_shape_def Let_def split: option.split)

lemma build_names: "map ns_Name (build_layout tpl pos ue) = map nt_Name (tt_Nodes tpl)"
proof -
  have "map fst (map skeleton (build_layout tpl pos ue)) = map nt_Name (tt_Nodes tpl)"
    unfolding skeleton_build by simp
  then show ?thesis
    by (simp add: comp_def)
qed

lemma build_roles: "map ns_Role (build_layout tpl pos ue) = map roleOf (tt_Nodes tpl)"
proof -
  have "map (fst \<circ> snd) (map skeleton (build_layout tpl pos ue)) = map roleOf (tt_Nodes tpl)"
    unfolding skeleton_build by simp
  then show ?thesis
    by (simp add: comp_def)
qed

lemma layout_names: "map ns_Name (layout_template tpl pos) = map nt_Name (tt_Nodes tpl)"
  by (simp add: layout_template_def Let_def build_names)

section \<open>Salvaged nodes stay where they are\<close>

text \<open>Neither pass before the clearances touches a node with a salvaged position.\<close>

definition at_used :: "string list \<Rightarrow> nodeShape \<Rightarrow> nodeShape option" where
  "at_used used s = (if ns_Name s \<in> set used then Some s else None)"

lemma set_sift [simp]: "set (sift lt x ys) = insert x (set ys)"
  by (induction ys) auto

lemma set_sort_slice [simp]: "set (sort_slice lt xs) = set xs"
proof -
  have "set (foldl (\<lambda>acc x. sift lt x acc) acc xs) = set acc \<union> set xs" for acc
    by (induction xs arbitrary: acc) auto
  then show ?thesis
    by (simp add: sort_slice_def)
qed

lemma nth_update_same: "f x = f (xs ! i) \<Longrightarrow> f (xs[i := x] ! j) = f (xs ! j)"
  by (cases "i < length xs"; cases "j = i") (simp_all add: list_update_beyond)

lemma place_frame:
  assumes "\<forall>i\<in>set idxs. ns_Name (shapes ! i) \<notin> set used"
  shows "map (at_used used) (place shapes idxs y h) = map (at_used used) shapes"
proof -
  have "map (at_used used) (foldl (\<lambda>ss (k, idx).
         case grid_pos n k y h of
           (x, y) \<Rightarrow> ss[idx := (ss ! idx)\<lparr>ns_CX := x, ns_CY := y\<rparr>]) ss ks) = map (at_used used) ss"
    if "\<forall>k\<in>set ks. ns_Name (ss ! snd k) \<notin> set used \<or> length ss \<le> snd k" for n ss ks
    using that
  proof (induction ks arbitrary: ss)
    case (Cons k ks)
    obtain a i x' y' where k: "k = (a, i)" "grid_pos n a y h = (x', y')"
      by (metis surj_pair)
    have "map (at_used used) (ss[i := (ss ! i)\<lparr>ns_CX := x', ns_CY := y'\<rparr>]) = map (at_used used) ss"
      using Cons.prems k(1)
      by (cases "i < length ss") (auto intro!: map_update_same simp: at_used_def list_update_beyond)
    moreover have "\<forall>k\<in>set ks. ns_Name (ss[i := (ss ! i)\<lparr>ns_CX := x', ns_CY := y'\<rparr>] ! snd k) \<notin> set used
        \<or> length (ss[i := (ss ! i)\<lparr>ns_CX := x', ns_CY := y'\<rparr>]) \<le> snd k"
      using Cons.prems by (simp add: k(1) nth_update_same)
    ultimately show ?case
      using Cons.IH by (simp add: k)
  qed simp
  moreover have "\<forall>k\<in>set (List.enumerate 0 idxs). ns_Name (shapes ! snd k) \<notin> set used \<or> length shapes \<le> snd k"
    using assms by (auto simp: in_set_enumerate_eq)
  ultimately show ?thesis
    unfolding place_def by blast
qed

lemma indices_spec: "i \<in> set (indices P shapes) \<longleftrightarrow> i < length shapes \<and> P (shapes ! i)"
  by (auto simp: indices_def)

lemma map_name_place [simp]: "map ns_Name (place shapes idxs y h) = map ns_Name shapes"
  by (rule place_keeps) simp

lemma length_place [simp]: "length (place shapes idxs y h) = length shapes"
  by (metis length_map map_name_place)

lemma name_place [simp]: "i < length shapes \<Longrightarrow> ns_Name (place shapes idxs y h ! i) = ns_Name (shapes ! i)"
  by (metis length_place map_name_place nth_map)

lemma autoLayout_frame: "map (at_used used) (autoLayout shapes used) = map (at_used used) shapes"
  by (auto simp: autoLayout_def placeLeaf_def Let_def place_frame by_name_order_def indices_spec)

lemma push_node_frame: "map (at_used used) (fst (push_node used st i)) = map (at_used used) (fst st)"
  by (auto simp: push_node_def Let_def at_used_def intro!: map_update_same split: prod.split option.split)

lemma gap_round_frame: "map (at_used used) (fst (gap_round used shapes)) = map (at_used used) shapes"
  unfolding gap_round_def
  by (rule foldl_keeps [where P = "\<lambda>st. map (at_used used) (fst st) = map (at_used used) shapes"])
    (simp_all add: push_node_frame)

lemma gap_rounds_frame: "map (at_used used) (gap_rounds k used shapes) = map (at_used used) shapes"
proof (induction k arbitrary: shapes)
  case (Suc k)
  then show ?case
    using gap_round_frame [of used shapes] by (auto split: prod.split)
qed simp

lemma salvaged_kept:
  "map (at_used used) (enforceAutoMinGap (autoLayout shapes used) used) = map (at_used used) shapes"
  by (simp add: enforceAutoMinGap_def gap_rounds_frame autoLayout_frame)

section \<open>The order of the map does not matter\<close>

lemma overlap_sym: "overlap a b = overlap b a"
  by (auto simp: overlap_def Let_def f64_abs_swap [of "ns_CX a"] f64_abs_swap [of "ns_CY a"])

lemma valid_in_order_iff:
  "distinct names \<Longrightarrow> valid_in_order m names \<longleftrightarrow>
     (\<forall>a\<in>set names. \<forall>b\<in>set names. a \<noteq> b \<longrightarrow> \<not> overlap (the (mget m a)) (the (mget m b)))"
  by (induction names) (auto simp: list_all_iff overlap_sym)

lemma valid_any_order:
  assumes "gomap_ok m" "distinct names" "set names = fst ` set m"
  shows "valid_in_order m names = layoutValid m"
  using assms by (simp add: layoutValid_def valid_in_order_iff gomap_ok_def)

section \<open>The grid is clear\<close>

definition grid_x :: "nat \<Rightarrow> nat \<Rightarrow> rat" where
  "grid_x n k = 480 - 95 * of_nat (min 3 (n - 3 * (k div 3))) + 190 * of_nat (k mod 3)"

lemma grid_pos_exact:
  assumes "k < n" "n < 2 ^ 20" "quarters a" "\<bar>a\<bar> < 2 ^ 30" "quarters h" "\<bar>h\<bar> \<le> 120"
  shows "grid_pos n k (Fin a) (Fin h) = (Fin (grid_x n k), Fin (a + of_nat (k div 3) * h))"
proof -
  define p where "p = (if n \<le> 3 then n else 3)"
  have row: "k div p = k div 3" and col: "k mod p = k mod 3"
    and rc: "min p (n - (k div 3) * p) = min 3 (n - 3 * (k div 3))"
    using assms(1) by (auto simp: p_def)
  define c r where "c = k mod 3" and "r = min 3 (n - 3 * (k div 3))"
  have "c < 3" "r \<le> 3" "1 \<le> r"
    using assms(1) div_mult_mod_eq [of k 3] by (auto simp: c_def r_def)
  then have cr: "c \<in> {0, 1, 2}" "r \<in> {1, 2, 3}"
    by auto
  have x: "(viewW - (float_of_int (int r) * cellW - Fin 50)) / Fin 2 + float_of_int (int c) * cellW + cellW / Fin 2
      = Fin (480 - 95 * of_nat r + 190 * of_nat c)"
    using cr by (auto simp: float_of_int_exact viewW_def cellW_def)
  have q: "k div 3 < 2 ^ 20"
    using assms(1,2) by simp
  then have k: "float_of_int (int (k div 3)) = Fin (of_nat (k div 3))"
    by (subst float_of_int_exact) auto
  have "(of_nat (k div 3) :: rat) \<le> of_nat (2 ^ 20)"
    using q by (simp only: of_nat_le_iff)
  then have b: "\<bar>of_nat (k div 3) * h\<bar> \<le> 2 ^ 20 * 120"
    using assms(6) unfolding abs_mult by (intro mult_mono) auto
  have m: "rnd (of_nat (k div 3) * h) = Fin (of_nat (k div 3) * h)"
    by (rule rnd_quarters) (use b assms(5) in auto)
  have y: "rnd (a + of_nat (k div 3) * h) = Fin (a + of_nat (k div 3) * h)"
    by (rule rnd_quarters) (use b assms(3-5) in auto)
  show ?thesis
    unfolding grid_pos_def Let_def p_def [symmetric] row col rc
    by (simp only: c_def [symmetric] r_def [symmetric] x k Fin_ops m y grid_x_def)
qed

lemma row_height_cases:
  assumes "2 \<le> t" "t < 2 ^ 20"
  shows "row_height t \<in> {Fin 120, Fin (225 / 2), Fin 75, Fin 60}"
proof -
  have f: "float_of_int (int t - 1) = Fin (of_nat (t - 1))"
    using assms by (subst float_of_int_exact) (auto simp: of_nat_diff)
  consider "t = 2" | "t = 3" | "t = 4" | "5 \<le> t"
    using assms by linarith
  then show ?thesis
  proof cases
    case 4
    define w :: rat where "w = of_nat (t - 1)"
    have "(of_nat 4 :: rat) \<le> w" "w \<le> of_nat (2 ^ 20)"
      using 4 assms(2) unfolding w_def by (simp_all only: of_nat_le_iff)
    then have w: "4 \<le> w" "w \<le> 2 ^ 20" "quarters w"
      by (simp_all add: w_def)
    have "quarters (120 * w)"
      using quarters_intros(9) [of w 120] w(3) by simp
    then have "rnd (w * 120) = Fin (w * 120)" "rnd (110 + w * 120) = Fin (110 + w * 120)"
        "rnd (110 + w * 120 + 60) = Fin (110 + w * 120 + 60)"
      using w by (auto simp: rnd_quarters mult.commute)
    moreover have "rnd (225 / w) < Fin 60"
      by (rule f64_le_less_trans [of _ "Fin (225 / 4)"], rule rnd_le, rule quarters_exact)
        (use w in \<open>auto simp: quarters_def field_simps\<close>)
    ultimately show ?thesis
      using w by (simp add: row_height_def cellH_def f [folded w_def] Let_def)
  qed (use f in \<open>simp_all add: row_height_def cellH_def rnd_quarters quarters_def\<close>)
qed

lemma mset_sift: "mset (sift lt x ys) = add_mset x (mset ys)"
  by (induction ys) auto

lemma mset_sort_slice [simp]: "mset (sort_slice lt xs) = mset xs"
proof -
  have "mset (foldl (\<lambda>acc x. sift lt x acc) acc xs) = mset acc + mset xs" for acc
    by (induction xs arbitrary: acc) (auto simp: mset_sift)
  then show ?thesis
    by (simp add: sort_slice_def)
qed

lemma sort_slice_facts [simp]:
  "length (sort_slice lt xs) = length xs" "distinct (sort_slice lt xs) = distinct xs"
  by (metis mset_sort_slice size_mset, metis mset_sort_slice mset_eq_imp_distinct_iff)

lemma distinct_indices [simp]: "distinct (indices P shapes)"
  by (simp add: indices_def)

definition at_xy :: "nodeShape \<Rightarrow> f64 \<times> f64 \<Rightarrow> nodeShape" where
  "at_xy s xy = s\<lparr>ns_CX := fst xy, ns_CY := snd xy\<rparr>"

lemma place_alt:
  "place shapes idxs y h =
     foldl (\<lambda>ss (k, idx). ss[idx := at_xy (ss ! idx) (grid_pos (length idxs) k y h)]) shapes
       (List.enumerate 0 idxs)"
  by (simp add: place_def at_xy_def case_prod_beta)

lemma place_nth:
  assumes "distinct idxs" "set idxs \<subseteq> {..<length shapes}"
  shows "k < length idxs \<Longrightarrow>
      place shapes idxs y h ! (idxs ! k) = at_xy (shapes ! (idxs ! k)) (grid_pos (length idxs) k y h)"
    and "i \<notin> set idxs \<Longrightarrow> place shapes idxs y h ! i = shapes ! i"
proof -
  have *: "length (foldl (\<lambda>ss (k, idx). ss[idx := at_xy (ss ! idx) (g k)]) shapes (List.enumerate 0 is)) = length shapes
    \<and> (\<forall>i. foldl (\<lambda>ss (k, idx). ss[idx := at_xy (ss ! idx) (g k)]) shapes (List.enumerate 0 is) ! i
      = (if i \<in> set is then at_xy (shapes ! i) (g (THE k. k < length is \<and> is ! k = i)) else shapes ! i))"
    if "distinct is" "set is \<subseteq> {..<length shapes}" for g :: "nat \<Rightarrow> f64 \<times> f64" and "is"
    using that
  proof (induction "is" rule: rev_induct)
    case (snoc x "is")
    have t: "(THE k. k < Suc (length is) \<and> (is @ [x]) ! k = i) = (THE k. k < length is \<and> is ! k = i)"
      if "i \<in> set is" for i
      by (rule arg_cong [of _ _ The]) (use snoc.prems(1) that in \<open>auto simp: fun_eq_iff nth_append less_Suc_eq\<close>)
    have x: "(THE k. k < Suc (length is) \<and> (is @ [x]) ! k = x) = length is"
      by (rule the_equality) (use snoc.prems(1) in \<open>auto simp: nth_append less_Suc_eq\<close>)
    from snoc show ?case
      by (auto simp: enumerate_append_eq t x nth_list_update)
  qed simp
  show "place shapes idxs y h ! (idxs ! k) = at_xy (shapes ! (idxs ! k)) (grid_pos (length idxs) k y h)"
    if "k < length idxs"
  proof -
    have "(THE j. j < length idxs \<and> idxs ! j = idxs ! k) = k"
      by (rule the_equality) (use assms(1) that in \<open>auto simp: nth_eq_iff_index_eq\<close>)
    with * [OF assms, of "\<lambda>k. grid_pos (length idxs) k y h"] that show ?thesis
      by (simp add: place_alt)
  qed
  show "place shapes idxs y h ! i = shapes ! i" if "i \<notin> set idxs"
    using * [OF assms, of "\<lambda>k. grid_pos (length idxs) k y h"] that by (simp add: place_alt)
qed

lemma place_outside [simp]:
  assumes "distinct idxs" "set idxs \<subseteq> {..<length shapes}" "i \<notin> set idxs"
  shows "place shapes idxs y h ! i = shapes ! i"
  using place_nth(2) [OF assms(1,2,3)] .

text \<open>Where the grid puts a node: a row of its group, a column, and the exact coordinates.\<close>

definition on_grid :: "nat \<Rightarrow> rat \<Rightarrow> rat \<Rightarrow> nat \<Rightarrow> nodeShape \<Rightarrow> bool" where
  "on_grid n a h k s \<longleftrightarrow> k < n \<and> ns_CX s = Fin (grid_x n k) \<and> ns_CY s = Fin (a + of_nat (k div 3) * h)"

lemma place_on_grid:
  assumes "distinct idxs" "set idxs \<subseteq> {..<length shapes}" "length idxs < 2 ^ 20"
    and "quarters a" "\<bar>a\<bar> < 2 ^ 30" "quarters h" "\<bar>h\<bar> \<le> 120" "k < length idxs"
  shows "on_grid (length idxs) a h k (place shapes idxs (Fin a) (Fin h) ! (idxs ! k))"
  using assms
  by (simp add: place_nth(1) on_grid_def grid_pos_exact at_xy_def)

lemma same_group_clear:
  assumes "on_grid n a h k s" "on_grid n a h k' s'" "k \<noteq> k'" "60 \<le> h"
  shows "\<not> overlap s s'"
proof (cases "k div 3 = k' div 3")
  case True
  then have "k mod 3 \<noteq> k' mod 3"
    using assms(3) by (metis div_mult_mod_eq)
  then have "(1 :: rat) \<le> \<bar>of_nat (k mod 3) - of_nat (k' mod 3)\<bar>"
    by (cases "k mod 3 < k' mod 3") (auto simp: abs_if)
  then have "190 \<le> \<bar>grid_x n k - grid_x n k'\<bar>"
    using True by (simp add: grid_x_def abs_if split: if_splits)
  then have "Fin 190 \<le> rnd \<bar>grid_x n k - grid_x n k'\<bar>"
    by (intro rnd_ge quarters_exact) auto
  then have "\<not> \<bar>ns_CX s - ns_CX s'\<bar> < Fin 140" "\<not> \<bar>ns_CX s - ns_CX s'\<bar> < Fin 100"
      "\<not> \<bar>ns_CX s - ns_CX s'\<bar> < Fin 60"
    using assms(1,2) by (auto simp: on_grid_def abs_rnd dest: f64_le_less_trans)
  then show ?thesis
    by (simp add: overlap_def Let_def)
next
  case False
  then have "(1 :: rat) \<le> \<bar>of_nat (k div 3) - of_nat (k' div 3)\<bar>"
    by (cases "k div 3 < k' div 3") (auto simp: abs_if)
  then have "60 \<le> \<bar>of_nat (k div 3) - of_nat (k' div 3)\<bar> * h"
    using assms(4) mult_mono [of 1 "\<bar>of_nat (k div 3) - of_nat (k' div 3)\<bar>" 60 h] by simp
  then have "60 \<le> \<bar>(a + of_nat (k div 3) * h) - (a + of_nat (k' div 3) * h)\<bar>"
    using assms(4) by (simp add: abs_mult flip: left_diff_distrib)
  then have "Fin 60 \<le> rnd \<bar>(a + of_nat (k div 3) * h) - (a + of_nat (k' div 3) * h)\<bar>"
    by (intro rnd_ge quarters_exact) auto
  then have "\<not> \<bar>ns_CY s - ns_CY s'\<bar> < Fin 60"
    using assms(1,2) by (auto simp: on_grid_def abs_rnd dest: f64_le_less_trans)
  then show ?thesis
    by (simp add: overlap_def Let_def)
qed

lemma rows_apart_clear:
  assumes "on_grid n a h k s" "on_grid n' (a + of_nat c * h) h k' s'" "k div 3 < c" "60 \<le> h"
  shows "\<not> overlap s s'"
proof -
  have "(1 :: rat) \<le> of_nat c + of_nat (k' div 3) - of_nat (k div 3)"
    using assms(3) by (simp add: algebra_simps flip: of_nat_Suc of_nat_add)
  then have "60 \<le> (of_nat c + of_nat (k' div 3) - of_nat (k div 3)) * h"
    using assms(4) mult_mono [of 1 _ 60 h] by fastforce
  then have "60 \<le> \<bar>(a + of_nat (k div 3) * h) - (a + of_nat c * h + of_nat (k' div 3) * h)\<bar>"
    by (simp add: algebra_simps)
  then have "Fin 60 \<le> rnd \<bar>(a + of_nat (k div 3) * h) - (a + of_nat c * h + of_nat (k' div 3) * h)\<bar>"
    by (intro rnd_ge quarters_exact) auto
  then have "\<not> \<bar>ns_CY s - ns_CY s'\<bar> < Fin 60"
    using assms(1,2) by (auto simp: on_grid_def abs_rnd dest: f64_le_less_trans)
  then show ?thesis
    by (simp add: overlap_def Let_def)
qed

lemma by_name_order_facts [simp]:
  "set (by_name_order shapes is) = set is" "distinct (by_name_order shapes is) = distinct is"
  "length (by_name_order shapes is) = length is"
  by (simp_all add: by_name_order_def)

lemma length_indices_le: "length (indices P shapes) \<le> length shapes"
  unfolding indices_def by (rule order_trans [OF length_filter_le]) simp

definition core_order :: "nodeShape list \<Rightarrow> string list \<Rightarrow> nat list" where
  "core_order shapes used = by_name_order shapes (indices (\<lambda>s. ns_Name s \<notin> set used \<and> \<not> is_leaf s) shapes)"

definition leaf_order :: "nodeShape list \<Rightarrow> string list \<Rightarrow> nat list" where
  "leaf_order shapes used = by_name_order shapes (indices (\<lambda>s. ns_Name s \<notin> set used \<and> is_leaf s) shapes)"

definition rows_of :: "nat list \<Rightarrow> nat" where
  "rows_of idxs = max 1 ((length idxs + 2) div 3)"

lemma row_lt: "k < length idxs \<Longrightarrow> k div 3 < rows_of idxs"
  by (auto simp: rows_of_def less_max_iff_disj)

lemma quarters_height:
  assumes "h \<in> {120, 225 / 2, 75, 60}"
  shows "quarters h"
proof -
  have "4 * h = of_int 480 \<or> 4 * h = of_int 450 \<or> 4 * h = of_int 300 \<or> 4 * h = of_int 240"
    using assms by auto
  then show ?thesis
    unfolding quarters_def by (metis Ints_of_int)
qed

lemma autoLayout_alt:
  "autoLayout shapes used =
     (let core = core_order shapes used; leaf = leaf_order shapes used;
          h = row_height (rows_of core + rows_of leaf);
          s1 = place shapes core (Fin 110) cellH;
          s2 = (if \<not> feq h cellH then place s1 core (Fin 110) h else s1)
      in place s2 leaf (Fin 110 + h * float_of_int (int (rows_of core))) h)"
  unfolding autoLayout_def core_order_def leaf_order_def rows_of_def placeLeaf_def Let_def ..

lemma orders_range:
  "set (core_order shapes used) \<subseteq> {..<length shapes}" "distinct (core_order shapes used)"
  "set (leaf_order shapes used) \<subseteq> {..<length shapes}" "distinct (leaf_order shapes used)"
  "length (core_order shapes used) \<le> length shapes" "length (leaf_order shapes used) \<le> length shapes"
  using length_indices_le [of _ shapes] by (auto simp: core_order_def leaf_order_def indices_spec)

lemma autoLayout_rest:
  assumes "i \<notin> set (core_order shapes used)" "i \<notin> set (leaf_order shapes used)"
  shows "autoLayout shapes used ! i = shapes ! i"
  using assms orders_range [of shapes used] by (simp add: autoLayout_alt Let_def)

definition grid_of :: "nat list \<Rightarrow> nat list \<Rightarrow> rat \<Rightarrow> nodeShape list \<Rightarrow> bool" where
  "grid_of core leaf h shapes \<longleftrightarrow> 60 \<le> h \<and> h \<in> {120, 225 / 2, 75, 60}
     \<and> (\<forall>k<length core. on_grid (length core) 110 h k (shapes ! (core ! k)))
     \<and> (\<forall>k<length leaf. on_grid (length leaf) (110 + of_nat (rows_of core) * h) h k (shapes ! (leaf ! k)))"

lemma autoLayout_grid:
  fixes shapes :: "nodeShape list" and used :: "string list"
  assumes "length shapes < 2 ^ 18"
  defines "core \<equiv> core_order shapes used" and "leaf \<equiv> leaf_order shapes used"
  shows "\<exists>h. grid_of core leaf h (autoLayout shapes used)"
proof -
  have core: "distinct core" "set core \<subseteq> {..<length shapes}" "length core < 2 ^ 18"
    and leaf: "distinct leaf" "set leaf \<subseteq> {..<length shapes}" "length leaf < 2 ^ 18"
    and disj: "set core \<inter> set leaf = {}"
    using assms(1) length_indices_le [of _ shapes]
    by (auto simp: core_def leaf_def core_order_def leaf_order_def indices_spec
        intro: le_less_trans)
  have rows: "1 \<le> rows_of core" "rows_of core < 2 ^ 18" "1 \<le> rows_of leaf" "rows_of leaf < 2 ^ 18"
    using core(3) leaf(3) by (auto simp: rows_of_def)
  obtain h where h: "row_height (rows_of core + rows_of leaf) = Fin h" "h \<in> {120, 225 / 2, 75, 60}"
    using row_height_cases [of "rows_of core + rows_of leaf"] rows by fastforce
  have hq: "60 \<le> h" "quarters h" "\<bar>h\<bar> \<le> 120" "feq (Fin h) (Fin 120) = (h = 120)"
    using h(2) quarters_height [OF h(2)] by auto
  define s1 where "s1 = place shapes core (Fin 110) (Fin h)"
  have s2: "(if \<not> feq (Fin h) cellH then place (place shapes core (Fin 110) cellH) core (Fin 110) (Fin h)
      else place shapes core (Fin 110) cellH) ! (core ! k) = s1 ! (core ! k)"
    if "k < length core" for k
    using that core hq by (simp add: s1_def cellH_def place_nth(1) at_xy_def)
  define s2 where "s2 = (if \<not> feq (Fin h) cellH then place (place shapes core (Fin 110) cellH) core (Fin 110) (Fin h)
      else place shapes core (Fin 110) cellH)"
  have c: "(of_nat (rows_of core) :: rat) \<le> of_nat (2 ^ 18)"
    using rows(2) by (simp only: of_nat_le_iff)
  then have "\<bar>of_nat (rows_of core) * h\<bar> \<le> 2 ^ 18 * 120"
    using hq(3) unfolding abs_mult by (intro mult_mono) auto
  then have b: "rnd (h * of_nat (rows_of core)) = Fin (of_nat (rows_of core) * h)"
      "rnd (110 + of_nat (rows_of core) * h) = Fin (110 + of_nat (rows_of core) * h)"
      "quarters (110 + of_nat (rows_of core) * h)" "\<bar>110 + of_nat (rows_of core) * h\<bar> < 2 ^ 30"
    using hq(2) by (auto simp: rnd_quarters mult.commute [of h])
  have "float_of_int (int (rows_of core)) = Fin (of_nat (rows_of core))"
    using rows by (subst float_of_int_exact) auto
  then have res: "autoLayout shapes used
      = place s2 leaf (Fin (110 + of_nat (rows_of core) * h)) (Fin h)"
    by (simp add: autoLayout_alt Let_def core_def [symmetric] leaf_def [symmetric] h(1) s2_def b)
  have len: "length s2 = length shapes"
    by (simp add: s2_def)
  have "on_grid (length core) 110 h k (autoLayout shapes used ! (core ! k))" if "k < length core" for k
  proof -
    have "core ! k \<notin> set leaf"
      using disj nth_mem [OF that] by auto
    then have "autoLayout shapes used ! (core ! k) = s1 ! (core ! k)"
      using leaf len s2 [OF that] by (simp add: res s2_def)
    then show ?thesis
      unfolding s1_def using place_on_grid [OF core(1,2), of 110 h k] core(3) hq that by simp
  qed
  moreover have "on_grid (length leaf) (110 + of_nat (rows_of core) * h) h k (autoLayout shapes used ! (leaf ! k))"
    if "k < length leaf" for k
    unfolding res using leaf b hq that len by (intro place_on_grid) auto
  ultimately have "grid_of core leaf h (autoLayout shapes used)"
    using hq h(2) unfolding grid_of_def by blast
  then show ?thesis ..
qed

lemma grid_clear:
  assumes n: "length shapes < 2 ^ 18" and ij: "i < length shapes" "j < length shapes" "i \<noteq> j"
    and free: "ns_Name (shapes ! i) \<notin> set used" "ns_Name (shapes ! j) \<notin> set used"
  shows "\<not> overlap (autoLayout shapes used ! i) (autoLayout shapes used ! j)"
proof -
  define core leaf where "core = core_order shapes used" and "leaf = leaf_order shapes used"
  from autoLayout_grid [OF n, of used] obtain h where "grid_of core leaf h (autoLayout shapes used)"
    unfolding core_def leaf_def by blast
  then have h: "60 \<le> h"
    "\<And>k. k < length core \<Longrightarrow> on_grid (length core) 110 h k (autoLayout shapes used ! (core ! k))"
    "\<And>k. k < length leaf \<Longrightarrow>
       on_grid (length leaf) (110 + of_nat (rows_of core) * h) h k (autoLayout shapes used ! (leaf ! k))"
    unfolding grid_of_def by simp_all
  have mem: "x \<in> set core \<or> x \<in> set leaf" if "x < length shapes" "ns_Name (shapes ! x) \<notin> set used" for x
    using that by (simp add: core_def leaf_def core_order_def leaf_order_def indices_spec)
  have cross: "\<not> overlap (autoLayout shapes used ! a) (autoLayout shapes used ! b)"
    if ab: "a \<in> set core" "b \<in> set leaf" for a b
  proof -
    obtain k l where "k < length core" "a = core ! k" "l < length leaf" "b = leaf ! l"
      using ab by (metis in_set_conv_nth)
    then show ?thesis
      using rows_apart_clear [OF h(2) [of k] h(3) [of l] row_lt h(1)] by simp
  qed
  have same: "\<not> overlap (autoLayout shapes used ! a) (autoLayout shapes used ! b)"
    if "a \<in> set is" "b \<in> set is" "a \<noteq> b"
      "\<And>k. k < length is \<Longrightarrow> on_grid (length is) y h k (autoLayout shapes used ! (is ! k))" for a b y "is"
    using that same_group_clear [OF _ _ _ h(1)] by (metis in_set_conv_nth)
  from mem [OF ij(1) free(1)] mem [OF ij(2) free(2)] show ?thesis
    using cross [of i j] cross [of j i] same [of i core j, OF _ _ ij(3) h(2)]
      same [of i leaf j, OF _ _ ij(3) h(3)] by (auto simp: overlap_sym)
qed

end
