(* ===== verification/TopoBounds.thy ===== *)
theory TopoBounds
  imports TopoLayout
begin

text \<open>
  What the layout of \<open>tools/topogen/render.go\<close> guarantees, when the salvaged positions are in whole or
  half pixels (then every sum and difference of coordinates is exact in \<open>float64\<close>): auto-placed
  nodes do not overlap, every node stays between the header and the legend, no node is lost, and
  the choice between the two layouts does not depend on the order of the map.
\<close>

section \<open>A push never makes two nodes overlap\<close>

text \<open>Coordinates that are multiples of a quarter and at most \<open>B\<close> in size.\<close>

definition on_quarters :: "rat \<Rightarrow> nodeShape \<Rightarrow> bool" where
  "on_quarters B s \<longleftrightarrow>
     (\<exists>x y. ns_CX s = Fin x \<and> ns_CY s = Fin y \<and> quarters x \<and> quarters y \<and> \<bar>x\<bar> \<le> B \<and> \<bar>y\<bar> \<le> B)"

definition xr :: "nodeShape \<Rightarrow> rat" where "xr s = (case ns_CX s of Fin x \<Rightarrow> x | _ \<Rightarrow> 0)"
definition yr :: "nodeShape \<Rightarrow> rat" where "yr s = (case ns_CY s of Fin y \<Rightarrow> y | _ \<Rightarrow> 0)"

lemma on_quartersD:
  assumes "on_quarters B s"
  shows "ns_CX s = Fin (xr s)" "ns_CY s = Fin (yr s)" "quarters (xr s)" "quarters (yr s)"
    "\<bar>xr s\<bar> \<le> B" "\<bar>yr s\<bar> \<le> B"
  using assms by (auto simp: on_quarters_def xr_def yr_def)

lemma on_quarters_mono: "on_quarters B s \<Longrightarrow> B \<le> C \<Longrightarrow> on_quarters C s"
  by (fastforce simp: on_quarters_def)

lemma on_quarters_66: "on_quarters B s \<Longrightarrow> on_quarters (B + 66) s"
  by (erule on_quarters_mono) simp

lemma half_height_30 [simp]: "half_height s = Fin 30"
  by (simp add: half_height_def hostR_def)

lemma quarter_sums:
  assumes "on_quarters B s" "B \<le> 2 ^ 30"
  shows "ns_CY s - Fin 30 = Fin (yr s - 30)" "ns_CY s + Fin 30 = Fin (yr s + 30)"
    "ns_CX s - Fin 70 = Fin (xr s - 70)" "ns_CX s + Fin 70 = Fin (xr s + 70)"
  using on_quartersD [OF assms(1)] assms(2) by (auto simp: rnd_quarters)

lemma gap_exact:
  assumes "on_quarters B s" "on_quarters B z" "B \<le> 2 ^ 30"
  shows "above z s \<longleftrightarrow> yr z + 60 \<le> yr s" "below z s \<longleftrightarrow> yr s + 60 \<le> yr z"
    "gap_above z s = Fin (yr s - yr z - 60)" "gap_below z s = Fin (yr z - yr s - 60)"
    "apart s z \<longleftrightarrow> 140 < \<bar>xr s - xr z\<bar>"
proof -
  note s = quarter_sums [OF assms(1,3)] and z = quarter_sums [OF assms(2,3)]
  have q: "rnd (yr s - yr z - 60) = Fin (yr s - yr z - 60)" "rnd (yr z - yr s - 60) = Fin (yr z - yr s - 60)"
    using on_quartersD [OF assms(1)] on_quartersD [OF assms(2)] assms(3)
    by (auto intro!: rnd_quarters)
  show "above z s \<longleftrightarrow> yr z + 60 \<le> yr s" "below z s \<longleftrightarrow> yr s + 60 \<le> yr z"
    "apart s z \<longleftrightarrow> 140 < \<bar>xr s - xr z\<bar>"
    by (auto simp: above_def below_def apart_def s z abs_if)
  show "gap_above z s = Fin (yr s - yr z - 60)" "gap_below z s = Fin (yr z - yr s - 60)"
    using q by (simp_all add: gap_above_def gap_below_def s z)
qed

lemma need_exact:
  assumes "on_quarters B s" "on_quarters B z" "B \<le> 2 ^ 30"
  shows "minGapChip - gap_above z s = Fin (126 - yr s + yr z)"
    "minGapChip - gap_below z s = Fin (126 - yr z + yr s)"
    "gap_above z s - minGapChip = Fin (yr s - yr z - 126)"
    "gap_below z s - minGapChip = Fin (yr z - yr s - 126)"
proof -
  have q: "rnd (126 - yr s + yr z) = Fin (126 - yr s + yr z)" "rnd (126 - yr z + yr s) = Fin (126 - yr z + yr s)"
    "rnd (yr s - yr z - 126) = Fin (yr s - yr z - 126)" "rnd (yr z - yr s - 126) = Fin (yr z - yr s - 126)"
    using on_quartersD [OF assms(1)] on_quartersD [OF assms(2)] assms(3)
    by (auto intro!: rnd_quarters)
  have "66 - (yr s - yr z - 60) = 126 - yr s + yr z" "66 - (yr z - yr s - 60) = 126 - yr z + yr s"
    "yr s - yr z - 60 - 66 = yr s - yr z - 126" "yr z - yr s - 60 - 66 = yr z - yr s - 126"
    by simp_all
  then show "minGapChip - gap_above z s = Fin (126 - yr s + yr z)"
    "minGapChip - gap_below z s = Fin (126 - yr z + yr s)"
    "gap_above z s - minGapChip = Fin (yr s - yr z - 126)"
    "gap_below z s - minGapChip = Fin (yr z - yr s - 126)"
    by (simp_all only: gap_exact [OF assms] minGapChip_def Fin_ops q)
qed

lemma overlap_exact:
  assumes "on_quarters B s" "on_quarters B z" "B \<le> 2 ^ 30"
  shows "overlap s z \<longleftrightarrow>
    \<bar>xr s - xr z\<bar> < (if ns_IsHost s \<and> ns_IsHost z then 60 else if ns_IsHost s \<or> ns_IsHost z then 100 else 140)
    \<and> \<bar>yr s - yr z\<bar> < 60"
proof -
  have "rnd (xr s - xr z) = Fin (xr s - xr z)" "rnd (yr s - yr z) = Fin (yr s - yr z)"
    using on_quartersD [OF assms(1)] on_quartersD [OF assms(2)] assms(3)
    by (auto intro!: rnd_quarters)
  then show ?thesis
    using on_quartersD(1,2) [OF assms(1)] on_quartersD(1,2) [OF assms(2)]
    by (simp add: overlap_def Let_def)
qed

lemma score_valid:
  assumes "snd (foldl (score_step down shapes i) acc js)"
  shows "snd acc \<and> (\<forall>j\<in>set js. j \<noteq> i \<and> \<not> apart (shapes ! i) (shapes ! j) \<longrightarrow>
    (\<forall>c n. gaps down (shapes ! i) (shapes ! j) = Some (c, n) \<longrightarrow> \<not> n < Fin 0))"
  using assms
proof (induction js arbitrary: acc)
  case (Cons j js)
  from Cons.IH [of "score_step down shapes i acc j"] Cons.prems show ?case
    by (auto simp: score_step_def Let_def split: if_splits option.splits prod.splits)
qed simp

lemma best_dir_valid: "best_dir shapes i = Some down \<Longrightarrow> snd (score down shapes i)"
  by (auto simp: best_dir_def split: prod.splits if_splits)

text \<open>The push is positive, at most 66, and a multiple of a quarter.\<close>

lemma push_need_bounds:
  assumes "\<forall>s\<in>set shapes. on_quarters B s" "B \<le> 2 ^ 30" "i < length shapes"
  shows "\<exists>q. push_need down shapes i = Fin q \<and> quarters q \<and> 0 \<le> q \<and> q \<le> 66"
proof -
  let ?P = "\<lambda>need. \<exists>q. need = Fin q \<and> quarters q \<and> 0 \<le> q \<and> q \<le> 66"
  let ?f = "\<lambda>need j.
         let s = shapes ! i; z = shapes ! j
         in if j = i \<or> apart s z then need
            else if down \<and> above z s then
              (if minGapChip - gap_above z s > need then minGapChip - gap_above z s else need)
            else if \<not> down \<and> below z s then
              (if minGapChip - gap_below z s > need then minGapChip - gap_below z s else need)
            else need"
  have "?P (foldl ?f need js)" if "?P need" "set js \<subseteq> {..<length shapes}" for need js
    using that
  proof (induction js arbitrary: need)
    case (Cons j js)
    have q: "on_quarters B (shapes ! i)" "on_quarters B (shapes ! j)"
      using assms Cons.prems(2) by auto
    from Cons.prems(1) obtain r where r: "need = Fin r" "quarters r" "0 \<le> r" "r \<le> 66"
      by blast
    have qn: "quarters (126 - yr (shapes ! i) + yr (shapes ! j))"
        "quarters (126 - yr (shapes ! j) + yr (shapes ! i))"
      using on_quartersD(4) [OF q(1)] on_quartersD(4) [OF q(2)] by auto
    have "?P (?f need j)"
      unfolding Let_def need_exact [OF q assms(2)] r(1) gap_exact(1,2) [OF q assms(2)]
      using r(2-4) qn by auto
    from Cons.IH [OF this] Cons.prems(2) show ?case
      by simp
  qed simp
  from this [of "Fin 0" "[0..<length shapes]"] show ?thesis
    by (simp add: push_need_def atLeast0LessThan)
qed

text \<open>Seen from another node, a push in a valid direction keeps the two clear of each other.\<close>

lemma push_clear:
  assumes q: "\<forall>s\<in>set shapes. on_quarters B s" "B \<le> 2 ^ 29"
    and i: "i < length shapes" and d: "best_dir shapes i = Some down"
    and need: "push_need down shapes i = Fin r" "0 < r" "r \<le> 66" "quarters r"
    and j: "j < length shapes" "j \<noteq> i" and clear: "\<not> overlap (shapes ! i) (shapes ! j)"
    and s': "s' = (shapes ! i)\<lparr>ns_CY := Fin (yr (shapes ! i) + (if down then r else - r))\<rparr>"
  shows "\<not> overlap s' (shapes ! j)"
proof -
  let ?s = "shapes ! i" and ?z = "shapes ! j"
  let ?w = "if ns_IsHost ?s \<and> ns_IsHost ?z then 60 else if ns_IsHost ?s \<or> ns_IsHost ?z then 100 else 140 :: rat"
  have qs: "on_quarters B ?s" "on_quarters B ?z" and B: "B \<le> 2 ^ 30"
    using q i j by auto
  note D = on_quartersD [OF qs(1)] on_quartersD [OF qs(2)]
  have "\<bar>yr ?s + (if down then r else - r)\<bar> \<le> \<bar>yr ?s\<bar> + 66"
    using need(2,3) by (cases down) auto
  then have "\<bar>yr ?s + (if down then r else - r)\<bar> \<le> 2 ^ 30"
    using D(6) q(2) by simp
  moreover have "quarters (yr ?s + (if down then r else - r))"
    using D(4) need(4) by simp
  ultimately have ynew: "\<bar>yr ?s + (if down then r else - r)\<bar> \<le> 2 ^ 30"
      "quarters (yr ?s + (if down then r else - r))"
    by blast+
  have qs': "on_quarters (2 ^ 30) s'" and x': "xr s' = xr ?s" "ns_IsHost s' = ns_IsHost ?s"
    and y': "yr s' = yr ?s + (if down then r else - r)"
    unfolding s' on_quarters_def using D(1,3,5) B ynew by (auto simp: xr_def yr_def)
  have ov: "overlap ?s ?z \<longleftrightarrow> \<bar>xr ?s - xr ?z\<bar> < ?w \<and> \<bar>yr ?s - yr ?z\<bar> < 60"
    by (rule overlap_exact [OF qs B])
  have ov': "overlap s' ?z \<longleftrightarrow> \<bar>xr ?s - xr ?z\<bar> < ?w \<and> \<bar>yr s' - yr ?z\<bar> < 60"
    using overlap_exact [OF qs' on_quarters_mono [OF qs(2) B]] x' by simp
  show ?thesis
  proof (cases "\<bar>xr ?s - xr ?z\<bar> < ?w")
    case True
    then have "\<not> apart ?s ?z" "60 \<le> \<bar>yr ?s - yr ?z\<bar>"
      using clear ov by (auto simp: gap_exact [OF qs B] split: if_splits)
    then have valid: "\<And>c n. gaps down ?s ?z = Some (c, n) \<Longrightarrow> \<not> n < Fin 0"
      using score_valid [OF best_dir_valid [OF d, unfolded score_def]] j by auto
    note g = gap_exact [OF qs B] need_exact [OF qs B]
    have "60 \<le> \<bar>yr s' - yr ?z\<bar>"
    proof (cases "yr ?z + 60 \<le> yr ?s")
      case True
      with valid [of "gap_above ?z ?s" "if down then gap_above ?z ?s + minGapChip else gap_above ?z ?s - minGapChip"]
      show ?thesis
        using need(2,3) y' by (auto simp: gaps_def g(1,2,8,9))
    next
      case False
      then have "yr ?s + 60 \<le> yr ?z"
        using \<open>60 \<le> \<bar>yr ?s - yr ?z\<bar>\<close> by auto
      with False valid [of "gap_below ?z ?s" "if down then gap_below ?z ?s - minGapChip else gap_below ?z ?s + minGapChip"]
      show ?thesis
        using need(2,3) y' by (auto simp: gaps_def g(1,2,8,9))
    qed
    then show ?thesis
      using ov' by simp
  qed (use ov' in simp)
qed

text \<open>The invariant of the pushes: bounded coordinates, and what was clear stays clear.\<close>

definition clear_pairs :: "nodeShape list \<Rightarrow> nodeShape list \<Rightarrow> bool" where
  "clear_pairs shapes shapes' \<longleftrightarrow> length shapes' = length shapes \<and>
     (\<forall>i<length shapes. \<forall>j<length shapes. i \<noteq> j \<longrightarrow>
        \<not> overlap (shapes ! i) (shapes ! j) \<longrightarrow> \<not> overlap (shapes' ! i) (shapes' ! j))"

lemma clear_pairs_refl [simp]: "clear_pairs s s"
  by (simp add: clear_pairs_def)

lemma clear_pairs_trans: "clear_pairs a b \<Longrightarrow> clear_pairs b c \<Longrightarrow> clear_pairs a c"
  by (simp add: clear_pairs_def)

lemma push_node_ok:
  assumes q: "\<forall>s\<in>set shapes. on_quarters B s" "B \<le> 2 ^ 29" and i: "i < length shapes"
  shows "(\<forall>s\<in>set (fst (push_node used (shapes, m) i)). on_quarters (B + 66) s)
    \<and> clear_pairs shapes (fst (push_node used (shapes, m) i))"
proof (cases "ns_Name (shapes ! i) \<in> set used \<or> best_dir shapes i = None")
  case True
  then show ?thesis
    using q by (auto simp: push_node_def intro: on_quarters_66)
next
  case False
  then obtain down where d: "best_dir shapes i = Some down"
    by blast
  obtain r where r: "push_need down shapes i = Fin r" "quarters r" "0 \<le> r" "r \<le> 66"
    using push_need_bounds [OF q(1) _ i] q(2) by fastforce
  show ?thesis
  proof (cases "r = 0")
    case True
    then show ?thesis
      using False d q r by (auto simp: push_node_def Let_def intro: on_quarters_66)
  next
    case nz: False
    let ?s = "shapes ! i"
    define s' where "s' = ?s\<lparr>ns_CY := Fin (yr ?s + (if down then r else - r))\<rparr>"
    have D: "on_quarters B ?s"
      using q i by simp
    have m: "Fin r * (if down then Fin 1 else Fin (- 1)) = Fin (if down then r else - r)"
      using r by (simp add: rnd_quarters)
    have "quarters (yr ?s + (if down then r else - r))" "\<bar>yr ?s + (if down then r else - r)\<bar> \<le> B + 66"
      using on_quartersD [OF D] r by auto
    moreover from this have a: "ns_CY ?s + Fin (if down then r else - r) = Fin (yr ?s + (if down then r else - r))"
      unfolding on_quartersD(2) [OF D] Fin_ops using q(2) by (intro rnd_quarters) auto
    ultimately have s'q: "on_quarters (B + 66) s'"
      using on_quartersD [OF D] by (auto simp: s'_def on_quarters_def)
    have push: "push_node used (shapes, m) i = (shapes[i := s'], True)"
      using False d r nz by (simp add: push_node_def Let_def m a s'_def)
    have clear: "\<not> overlap s' (shapes ! j)" if "j < length shapes" "j \<noteq> i" "\<not> overlap ?s (shapes ! j)" for j
      by (rule push_clear [OF q i d r(1) _ r(4,2) that s'_def]) (use r(3) nz in simp)
    have "clear_pairs shapes (shapes[i := s'])"
      unfolding clear_pairs_def
    proof (intro conjI allI impI)
      fix a b
      assume *: "a < length shapes" "b < length shapes" "a \<noteq> b" "\<not> overlap (shapes ! a) (shapes ! b)"
      show "\<not> overlap (shapes[i := s'] ! a) (shapes[i := s'] ! b)"
        using * clear [of b] clear [of a] overlap_sym [of "shapes ! a" s'] overlap_sym [of "shapes ! a" ?s] i
        by (auto simp: nth_list_update)
    qed simp
    moreover have "\<forall>s\<in>set (shapes[i := s']). on_quarters (B + 66) s"
      using q s'q by (auto dest!: set_update_subset_insert [THEN subsetD] intro: on_quarters_66)
    ultimately show ?thesis
      by (simp add: push)
  qed
qed

lemma push_nodes_ok:
  assumes "\<forall>s\<in>set (fst st). on_quarters B s" "B + 66 * of_nat (length js) \<le> 2 ^ 29"
    "set js \<subseteq> {..<length (fst st)}"
  shows "(\<forall>s\<in>set (fst (foldl (push_node used) st js)). on_quarters (B + 66 * of_nat (length js)) s)
    \<and> clear_pairs (fst st) (fst (foldl (push_node used) st js))"
  using assms
proof (induction js arbitrary: st B)
  case (Cons j js)
  let ?st = "push_node used st j"
  have step: "\<forall>s\<in>set (fst ?st). on_quarters (B + 66) s" "clear_pairs (fst st) (fst ?st)"
    using push_node_ok [of "fst st" B j used "snd st"] Cons.prems by auto
  then have "length (fst ?st) = length (fst st)"
    by (simp add: clear_pairs_def)
  with Cons.IH [of ?st "B + 66"] step Cons.prems
  have "\<forall>s\<in>set (fst (foldl (push_node used) ?st js)). on_quarters (B + 66 + 66 * of_nat (length js)) s"
    "clear_pairs (fst ?st) (fst (foldl (push_node used) ?st js))"
    by (auto simp: algebra_simps)
  then show ?case
    using clear_pairs_trans [OF step(2)] by (simp add: algebra_simps)
qed simp

lemma gap_rounds_ok:
  assumes "\<forall>s\<in>set shapes. on_quarters B s" "B + 66 * of_nat (k * length shapes) \<le> 2 ^ 29"
  shows "(\<forall>s\<in>set (gap_rounds k used shapes). on_quarters (B + 66 * of_nat (k * length shapes)) s)
    \<and> clear_pairs shapes (gap_rounds k used shapes)"
  using assms
proof (induction k arbitrary: shapes B)
  case (Suc k)
  let ?n = "length shapes"
  let ?C = "B + 66 * of_nat ?n"
  have C: "B + 66 * of_nat (Suc k * ?n) = ?C + 66 * of_nat (k * ?n)"
    by (simp add: algebra_simps)
  have le: "?C \<le> ?C + 66 * of_nat (k * ?n)"
    by simp
  have C2: "?C \<le> 2 ^ 29"
    using Suc.prems(2) le unfolding C by linarith
  obtain shapes' moved where r: "gap_round used shapes = (shapes', moved)"
    by force
  have step: "\<forall>s\<in>set shapes'. on_quarters ?C s" "clear_pairs shapes shapes'"
    using push_nodes_ok [of "(shapes, False)" B "[0..<?n]" used] Suc.prems(1) r C2
    by (auto simp: gap_round_def atLeast0LessThan)
  then have n: "length shapes' = ?n"
    by (simp add: clear_pairs_def)
  show ?case
  proof (cases moved)
    case True
    with Suc.IH [OF step(1)] Suc.prems(2) step(2) r n show ?thesis
      unfolding C by (auto intro: clear_pairs_trans)
  next
    case False
    with step r le show ?thesis
      unfolding C by (auto intro: on_quarters_mono)
  qed
qed simp

section \<open>Auto-placed nodes never overlap\<close>

definition halves :: "rat \<Rightarrow> bool" where "halves q \<longleftrightarrow> 2 * q \<in> \<int>"

text \<open>A salvaged position in whole or half pixels, of at most \<open>2 ^ 18\<close>.\<close>

definition tidy_pos :: "NodePos \<Rightarrow> bool" where
  "tidy_pos p \<longleftrightarrow>
     list_all (\<lambda>v. case v of Fin q \<Rightarrow> halves q \<and> \<bar>q\<bar> \<le> 2 ^ 18 | _ \<Rightarrow> False)
       [np_X p, np_Y p, np_W p, np_H p]"

lemma halves_quarters: "halves q \<Longrightarrow> quarters q" "halves q \<Longrightarrow> quarters (q / 2)"
proof -
  assume h: "halves q"
  then show "quarters q"
    using Ints_mult [of 2 "2 * q"] by (simp add: halves_def quarters_def algebra_simps)
  show "quarters (q / 2)"
    using h by (simp add: halves_def quarters_def)
qed

lemma centre_quarters:
  assumes "halves x" "\<bar>x\<bar> \<le> 2 ^ 18" "halves w" "\<bar>w\<bar> \<le> 2 ^ 18"
  shows "Fin x + Fin w / Fin 2 = Fin (x + w / 2)" "quarters (x + w / 2)" "\<bar>x + w / 2\<bar> \<le> 2 ^ 20"
proof -
  show q: "quarters (x + w / 2)"
    using halves_quarters(1) [OF assms(1)] halves_quarters(2) [OF assms(3)] by simp
  have w: "\<bar>w / 2\<bar> \<le> 2 ^ 18"
    using assms(4) by simp
  then show b: "\<bar>x + w / 2\<bar> \<le> 2 ^ 20"
    using assms(2) abs_triangle_ineq [of x "w / 2"] by simp
  have "rnd (w / 2) = Fin (w / 2)"
    using w halves_quarters(2) [OF assms(3)] by (intro rnd_quarters) simp_all
  moreover have "rnd (x + w / 2) = Fin (x + w / 2)"
    using b q by (intro rnd_quarters) simp_all
  ultimately show "Fin x + Fin w / Fin 2 = Fin (x + w / 2)"
    by simp
qed

lemma start_quarters:
  assumes "list_all tidy_pos (map snd pos)"
  shows "on_quarters (2 ^ 20) (start_shape ue pos n)"
proof (cases "if ue then mget pos (nt_Name n) else None")
  case None
  then show ?thesis
    by (simp add: start_shape_def Let_def on_quarters_def)
next
  case (Some p)
  then have "tidy_pos p"
    using assms by (force simp: list_all_iff split: if_splits dest: map_of_SomeD)
  then obtain x y w h where p: "np_X p = Fin x" "np_Y p = Fin y" "np_W p = Fin w" "np_H p = Fin h"
    and hv: "halves x" "halves y" "halves w" "halves h"
      "\<bar>x\<bar> \<le> 2 ^ 18" "\<bar>y\<bar> \<le> 2 ^ 18" "\<bar>w\<bar> \<le> 2 ^ 18" "\<bar>h\<bar> \<le> 2 ^ 18"
    by (auto simp: tidy_pos_def split: f64.splits)
  have c: "Fin x + Fin w / Fin 2 = Fin (x + w / 2)" "Fin y + Fin h / Fin 2 = Fin (y + h / 2)"
    using centre_quarters(1) hv by blast+
  have b: "\<bar>x\<bar> \<le> 2 ^ 20" "\<bar>y\<bar> \<le> 2 ^ 20"
    using hv by simp_all
  have q: "quarters (x + w / 2)" "quarters (y + h / 2)" "\<bar>x + w / 2\<bar> \<le> 2 ^ 20" "\<bar>y + h / 2\<bar> \<le> 2 ^ 20"
    using centre_quarters(2,3) hv by blast+
  show ?thesis
    unfolding start_shape_def Let_def Some option.case p c on_quarters_def
    using q b halves_quarters(1) [OF hv(1)] halves_quarters(1) [OF hv(2)] by simp
qed

lemma on_grid_quarters:
  assumes "on_grid n a h k s" "n \<le> 2 ^ 10" "quarters a" "\<bar>a\<bar> \<le> 2 ^ 18" "quarters h" "\<bar>h\<bar> \<le> 120"
  shows "on_quarters (2 ^ 20) s"
proof -
  have k: "k < 2 ^ 10"
    using assms(1,2) by (simp add: on_grid_def)
  define c d :: nat where "c = min 3 (n - 3 * (k div 3))" and "d = k mod 3"
  have "c \<le> 3" "d \<le> 2"
    by (simp_all add: c_def d_def)
  then have "(of_nat c :: rat) \<le> of_nat 3" "(of_nat d :: rat) \<le> of_nat 2"
    by (simp_all only: of_nat_le_iff)
  moreover have "grid_x n k = 480 - 95 * of_nat c + 190 * of_nat d"
    by (simp add: grid_x_def c_def d_def)
  moreover have "quarters (95 * of_nat c)" "quarters (190 * of_nat d)"
    using quarters_intros(2) [of "95 * c"] quarters_intros(2) [of "190 * d"] by simp_all
  ultimately have x: "\<bar>grid_x n k\<bar> \<le> 2 ^ 20" "quarters (grid_x n k)"
    by (auto simp: abs_le_iff)
  have "(of_nat (k div 3) :: rat) \<le> of_nat (2 ^ 10)"
    using k by (simp only: of_nat_le_iff)
  then have "\<bar>of_nat (k div 3) * h\<bar> \<le> 2 ^ 10 * 120"
    using assms(6) unfolding abs_mult by (intro mult_mono) auto
  then have "\<bar>a + of_nat (k div 3) * h\<bar> \<le> 2 ^ 20"
    using assms(4) by simp
  with x assms show ?thesis
    by (auto simp: on_grid_def on_quarters_def)
qed

lemma autoLayout_quarters:
  assumes n: "length shapes \<le> 2 ^ 10" and q: "\<forall>s\<in>set shapes. on_quarters (2 ^ 20) s"
  shows "\<forall>s\<in>set (autoLayout shapes used). on_quarters (2 ^ 20) s"
proof -
  define core leaf where "core = core_order shapes used" and "leaf = leaf_order shapes used"
  have "length shapes < 2 ^ 18"
    using n by simp
  from autoLayout_grid [OF this, of used] obtain h where "grid_of core leaf h (autoLayout shapes used)"
    unfolding core_def leaf_def by blast
  then have h: "\<And>k. k < length core \<Longrightarrow> on_grid (length core) 110 h k (autoLayout shapes used ! (core ! k))"
    "\<And>k. k < length leaf \<Longrightarrow>
       on_grid (length leaf) (110 + of_nat (rows_of core) * h) h k (autoLayout shapes used ! (leaf ! k))"
    "h \<in> {120, 225 / 2, 75, 60}"
    unfolding grid_of_def by simp_all
  have hq: "quarters h" "\<bar>h\<bar> \<le> 120"
    using quarters_height [OF h(3)] h(3) by auto
  have len: "length core \<le> 2 ^ 10" "length leaf \<le> 2 ^ 10" "rows_of core \<le> 2 ^ 10"
    using orders_range(5,6) [of shapes used] n by (auto simp: core_def leaf_def rows_of_def)
  then have "(of_nat (rows_of core) :: rat) \<le> of_nat (2 ^ 10)"
    by (simp only: of_nat_le_iff)
  then have "\<bar>of_nat (rows_of core) * h\<bar> \<le> 2 ^ 10 * 120"
    using hq(2) unfolding abs_mult by (intro mult_mono) auto
  then have a: "\<bar>110 + of_nat (rows_of core) * h\<bar> \<le> 2 ^ 18" "quarters (110 + of_nat (rows_of core) * h)"
    using hq(1) by simp_all
  have one: "on_quarters (2 ^ 20) (autoLayout shapes used ! i)" if "i < length shapes" for i
  proof -
    consider k where "k < length core" "i = core ! k" | k where "k < length leaf" "i = leaf ! k"
      | "i \<notin> set core" "i \<notin> set leaf"
      by (metis in_set_conv_nth)
    then show ?thesis
    proof cases
      case 1
      then show ?thesis
        using on_grid_quarters [OF h(1) len(1)] hq by simp
    next
      case 2
      then show ?thesis
        using on_grid_quarters [OF h(2) len(2)] a hq by simp
    next
      case 3
      then show ?thesis
        using q that autoLayout_rest [of i shapes used] by (simp add: core_def leaf_def)
    qed
  qed
  have "length (autoLayout shapes used) = length shapes"
    by (metis length_map skeleton_autoLayout)
  then show ?thesis
    using one by (auto simp: in_set_conv_nth)
qed

text \<open>Two nodes the tool places itself do not overlap after the grid and the minimum-gap pass.\<close>

definition autos_clear :: "string list \<Rightarrow> nodeShape list \<Rightarrow> bool" where
  "autos_clear used shapes \<longleftrightarrow>
     (\<forall>i<length shapes. \<forall>j<length shapes. i \<noteq> j \<and> ns_Name (shapes ! i) \<notin> set used
        \<and> ns_Name (shapes ! j) \<notin> set used \<longrightarrow> \<not> overlap (shapes ! i) (shapes ! j))"

lemma spread_ok:
  assumes n: "length shapes \<le> 2 ^ 10" and q: "\<forall>s\<in>set shapes. on_quarters (2 ^ 20) s"
  shows "autos_clear used (enforceAutoMinGap (autoLayout shapes used) used)"
    and "\<forall>s\<in>set (enforceAutoMinGap (autoLayout shapes used) used). on_quarters (2 ^ 21) s"
proof -
  let ?a = "autoLayout shapes used" and ?e = "enforceAutoMinGap (autoLayout shapes used) used"
  have names: "map ns_Name ?a = map ns_Name shapes" "map ns_Name ?e = map ns_Name shapes"
    using skeleton_autoLayout [of shapes used] skeleton_enforce [of ?a used]
    by (metis map_map comp_apply skeleton_fields(1) map_cong fst_conv list.map_comp)+
  have l: "length ?a = length shapes"
    by (metis length_map skeleton_autoLayout)
  have "(of_nat (8 * length ?a) :: rat) \<le> of_nat (8 * 2 ^ 10)"
    using n unfolding l by (simp only: of_nat_le_iff)
  then have b: "2 ^ 20 + 66 * of_nat (8 * length ?a) \<le> (2 ^ 21 :: rat)"
    by simp
  from gap_rounds_ok [OF autoLayout_quarters [OF n q, of used], of 8 used] b
  have e: "\<forall>s\<in>set ?e. on_quarters (2 ^ 20 + 66 * of_nat (8 * length ?a)) s" "clear_pairs ?a ?e"
    by (auto simp: enforceAutoMinGap_def)
  show "\<forall>s\<in>set ?e. on_quarters (2 ^ 21) s"
    using e(1) b by (auto intro: on_quarters_mono)
  have nm: "ns_Name (?e ! i) = ns_Name (shapes ! i)" if "i < length shapes" for i
    using names that by (metis length_map nth_map)
  have n': "length shapes < 2 ^ 18"
    using n by simp
  show "autos_clear used ?e"
    using e(2) l grid_clear [OF n', of _ _ used] by (simp add: autos_clear_def clear_pairs_def nm)
qed

section \<open>The clearances\<close>

text \<open>After the shift every centre is at 85 or lower on the canvas.\<close>

lemma min_top_exact:
  assumes "shapes \<noteq> []" "\<forall>s\<in>set shapes. on_quarters B s" "B \<le> 2 ^ 30"
  shows "\<exists>m. min_top shapes = Fin m \<and> (\<forall>s\<in>set shapes. m \<le> yr s - 30) \<and> (\<exists>s\<in>set shapes. m = yr s - 30)"
  using assms
proof (induction shapes rule: rev_induct)
  case (snoc s shapes)
  have t: "ns_CY s - half_height s = Fin (yr s - 30)"
    using quarter_sums(1) [of B s] snoc.prems by simp
  show ?case
  proof (cases "shapes = []")
    case True
    then show ?thesis
      using t by (auto simp: min_top_def Let_def)
  next
    case False
    with snoc obtain m where "min_top shapes = Fin m" "\<forall>s\<in>set shapes. m \<le> yr s - 30"
        "\<exists>s\<in>set shapes. m = yr s - 30"
      by auto
    then show ?thesis
      using t by (auto simp: min_top_def Let_def)
  qed
qed simp

lemma max_bottom_exact:
  assumes "shapes \<noteq> []" "\<forall>s\<in>set shapes. on_quarters B s" "B \<le> 2 ^ 30"
  shows "\<exists>m. max_bottom shapes = Fin m \<and> (\<forall>s\<in>set shapes. yr s + 30 \<le> m) \<and> (\<exists>s\<in>set shapes. m = yr s + 30)"
  using assms
proof (induction shapes rule: rev_induct)
  case (snoc s shapes)
  have t: "ns_CY s + half_height s = Fin (yr s + 30)"
    using quarter_sums(2) [of B s] snoc.prems by simp
  show ?case
  proof (cases "shapes = []")
    case True
    then show ?thesis
      using t by (auto simp: max_bottom_def Let_def)
  next
    case False
    with snoc obtain m where "max_bottom shapes = Fin m" "\<forall>s\<in>set shapes. yr s + 30 \<le> m"
        "\<exists>s\<in>set shapes. m = yr s + 30"
      by auto
    then show ?thesis
      using t by (auto simp: max_bottom_def Let_def)
  qed
qed simp

lemma shift_exact:
  assumes "on_quarters B s" "B \<le> 2 ^ 21" "quarters d" "\<bar>d\<bar> \<le> 2 ^ 22"
  shows "on_quarters (2 ^ 23) (s\<lparr>ns_CY := ns_CY s + Fin d\<rparr>)" "yr (s\<lparr>ns_CY := ns_CY s + Fin d\<rparr>) = yr s + d"
proof -
  note D = on_quartersD [OF assms(1)]
  have q: "quarters (yr s + d)" "\<bar>yr s + d\<bar> \<le> 2 ^ 23" "\<bar>xr s\<bar> \<le> 2 ^ 23"
    using D(4-6) assms(2-4) by auto
  then have a: "ns_CY s + Fin d = Fin (yr s + d)"
    unfolding D(2) Fin_ops by (intro rnd_quarters) auto
  show "on_quarters (2 ^ 23) (s\<lparr>ns_CY := ns_CY s + Fin d\<rparr>)" "yr (s\<lparr>ns_CY := ns_CY s + Fin d\<rparr>) = yr s + d"
    unfolding a using D(1,3) q by (auto simp: on_quarters_def yr_def)
qed

lemma clear_top_ok:
  assumes q: "\<forall>s\<in>set shapes. on_quarters (2 ^ 21) s"
  shows "\<forall>s\<in>set (clear_top shapes). on_quarters (2 ^ 23) s \<and> 85 \<le> yr s"
proof (cases "shapes = []")
  case False
  then obtain m where m: "min_top shapes = Fin m" "\<forall>s\<in>set shapes. m \<le> yr s - 30"
      "\<exists>s\<in>set shapes. m = yr s - 30"
    using min_top_exact [OF False q] by auto
  then obtain z where z: "z \<in> set shapes" "m = yr z - 30"
    by blast
  have mq: "quarters (55 - m)" "\<bar>55 - m\<bar> \<le> 2 ^ 22"
    using on_quartersD(4,6) [of "2 ^ 21" z] q z by auto
  then have d: "topClearance - Fin m = Fin (55 - m)"
    by (simp add: topClearance_def rnd_quarters)
  show ?thesis
  proof (cases "m < 55")
    case True
    then have "clear_top shapes = map (\<lambda>s. s\<lparr>ns_CY := ns_CY s + Fin (55 - m)\<rparr>) shapes"
      by (simp add: clear_top_def m(1) d Let_def) (simp add: topClearance_def)
    then show ?thesis
      using shift_exact [OF _ _ mq] q m(2) by fastforce
  next
    case False
    then have "clear_top shapes = shapes"
      by (simp add: clear_top_def m(1) topClearance_def)
    then show ?thesis
      using q m(2) False by (auto intro: on_quarters_mono)
  qed
qed (simp add: clear_top_def Let_def)

lemma rnd_val_rel:
  assumes "1 / 2 ^ 100 \<le> q"
  shows "rnd_val q \<le> q * (1 + 1 / 2 ^ 53)"
proof -
  have q0: "0 < q"
    by (rule less_le_trans [OF _ assms]) simp
  have "(2 :: rat) powi (- 100) = 1 / 2 ^ 100"
    by (simp add: power_int_minus field_simps)
  then have "2 powi (- 100) < (2 :: rat) powi (binexp q + 1)"
    using assms binexp_bounds(2) [OF q0] by linarith
  then have e: "- 100 < binexp q + 1"
    by (rule powi_less_cancel)
  define u where "u = (2 :: rat) powi ulp_exp q"
  have "2 powi binexp q = (2 :: rat) powi (ulp_exp q + 52)"
    using e q0 by (simp add: ulp_exp_def)
  then have "u * 2 ^ 52 \<le> q"
    using binexp_bounds(1) [OF q0] by (simp add: u_def power_int_add)
  moreover have "rnd_val q \<le> (q / u + 1 / 2) * u"
  proof -
    have "of_int (round_even (q / u)) \<le> q / u + 1 / 2"
      using round_even_near [of "q / u"] by linarith
    then show ?thesis
      using q0 by (simp add: rnd_val_def u_def)
  qed
  moreover have "(q / u + 1 / 2) * u = q + u / 2"
    by (simp add: u_def algebra_simps)
  ultimately show ?thesis
    by (simp add: algebra_simps)
qed

lemma scale_bound:
  assumes y: "30 \<le> y" "y \<le> c - 30" and c: "340 < c" "c \<le> 2 ^ 24"
  shows "Fin 55 \<le> Fin 55 + Fin y * (Fin 310 / Fin c)" "Fin 55 + Fin y * (Fin 310 / Fin c) \<le> Fin 365"
    and "y = 30 \<Longrightarrow> Fin 55 + Fin y * (Fin 310 / Fin c) < Fin 84"
    and "\<exists>v. Fin 55 + Fin y * (Fin 310 / Fin c) = Fin v"
proof -
  define r where "r = rnd_val (310 / c)"
  have r0: "0 \<le> r"
    using c by (simp add: r_def rnd_val_sign)
  have "1 / 2 ^ 100 \<le> 310 / c"
    using c by (simp add: field_simps)
  then have r1: "r \<le> 310 / c * (1 + 1 / 2 ^ 53)"
    unfolding r_def by (rule rnd_val_rel)
  have "310 / c \<le> (15 / 16 :: rat)"
    using c by (simp add: field_simps)
  then have r2: "rnd (310 / c) \<le> Fin (15 / 16)"
    by (rule rnd_le [rotated]) (rule exact_intro [of _ 4], simp_all)
  moreover have "Fin 0 \<le> rnd (310 / c)"
    using c by (intro rnd_ge) (auto intro: exact_intro [of _ 0])
  ultimately have r: "rnd (310 / c) = Fin r" "r \<le> 15 / 16"
    by (cases "rnd (310 / c)"; auto simp: r_def rnd_def Let_def split: if_splits)+
  have "(c - 30) * (1 + 1 / 2 ^ 53) \<le> c"
    using c by (simp add: field_simps)
  then have "y * (1 + 1 / 2 ^ 53) \<le> c"
    using y by (auto intro: order_trans [OF mult_right_mono])
  then have "y * (310 / c * (1 + 1 / 2 ^ 53)) \<le> 310"
    using c by (simp add: field_simps)
  then have yr: "y * r \<le> 310" "0 \<le> y * r"
    using y r0 mult_left_mono [OF r1, of y] by auto
  have "Fin 0 \<le> rnd (y * r)" "rnd (y * r) \<le> Fin 310"
    using yr by (auto intro!: rnd_ge rnd_le exact_intro [of _ 0])
  then obtain v where v: "rnd (y * r) = Fin v" "0 \<le> v" "v \<le> 310"
    by (cases "rnd (y * r)") auto
  have f: "Fin 55 + Fin y * (Fin 310 / Fin c) = rnd (55 + v)"
    using c r v by simp
  show "Fin 55 \<le> Fin 55 + Fin y * (Fin 310 / Fin c)" "Fin 55 + Fin y * (Fin 310 / Fin c) \<le> Fin 365"
    unfolding f using v by (auto intro!: rnd_ge rnd_le exact_intro [of _ 0])
  then show "\<exists>v. Fin 55 + Fin y * (Fin 310 / Fin c) = Fin v"
    by (cases "Fin 55 + Fin y * (Fin 310 / Fin c)") auto
  show "Fin 55 + Fin y * (Fin 310 / Fin c) < Fin 84" if "y = 30"
  proof -
    have "rnd (y * r) \<le> Fin (225 / 8)"
      using r(2) that by (intro rnd_le exact_intro [of _ 3]) auto
    then have "rnd (55 + v) \<le> Fin (665 / 8)"
      using v by (intro rnd_le exact_intro [of _ 3]) auto
    then show ?thesis
      unfolding f by (rule f64_le_less_trans) simp
  qed
qed

lemma clear_legend_ok:
  assumes q: "\<forall>s\<in>set shapes. on_quarters (2 ^ 23) s \<and> 85 \<le> yr s"
  shows "\<forall>s\<in>set (clear_legend shapes). Fin 25 \<le> ns_CY s - half_height s \<and> ns_CY s + half_height s \<le> Fin 395"
proof (cases "shapes = []")
  case False
  have q': "\<forall>s\<in>set shapes. on_quarters (2 ^ 23) s"
    using q by blast
  obtain m where m: "max_bottom shapes = Fin m" "\<forall>s\<in>set shapes. yr s + 30 \<le> m"
      "\<exists>s\<in>set shapes. m = yr s + 30"
    using max_bottom_exact [OF False q'] by auto
  then obtain z where z: "z \<in> set shapes" "m = yr z + 30"
    by blast
  note Z = on_quartersD(4,6) [OF q' [rule_format, OF z(1)]]
  have mc: "quarters (m - 55)" "\<bar>m - 55\<bar> \<le> 2 ^ 24"
    using Z z(2) by auto
  then have c: "Fin m - topClearance = Fin (m - 55)"
    by (simp add: topClearance_def rnd_quarters)
  have edges: "Fin 25 \<le> Fin v - half_height s \<and> Fin v + half_height s \<le> Fin 395"
    if "55 \<le> v" "v \<le> 365" for v s
    using that by (auto intro!: rnd_ge rnd_le exact_intro [of _ 0])
  show ?thesis
  proof (cases "395 < m")
    case True
    then have l: "clear_legend shapes = map (\<lambda>s. s\<lparr>ns_CY := Fin 55 + (ns_CY s - Fin 55) * (Fin 310 / Fin (m - 55))\<rparr>) shapes"
      by (simp add: clear_legend_def m(1) c Let_def) (simp add: legendClearance_def topClearance_def)
    have "Fin 25 \<le> (Fin 55 + (ns_CY s - Fin 55) * (Fin 310 / Fin (m - 55))) - half_height s
        \<and> (Fin 55 + (ns_CY s - Fin 55) * (Fin 310 / Fin (m - 55))) + half_height s \<le> Fin 395"
      if s: "s \<in> set shapes" for s
    proof -
      note S = on_quartersD(2,4,6) [OF q' [rule_format, OF s]]
      have "ns_CY s - Fin 55 = Fin (yr s - 55)"
        unfolding S(1) Fin_ops using S(2,3) by (intro rnd_quarters) auto
      moreover have "30 \<le> yr s - 55" "yr s - 55 \<le> (m - 55) - 30" "340 < m - 55" "m - 55 \<le> 2 ^ 24"
        using q m(2) s True mc(2) by auto
      ultimately show ?thesis
        using scale_bound [of "yr s - 55" "m - 55"] edges by fastforce
    qed
    then show ?thesis
      unfolding l by simp
  next
    case False
    then have "clear_legend shapes = shapes"
      by (simp add: clear_legend_def m(1) legendClearance_def)
    moreover have "Fin 25 \<le> ns_CY s - half_height s \<and> ns_CY s + half_height s \<le> Fin 395"
      if "s \<in> set shapes" for s
      using edges [of "yr s" s] q m(2) False that on_quartersD(2) [OF q' [rule_format, OF that]]
      by fastforce
    ultimately show ?thesis
      by simp
  qed
qed (simp add: clear_legend_def Let_def)

text \<open>Pulling the bottom up also pulls the top up, above the 55 pixels the shift had made room for.\<close>

lemma clear_legend_undoes_top:
  assumes q: "\<forall>s\<in>set shapes. on_quarters (2 ^ 23) s \<and> 85 \<le> yr s"
    and top: "s \<in> set shapes" "ns_CY s = Fin 85" and low: "legendClearance < max_bottom shapes"
  shows "\<exists>s'\<in>set (clear_legend shapes). ns_CY s' - half_height s' < topClearance"
proof -
  have q': "\<forall>s\<in>set shapes. on_quarters (2 ^ 23) s" and ne: "shapes \<noteq> []"
    using q top by auto
  obtain m z where m: "max_bottom shapes = Fin m" "z \<in> set shapes" "m = yr z + 30"
    using max_bottom_exact [OF ne q'] by auto
  have "quarters (m - 55)" "\<bar>m - 55\<bar> \<le> 2 ^ 24" and c: "340 < m - 55" "m - 55 \<le> 2 ^ 24"
    using on_quartersD(4,6) [OF q' [rule_format, OF m(2)]] low m by (auto simp: legendClearance_def)
  then have "Fin m - topClearance = Fin (m - 55)"
    by (simp add: topClearance_def rnd_quarters)
  then have "clear_legend shapes = map (\<lambda>s. s\<lparr>ns_CY := Fin 55 + (ns_CY s - Fin 55) * (Fin 310 / Fin (m - 55))\<rparr>) shapes"
    using low by (simp add: clear_legend_def m(1) Let_def) (simp add: topClearance_def)
  then have mem: "s\<lparr>ns_CY := Fin 55 + Fin 30 * (Fin 310 / Fin (m - 55))\<rparr> \<in> set (clear_legend shapes)"
    using top by (auto simp: image_iff intro!: bexI [of _ s])
  obtain v where v: "Fin 55 + Fin 30 * (Fin 310 / Fin (m - 55)) = Fin v" "v < 84"
    using scale_bound(3,4) [of 30 "m - 55", OF _ _ c] c by force
  have "rnd (v - 30) \<le> Fin 54"
    using v(2) by (intro rnd_le exact_intro [of _ 0]) auto
  then have "Fin v - Fin 30 < topClearance"
    by (simp add: topClearance_def) (rule f64_le_less_trans, assumption, simp)
  with mem v(1) show ?thesis
    by (intro bexI [OF _ mem]) simp
qed

section \<open>Every lab\<close>

lemma lab_sizes: "list_all (\<lambda>e. length (tt_Nodes (snd e)) \<le> 12) topology_switch"
  by code_simp

lemma lab_size: "length (tt_Nodes (TopologyForLab labID)) \<le> 2 ^ 10"
proof -
  have "length (tt_Nodes (TopologyForLab labID)) \<le> 12"
    using lab_sizes by (auto simp: TopologyForLab_def lookupTopologyTemplate_def list_all_iff
        split: option.splits dest!: map_of_SomeD)
  then show ?thesis
    by simp
qed

lemma build_fits:
  assumes "list_all tidy_pos (map snd pos)" "length (tt_Nodes tpl) \<le> 2 ^ 10"
  shows "\<forall>s\<in>set (build_layout tpl pos ue).
     Fin 25 \<le> ns_CY s - half_height s \<and> ns_CY s + half_height s \<le> Fin 395"
proof -
  have "\<forall>s\<in>set (map (start_shape ue pos) (tt_Nodes tpl)). on_quarters (2 ^ 20) s"
    using start_quarters [OF assms(1)] by auto
  from clear_legend_ok [OF clear_top_ok [OF spread_ok(2) [OF _ this]]] assms(2) show ?thesis
    by (simp only: build_layout_def Let_def length_map) simp
qed


text \<open>
  C36: with salvaged positions in whole or half pixels every node of every lab's diagram ends between
  the lines at 25 and 395: above the legend, and within the canvas.
\<close>

theorem layout_fits_canvas:
  assumes "list_all tidy_pos (map snd pos)"
  shows "list_all (\<lambda>s. Fin 25 \<le> ns_CY s - half_height s \<and> ns_CY s + half_height s \<le> Fin 395)
    (fst (layoutLab labID pos))"
  using build_fits [OF assms lab_size [of labID]]
  by (simp add: layoutLab_def layout_template_def Let_def list_all_iff)

definition sample_positions :: "(string, NodePos) gomap" where
  "sample_positions =
     [(''KALI'', \<lparr>np_X = Fin 200, np_Y = Fin 100, np_W = Fin 200, np_H = Fin 46, np_R = Fin 0, np_Shape = ''rect''\<rparr>),
      (''R1'', \<lparr>np_X = Fin 200, np_Y = Fin 14, np_W = Fin 200, np_H = Fin 54, np_R = Fin 0, np_Shape = ''rect''\<rparr>)]"

lemma sample_tidy: "list_all tidy_pos (map snd sample_positions)"
  by (simp add: sample_positions_def tidy_pos_def halves_def)

lemma layout_fits_canvas_witness:
  "list_all (\<lambda>s. Fin 25 \<le> ns_CY s - half_height s \<and> ns_CY s + half_height s \<le> Fin 395)
    (fst (layoutLab 11 sample_positions))"
  by (rule layout_fits_canvas [OF sample_tidy])



section \<open>No node is lost\<close>

lemma by_name_snoc: "by_name (shapes @ [s]) = mput (ns_Name s) s (by_name shapes)"
  by (simp add: by_name_def)

lemma by_name_ok [simp]: "gomap_ok (by_name shapes)"
  by (induction shapes rule: rev_induct) (simp_all add: by_name_snoc, simp add: by_name_def)

lemma by_name_get:
  "distinct (map ns_Name shapes) \<Longrightarrow> s \<in> set shapes \<Longrightarrow> mget (by_name shapes) (ns_Name s) = Some s"
  by (induction shapes rule: rev_induct) (auto simp: by_name_snoc image_iff)

lemma by_name_dom: "fst ` set (by_name shapes) = ns_Name ` set shapes"
proof (induction shapes rule: rev_induct)
  case (snoc s shapes)
  then show ?case
    by (simp add: by_name_snoc dom_update)
qed (simp add: by_name_def)

lemma lab_names_distinct: "distinct (map nt_Name (tt_Nodes (TopologyForLab labID)))"
  using catalog_ok [of labID] by (simp add: TopologyForLab_def template_ok_def node_names_def)

lemma layoutLab_names:
  "map ns_Name (fst (layoutLab labID pos)) = map nt_Name (tt_Nodes (TopologyForLab labID))"
  by (simp add: layoutLab_def Let_def layout_names)

lemma layout_roles: "map ns_Role (layout_template tpl pos) = map roleOf (tt_Nodes tpl)"
  by (simp add: layout_template_def Let_def build_roles)

lemma layoutLab_get:
  assumes "n \<in> set (map nt_Name (tt_Nodes (TopologyForLab labID)))"
  shows "\<exists>s. s \<in> set (fst (layoutLab labID pos)) \<and> ns_Name s = n \<and> mget (snd (layoutLab labID pos)) n = Some s"
proof -
  from assms obtain s where "s \<in> set (fst (layoutLab labID pos))" "ns_Name s = n"
    unfolding layoutLab_names [of labID pos, symmetric] by auto
  moreover have "distinct (map ns_Name (fst (layoutLab labID pos)))"
    by (simp add: layoutLab_names lab_names_distinct)
  ultimately show ?thesis
    using by_name_get [of "fst (layoutLab labID pos)" s] by (auto simp: layoutLab_def Let_def)
qed

text \<open>
  The layout of a lab has exactly one shape per template node, in the order of the template and
  with the role of the node, whatever positions were salvaged.
\<close>

theorem layout_complete:
  "map ns_Name (fst (layoutLab labID pos)) = map nt_Name (tt_Nodes (TopologyForLab labID))
   \<and> map ns_Role (fst (layoutLab labID pos)) = map roleOf (tt_Nodes (TopologyForLab labID))
   \<and> distinct (map ns_Name (fst (layoutLab labID pos)))"
  by (simp add: layoutLab_names lab_names_distinct) (simp add: layoutLab_def Let_def layout_roles)

text \<open>
  Whether the salvaged layout is kept does not depend on the order in which the map of shapes
  yields its keys.
\<close>

theorem layout_choice_any_order:
  assumes "mset names = mset (map fst (by_name shapes))"
  shows "valid_in_order (by_name shapes) names = layoutValid (by_name shapes)"
proof (rule valid_any_order [OF by_name_ok])
  show "distinct names"
    using assms by_name_ok [of shapes] by (metis gomap_ok_def mset_eq_imp_distinct_iff)
  show "set names = fst ` set (by_name shapes)"
    using assms by (metis mset_eq_setD set_map)
qed

lemma layout_choice_any_order_witness:
  "valid_in_order (by_name (build_layout (TopologyForLab 11) sample_positions True))
     (rev (map fst (by_name (build_layout (TopologyForLab 11) sample_positions True))))
   = layoutValid (by_name (build_layout (TopologyForLab 11) sample_positions True))"
  by (rule layout_choice_any_order) simp

end
