(* ===== verification/TopoChips.thy ===== *)
theory TopoChips
  imports TopoBounds
begin

text \<open>
  \<open>tools/topogen/render.go\<close>, the port chips: where links leave a node, the angles of a node's
  chips, and the passes that move chips off each other and out of boxes.
\<close>

section \<open>Links\<close>

definition edgePoint :: "libm \<Rightarrow> nodeShape \<Rightarrow> nodeShape \<Rightarrow> f64 \<times> f64" where
  "edgePoint lm a b =
     (let dx = ns_CX b - ns_CX a; dy = ns_CY b - ns_CY a
      in if feq dx (Fin 0) \<and> feq dy (Fin 0) then (ns_CX a, ns_CY a)
         else if ns_IsHost a then
           (let len = lm_Hypot lm dx dy
            in (ns_CX a + dx / len * hostR, ns_CY a + dy / len * hostR))
         else
           (let tx = (if \<not> feq dx (Fin 0) then \<bar>Fin 70 / dx\<bar> else PInf);
                ty = (if \<not> feq dy (Fin 0) then \<bar>Fin 30 / dy\<bar> else PInf);
                t = (if ty < tx then ty else tx)
            in (ns_CX a + dx * t, ns_CY a + dy * t)))"

definition pairKey :: "string \<Rightarrow> string \<Rightarrow> string" where
  "pairKey a b = (if a < b then a @ ''|'' @ b else b @ ''|'' @ a)"

definition lr_arrow :: string where "lr_arrow = [CHR 0xE2, CHR 0x86, CHR 0x94]"

definition link_key :: "LinkTemplate \<Rightarrow> string" where
  "link_key l = lt_NodeA l @ '':'' @ lt_IfaceA l @ lr_arrow @ lt_NodeB l @ '':'' @ lt_IfaceB l"

definition pair_of :: "LinkTemplate \<Rightarrow> string" where
  "pair_of l = pairKey (lt_NodeA l) (lt_NodeB l)"

definition parallel_step ::
  "(string, int) gomap \<Rightarrow> (string, int) gomap \<times> (string, f64) gomap \<Rightarrow> LinkTemplate
     \<Rightarrow> (string, int) gomap \<times> (string, f64) gomap" where
  "parallel_step pairs st l =
     (case st of (pairIdx, offsets) \<Rightarrow>
        let key = pair_of l; n = mget0 0 pairs key; i = mget0 0 pairIdx key
        in (mput key (i + 1) pairIdx,
            mput (link_key l)
              (if n \<le> 1 then Fin 0
               else (float_of_int i - float_of_int (n - 1) / Fin 2) * Fin 18) offsets))"

definition parallelOffsets :: "TopologyTemplate \<Rightarrow> (string, f64) gomap" where
  "parallelOffsets tpl =
     (let pairs = foldl (\<lambda>m l. mput (pair_of l) (mget0 0 m (pair_of l) + 1) m) [] (tt_Links tpl)
      in snd (foldl (parallel_step pairs) ([], []) (tt_Links tpl)))"

section \<open>Scheduling the chips of a node\<close>

record chipSpec =
  cs_NodeName :: string
  cs_Iface :: string
  cs_Other :: nodeShape
  cs_ParallelOff :: f64
  cs_PerpSign :: f64

record placedChip =
  pc_Spec :: chipSpec
  pc_CX :: f64
  pc_CY :: f64
  pc_AnchorX :: f64
  pc_AnchorY :: f64

definition chip_angle :: "libm \<Rightarrow> nodeShape \<Rightarrow> chipSpec \<Rightarrow> f64" where
  "chip_angle lm owner c =
     lm_Atan2 lm (ns_CY (cs_Other c) - ns_CY owner) (ns_CX (cs_Other c) - ns_CX owner) * Fin 180 / f_pi"

definition min_sep :: "nodeShape \<Rightarrow> f64" where
  "min_sep owner =
     (let radius = (if ns_IsHost owner then Fin 54 else Fin 94);
          m = Fin 42 / radius * Fin 180 / f_pi
      in if m > Fin 45 then Fin 45 else m)"

definition angle_order :: "f64 list \<Rightarrow> nat list" where
  "angle_order angles = sort_slice (\<lambda>i j. angles ! i < angles ! j) [0..<length angles]"

definition separate_step :: "f64 \<Rightarrow> f64 list \<Rightarrow> f64 list \<times> f64 \<Rightarrow> nat \<Rightarrow> f64 list \<times> f64" where
  "separate_step minSep angles st idx =
     (case st of (adj, prev) \<Rightarrow>
        let a = (if angles ! idx < prev + minSep then prev + minSep else angles ! idx)
        in (adj[idx := a], a))"

definition separate :: "f64 \<Rightarrow> f64 list \<Rightarrow> f64 list" where
  "separate minSep angles =
     fst (foldl (separate_step minSep angles) (replicate (length angles) (Fin 0), NInf) (angle_order angles))"

definition wrap_angles :: "f64 \<Rightarrow> nat list \<Rightarrow> f64 list \<Rightarrow> f64 list" where
  "wrap_angles minSep order adj =
     (if length adj > 1 then
        (let first = adj ! hd order; final = adj ! last order
         in if final - first > Fin 360 - minSep
            then let shift = (first + Fin 360 - final + minSep) / Fin 2 in map (\<lambda>a. a - shift) adj
            else adj)
      else adj)"

definition scheduleChips :: "libm \<Rightarrow> nodeShape \<Rightarrow> chipSpec list \<Rightarrow> f64 list" where
  "scheduleChips lm owner chips =
     (let angles = map (chip_angle lm owner) chips
      in wrap_angles (min_sep owner) (angle_order angles) (separate (min_sep owner) angles))"

definition chipPosition :: "libm \<Rightarrow> nodeShape \<Rightarrow> nodeShape \<Rightarrow> f64 \<Rightarrow> f64 \<Rightarrow> f64 \<Rightarrow> f64 \<times> f64" where
  "chipPosition lm owner other angleDeg parallelOff perpSign =
     (let rad = angleDeg * f_pi / Fin 180;
          rotX = lm_Cos lm rad; rotY = lm_Sin lm rad;
          perpX = - rotY; perpY = rotX
      in case edgePoint lm owner other of (ex, ey) \<Rightarrow>
           (ex + rotX * Fin 24 + perpX * perpSign * Fin 7 + perpX * parallelOff,
            ey + rotY * Fin 24 + perpY * perpSign * Fin 7 + perpY * parallelOff))"

section \<open>Relaxation\<close>

definition chipW :: f64 where "chipW = Fin 42"
definition chipH :: f64 where "chipH = Fin 18"

definition move_by :: "placedChip \<Rightarrow> f64 \<Rightarrow> f64 \<Rightarrow> placedChip" where
  "move_by c x y = c\<lparr>pc_CX := pc_CX c + x, pc_CY := pc_CY c + y\<rparr>"

definition relax_pair :: "libm \<Rightarrow> placedChip list \<times> bool \<Rightarrow> nat \<times> nat \<Rightarrow> placedChip list \<times> bool" where
  "relax_pair lm st ij =
     (case st of (chips, moved) \<Rightarrow> case ij of (i, j) \<Rightarrow>
        let a = chips ! i; b = chips ! j;
            dx = pc_CX b - pc_CX a; dy = pc_CY b - pc_CY a
        in if \<bar>dx\<bar> \<ge> chipW \<or> \<bar>dy\<bar> \<ge> chipH then st
           else
             (let (dx', dy') = (if feq dx (Fin 0) \<and> feq dy (Fin 0) then (Fin 1, Fin 0) else (dx, dy));
                  len = lm_Hypot lm dx' dy';
                  ux = dx' / len; uy = dy' / len;
                  half = (math_max (chipW - \<bar>dx'\<bar>) (chipH - \<bar>dy'\<bar>) + Fin 2) / Fin 2
              in (chips[i := a\<lparr>pc_CX := pc_CX a - ux * half, pc_CY := pc_CY a - uy * half\<rparr>,
                        j := move_by b (ux * half) (uy * half)], True)))"

definition chip_pairs :: "nat \<Rightarrow> (nat \<times> nat) list" where
  "chip_pairs n = concat (map (\<lambda>i. map (\<lambda>j. (i, j)) [i + 1..<n]) [0..<n])"

definition pull_back :: "placedChip \<Rightarrow> placedChip" where
  "pull_back c = move_by c ((pc_AnchorX c - pc_CX c) * rnd (1 / 5)) ((pc_AnchorY c - pc_CY c) * rnd (1 / 5))"

fun relax_rounds :: "nat \<Rightarrow> libm \<Rightarrow> placedChip list \<Rightarrow> placedChip list" where
  "relax_rounds 0 lm chips = chips"
| "relax_rounds (Suc k) lm chips =
     (case foldl (relax_pair lm) (chips, False) (chip_pairs (length chips)) of
        (chips', moved) \<Rightarrow> if moved then relax_rounds k lm (map pull_back chips') else chips')"

definition relaxChips :: "libm \<Rightarrow> placedChip list \<Rightarrow> placedChip list" where
  "relaxChips lm chips = relax_rounds 8 lm chips"

section \<open>Overrides\<close>

definition chipOverrides :: "(int \<times> (string, f64 \<times> f64) gomap) list" where
  "chipOverrides =
     [(9, [(''SW1:Et0/1'', (Fin 0, Fin 8))]),
      (25, [(''SW1:Et0/0'', (Fin 0, Fin (- 8))), (''SW2:Et0/0'', (Fin 0, Fin 8)),
            (''SW2:Et0/1'', (Fin (- 8), Fin 8)), (''SW3:Et0/0'', (Fin 8, Fin 8))])]"

definition override_chip :: "(string, f64 \<times> f64) gomap \<Rightarrow> placedChip \<Rightarrow> placedChip" where
  "override_chip ov c =
     (case mget ov (cs_NodeName (pc_Spec c) @ '':'' @ cs_Iface (pc_Spec c)) of
        None \<Rightarrow> c | Some d \<Rightarrow> move_by c (fst d) (snd d))"

definition applyChipOverrides :: "int \<Rightarrow> placedChip list \<Rightarrow> placedChip list" where
  "applyChipOverrides labID placed =
     (case map_of chipOverrides labID of None \<Rightarrow> placed | Some ov \<Rightarrow> map (override_chip ov) placed)"

section \<open>Boxes and chips in the way\<close>

definition minF :: "f64 \<Rightarrow> f64 \<Rightarrow> f64" where "minF a b = (if a < b then a else b)"
definition maxF :: "f64 \<Rightarrow> f64 \<Rightarrow> f64" where "maxF a b = (if a > b then a else b)"
definition absF :: "f64 \<Rightarrow> f64" where "absF a = (if a < Fin 0 then - a else a)"

text \<open>How far the rectangle from \<open>(x1, y1)\<close> to \<open>(x2, y2)\<close> pokes into a node, against \<open>eps\<close>.\<close>

definition pokes :: "f64 \<Rightarrow> f64 \<Rightarrow> f64 \<Rightarrow> f64 \<Rightarrow> nodeShape \<Rightarrow> f64 \<Rightarrow> bool" where
  "pokes x1 y1 x2 y2 s eps =
     (if ns_IsHost s then
        (let clx = maxF x1 (minF (ns_CX s) x2); cly = maxF y1 (minF (ns_CY s) y2);
             d2 = (ns_CX s - clx) * (ns_CX s - clx) + (ns_CY s - cly) * (ns_CY s - cly)
         in d2 < (hostR - eps) * (hostR - eps))
      else
        (let ox = minF x2 (ns_CX s + Fin 70) - maxF x1 (ns_CX s - Fin 70);
             oy = minF y2 (ns_CY s + Fin 30) - maxF y1 (ns_CY s - Fin 30)
         in ox > eps \<and> oy > eps))"

definition chipBoxHit :: "f64 \<Rightarrow> f64 \<Rightarrow> string \<Rightarrow> (string, nodeShape) gomap \<Rightarrow> bool" where
  "chipBoxHit cx cy ownerName byName =
     list_ex (\<lambda>e. pokes (cx - Fin 21) (cy - Fin 9) (cx + Fin 21) (cy + Fin 9) (snd e)
       (if fst e = ownerName then Fin 6 else Fin 2)) byName"

definition ownBoxHit :: "f64 \<Rightarrow> f64 \<Rightarrow> string \<Rightarrow> (string, nodeShape) gomap \<Rightarrow> bool" where
  "ownBoxHit cx cy ownerName byName =
     (case mget byName ownerName of
        None \<Rightarrow> False
      | Some s \<Rightarrow>
          pokes (math_round cx - Fin 21) (math_round cy - Fin 9)
            (math_round cx + Fin 21) (math_round cy + Fin 9) s (Fin 6))"

definition chips_hit :: "f64 \<Rightarrow> f64 \<Rightarrow> placedChip \<Rightarrow> bool" where
  "chips_hit cx cy c = (absF (pc_CX c - cx) < Fin 42 \<and> absF (pc_CY c - cy) < Fin 18)"

definition chipChipHit :: "f64 \<Rightarrow> f64 \<Rightarrow> placedChip list \<Rightarrow> nat \<Rightarrow> bool" where
  "chipChipHit cx cy placed skipIdx =
     list_ex (\<lambda>j. j \<noteq> skipIdx \<and> chips_hit cx cy (placed ! j)) [0..<length placed]"

definition distToLink :: "libm \<Rightarrow> f64 \<Rightarrow> f64 \<Rightarrow> f64 \<Rightarrow> f64 \<Rightarrow> f64 \<Rightarrow> f64 \<Rightarrow> f64" where
  "distToLink lm px py ax ay bx by =
     (let dx = bx - ax; dy = by - ay; l2 = dx * dx + dy * dy
      in if feq l2 (Fin 0) then lm_Hypot lm (px - ax) (py - ay)
         else
           (let t = math_max (Fin 0) (math_min (Fin 1) (((px - ax) * dx + (py - ay) * dy) / l2));
                cx = ax + t * dx; cy = ay + t * dy
            in lm_Hypot lm (px - cx) (py - cy)))"

text \<open>
  What both passes ask of a new position: clear of all boxes, on the canvas, below the header,
  above the legend, near its owner, and off the other chips.
\<close>

definition position_ok ::
  "libm \<Rightarrow> (string, nodeShape) gomap \<Rightarrow> placedChip list \<Rightarrow> nat \<Rightarrow> nodeShape \<Rightarrow> f64 \<Rightarrow> f64 \<Rightarrow> bool" where
  "position_ok lm byName placed i owner x y =
     (\<not> chipBoxHit x y (cs_NodeName (pc_Spec (placed ! i))) byName
      \<and> \<not> (x - Fin 21 < Fin 0 \<or> x + Fin 21 > viewW \<or> y - Fin 9 < Fin 0 \<or> y + Fin 9 > viewH)
      \<and> \<not> y - Fin 9 < Fin 40
      \<and> \<not> y + Fin 9 > Fin 405
      \<and> \<not> lm_Hypot lm (x - ns_CX owner) (y - ns_CY owner) > Fin 120
      \<and> \<not> chipChipHit x y placed i)"

section \<open>\<open>flipChips\<close>\<close>

definition slide_steps :: "f64 list" where
  "slide_steps = filter (\<lambda>d. \<not> d > Fin 120) (map (\<lambda>step. Fin 24 + float_of_int step * Fin 8) [0..12])"

definition flip_candidates :: "libm \<Rightarrow> nodeShape \<Rightarrow> nodeShape \<Rightarrow> placedChip \<Rightarrow> (f64 \<times> f64) list" where
  "flip_candidates lm owner other pc =
     (let cdx = pc_CX pc - ns_CX owner; cdy = pc_CY pc - ns_CY owner;
          dx = ns_CX other - ns_CX owner; dy = ns_CY other - ns_CY owner;
          lenLink = lm_Hypot lm dx dy
      in [(ns_CX owner - cdx, ns_CY owner - cdy), (ns_CX owner - cdy, ns_CY owner + cdx),
          (ns_CX owner + cdy, ns_CY owner - cdx), (pc_AnchorX pc, pc_AnchorY pc)]
         @ (if lenLink > Fin 0
            then let ux = dx / lenLink; uy = dy / lenLink
                 in map (\<lambda>d. (ns_CX owner + ux * d, ns_CY owner + uy * d)) slide_steps
            else []))"

definition flip_score :: "libm \<Rightarrow> nodeShape \<Rightarrow> nodeShape \<Rightarrow> f64 \<times> f64 \<Rightarrow> f64" where
  "flip_score lm owner other c =
     distToLink lm (fst c) (snd c) (ns_CX owner) (ns_CY owner) (ns_CX other) (ns_CY other)
     + lm_Hypot lm (fst c - ns_CX owner) (snd c - ns_CY owner) * rnd (1 / 10)"

definition cand_step ::
  "(f64 \<times> f64 \<Rightarrow> bool) \<Rightarrow> (f64 \<times> f64 \<Rightarrow> f64) \<Rightarrow> (f64 \<times> f64) option \<times> f64 \<Rightarrow> f64 \<times> f64
     \<Rightarrow> (f64 \<times> f64) option \<times> f64" where
  "cand_step ok value st c = (if ok c \<and> value c < snd st then (Some c, value c) else st)"

definition best_candidate ::
  "(f64 \<times> f64 \<Rightarrow> bool) \<Rightarrow> (f64 \<times> f64 \<Rightarrow> f64) \<Rightarrow> (f64 \<times> f64) list \<Rightarrow> (f64 \<times> f64) option" where
  "best_candidate ok value cands = fst (foldl (cand_step ok value) (None, PInf) cands)"

definition flip_chip :: "libm \<Rightarrow> (string, nodeShape) gomap \<Rightarrow> placedChip list \<Rightarrow> nat \<Rightarrow> placedChip list" where
  "flip_chip lm byName placed i =
     (let pc = placed ! i
      in case mget byName (cs_NodeName (pc_Spec pc)) of
           None \<Rightarrow> placed
         | Some owner \<Rightarrow>
             if \<not> chipBoxHit (pc_CX pc) (pc_CY pc) (cs_NodeName (pc_Spec pc)) byName then placed
             else
               (let other = (case mget byName (ns_Name (cs_Other (pc_Spec pc))) of
                      None \<Rightarrow> cs_Other (pc_Spec pc) | Some z \<Rightarrow> z)
                in case best_candidate (\<lambda>c. position_ok lm byName placed i owner (fst c) (snd c))
                       (flip_score lm owner other) (flip_candidates lm owner other pc) of
                     None \<Rightarrow> placed
                   | Some c \<Rightarrow> placed[i := pc\<lparr>pc_CX := fst c, pc_CY := snd c\<rparr>]))"

definition flipChips :: "libm \<Rightarrow> placedChip list \<Rightarrow> (string, nodeShape) gomap \<Rightarrow> placedChip list" where
  "flipChips lm placed byName = foldl (flip_chip lm byName) placed [0..<length placed]"

section \<open>\<open>unshoveChips\<close>\<close>

text \<open>
  The walk outwards, with a bound on the number of steps: \<open>None\<close> is a walk that has not ended.
  From a distance that is not negative 61 steps reach past 120.
\<close>

fun walk :: "nat \<Rightarrow> (f64 \<Rightarrow> f64 \<times> f64) \<Rightarrow> (f64 \<times> f64 \<Rightarrow> bool) \<Rightarrow> f64 \<Rightarrow> (f64 \<times> f64) option option" where
  "walk 0 point ok d = None"
| "walk (Suc fuel) point ok d =
     (if d \<le> Fin 120
      then if ok (point d) then Some (Some (point d)) else walk fuel point ok (d + Fin 2)
      else Some None)"

definition unshove_chip ::
  "libm \<Rightarrow> (string, nodeShape) gomap \<Rightarrow> placedChip list \<Rightarrow> nat \<Rightarrow> placedChip list option" where
  "unshove_chip lm byName placed i =
     (let pc = placed ! i
      in if \<not> ownBoxHit (pc_CX pc) (pc_CY pc) (cs_NodeName (pc_Spec pc)) byName then Some placed
         else case mget byName (cs_NodeName (pc_Spec pc)) of
           None \<Rightarrow> Some placed
         | Some owner \<Rightarrow>
             (let dx0 = pc_CX pc - ns_CX owner; dy0 = pc_CY pc - ns_CY owner;
                  len0 = lm_Hypot lm dx0 dy0;
                  (dx, dy, rayLen) = (if feq len0 (Fin 0) then (Fin 0, Fin (- 1), Fin 1) else (dx0, dy0, len0));
                  ux = dx / rayLen; uy = dy / rayLen
              in case walk 62 (\<lambda>d. (ns_CX owner + ux * d, ns_CY owner + uy * d))
                     (\<lambda>c. position_ok lm byName placed i owner (fst c) (snd c)) (rayLen + Fin 2) of
                   None \<Rightarrow> None
                 | Some None \<Rightarrow> Some placed
                 | Some (Some c) \<Rightarrow> Some (placed[i := pc\<lparr>pc_CX := fst c, pc_CY := snd c\<rparr>])))"

definition unshoveChips :: "libm \<Rightarrow> placedChip list \<Rightarrow> (string, nodeShape) gomap \<Rightarrow> placedChip list option" where
  "unshoveChips lm placed byName =
     foldl (\<lambda>st i. case st of None \<Rightarrow> None | Some p \<Rightarrow> unshove_chip lm byName p i)
       (Some placed) [0..<length placed]"

section \<open>All chips of a diagram\<close>

text \<open>\<open>chipsByNode\<close>: the chips of both ends of every link whose ends have shapes, in link order.\<close>

definition link_chips :: "(string, nodeShape) gomap \<Rightarrow> (string, f64) gomap \<Rightarrow> LinkTemplate \<Rightarrow> chipSpec list" where
  "link_chips byName parallel l =
     (case (mget byName (lt_NodeA l), mget byName (lt_NodeB l)) of
        (Some a, Some b) \<Rightarrow>
          (let off = mget0 (Fin 0) parallel (link_key l)
           in [\<lparr>cs_NodeName = lt_NodeA l, cs_Iface = lt_IfaceA l, cs_Other = b, cs_ParallelOff = off,
                cs_PerpSign = Fin 1\<rparr>,
               \<lparr>cs_NodeName = lt_NodeB l, cs_Iface = lt_IfaceB l, cs_Other = a, cs_ParallelOff = off,
                cs_PerpSign = Fin (- 1)\<rparr>])
      | _ \<Rightarrow> [])"

definition chips_of :: "(string, nodeShape) gomap \<Rightarrow> TopologyTemplate \<Rightarrow> string \<Rightarrow> chipSpec list" where
  "chips_of byName tpl name =
     filter (\<lambda>c. cs_NodeName c = name) (concat (map (link_chips byName (parallelOffsets tpl)) (tt_Links tpl)))"

definition place_chips :: "libm \<Rightarrow> nodeShape \<Rightarrow> chipSpec list \<Rightarrow> placedChip list" where
  "place_chips lm s specs =
     map (\<lambda>(c, angle).
       case chipPosition lm s (cs_Other c) angle (cs_ParallelOff c) (cs_PerpSign c) of
         (x, y) \<Rightarrow> \<lparr>pc_Spec = c, pc_CX = x, pc_CY = y, pc_AnchorX = x, pc_AnchorY = y\<rparr>)
       (zip specs (scheduleChips lm s specs))"

definition initial_chips :: "libm \<Rightarrow> TopologyTemplate \<Rightarrow> nodeShape list \<Rightarrow> (string, nodeShape) gomap \<Rightarrow> placedChip list" where
  "initial_chips lm tpl shapes byName =
     concat (map (\<lambda>s. place_chips lm s (chips_of byName tpl (ns_Name s))) shapes)"

definition final_chips ::
  "libm \<Rightarrow> int \<Rightarrow> TopologyTemplate \<Rightarrow> nodeShape list \<Rightarrow> (string, nodeShape) gomap \<Rightarrow> placedChip list option" where
  "final_chips lm labID tpl shapes byName =
     unshoveChips lm
       (applyChipOverrides labID (flipChips lm (relaxChips lm (initial_chips lm tpl shapes byName)) byName))
       byName"

end
