(* ===== verification/TopoChipSafety.thy ===== *)
theory TopoChipSafety
  imports TopoChips
begin

text \<open>
  The passes over the port chips of \<open>tools/topogen/render.go\<close>: where a moved chip may end, that the walk
  of \<open>unshoveChips\<close> terminates, what is left alone, and how far scheduled angles are apart.
\<close>

section \<open>A moved chip ends in a clear spot\<close>

definition hit :: "placedChip \<Rightarrow> placedChip \<Rightarrow> bool" where
  "hit a b = chips_hit (pc_CX a) (pc_CY a) b"

lemma absF_neg: "absF (- x) = absF (x :: f64)"
  by (cases x) (auto simp: absF_def uminus_f64_def)

lemma hit_sym: "hit a b = hit b a"
  unfolding hit_def chips_hit_def
  by (subst fsub_swap [of "pc_CX b"], subst fsub_swap [of "pc_CY b"]) (simp add: absF_neg)

text \<open>Clear of all boxes, on the canvas, below the header, above the legend, near its owner.\<close>

definition clear_spot :: "libm \<Rightarrow> (string, nodeShape) gomap \<Rightarrow> placedChip \<Rightarrow> bool" where
  "clear_spot lm byName c \<longleftrightarrow>
     (\<exists>owner. mget byName (cs_NodeName (pc_Spec c)) = Some owner
        \<and> position_ok lm byName [c] 0 owner (pc_CX c) (pc_CY c))"

definition kept_or_cleared ::
  "(placedChip \<Rightarrow> bool) \<Rightarrow> libm \<Rightarrow> (string, nodeShape) gomap \<Rightarrow> placedChip \<Rightarrow> placedChip \<Rightarrow> bool" where
  "kept_or_cleared trigger lm byName c c' \<longleftrightarrow>
     c' = c \<or> trigger c \<and> pc_Spec c' = pc_Spec c \<and> clear_spot lm byName c'"

definition no_new_hits :: "placedChip list \<Rightarrow> placedChip list \<Rightarrow> bool" where
  "no_new_hits p p' \<longleftrightarrow>
     (\<forall>i<length p. \<forall>j<length p. i \<noteq> j \<longrightarrow> \<not> hit (p ! i) (p ! j) \<longrightarrow> \<not> hit (p' ! i) (p' ! j))"

definition box_hit :: "(string, nodeShape) gomap \<Rightarrow> placedChip \<Rightarrow> bool" where
  "box_hit byName c = chipBoxHit (pc_CX c) (pc_CY c) (cs_NodeName (pc_Spec c)) byName"

definition own_hit :: "(string, nodeShape) gomap \<Rightarrow> placedChip \<Rightarrow> bool" where
  "own_hit byName c = ownBoxHit (pc_CX c) (pc_CY c) (cs_NodeName (pc_Spec c)) byName"

lemma no_new_hits_refl [simp]: "no_new_hits p p"
  by (simp add: no_new_hits_def)

lemma no_new_hits_trans: "length q = length p \<Longrightarrow> no_new_hits p q \<Longrightarrow> no_new_hits q r \<Longrightarrow> no_new_hits p r"
  by (simp add: no_new_hits_def)

text \<open>One chip moved to a spot that \<open>position_ok\<close> accepts.\<close>

lemma move_safe:
  assumes i: "i < length placed" and owner: "mget byName (cs_NodeName (pc_Spec (placed ! i))) = Some owner"
    and ok: "position_ok lm byName placed i owner x y"
  defines "c \<equiv> (placed ! i)\<lparr>pc_CX := x, pc_CY := y\<rparr>"
  shows "clear_spot lm byName c" "no_new_hits placed (placed[i := c])"
proof -
  show "clear_spot lm byName c"
    using owner ok by (auto simp: clear_spot_def position_ok_def c_def chipChipHit_def)
  have free: "\<not> hit c (placed ! j)" if "j < length placed" "j \<noteq> i" for j
    using ok that by (auto simp: position_ok_def chipChipHit_def list_ex_iff hit_def c_def)
  show "no_new_hits placed (placed[i := c])"
    unfolding no_new_hits_def using free hit_sym i by (auto simp: nth_list_update)
qed

lemma best_candidate_ok:
  assumes "best_candidate ok value cands = Some c"
  shows "ok c"
proof -
  have "pred_option ok (fst (foldl (cand_step ok value) (None, PInf) cands))"
    by (rule foldl_keeps [where P = "\<lambda>st. pred_option ok (fst st)"]) (simp_all add: cand_step_def)
  with assms show ?thesis
    by (simp add: best_candidate_def)
qed

text \<open>A pass over the chips that moves each at most once.\<close>

definition safe_step ::
  "(placedChip \<Rightarrow> bool) \<Rightarrow> libm \<Rightarrow> (string, nodeShape) gomap \<Rightarrow> nat \<Rightarrow> placedChip list \<Rightarrow> placedChip list \<Rightarrow> bool" where
  "safe_step trigger lm byName i p p' \<longleftrightarrow>
     p' = p \<or> (\<exists>c. p' = p[i := c] \<and> i < length p \<and> trigger (p ! i) \<and> pc_Spec c = pc_Spec (p ! i)
       \<and> clear_spot lm byName c \<and> no_new_hits p p')"

lemma safe_step_length: "safe_step t lm byName i p p' \<Longrightarrow> length p' = length p"
  by (auto simp: safe_step_def)

definition safe_pass ::
  "(placedChip \<Rightarrow> bool) \<Rightarrow> libm \<Rightarrow> (string, nodeShape) gomap \<Rightarrow> placedChip list \<Rightarrow> placedChip list \<Rightarrow> bool" where
  "safe_pass trigger lm byName p p' \<longleftrightarrow>
     list_all2 (kept_or_cleared trigger lm byName) p p' \<and> no_new_hits p p'"

lemma safe_pass_refl [simp]: "safe_pass t lm byName p p"
  by (simp add: safe_pass_def list_all2_refl kept_or_cleared_def)

text \<open>Steps at different places compose: the later chips are still where they were.\<close>

definition untouched_from :: "nat \<Rightarrow> placedChip list \<Rightarrow> placedChip list \<Rightarrow> bool" where
  "untouched_from i p p' \<longleftrightarrow> length p' = length p \<and> (\<forall>j\<ge>i. j < length p \<longrightarrow> p' ! j = p ! j)"

lemma safe_pass_step:
  assumes "safe_pass t lm byName p q" "untouched_from i p q" "safe_step t lm byName i q r"
  shows "safe_pass t lm byName p r \<and> untouched_from (Suc i) p r"
proof (cases "r = q")
  case True
  then show ?thesis
    using assms by (simp add: untouched_from_def)
next
  case False
  with assms(3) obtain c where c: "r = q[i := c]" "i < length q" "t (q ! i)" "pc_Spec c = pc_Spec (q ! i)"
      "clear_spot lm byName c" "no_new_hits q r"
    by (auto simp: safe_step_def)
  have qi: "q ! i = p ! i" and len: "length q = length p"
    using assms(2) c(2) by (auto simp: untouched_from_def)
  have "list_all2 (kept_or_cleared t lm byName) p r"
    unfolding list_all2_conv_all_nth
  proof (intro conjI allI impI)
    fix j
    assume "j < length p"
    then show "kept_or_cleared t lm byName (p ! j) (r ! j)"
      using assms(1) c qi len
      by (cases "j = i") (auto simp: safe_pass_def kept_or_cleared_def list_all2_conv_all_nth)
  qed (simp add: c(1) len)
  moreover have "no_new_hits p r"
    using no_new_hits_trans [OF len _ c(6)] assms(1) by (simp add: safe_pass_def)
  moreover have "untouched_from (Suc i) p r"
    using assms(2) by (auto simp: untouched_from_def c(1))
  ultimately show ?thesis
    by (simp add: safe_pass_def)
qed

lemma flip_chip_safe:
  assumes "i < length placed"
  shows "safe_step (box_hit byName) lm byName i placed (flip_chip lm byName placed i)"
proof (cases "flip_chip lm byName placed i = placed")
  case False
  let ?pc = "placed ! i"
  obtain owner where o: "mget byName (cs_NodeName (pc_Spec ?pc)) = Some owner"
    using False by (cases "mget byName (cs_NodeName (pc_Spec ?pc))") (auto simp: flip_chip_def Let_def)
  have b: "box_hit byName ?pc"
    by (rule ccontr) (use False o in \<open>simp add: flip_chip_def Let_def box_hit_def\<close>)
  define other where "other = (case mget byName (ns_Name (cs_Other (pc_Spec ?pc))) of
      None \<Rightarrow> cs_Other (pc_Spec ?pc) | Some z \<Rightarrow> z)"
  define best where "best = best_candidate (\<lambda>c. position_ok lm byName placed i owner (fst c) (snd c))
      (flip_score lm owner other) (flip_candidates lm owner other ?pc)"
  have f: "flip_chip lm byName placed i =
     (case best of None \<Rightarrow> placed | Some c \<Rightarrow> placed[i := ?pc\<lparr>pc_CX := fst c, pc_CY := snd c\<rparr>])"
    using o b by (simp add: flip_chip_def Let_def box_hit_def other_def [symmetric] best_def [symmetric])
  with False obtain c where c: "best = Some c"
    by (cases best) auto
  then have "position_ok lm byName placed i owner (fst c) (snd c)"
    using best_candidate_ok unfolding best_def by fastforce
  from move_safe [OF assms o this] show ?thesis
    unfolding safe_step_def using assms b f c
    by (intro disjI2 exI [of _ "?pc\<lparr>pc_CX := fst c, pc_CY := snd c\<rparr>"]) auto
qed (simp add: safe_step_def)

lemma flip_safe: "safe_pass (box_hit byName) lm byName placed (flipChips lm placed byName)"
proof -
  have "safe_pass (box_hit byName) lm byName placed (foldl (flip_chip lm byName) placed [0..<n])
    \<and> untouched_from n placed (foldl (flip_chip lm byName) placed [0..<n])" if "n \<le> length placed" for n
    using that
  proof (induction n)
    case 0
    show ?case
      by (simp add: untouched_from_def)
  next
    case (Suc n)
    let ?q = "foldl (flip_chip lm byName) placed [0..<n]"
    have ih: "safe_pass (box_hit byName) lm byName placed ?q" "untouched_from n placed ?q"
      using Suc by auto
    then have "n < length ?q"
      using Suc.prems by (simp add: untouched_from_def)
    from safe_pass_step [OF ih flip_chip_safe [OF this]] show ?case
      by simp
  qed
  from this [of "length placed"] show ?thesis
    by (simp add: flipChips_def)
qed

section \<open>The walk ends\<close>

lemma walk_ok: "walk fuel point ok d = Some (Some c) \<Longrightarrow> ok c"
  by (induction fuel arbitrary: d) (auto split: if_splits)

lemma walk_ends:
  assumes "Fin (of_nat (2 * k)) \<le> d \<or> d = NaN" "60 < k + fuel" "k \<le> 61"
  shows "walk (Suc fuel) point ok d \<noteq> None"
  using assms
proof (induction fuel arbitrary: k d)
  case 0
  then have "61 \<le> k"
    by simp
  then have "(of_nat 122 :: rat) \<le> of_nat (2 * k)"
    by (simp only: of_nat_le_iff)
  then have "\<not> d \<le> Fin 120"
    using "0.prems"(1) by (cases d) auto
  then show ?case
    by simp
next
  case (Suc fuel)
  show ?case
  proof (cases "d \<le> Fin 120")
    case True
    then obtain q where d: "d = Fin q" "of_nat (2 * k) \<le> q" "q \<le> 120"
      using Suc.prems(1) by (cases d) auto
    then have "(of_nat (2 * k) :: rat) \<le> of_nat 120"
      by simp
    then have k: "Suc k \<le> 61"
      by (simp only: of_nat_le_iff)
    have "exact (of_int (int (2 * Suc k)))"
      using k by (intro exact_of_int) simp
    then have "Fin (of_nat (2 * Suc k)) \<le> d + Fin 2"
      using d by (auto intro!: rnd_ge)
    then have "walk (Suc fuel) point ok (d + Fin 2) \<noteq> None"
      using Suc.prems k by (intro Suc.IH [of "Suc k"]) auto
    then show ?thesis
      using True by (simp only: walk.simps(2)) simp
  qed simp
qed

text \<open>\<open>math.Hypot\<close> is never negative.\<close>

definition hypot_ok :: "libm \<Rightarrow> bool" where
  "hypot_ok lm \<longleftrightarrow> (\<forall>x y. \<not> lm_Hypot lm x y < Fin 0)"

lemma walk_from_ray:
  assumes "\<not> len < Fin 0"
  shows "walk 62 point ok (len + Fin 2) \<noteq> None"
proof -
  have "Fin (of_nat (2 * 1)) \<le> len + Fin 2 \<or> len + Fin 2 = NaN"
  proof (cases len)
    case (Fin q)
    then have "Fin 2 \<le> rnd (q + 2)"
      using assms by (intro rnd_ge exact_intro [of _ 0]) auto
    then show ?thesis
      using Fin by simp
  qed (use assms in \<open>simp_all add: plus_f64_def\<close>)
  from walk_ends [OF this, of 61 point ok] show ?thesis
    by (simp add: eval_nat_numeral)
qed

lemma unshove_chip_safe:
  assumes "i < length placed" "hypot_ok lm"
  shows "\<exists>p'. unshove_chip lm byName placed i = Some p' \<and> safe_step (own_hit byName) lm byName i placed p'"
proof (cases "own_hit byName (placed ! i)")
  case False
  then show ?thesis
    by (simp add: unshove_chip_def Let_def own_hit_def safe_step_def)
next
  case True
  let ?pc = "placed ! i"
  have b: "ownBoxHit (pc_CX ?pc) (pc_CY ?pc) (cs_NodeName (pc_Spec ?pc)) byName"
    using True by (simp add: own_hit_def)
  then obtain owner where o: "mget byName (cs_NodeName (pc_Spec ?pc)) = Some owner"
    by (auto simp: ownBoxHit_def split: option.splits)
  define dx0 dy0 where "dx0 = pc_CX ?pc - ns_CX owner" and "dy0 = pc_CY ?pc - ns_CY owner"
  obtain dx dy len where ray: "(if feq (lm_Hypot lm dx0 dy0) (Fin 0) then (Fin 0, Fin (- 1), Fin 1)
      else (dx0, dy0, lm_Hypot lm dx0 dy0)) = (dx, dy, len)"
    by (metis prod_cases3)
  then have len: "\<not> len < Fin 0"
    using assms(2) by (auto simp: hypot_ok_def split: if_splits)
  let ?point = "\<lambda>d. (ns_CX owner + dx / len * d, ns_CY owner + dy / len * d)"
  let ?ok = "\<lambda>c. position_ok lm byName placed i owner (fst c) (snd c)"
  obtain r where r: "walk 62 ?point ?ok (len + Fin 2) = Some r"
    using walk_from_ray [OF len] by blast
  have u: "unshove_chip lm byName placed i
      = Some (case r of None \<Rightarrow> placed | Some c \<Rightarrow> placed[i := ?pc\<lparr>pc_CX := fst c, pc_CY := snd c\<rparr>])"
    using b o r by (simp add: unshove_chip_def Let_def dx0_def [symmetric] dy0_def [symmetric] ray
        split: option.split)
  show ?thesis
  proof (cases r)
    case None
    then show ?thesis
      using u by (simp add: safe_step_def)
  next
    case (Some c)
    then have "position_ok lm byName placed i owner (fst c) (snd c)"
      using walk_ok r by fastforce
    from move_safe [OF assms(1) o this] u Some True assms(1) show ?thesis
      by (auto simp: safe_step_def intro!: exI [of _ "?pc\<lparr>pc_CX := fst c, pc_CY := snd c\<rparr>"])
  qed
qed

lemma unshove_safe:
  assumes "hypot_ok lm"
  shows "\<exists>p'. unshoveChips lm placed byName = Some p' \<and> safe_pass (own_hit byName) lm byName placed p'"
proof -
  let ?f = "\<lambda>st i. case st of None \<Rightarrow> None | Some p \<Rightarrow> unshove_chip lm byName p i"
  have "\<exists>q. foldl ?f (Some placed) [0..<n] = Some q \<and> safe_pass (own_hit byName) lm byName placed q
    \<and> untouched_from n placed q" if "n \<le> length placed" for n
    using that
  proof (induction n)
    case 0
    show ?case
      by (simp add: untouched_from_def)
  next
    case (Suc n)
    then obtain q where q: "foldl ?f (Some placed) [0..<n] = Some q"
        "safe_pass (own_hit byName) lm byName placed q" "untouched_from n placed q"
      by auto
    then have "n < length q"
      using Suc.prems by (simp add: untouched_from_def)
    from unshove_chip_safe [OF this assms, of byName] obtain r where
      "unshove_chip lm byName q n = Some r" "safe_step (own_hit byName) lm byName n q r"
      by blast
    with safe_pass_step [OF q(2,3)] q(1) show ?case
      by simp
  qed
  from this [of "length placed"] show ?thesis
    by (auto simp: unshoveChips_def)
qed

section \<open>What needs no repair is left alone\<close>

definition off_each_other :: "placedChip \<Rightarrow> placedChip \<Rightarrow> bool" where
  "off_each_other a b \<longleftrightarrow> \<bar>pc_CX b - pc_CX a\<bar> \<ge> chipW \<or> \<bar>pc_CY b - pc_CY a\<bar> \<ge> chipH"

lemma chip_pairs_range: "(i, j) \<in> set (chip_pairs n) \<Longrightarrow> i < j \<and> j < n"
  by (auto simp: chip_pairs_def)

lemma relax_idle:
  assumes "sorted_wrt off_each_other placed"
  shows "relaxChips lm placed = placed"
proof -
  have "foldl (relax_pair lm) (placed, False) ps = (placed, False)"
    if "set ps \<subseteq> set (chip_pairs (length placed))" for ps
    using that
  proof (induction ps)
    case (Cons ij ps)
    obtain i j where ij: "ij = (i, j)"
      by force
    have "i < j" "j < length placed"
      using Cons.prems chip_pairs_range unfolding ij by auto
    then have "off_each_other (placed ! i) (placed ! j)"
      by (rule sorted_wrt_nth_less [OF assms])
    then have "relax_pair lm (placed, False) ij = (placed, False)"
      by (auto simp: relax_pair_def Let_def ij off_each_other_def)
    with Cons show ?case
      by simp
  qed simp
  from this [of "chip_pairs (length placed)"] show ?thesis
    by (simp add: relaxChips_def eval_nat_numeral)
qed

lemma foldl_idle: "(\<And>k. k \<in> set ks \<Longrightarrow> f st k = st) \<Longrightarrow> foldl f st ks = st"
  by (induction ks) auto

lemma flip_idle: "list_all (\<lambda>c. \<not> box_hit byName c) placed \<Longrightarrow> flipChips lm placed byName = placed"
  unfolding flipChips_def
  by (rule foldl_idle) (auto simp: flip_chip_def Let_def box_hit_def list_all_length split: option.split)

lemma unshove_idle: "list_all (\<lambda>c. \<not> own_hit byName c) placed \<Longrightarrow> unshoveChips lm placed byName = Some placed"
  unfolding unshoveChips_def
  by (rule foldl_idle) (auto simp: unshove_chip_def Let_def own_hit_def list_all_length)

section \<open>Scheduled angles\<close>

fun spread :: "f64 \<Rightarrow> f64 list \<Rightarrow> f64 \<Rightarrow> nat list \<Rightarrow> f64 list" where
  "spread m angles prev [] = []"
| "spread m angles prev (i # is) =
     (let a = (if angles ! i < prev + m then prev + m else angles ! i) in a # spread m angles a is)"

lemma separate_spread:
  "distinct is \<Longrightarrow> set is \<subseteq> {..<length adj} \<Longrightarrow>
     length (fst (foldl (separate_step m angles) (adj, prev) is)) = length adj
     \<and> map ((!) (fst (foldl (separate_step m angles) (adj, prev) is))) is = spread m angles prev is
     \<and> (\<forall>j. j \<notin> set is \<longrightarrow> fst (foldl (separate_step m angles) (adj, prev) is) ! j = adj ! j)"
proof (induction "is" arbitrary: adj prev)
  case (Cons i "is")
  define a where "a = (if angles ! i < prev + m then prev + m else angles ! i)"
  have st: "separate_step m angles (adj, prev) i = (adj[i := a], a)"
    by (simp add: separate_step_def a_def Let_def)
  have "spread m angles prev (i # is) = a # spread m angles a is"
    by (simp add: a_def Let_def)
  moreover have "distinct is" "set is \<subseteq> {..<length (adj[i := a])}" "i \<notin> set is" "i < length adj"
    using Cons.prems by auto
  ultimately show ?case
    using Cons.IH [of "adj[i := a]" a] by (simp add: st del: spread.simps)
qed simp

lemma angle_order_facts: "distinct (angle_order angles)" "set (angle_order angles) = {..<length angles}"
  "length (angle_order angles) = length angles"
  by (auto simp: angle_order_def)

lemma separate_angles:
  "length (separate m angles) = length angles"
  "map ((!) (separate m angles)) (angle_order angles) = spread m angles NInf (angle_order angles)"
  using separate_spread [of "angle_order angles" "replicate (length angles) (Fin 0)" m angles NInf]
  by (simp_all add: separate_def angle_order_facts)

lemma spread_gaps:
  "successively (\<lambda>x y. \<not> y < x + m) (spread m angles prev is)
   \<and> (spread m angles prev is \<noteq> [] \<longrightarrow> \<not> hd (spread m angles prev is) < prev + m)"
proof (induction "is" arbitrary: prev)
  case (Cons i "is")
  define a where "a = (if angles ! i < prev + m then prev + m else angles ! i)"
  have "\<not> a < prev + m"
    by (simp add: a_def)
  moreover have "spread m angles prev (i # is) = a # spread m angles a is"
    by (simp add: a_def Let_def)
  ultimately show ?case
    using Cons.IH [of a] by (auto simp: successively_Cons simp del: spread.simps)
qed simp

lemma host_min_sep: "ns_IsHost owner \<Longrightarrow> Fin 44 \<le> min_sep owner \<and> min_sep owner \<le> Fin 45"
proof -
  assume host: "ns_IsHost owner"
  define a where "a = rnd (7 / 9)"
  have "Fin (199 / 256) \<le> a" "a \<le> Fin (200 / 256)"
    unfolding a_def by (auto intro!: rnd_ge rnd_le exact_intro [of _ 8])
  then obtain q where q: "a = Fin q" "199 / 256 \<le> q" "q \<le> 200 / 256"
    by (cases a) auto
  have "Fin (559 / 4) \<le> rnd (q * 180)" "rnd (q * 180) \<le> Fin (563 / 4)"
    using q by (auto intro!: rnd_ge rnd_le exact_intro [of _ 2])
  then obtain r where r: "rnd (q * 180) = Fin r" "559 / 4 \<le> r" "r \<le> 563 / 4"
    by (cases "rnd (q * 180)") auto
  have pi: "f_pi = Fin p \<Longrightarrow> Fin 44 \<le> rnd (r / p) \<and> rnd (r / p) \<le> Fin 45" for p
    using r(2,3) by (auto simp: f_pi_def field_simps intro!: rnd_ge rnd_le exact_intro [of _ 0])
  have "Fin 42 / Fin 54 * Fin 180 / f_pi = Fin r / f_pi"
    using q(1) r(1) by (simp add: a_def)
  also have "\<dots> = rnd (r / (884279719003555 / 281474976710656))"
    unfolding f_pi_def by (rule Fin_ops(4)) simp
  finally show ?thesis
    using host pi [OF f_pi_def] by (auto simp: min_sep_def Let_def)
qed

text \<open>
  The wrap-around correction shifts all angles by the same amount, so the first and the last
  chip stay as close as they were: two chips of a host at -170 and 170 degrees keep their 20
  degrees, although 44 are needed.
\<close>

lemma wrap_keeps_neighbours_close:
  assumes "ns_IsHost owner"
  defines "angles \<equiv> [Fin (- 170), Fin 170]"
  defines "r \<equiv> wrap_angles (min_sep owner) (angle_order angles) (separate (min_sep owner) angles)"
  shows "Fin 360 - (r ! 1 - r ! 0) < min_sep owner" and "r \<noteq> separate (min_sep owner) angles"
proof -
  obtain m where m: "min_sep owner = Fin m" "44 \<le> m" "m \<le> 45"
    using host_min_sep [OF assms(1)] by (cases "min_sep owner") auto
  have o: "angle_order angles = [0, 1]"
    by (simp add: angle_order_def angles_def sort_slice_def upt_conv_Cons)
  have n: "NInf + Fin m = NInf"
    by (simp add: plus_f64_def)
  have "rnd (- 170 + m) \<le> Fin (- 125)"
    using m by (intro rnd_le exact_intro [of _ 0]) auto
  then have "\<not> Fin 170 < rnd (- 170 + m)"
    by (cases "rnd (- 170 + m)") auto
  then have s: "separate (min_sep owner) angles = angles"
    unfolding separate_def o by (simp add: separate_step_def angles_def m(1) n Let_def)
  have "rnd (360 - m) \<le> Fin 316"
    using m by (intro rnd_le exact_intro [of _ 0]) auto
  then have wide: "rnd (360 - m) < Fin 340"
    by (rule f64_le_less_trans) simp
  have "Fin 64 \<le> rnd (20 + m)" "rnd (20 + m) \<le> Fin 65"
    using m by (auto intro!: rnd_ge rnd_le exact_intro [of _ 0])
  then obtain t where t: "rnd (20 + m) = Fin t" "64 \<le> t" "t \<le> 65"
    by (cases "rnd (20 + m)") auto
  have "Fin 32 \<le> rnd (t / 2)" "rnd (t / 2) \<le> Fin (65 / 2)"
    using t by (auto intro!: rnd_ge rnd_le exact_intro [of _ 1])
  then obtain h where h: "rnd (t / 2) = Fin h" "32 \<le> h" "h \<le> 65 / 2"
    by (cases "rnd (t / 2)") auto
  have r: "r = [rnd (- 170 - h), rnd (170 - h)]"
    unfolding r_def s o wrap_angles_def using wide
    by (simp add: angles_def m(1) t(1) h(1) Let_def)
  have "Fin (- 405 / 2) \<le> rnd (- 170 - h)" "rnd (- 170 - h) \<le> Fin (- 202)"
    "Fin (275 / 2) \<le> rnd (170 - h)" "rnd (170 - h) \<le> Fin 138"
    using h by (auto intro!: rnd_ge rnd_le exact_intro [of _ 1])
  then obtain a b where ab: "rnd (- 170 - h) = Fin a" "rnd (170 - h) = Fin b"
      "a \<le> - 202" "- 405 / 2 \<le> a" "275 / 2 \<le> b" "b \<le> 138"
    by (cases "rnd (- 170 - h)"; cases "rnd (170 - h)") auto
  have "Fin (679 / 2) \<le> rnd (b - a)" "rnd (b - a) \<le> Fin (681 / 2)"
    using ab by (auto intro!: rnd_ge rnd_le exact_intro [of _ 1])
  then obtain d where d: "rnd (b - a) = Fin d" "679 / 2 \<le> d" "d \<le> 681 / 2"
    by (cases "rnd (b - a)") auto
  have "rnd (360 - d) \<le> Fin 21"
    using d by (intro rnd_le exact_intro [of _ 0]) auto
  then have "rnd (360 - d) < Fin m"
    by (rule f64_le_less_trans) (use m in simp)
  then show "Fin 360 - (r ! 1 - r ! 0) < min_sep owner"
    by (simp add: r ab d(1) m(1))
  show "r \<noteq> separate (min_sep owner) angles"
    unfolding r s using ab by (auto simp: angles_def)
qed

text \<open>
  C37: \<open>flipChips\<close> moves only chips that poke into a box, and only to a spot on the canvas between
  header and legend, near the owner and clear of every box; no two chips collide after it that did
  not before.
\<close>

theorem flip_moves_to_clear_spots:
  "safe_pass (box_hit byName) lm byName placed (flipChips lm placed byName)"
  by (rule flip_safe)

text \<open>
  C38: if \<open>math.Hypot\<close> is never negative, \<open>unshoveChips\<close> ends, moves only chips that sit in their
  owner's box, and only to clear spots, without new collisions.
\<close>

theorem unshove_ends_in_clear_spots:
  assumes "hypot_ok lm"
  shows "\<exists>p'. unshoveChips lm placed byName = Some p' \<and> safe_pass (own_hit byName) lm byName placed p'"
  by (rule unshove_safe [OF assms])

definition taxi_libm :: libm where
  "taxi_libm = \<lparr>lm_Hypot = (\<lambda>x y. \<bar>x\<bar> + \<bar>y\<bar>), lm_Atan2 = (\<lambda>y x. y), lm_Cos = (\<lambda>x. Fin 1), lm_Sin = (\<lambda>x. Fin 0)\<rparr>"

lemma taxi_hypot_ok: "hypot_ok taxi_libm"
proof -
  have "\<not> \<bar>x\<bar> + \<bar>y\<bar> < Fin 0" for x y
  proof (cases x; cases y)
    fix a b
    assume xy: "x = Fin a" "y = Fin b"
    have "Fin 0 \<le> rnd (\<bar>a\<bar> + \<bar>b\<bar>)"
      by (intro rnd_ge exact_intro [of _ 0]) auto
    then show ?thesis
      using xy by (auto dest: f64_le_less_trans)
  qed (simp_all add: plus_f64_def abs_f64_def)
  then show ?thesis
    by (simp add: hypot_ok_def taxi_libm_def)
qed

definition sample_node :: nodeShape where
  "sample_node = \<lparr>ns_Name = ''SW1'', ns_Role = RoleCore, ns_CX = Fin 360, ns_CY = Fin 100, ns_IsHost = False\<rparr>"

definition sample_chip :: "f64 \<Rightarrow> placedChip" where
  "sample_chip x =
     \<lparr>pc_Spec = \<lparr>cs_NodeName = ''SW1'', cs_Iface = ''Et0/0'', cs_Other = sample_node,
        cs_ParallelOff = Fin 0, cs_PerpSign = Fin 1\<rparr>,
      pc_CX = x, pc_CY = Fin 100, pc_AnchorX = x, pc_AnchorY = Fin 100\<rparr>"

lemma unshove_ends_in_clear_spots_witness:
  "\<exists>p'. unshoveChips taxi_libm [sample_chip (Fin 400), sample_chip (Fin 300)] [(''SW1'', sample_node)] = Some p'
   \<and> safe_pass (own_hit [(''SW1'', sample_node)]) taxi_libm [(''SW1'', sample_node)] [sample_chip (Fin 400), sample_chip (Fin 300)] p'"
  by (rule unshove_ends_in_clear_spots [OF taxi_hypot_ok])

text \<open>
  A diagram whose chips are off each other and out of all boxes is not changed by the three
  passes.
\<close>

theorem clear_chips_unchanged:
  assumes "sorted_wrt off_each_other placed" "list_all (\<lambda>c. \<not> box_hit byName c) placed"
    "list_all (\<lambda>c. \<not> own_hit byName c) placed"
  shows "unshoveChips lm (flipChips lm (relaxChips lm placed) byName) byName = Some placed"
  using assms by (simp add: relax_idle flip_idle unshove_idle)

lemma clear_chips_unchanged_witness:
  "unshoveChips taxi_libm
     (flipChips taxi_libm (relaxChips taxi_libm [sample_chip (Fin 460), sample_chip (Fin 260)])
        [(''SW1'', sample_node)]) [(''SW1'', sample_node)]
   = Some [sample_chip (Fin 460), sample_chip (Fin 260)]"
  by (rule clear_chips_unchanged)
    (simp_all add: off_each_other_def sample_chip_def sample_node_def box_hit_def chipBoxHit_def
      own_hit_def ownBoxHit_def pokes_def minF_def maxF_def chipW_def math_round_numeral
      del: math_round.simps)

text \<open>
  Before the wrap-around each chip of a node is scheduled at least one minimum separation
  after the chip before it, in the order of the angles.
\<close>

theorem scheduled_angles_apart:
  "successively (\<lambda>x y. \<not> y < x + minSep) (map ((!) (separate minSep angles)) (angle_order angles))"
  using spread_gaps by (simp add: separate_angles)

end
