(* ===== verification/TopoReport.thy ===== *)
theory TopoReport
  imports SvgExtract Regex
begin

text \<open>
  \<open>tools/topogen/report.go\<close>: the audit that compares the node names of the templates with the
  names the hand-drawn diagrams show.
\<close>

record baselineInfo =
  bi_Nodes :: "string list"
  bi_Ports :: "string list"

text \<open>\<open>(?i)\b(Et0?/\d+|Fa0?/\d+|Gi0?/\d+|eth\d+|e\d+|FastEthernet\d+/\d+|GigabitEthernet\d+/\d+)\b\<close>\<close>

definition digits_re :: re where "digits_re = re_plus re_d"

definition short_port_re :: "string \<Rightarrow> re" where
  "short_port_re p = re_seq [re_liti p, re_opt (re_chr (CHR ''0'')), re_chr (CHR ''/''), digits_re]"

definition long_port_re :: "string \<Rightarrow> re" where
  "long_port_re p = re_seq [re_liti p, digits_re, re_chr (CHR ''/''), digits_re]"

definition portLabelRe :: re where
  "portLabelRe =
     RCat RWordB (RCat (RCap 1
       (RAlt (short_port_re ''Et'') (RAlt (short_port_re ''Fa'') (RAlt (short_port_re ''Gi'')
       (RAlt (RCat (re_liti ''eth'') digits_re) (RAlt (RCat (re_liti ''e'') digits_re)
       (RAlt (long_port_re ''FastEthernet'') (long_port_re ''GigabitEthernet'')))))))) RWordB)"

text \<open>The names located one after the other, and the port labels of all texts, each once.\<close>

definition locate_names :: "libm \<Rightarrow> svgDoc \<Rightarrow> string list \<Rightarrow> string list \<times> nat list" where
  "locate_names lm doc names =
     foldl (\<lambda>(found, used) name.
         case locateNode lm doc name used of
           (None, used') \<Rightarrow> (found, used')
         | (Some sp, used') \<Rightarrow> (found @ [name], used'))
       ([], []) names"

definition port_labels :: "svgDoc \<Rightarrow> string list" where
  "port_labels doc =
     foldl (\<lambda>ports m. let norm = to_lower m in if norm \<in> set ports then ports else ports @ [norm]) []
       (concat (map (\<lambda>t. map (group 0) (re_FindAllSubmatch portLabelRe (te_Content t))) (svg_Texts doc)))"

definition analyzeBaseline :: "libm \<Rightarrow> baseline \<Rightarrow> int \<Rightarrow> baselineInfo" where
  "analyzeBaseline lm base labID =
     (case loadBaselineSVG base labID of
        None \<Rightarrow> \<lparr>bi_Nodes = [], bi_Ports = []\<rparr>
      | Some doc \<Rightarrow>
          \<lparr>bi_Nodes = sort (fst (locate_names lm doc (nodeNamesForLab labID))),
           bi_Ports = sort (port_labels doc)\<rparr>)"

definition joinOrDash :: "string list \<Rightarrow> string" where
  "joinOrDash items = (if items = [] then em_dash else join '', '' items)"

text \<open>One row of the audit: missing and extra names, the notes, and how much they add to the drift.\<close>

record audit_row =
  ar_Gen :: "string list"
  ar_Base :: "string list"
  ar_Missing :: "string list"
  ar_Extra :: "string list"
  ar_Notes :: string
  ar_Drift :: int

definition missing_note :: string where "missing_note = ''auto-layout will INSERT''"

definition extra_note :: string where
  "extra_note = ''baseline drew a node the struct doesn'' @ [CHR 0x27] @ ''t have''"

definition audit_lab :: "libm \<Rightarrow> baseline \<Rightarrow> int \<Rightarrow> audit_row" where
  "audit_lab lm base labID =
     (let gen = sort (map nt_Name (tt_Nodes (TopologyForLab labID)));
          info = analyzeBaseline lm base labID;
          missing = filter (\<lambda>n. n \<notin> set (bi_Nodes info)) gen;
          extra = filter (\<lambda>n. n \<notin> set gen) (bi_Nodes info);
          n1 = (if missing \<noteq> [] then missing_note else []);
          n2 = (if extra \<noteq> [] then (if n1 \<noteq> [] then n1 @ ''; '' else []) @ extra_note else n1);
          n3 = (if bi_Ports info \<noteq> [] \<and> gen \<noteq> [] \<and> n2 = []
                then ''baseline has port labels ('' @ join '','' (bi_Ports info) @ '')'' else n2)
      in \<lparr>ar_Gen = gen, ar_Base = bi_Nodes info, ar_Missing = missing, ar_Extra = extra, ar_Notes = n3,
          ar_Drift = (if missing \<noteq> [] then 1 else 0) + (if extra \<noteq> [] then 1 else 0)\<rparr>)"

definition row_text :: "int \<Rightarrow> audit_row \<Rightarrow> string" where
  "row_text labID r =
     ''| '' @ itoa labID @ '' | '' @ join '', '' (ar_Gen r) @ '' | '' @ joinOrDash (ar_Base r)
     @ '' | '' @ joinOrDash (ar_Missing r) @ '' | '' @ joinOrDash (ar_Extra r) @ '' | ''
     @ ar_Notes r @ '' |'' @ [CHR 0x0A]"

definition report_head :: string where
  "report_head =
     ''# Topogen Audit '' @ em_dash @ '' Generated vs Baseline'' @ [CHR 0x0A, CHR 0x0A]
     @ ''Node-set comparison per lab. Generated node set comes from the Go topology struct (source of truth); ''
     @ ''baseline node set is what the old hand-authored SVG actually drew.'' @ [CHR 0x0A, CHR 0x0A]
     @ ''| Lab | Gen nodes | Baseline drew | Missing in baseline | Extra in baseline | Notes |''
     @ [CHR 0x0A] @ ''|---|---|---|---|---|---|'' @ [CHR 0x0A]"

definition report_labs :: "int list" where
  "report_labs = filter (\<lambda>labID. tt_Nodes (TopologyForLab labID) \<noteq> []) [1..46]"

definition report_loop :: "libm \<Rightarrow> baseline \<Rightarrow> int \<times> string" where
  "report_loop lm base =
     foldl (\<lambda>(drift, b) labID.
         let r = audit_lab lm base labID in (drift + ar_Drift r, b @ row_text labID r))
       (0, report_head) report_labs"

definition countAudited :: int where
  "countAudited = int (length (filter (\<lambda>labID. length (tt_Nodes (TopologyForLab labID)) > 0) [1..46]))"

definition cmdReport ::
  "libm \<Rightarrow> baseline \<Rightarrow> tool_os \<Rightarrow> string \<Rightarrow> (string \<times> tool_file) list \<times> (int + string)" where
  "cmdReport lm base os outPath =
     (case report_loop lm base of (drift, b) \<Rightarrow>
        let text = b @ [CHR 0x0A] @ ''**Labs with drift: '' @ itoa drift
              @ ''** (missing/extra nodes the generator will fix).'' @ [CHR 0x0A]
        in if \<not> os_MkdirAll os outPath then ([], Inl 1)
           else if \<not> os_WriteFile os outPath then ([], Inl 1)
           else ([(outPath, ReportFile text)],
                 Inr (''report: '' @ itoa countAudited @ '' labs audited, '' @ itoa drift
                   @ '' with drift '' @ [CHR 0xE2, CHR 0x86, CHR 0x92] @ '' '' @ outPath @ [CHR 0x0A])))"

section \<open>The audit and the extraction agree\<close>

definition same_progress :: "string list \<times> nat list \<Rightarrow> extraction \<Rightarrow> bool" where
  "same_progress a st \<longleftrightarrow>
     snd a = ex_Used st \<and> gomap_ok (ex_Per st) \<and> set (fst a) = fst ` set (ex_Per st)"

lemma dom_mput: "fst ` set (mput k v m) = insert k (fst ` set m)"
  by (induction m) auto

lemma same_progress_step:
  assumes "same_progress a st"
  shows "same_progress
     ((\<lambda>(found, used) name.
         case locateNode lm doc name used of
           (None, used') \<Rightarrow> (found, used')
         | (Some sp, used') \<Rightarrow> (found @ [name], used')) a name)
     (extract_node lm labID doc st name)"
  using assms
  by (cases a; cases "locateNode lm doc name (ex_Used st)";
      cases "fst (locateNode lm doc name (ex_Used st))")
    (simp_all add: same_progress_def extract_node_def dom_mput)

lemma same_progress_foldl:
  "same_progress a st \<Longrightarrow> same_progress
     (foldl (\<lambda>(found, used) name.
         case locateNode lm doc name used of
           (None, used') \<Rightarrow> (found, used')
         | (Some sp, used') \<Rightarrow> (found @ [name], used')) a names)
     (foldl (extract_node lm labID doc) st names)"
proof (induction names arbitrary: a st)
  case (Cons name names)
  from Cons.IH [OF same_progress_step [OF Cons.prems]] show ?case
    by simp
qed simp

lemma located_iff:
  "n \<in> set (fst (locate_names lm doc (nodeNamesForLab labID)))
     \<longleftrightarrow> mget (ex_Per (extract_lab lm labID doc)) n \<noteq> None"
  using same_progress_foldl [of "([], [])" "\<lparr>ex_Per = [], ex_Used = [], ex_Gate = []\<rparr>" lm doc
      "nodeNamesForLab labID" labID]
  by (simp add: same_progress_def locate_names_def extract_lab_def map_of_eq_None_iff)

lemma locate_names_subset: "set (fst (locate_names lm doc names)) \<subseteq> set names"
proof -
  have "set (fst (foldl (\<lambda>(found, used) name.
         case locateNode lm doc name used of
           (None, used') \<Rightarrow> (found, used')
         | (Some sp, used') \<Rightarrow> (found @ [name], used')) a names)) \<subseteq> set (fst a) \<union> set names" for a
  proof (induction names arbitrary: a)
    case (Cons name names)
    show ?case
      unfolding foldl.simps
      by (rule order_trans [OF Cons.IH]) (auto split: prod.splits option.splits)
  qed simp
  from this [of "([], [])"] show ?thesis
    by (simp add: locate_names_def)
qed

lemma audit_nodes_subset: "set (bi_Nodes (analyzeBaseline lm base labID)) \<subseteq> set (nodeNamesForLab labID)"
  using locate_names_subset by (auto simp: analyzeBaseline_def split: option.splits)

lemma gen_names: "sort (map nt_Name (tt_Nodes (TopologyForLab labID))) = nodeNamesForLab labID"
  by (simp add: nodeNamesForLab_def)

text \<open>
  C35: the audit of a lab calls exactly those nodes missing that the extraction leaves without a
  position (all of them when there is no diagram), and its column of extra nodes is always empty:
  the baseline is only searched for names of the template.
\<close>

theorem audit_agrees_with_extraction:
  "ar_Missing (audit_lab lm base labID) =
     (case loadBaselineSVG base labID of
        None \<Rightarrow> nodeNamesForLab labID
      | Some doc \<Rightarrow> filter (\<lambda>n. mget (ex_Per (extract_lab lm labID doc)) n = None) (nodeNamesForLab labID))
   \<and> ar_Extra (audit_lab lm base labID) = []"
proof
  show "ar_Missing (audit_lab lm base labID) =
     (case loadBaselineSVG base labID of
        None \<Rightarrow> nodeNamesForLab labID
      | Some doc \<Rightarrow> filter (\<lambda>n. mget (ex_Per (extract_lab lm labID doc)) n = None) (nodeNamesForLab labID))"
    using located_iff [of _ lm _ labID]
    by (auto simp: audit_lab_def Let_def gen_names analyzeBaseline_def split: option.splits
        intro!: filter_cong)
  show "ar_Extra (audit_lab lm base labID) = []"
    using audit_nodes_subset [of lm base labID]
    by (auto simp: audit_lab_def Let_def gen_names filter_empty_conv)
qed

end
