(* ===== verification/TopoRender.thy ===== *)
theory TopoRender
  imports TopoChipSafety TopoReport
begin

text \<open>
  \<open>tools/topogen/render.go\<close>, the output: the text of a lab's diagram with its links, chips, nodes and
  legend, and the command that writes the diagrams and the manifest.
\<close>

section \<open>Styles and names\<close>

definition bgColor :: string where "bgColor = ''#0b0f14''"
definition gridColor :: string where "gridColor = ''#1b2129''"
definition chromeLine :: string where "chromeLine = ''#22272e''"
definition chromeText :: string where "chromeText = ''#6e7681''"
definition nodeFill :: string where "nodeFill = ''#131a21''"
definition attackerFill :: string where "attackerFill = ''#1a0f11''"
definition coreStroke :: string where "coreStroke = ''#8b98a5''"
definition coreLabel :: string where "coreLabel = ''#e6edf3''"
definition hubStroke :: string where "hubStroke = ''#d29922''"
definition hubLabel :: string where "hubLabel = ''#d29922''"
definition hostStroke :: string where "hostStroke = ''#22d3ee''"
definition hostLabel :: string where "hostLabel = ''#67e8f9''"
definition attackerStroke :: string where "attackerStroke = ''#f85149''"
definition attackerLabel :: string where "attackerLabel = ''#ff7b72''"
definition portStroke :: string where "portStroke = ''#3fb950''"
definition portFill :: string where "portFill = ''#0b0f14''"
definition subText :: string where "subText = ''#8b98a5''"

definition roleName :: "nodeRole \<Rightarrow> string" where
  "roleName r =
     (case r of RoleHub \<Rightarrow> ''hub'' | RoleHost \<Rightarrow> ''host'' | RoleAttacker \<Rightarrow> ''attacker'' | RoleCore \<Rightarrow> ''core'')"

text \<open>One link in words; the arrow is U+2192.\<close>

definition link_words :: "LinkTemplate \<Rightarrow> string" where
  "link_words l = lt_NodeA l @ ''('' @ lt_IfaceA l @ '')'' @ [CHR 0xE2, CHR 0x86, CHR 0x92]
     @ lt_NodeB l @ ''('' @ lt_IfaceB l @ '')''"

definition ariaDesc :: "TopologyTemplate \<Rightarrow> string" where
  "ariaDesc tpl = (if tt_Links tpl = [] then ''topology'' else join '', '' (map link_words (tt_Links tpl)))"

section \<open>Runes\<close>

text \<open>
  \<open>[]rune(s)\<close> as the list of the encodings of its runes: a byte that starts no well-formed UTF-8
  sequence counts as one U+FFFD.
\<close>

definition cont :: "nat \<Rightarrow> nat \<Rightarrow> char \<Rightarrow> bool" where
  "cont lo hi c = (lo \<le> (of_char c :: nat) \<and> (of_char c :: nat) \<le> hi)"

definition replacement :: string where "replacement = [CHR 0xEF, CHR 0xBF, CHR 0xBD]"

definition rune2 :: "char \<Rightarrow> char \<Rightarrow> bool" where
  "rune2 a b = (cont 0xC2 0xDF a \<and> cont 0x80 0xBF b)"

definition rune3 :: "char \<Rightarrow> char \<Rightarrow> char \<Rightarrow> bool" where
  "rune3 a b c =
     ((a = CHR 0xE0 \<and> cont 0xA0 0xBF b \<or> (cont 0xE1 0xEC a \<or> cont 0xEE 0xEF a) \<and> cont 0x80 0xBF b
       \<or> a = CHR 0xED \<and> cont 0x80 0x9F b) \<and> cont 0x80 0xBF c)"

definition rune4 :: "char \<Rightarrow> char \<Rightarrow> char \<Rightarrow> char \<Rightarrow> bool" where
  "rune4 a b c d =
     ((a = CHR 0xF0 \<and> cont 0x90 0xBF b \<or> cont 0xF1 0xF3 a \<and> cont 0x80 0xBF b
       \<or> a = CHR 0xF4 \<and> cont 0x80 0x8F b) \<and> cont 0x80 0xBF c \<and> cont 0x80 0xBF d)"

fun rune_len :: "string \<Rightarrow> nat" where
  "rune_len [] = 0"
| "rune_len (a # s) =
     (if cont 0 0x7F a then 1
      else case s of
        b # t \<Rightarrow>
          (if rune2 a b then 2
           else case t of
             c # u \<Rightarrow>
               (if rune3 a b c then 3
                else case u of d # v \<Rightarrow> (if rune4 a b c d then 4 else 0) | [] \<Rightarrow> 0)
           | [] \<Rightarrow> 0)
      | [] \<Rightarrow> 0)"

function runes :: "string \<Rightarrow> string list" where
  "runes [] = []"
| "runes (a # s) =
     (if rune_len (a # s) = 0 then replacement # runes s
      else take (rune_len (a # s)) (a # s) # runes (drop (rune_len (a # s)) (a # s)))"
  by pat_completeness auto
termination
  by (relation "measure length") auto

definition build_line :: "TopologyTemplate \<Rightarrow> string" where
  "build_line tpl = ''initial_build: '' @ join ('' '' @ [CHR 0xC2, CHR 0xB7] @ '' '') (map link_words (tt_Links tpl))"

definition legend_line :: "TopologyTemplate \<Rightarrow> string" where
  "legend_line tpl =
     (let r = runes (build_line tpl)
      in if length r > 118 then concat (take 115 r) @ ''...'' else build_line tpl)"

section \<open>The parts of a diagram\<close>

definition svg_head :: "int \<Rightarrow> TopologyTemplate \<Rightarrow> string" where
  \<open>svg_head labID tpl =
     ''<svg\<newline>''
     @ ''      width="100%"\<newline>''
     @ ''      viewBox="0 0 '' @ fmt0 viewW @ '' '' @ fmt0 viewH @ ''"\<newline>''
     @ ''      xmlns="http://www.w3.org/2000/svg"\<newline>''
     @ ''      role="img"\<newline>''
     @ ''      aria-label="NetBreaker Lab '' @ itoa labID @ '' topology: '' @ ariaDesc tpl @ ''"\<newline>''
     @ ''    >\<newline>''
     @ ''      <defs>\<newline>''
     @ ''        <pattern id="grid" width="24" height="24" patternUnits="userSpaceOnUse">\<newline>''
     @ ''          <path d="M24 0H0V24" fill="none" stroke="'' @ gridColor @ ''" stroke-width="1" />\<newline>''
     @ ''        </pattern>\<newline>''
     @ ''        <filter id="glow" x="-40%" y="-40%" width="180%" height="180%">\<newline>''
     @ ''          <feGaussianBlur stdDeviation="3" result="blur" />\<newline>''
     @ ''          <feMerge>\<newline>''
     @ ''            <feMergeNode in="blur" />\<newline>''
     @ ''            <feMergeNode in="SourceGraphic" />\<newline>''
     @ ''          </feMerge>\<newline>''
     @ ''        </filter>\<newline>''
     @ ''      </defs>\<newline>''
     @ ''\<newline>''
     @ ''      <rect x="0" y="0" width="'' @ fmt0 viewW @ ''" height="'' @ fmt0 viewH @ ''" rx="10" fill="'' @ bgColor @ ''" />\<newline>''
     @ ''      <rect x="1" y="37" width="'' @ fmt0 (viewW - Fin 2) @ ''" height="'' @ fmt0 (viewH - Fin 39) @ ''" fill="url(#grid)" />\<newline>''
     @ ''      <rect x="0.5" y="0.5" width="'' @ fmt0 (viewW - Fin 1) @ ''" height="'' @ fmt0 (viewH - Fin 1) @ ''" rx="10" fill="none" stroke="'' @ chromeLine
     @ ''" stroke-width="1" />\<newline>''
     @ ''\<newline>''
     @ ''      <line x1="0" y1="36" x2="'' @ fmt0 viewW @ ''" y2="36" stroke="'' @ chromeLine @ ''" stroke-width="1" />\<newline>''
     @ ''      <circle cx="20" cy="18" r="6" fill="#ff5f56" />\<newline>''
     @ ''      <circle cx="40" cy="18" r="6" fill="#ffbd2e" />\<newline>''
     @ ''      <circle cx="60" cy="18" r="6" fill="#27c93f" />\<newline>''
     @ ''      <text x="82" y="22" font-family="Courier New, monospace" fontSize="12" fill="'' @ chromeText @ ''">\<newline>''
     @ ''        root@netbreaker:~/lab'' @ itoa labID @ ''$ topology --render\<newline>''
     @ ''      </text>\<newline>''\<close>

text \<open>A link between two shapes, moved sideways by the offset of parallel links.\<close>

definition link_ends_at :: "libm \<Rightarrow> nodeShape \<Rightarrow> nodeShape \<Rightarrow> f64 \<Rightarrow> (f64 \<times> f64) \<times> (f64 \<times> f64)" where
  "link_ends_at lm a b off =
     (case (edgePoint lm a b, edgePoint lm b a) of
        ((ax, ay), (bx, by)) \<Rightarrow>
          let dx = bx - ax; dy = by - ay; len = lm_Hypot lm dx dy
          in if len > Fin 0
             then let px = - dy / len; py = dx / len
                  in ((ax + px * off, ay + py * off), (bx + px * off, by + py * off))
             else ((ax, ay), (bx, by)))"

definition svg_link :: "libm \<Rightarrow> (string, nodeShape) gomap \<Rightarrow> (string, f64) gomap \<Rightarrow> LinkTemplate \<Rightarrow> string" where
  \<open>svg_link lm byName parallel l =
     (case (mget byName (lt_NodeA l), mget byName (lt_NodeB l)) of
        (Some a, Some b) \<Rightarrow>
          (case link_ends_at lm a b (mget0 (Fin 0) parallel (link_key l)) of
             ((x1, y1), (x2, y2)) \<Rightarrow>
           ''      <g data-link="'' @ link_key l @ ''">\<newline>''
           @ ''        <line x1="'' @ fmt0 x1 @ ''" y1="'' @ fmt0 y1 @ ''" x2="'' @ fmt0 x2 @ ''" y2="'' @ fmt0 y2 @ ''" stroke="'' @ ''#4d5560''
           @ ''" stroke-width="1.5"\<newline>''
           @ ''          data-node-a="'' @ lt_NodeA l @ ''" data-iface-a="'' @ lt_IfaceA l @ ''" data-node-b="'' @ lt_NodeB l @ ''" data-iface-b="'' @ lt_IfaceB l
           @ ''" />\<newline>''
           @ ''        <title>'' @ lt_NodeA l @ '' '' @ lt_IfaceA l @ '' '' @ [CHR 0xE2, CHR 0x86, CHR 0x94] @ '' '' @ lt_NodeB l @ '' '' @ lt_IfaceB l
           @ ''</title>\<newline>''
           @ ''      </g>\<newline>'')
      | _ \<Rightarrow> [])\<close>

definition writeChip :: "string \<Rightarrow> string \<Rightarrow> f64 \<Rightarrow> f64 \<Rightarrow> string" where
  \<open>writeChip nodeName iface cx cy =
     ''      <g data-port="'' @ nodeName @ ''" data-iface="'' @ iface @ ''">\<newline>''
     @ ''        <rect x="'' @ fmt0 (cx - Fin 21) @ ''" y="'' @ fmt0 (cy - Fin 9) @ ''" width="'' @ fmt0 chipW @ ''" height="'' @ fmt0 chipH
     @ ''" rx="3" fill="'' @ portFill @ ''" stroke="'' @ portStroke @ ''" stroke-width="1" />\<newline>''
     @ ''        <text x="'' @ fmt0 cx @ ''" y="'' @ fmt0 (cy + Fin 4) @ ''" text-anchor="middle" font-family="Courier New, monospace" fontSize="10" fill="''
     @ portStroke @ ''">'' @ iface @ ''</text>\<newline>''
     @ ''        <title>'' @ nodeName @ '' '' @ iface @ ''</title>\<newline>''
     @ ''      </g>\<newline>''\<close>

text \<open>The node template of a shape, or the zero value.\<close>

definition template_of :: "TopologyTemplate \<Rightarrow> string \<Rightarrow> NodeTemplate" where
  "template_of tpl name = (case find (\<lambda>n. nt_Name n = name) (tt_Nodes tpl) of None \<Rightarrow> node0 [] [] | Some n \<Rightarrow> n)"

definition node_attacker_circle :: "nodeShape \<Rightarrow> string" where
  \<open>node_attacker_circle s =
     ''      <g data-node="'' @ ns_Name s @ ''" data-role="attacker">\<newline>''
     @ ''        <g filter="url(#glow)">\<newline>''
     @ ''          <circle cx="'' @ fmt0 (ns_CX s) @ ''" cy="'' @ fmt0 (ns_CY s) @ ''" r="'' @ fmt0 hostR @ ''" fill="'' @ attackerFill @ ''" stroke="''
     @ attackerStroke @ ''" stroke-width="1.5" stroke-dasharray="4 2" />\<newline>''
     @ ''        </g>\<newline>''
     @ ''        <text x="'' @ fmt0 (ns_CX s) @ ''" y="'' @ fmt0 (ns_CY s + Fin 4)
     @ ''" text-anchor="middle" font-family="Courier New, monospace" fontSize="12" fontWeight="700" fill="'' @ attackerLabel @ ''">'' @ ns_Name s
     @ ''</text>\<newline>''
     @ ''        <title>'' @ ns_Name s @ ''</title>\<newline>''
     @ ''      </g>\<newline>''\<close>

definition node_attacker_rect :: "nodeShape \<Rightarrow> string \<Rightarrow> string" where
  \<open>node_attacker_rect s sub =
     ''      <g data-node="'' @ ns_Name s @ ''" data-role="attacker">\<newline>''
     @ ''        <g filter="url(#glow)">\<newline>''
     @ ''          <rect x="'' @ fmt0 (ns_CX s - Fin 70) @ ''" y="'' @ fmt0 (ns_CY s - Fin 30) @ ''" width="'' @ fmt0 nodeW @ ''" height="'' @ fmt0 nodeH
     @ ''" rx="6" fill="'' @ attackerFill @ ''" stroke="'' @ attackerStroke @ ''" stroke-width="1.5" stroke-dasharray="5 3" />\<newline>''
     @ ''        </g>\<newline>''
     @ ''        <text x="'' @ fmt0 (ns_CX s) @ ''" y="'' @ fmt0 (ns_CY s + Fin 6)
     @ ''" text-anchor="middle" font-family="Courier New, monospace" fontSize="15" fontWeight="700" fill="'' @ attackerLabel @ ''">'' @ ns_Name s
     @ ''</text>\<newline>''
     @ ''        <text x="'' @ fmt0 (ns_CX s) @ ''" y="'' @ fmt0 (ns_CY s + Fin 24)
     @ ''" text-anchor="middle" font-family="Courier New, monospace" fontSize="10" fill="'' @ attackerStroke @ ''">'' @ sub @ ''</text>\<newline>''
     @ ''        <title>'' @ ns_Name s @ ''</title>\<newline>''
     @ ''      </g>\<newline>''\<close>

definition node_host :: "nodeShape \<Rightarrow> string \<Rightarrow> string" where
  \<open>node_host s sub =
     ''      <g data-node="'' @ ns_Name s @ ''" data-role="host">\<newline>''
     @ ''        <circle cx="'' @ fmt0 (ns_CX s) @ ''" cy="'' @ fmt0 (ns_CY s) @ ''" r="'' @ fmt0 hostR @ ''" fill="'' @ nodeFill @ ''" stroke="'' @ hostStroke
     @ ''" stroke-width="1.5" />\<newline>''
     @ ''        <text x="'' @ fmt0 (ns_CX s) @ ''" y="'' @ fmt0 (ns_CY s + Fin 4)
     @ ''" text-anchor="middle" font-family="Courier New, monospace" fontSize="13" fontWeight="700" fill="'' @ hostLabel @ ''">'' @ ns_Name s
     @ ''</text>\<newline>''
     @ ''        <text x="'' @ fmt0 (ns_CX s) @ ''" y="'' @ fmt0 (ns_CY s + Fin 18)
     @ ''" text-anchor="middle" font-family="Courier New, monospace" fontSize="9" fill="'' @ hostStroke @ ''">'' @ sub @ ''</text>\<newline>''
     @ ''        <title>'' @ ns_Name s @ ''</title>\<newline>''
     @ ''      </g>\<newline>''\<close>

definition node_core :: "nodeShape \<Rightarrow> string \<Rightarrow> string \<Rightarrow> string \<Rightarrow> string" where
  \<open>node_core s sub stroke label =
     ''      <g data-node="'' @ ns_Name s @ ''" data-role="'' @ roleName (ns_Role s) @ ''">\<newline>''
     @ ''        <rect x="'' @ fmt0 (ns_CX s - Fin 70) @ ''" y="'' @ fmt0 (ns_CY s - Fin 30) @ ''" width="'' @ fmt0 nodeW @ ''" height="'' @ fmt0 nodeH
     @ ''" rx="6" fill="'' @ nodeFill @ ''" stroke="'' @ stroke @ ''" stroke-width="1.5" />\<newline>''
     @ ''        <text x="'' @ fmt0 (ns_CX s) @ ''" y="'' @ fmt0 (ns_CY s + Fin 6)
     @ ''" text-anchor="middle" font-family="Courier New, monospace" fontSize="15" fontWeight="700" fill="'' @ label @ ''">'' @ ns_Name s
     @ ''</text>\<newline>''
     @ ''        <text x="'' @ fmt0 (ns_CX s) @ ''" y="'' @ fmt0 (ns_CY s + Fin 24)
     @ ''" text-anchor="middle" font-family="Courier New, monospace" fontSize="10" fill="'' @ stroke @ ''">'' @ sub @ ''</text>\<newline>''
     @ ''        <title>'' @ ns_Name s @ ''</title>\<newline>''
     @ ''      </g>\<newline>''\<close>

definition renderNode :: "nodeShape \<Rightarrow> TopologyTemplate \<Rightarrow> string" where
  "renderNode s tpl =
     (let sub = roleSubtitle (template_of tpl (ns_Name s))
      in if ns_Role s = RoleAttacker then
           (if ns_IsHost s then node_attacker_circle s else node_attacker_rect s sub)
         else if ns_IsHost s then node_host s sub
         else if ns_Role s = RoleHub then node_core s sub hubStroke hubLabel
         else node_core s sub coreStroke coreLabel)"

definition renderLegend :: "TopologyTemplate \<Rightarrow> string" where
  \<open>renderLegend tpl =
     ''      <line x1="30" y1="405" x2="690" y2="405" stroke="'' @ chromeLine @ ''" stroke-width="1" />\<newline>''
     @ ''      <text x="30" y="424" font-family="Courier New, monospace" fontSize="10" fill="'' @ chromeText @ ''">// device_legend</text>\<newline>''
     @ ''\<newline>''
     @ ''      <rect x="30" y="438" width="12" height="12" rx="2" fill="'' @ nodeFill @ ''" stroke="'' @ coreStroke @ ''" stroke-width="1.5" />\<newline>''
     @ ''      <text x="50" y="448" font-family="Courier New, monospace" fontSize="11" fill="'' @ coreLabel @ ''">switch / router / firewall</text>\<newline>''
     @ ''\<newline>''
     @ ''      <rect x="230" y="438" width="12" height="12" rx="2" fill="'' @ nodeFill @ ''" stroke="'' @ hubStroke @ ''" stroke-width="1.5" />\<newline>''
     @ ''      <text x="250" y="448" font-family="Courier New, monospace" fontSize="11" fill="'' @ hubLabel
     @ ''">hub '' @ [CHR 0xE2, CHR 0x80, CHR 0x94] @ '' single collision domain</text>\<newline>''
     @ ''\<newline>''
     @ ''      <circle cx="486" cy="444" r="6" fill="'' @ nodeFill @ ''" stroke="'' @ hostStroke @ ''" stroke-width="1.5" />\<newline>''
     @ ''      <text x="500" y="448" font-family="Courier New, monospace" fontSize="11" fill="'' @ hostLabel @ ''">end host</text>\<newline>''
     @ ''\<newline>''
     @ ''      <rect x="580" y="438" width="12" height="12" rx="2" fill="'' @ attackerFill @ ''" stroke="'' @ attackerStroke
     @ ''" stroke-width="1.5" stroke-dasharray="3 2" />\<newline>''
     @ ''      <text x="600" y="448" font-family="Courier New, monospace" fontSize="11" fill="'' @ attackerLabel @ ''">observer / attacker</text>\<newline>''
     @ ''\<newline>''
     @ ''      <text x="30" y="475" font-family="Courier New, monospace" fontSize="10" fill="'' @ subText @ ''">\<newline>''
     @ ''        '' @ legend_line tpl @ ''\<newline>''
     @ ''      </text>\<newline>''\<close>

definition svg_chip :: "placedChip \<Rightarrow> string" where
  "svg_chip c = writeChip (cs_NodeName (pc_Spec c)) (cs_Iface (pc_Spec c)) (pc_CX c) (pc_CY c)"

text \<open>The whole diagram; \<open>None\<close> if \<open>unshoveChips\<close> does not end.\<close>

definition renderLab :: "libm \<Rightarrow> int \<Rightarrow> (string, NodePos) gomap \<Rightarrow> string option" where
  "renderLab lm labID pos =
     (let tpl = TopologyForLab labID;
          (shapes, byName) = layoutLab labID pos;
          parallel = parallelOffsets tpl
      in map_option (\<lambda>placed.
           svg_head labID tpl
           @ concat (map (svg_link lm byName parallel) (tt_Links tpl))
           @ concat (map svg_chip placed)
           @ concat (map (\<lambda>s. renderNode s tpl) shapes)
           @ renderLegend tpl
           @ ''    </svg>'' @ [CHR 0x0A])
         (final_chips lm labID tpl shapes byName))"

section \<open>\<open>cmdRender\<close>\<close>

text \<open>What reading the positions file gives: nothing, a parse error, or the map.\<close>

datatype positions_file = Unreadable | Malformed | Parsed positions

definition loadPositions :: "positions_file \<Rightarrow> positions option" where
  "loadPositions f = (case f of Unreadable \<Rightarrow> Some [] | Malformed \<Rightarrow> None | Parsed raw \<Rightarrow> Some raw)"

definition posForLab :: "positions \<Rightarrow> int \<Rightarrow> (string, NodePos) gomap" where
  "posForLab pos labID = mget0 [] pos (itoa labID)"

fun parse_labs :: "string list \<Rightarrow> int list option" where
  "parse_labs [] = Some []"
| "parse_labs (w # ws) =
     (case atoi (trim_space w) of
        (labID, None) \<Rightarrow> map_option (\<lambda>ids. labID # ids) (parse_labs ws)
      | (_, Some e) \<Rightarrow> None)"

definition render_labs :: "string \<Rightarrow> int list option" where
  "render_labs labsFlag = (if labsFlag \<noteq> [] then parse_labs (split_on (CHR '','') labsFlag) else Some report_labs)"

type_synonym lab_manifest = "string list \<times> string list"

definition manifest_entry :: "TopologyTemplate \<Rightarrow> lab_manifest" where
  "manifest_entry tpl = (map nt_Name (tt_Nodes tpl), map link_key (tt_Links tpl))"

datatype render_file = SvgFile string | ManifestFile "(string, lab_manifest) gomap"

definition svg_path :: "string \<Rightarrow> int \<Rightarrow> string" where
  "svg_path outDir labID = outDir @ ''/'' @ itoa labID @ ''.svg''"

text \<open>
  The loop over the labs: the files written so far and the manifest, or the exit at the first file
  that cannot be written (\<open>None\<close>: a diagram is never finished).
\<close>

fun render_loop ::
  "libm \<Rightarrow> tool_os \<Rightarrow> string \<Rightarrow> positions \<Rightarrow> int list \<Rightarrow> (string \<times> render_file) list
     \<Rightarrow> (string, lab_manifest) gomap
     \<Rightarrow> ((string \<times> render_file) list \<times> (int + (string, lab_manifest) gomap)) option" where
  "render_loop lm os outDir pos [] files manifest = Some (files, Inr manifest)"
| "render_loop lm os outDir pos (labID # labs) files manifest =
     (case renderLab lm labID (posForLab pos labID) of
        None \<Rightarrow> None
      | Some svg \<Rightarrow>
          if \<not> os_WriteFile os (svg_path outDir labID) then Some (files, Inl 1)
          else render_loop lm os outDir pos labs (files @ [(svg_path outDir labID, SvgFile svg)])
                 (mput (itoa labID) (manifest_entry (TopologyForLab labID)) manifest))"

definition cmdRender ::
  "libm \<Rightarrow> tool_os \<Rightarrow> positions_file \<Rightarrow> string \<Rightarrow> string \<Rightarrow> string
     \<Rightarrow> ((string \<times> render_file) list \<times> (int + string)) option" where
  "cmdRender lm os posFile outDir labsFlag manifestPath =
     (case loadPositions posFile of
        None \<Rightarrow> Some ([], Inl 1)
      | Some pos \<Rightarrow>
     (case render_labs labsFlag of
        None \<Rightarrow> Some ([], Inl 1)
      | Some labs \<Rightarrow>
          if \<not> os_MkdirAll os outDir then Some ([], Inl 1)
          else case render_loop lm os outDir pos labs [] [] of
            None \<Rightarrow> None
          | Some (files, Inl code) \<Rightarrow> Some (files, Inl code)
          | Some (files, Inr manifest) \<Rightarrow>
              if manifestPath \<noteq> [] \<and> \<not> os_WriteFile os manifestPath then Some (files, Inl 1)
              else Some (if manifestPath \<noteq> [] then files @ [(manifestPath, ManifestFile manifest)] else files,
                     Inr (''render: '' @ itoa (int (length labs)) @ '' SVGs written to '' @ outDir @ [CHR 0x0A]))))"

section \<open>The command line\<close>

datatype tool_command = CmdExtract | CmdRender | CmdReport | Usage int

definition topogen_main :: "string list \<Rightarrow> tool_command \<times> string list" where
  "topogen_main args =
     (case args of
        a0 # cmd # rest \<Rightarrow>
          (if cmd = ''extract'' then (CmdExtract, rest)
           else if cmd = ''render'' then (CmdRender, rest)
           else if cmd = ''report'' then (CmdReport, rest)
           else (Usage 2, []))
      | _ \<Rightarrow> (Usage 2, []))"

end
