(* ===== verification/TopoDrawing.thy ===== *)
theory TopoDrawing
  imports TopoRender
begin

text \<open>
  What a finished diagram shows: one line per link and one chip per port, parallel links beside each
  other, and a legend that is well-formed text; and that the render command writes every lab.
\<close>

section \<open>Chips keep their port\<close>

abbreviation specs :: "placedChip list \<Rightarrow> chipSpec list" where
  "specs placed \<equiv> map pc_Spec placed"


lemma specs_relax_pair: "specs (fst (relax_pair lm st ij)) = specs (fst st)"
  by (cases st; cases ij)
    (simp add: relax_pair_def Let_def map_update_same nth_update_same move_by_def split: prod.splits)

lemma specs_relax_pairs: "specs (fst (foldl (relax_pair lm) st ijs)) = specs (fst st)"
  by (rule foldl_keeps) (simp_all add: specs_relax_pair)

lemma specs_relax_rounds: "specs (relax_rounds k lm chips) = specs chips"
proof (induction k arbitrary: chips)
  case (Suc k)
  obtain chips' moved where r: "foldl (relax_pair lm) (chips, False) (chip_pairs (length chips)) = (chips', moved)"
    by fastforce
  have "specs chips' = specs chips"
    using specs_relax_pairs [of lm "(chips, False)"] r by (metis fst_conv)
  moreover have "specs (map pull_back chips') = specs chips'"
    by (simp add: pull_back_def move_by_def)
  ultimately show ?case
    by (simp add: r Suc.IH)
qed simp

lemma specs_relax [simp]: "specs (relaxChips lm chips) = specs chips"
  by (simp add: relaxChips_def specs_relax_rounds)

lemma specs_flip_chip: "specs (flip_chip lm byName placed i) = specs placed"
  by (simp add: flip_chip_def Let_def map_update_same split: option.splits)

lemma specs_flip [simp]: "specs (flipChips lm placed byName) = specs placed"
  unfolding flipChips_def by (rule foldl_keeps) (simp_all add: specs_flip_chip)

lemma specs_override [simp]: "specs (applyChipOverrides labID placed) = specs placed"
  by (simp add: applyChipOverrides_def override_chip_def move_by_def split: option.splits)




section \<open>One chip per port\<close>

lemma length_separate [simp]: "length (separate m angles) = length angles"
proof -
  have "length (fst (foldl (separate_step m angles) st idxs)) = length (fst st)" for st idxs
    by (rule foldl_keeps) (auto simp: separate_step_def Let_def split: prod.splits)
  then show ?thesis
    by (simp add: separate_def)
qed

lemma length_schedule [simp]: "length (scheduleChips lm owner chips) = length chips"
  by (simp add: scheduleChips_def wrap_angles_def Let_def)













section \<open>Parallel links\<close>

definition same_pair :: "LinkTemplate list \<Rightarrow> string \<Rightarrow> nat" where
  "same_pair ls key = length (filter (\<lambda>l. pair_of l = key) ls)"

lemma pair_counts:
  "mget0 0 (foldl (\<lambda>m l. mput (pair_of l) (mget0 0 m (pair_of l) + 1) m) [] ls) key = int (same_pair ls key)"
  by (induction ls rule: rev_induct) (auto simp: same_pair_def mget0_def)

definition fan_offset :: "int \<Rightarrow> int \<Rightarrow> f64" where
  "fan_offset i n =
     (if n \<le> 1 then Fin 0 else (float_of_int i - float_of_int (n - 1) / Fin 2) * Fin 18)"

lemma parallel_fold:
  assumes "distinct (map link_key ls)"
  shows "(\<forall>key. mget0 0 (fst (foldl (parallel_step pairs) ([], []) ls)) key = int (same_pair ls key))
    \<and> (\<forall>i<length ls. mget (snd (foldl (parallel_step pairs) ([], []) ls)) (link_key (ls ! i))
         = Some (fan_offset (int (same_pair (take i ls) (pair_of (ls ! i)))) (mget0 0 pairs (pair_of (ls ! i)))))"
  using assms
proof (induction ls rule: rev_induct)
  case (snoc k ls)
  obtain idx offs where st: "foldl (parallel_step pairs) ([], []) ls = (idx, offs)"
    by fastforce
  have IH: "mget0 0 idx key = int (same_pair ls key)" for key
    using snoc st by simp
  have IH': "mget offs (link_key (ls ! i))
      = Some (fan_offset (int (same_pair (take i ls) (pair_of (ls ! i)))) (mget0 0 pairs (pair_of (ls ! i))))"
    if "i < length ls" for i
    using snoc st that by simp
  have other: "link_key (ls ! i) \<noteq> link_key k" if "i < length ls" for i
  proof -
    have "link_key (ls ! i) \<in> link_key ` set ls"
      using that by simp
    then show ?thesis
      using snoc.prems by auto
  qed
  have step: "foldl (parallel_step pairs) ([], []) (ls @ [k])
      = (mput (pair_of k) (int (same_pair ls (pair_of k)) + 1) idx,
         mput (link_key k) (fan_offset (int (same_pair ls (pair_of k))) (mget0 0 pairs (pair_of k))) offs)"
    by (simp add: st parallel_step_def Let_def IH fan_offset_def)
  show ?case
  proof (intro conjI allI impI)
    fix key
    show "mget0 0 (fst (foldl (parallel_step pairs) ([], []) (ls @ [k]))) key
        = int (same_pair (ls @ [k]) key)"
      unfolding step using IH [of key] by (simp add: same_pair_def mget0_def)
  next
    fix i
    assume "i < length (ls @ [k])"
    then consider "i < length ls" | "i = length ls"
      by fastforce
    then show "mget (snd (foldl (parallel_step pairs) ([], []) (ls @ [k]))) (link_key ((ls @ [k]) ! i))
      = Some (fan_offset (int (same_pair (take i (ls @ [k])) (pair_of ((ls @ [k]) ! i))))
          (mget0 0 pairs (pair_of ((ls @ [k]) ! i))))"
      unfolding step using IH' [of i] other [of i] by cases (simp_all add: nth_append)
  qed
qed (simp add: same_pair_def mget0_def)

lemma parallel_offset:
  assumes "distinct (map link_key (tt_Links tpl))" "i < length (tt_Links tpl)"
  shows "mget (parallelOffsets tpl) (link_key (tt_Links tpl ! i))
    = Some (fan_offset (int (same_pair (take i (tt_Links tpl)) (pair_of (tt_Links tpl ! i))))
        (int (same_pair (tt_Links tpl) (pair_of (tt_Links tpl ! i)))))"
  using parallel_fold [OF assms(1)] assms(2) by (simp add: parallelOffsets_def Let_def pair_counts)

lemma fan_offset_exact:
  assumes "2 \<le> n" "0 \<le> i" "i < n" "n < 2 ^ 20"
  shows "fan_offset i n = Fin ((of_int i - of_int (n - 1) / 2) * 18)"
proof -
  define a b :: rat where "a = of_int i" and "b = of_int (n - 1)"
  have fl: "float_of_int i = Fin a" "float_of_int (n - 1) = Fin b"
    using assms by (simp_all add: float_of_int_exact a_def b_def del: of_int_diff)
  have "a < of_int (2 ^ 20)" "b < of_int (2 ^ 20)" "0 \<le> a" "0 \<le> b"
    unfolding a_def b_def of_int_less_iff of_int_0_le_iff using assms by simp_all
  then have lt: "0 \<le> a" "a < 2 ^ 20" "0 \<le> b" "b < 2 ^ 20"
    by simp_all
  have ints: "a \<in> \<int>" "b \<in> \<int>"
    by (simp_all add: a_def b_def)
  have e1: "exact (b / 2)"
    using lt ints by (intro exact_intro [of _ 1]) auto
  have e2: "exact (a - b / 2)"
    using lt ints by (intro exact_intro [of _ 1]) (auto simp: left_diff_distrib abs_if)
  have e3: "exact ((a - b / 2) * 18)"
    using lt ints by (intro exact_intro [of _ 1]) (auto simp: left_diff_distrib abs_if)
  have "fan_offset i n = (Fin a - Fin b / Fin 2) * Fin 18"
    using assms(1) unfolding fan_offset_def fl by auto
  also have "\<dots> = Fin ((a - b / 2) * 18)"
    by (simp only: Fin_ops(2-4) rnd_exact [OF e1] rnd_exact [OF e2] rnd_exact [OF e3] zero_neq_numeral
      not_False_eq_True)
  finally show ?thesis
    by (simp only: a_def b_def)
qed

lemma same_pair_take_mono:
  assumes "i < j" "j < length ls" "pair_of (ls ! i) = pair_of (ls ! j)"
  shows "same_pair (take i ls) (pair_of (ls ! i)) < same_pair (take j ls) (pair_of (ls ! j))"
    "same_pair (take j ls) (pair_of (ls ! j)) < same_pair ls (pair_of (ls ! j))"
proof -
  have snoc: "same_pair (take (Suc k) ls) key = same_pair (take k ls) key + (if pair_of (ls ! k) = key then 1 else 0)"
    if "k < length ls" for k key
    using that by (simp add: same_pair_def take_Suc_conv_app_nth)
  have mono: "same_pair (take k ls) key \<le> same_pair (take m ls) key" if "k \<le> m" for k m key
  proof -
    have "take m ls = take k ls @ take (m - k) (drop k ls)"
      using that by (metis le_add_diff_inverse take_add)
    then show ?thesis
      by (simp add: same_pair_def)
  qed
  show "same_pair (take i ls) (pair_of (ls ! i)) < same_pair (take j ls) (pair_of (ls ! j))"
    using snoc [of i "pair_of (ls ! j)"] mono [of "Suc i" j "pair_of (ls ! j)"] assms by (simp add: same_pair_def)
  show "same_pair (take j ls) (pair_of (ls ! j)) < same_pair ls (pair_of (ls ! j))"
    using snoc [of j "pair_of (ls ! j)"] mono [of "Suc j" "length ls" "pair_of (ls ! j)"] assms by simp
qed

lemma every_lab:
  assumes "list_all (\<lambda>e. P (snd e)) topology_switch"
    "P \<lparr>tt_LabID = labID, tt_ComputeID = [], tt_Nodes = [], tt_Links = []\<rparr>"
  shows "P (TopologyForLab labID)"
  using assms
  by (auto simp: TopologyForLab_def lookupTopologyTemplate_def list_all_iff
      split: option.splits dest!: map_of_SomeD)

lemma lab_keys_distinct: "distinct (map link_key (tt_Links (TopologyForLab labID)))"
  by (rule every_lab [where P = "\<lambda>t. distinct (map link_key (tt_Links t))"]) (code_simp, simp)

lemma lab_links_few: "length (tt_Links (TopologyForLab labID)) \<le> 12"
  by (rule every_lab [where P = "\<lambda>t. length (tt_Links t) \<le> 12"]) (code_simp, simp)

definition same_direction :: "TopologyTemplate \<Rightarrow> bool" where
  "same_direction t =
     list_all (\<lambda>k. list_all (\<lambda>l. pair_of k = pair_of l \<longrightarrow> lt_NodeA k = lt_NodeA l) (tt_Links t)) (tt_Links t)"

lemma lab_same_direction: "same_direction (TopologyForLab labID)"
  by (rule every_lab) (code_simp, simp add: same_direction_def)

section \<open>The legend\<close>

definition is_rune :: "string \<Rightarrow> bool" where
  "is_rune r \<longleftrightarrow> r \<noteq> [] \<and> rune_len r = length r"

lemma rune_len_bounds: "rune_len s \<le> 4" "rune_len s \<le> length s"
  by (cases s rule: rune_len.cases; simp split: list.splits)+

lemma list4_cases:
  obtains "s = []" | a where "s = [a]" | a b where "s = [a, b]" | a b c where "s = [a, b, c]"
  | a b c d u where "s = a # b # c # d # u"
  by (metis list.exhaust)

lemma rune_len_take: "rune_len s = n \<Longrightarrow> 0 < n \<Longrightarrow> rune_len (take n s @ t) = n"
  by (cases s rule: list4_cases) (auto split: if_splits)

lemma is_rune_append: "is_rune r \<Longrightarrow> rune_len (r @ t) = length r"
  using rune_len_take [of r "length r" t] by (simp add: is_rune_def)

lemma is_rune_replacement: "is_rune replacement"
  by code_simp

lemma runes_are_runes: "list_all is_rune (runes s)"
proof (induction s rule: runes.induct)
  case (2 a s)
  have "is_rune (take (rune_len (a # s)) (a # s))" if "rune_len (a # s) \<noteq> 0"
    using that rune_len_take [of "a # s" "rune_len (a # s)" "[]"] rune_len_bounds(2) [of "a # s"]
    by (simp add: is_rune_def min_def del: rune_len.simps)
  then show ?case
    using 2 by (simp add: is_rune_replacement del: rune_len.simps)
qed simp

lemma runes_append: "list_all is_rune rs \<Longrightarrow> runes (concat rs @ t) = rs @ runes t"
proof (induction rs)
  case (Cons r rs)
  then obtain a u where r: "r = a # u"
    by (cases r) (auto simp: is_rune_def)
  have "rune_len (a # u @ concat rs @ t) = length r"
    using Cons.prems is_rune_append [of r "concat rs @ t"] by (simp add: r del: rune_len.simps)
  then show ?case
    using Cons by (simp add: r del: rune_len.simps)
qed simp

text \<open>Well-formed UTF-8: splitting into runes replaces nothing.\<close>

definition valid_text :: "string \<Rightarrow> bool" where
  "valid_text s \<longleftrightarrow> concat (runes s) = s"

lemma runes_concat: "list_all is_rune rs \<Longrightarrow> runes (concat rs) = rs"
  using runes_append [of rs "[]"] by simp

lemma valid_concat: "list_all is_rune rs \<Longrightarrow> valid_text (concat rs)"
  by (simp add: valid_text_def runes_concat)

lemma valid_append: "valid_text s \<Longrightarrow> valid_text t \<Longrightarrow> valid_text (s @ t)"
  using runes_append [OF runes_are_runes, of s t] by (simp add: valid_text_def)

lemma valid_Nil [simp]: "valid_text []"
  by (simp add: valid_text_def)

lemma valid_join: "valid_text sep \<Longrightarrow> list_all valid_text ws \<Longrightarrow> valid_text (join sep ws)"
  by (induction sep ws rule: join.induct) (simp_all add: valid_append)

lemma ascii_rune: "\<not> digit7 c \<Longrightarrow> cont 0 0x7F c"
  by (cases c) (simp add: cont_def)

lemma valid_ascii: "list_all (\<lambda>c. \<not> digit7 c) s \<Longrightarrow> valid_text s"
  by (induction s) (simp_all add: valid_text_def ascii_rune)

definition labels_ascii :: "TopologyTemplate \<Rightarrow> bool" where
  "labels_ascii t =
     list_all (\<lambda>l. list_all (list_all (\<lambda>c. \<not> digit7 c)) [lt_NodeA l, lt_IfaceA l, lt_NodeB l, lt_IfaceB l]) (tt_Links t)"

lemma lab_labels_ascii: "labels_ascii (TopologyForLab labID)"
  by (rule every_lab) (code_simp, simp add: labels_ascii_def)

lemma valid_literals:
  "valid_text ''(''" "valid_text '')''" "valid_text [CHR 0xE2, CHR 0x86, CHR 0x92]"
  "valid_text ''initial_build: ''" "valid_text '' ''" "valid_text [CHR 0xC2, CHR 0xB7]" "valid_text ''...''"
  by code_simp+

lemma link_words_valid: "labels_ascii t \<Longrightarrow> l \<in> set (tt_Links t) \<Longrightarrow> valid_text (link_words l)"
  unfolding link_words_def
  by (intro valid_append valid_literals) (auto simp: labels_ascii_def list_all_iff intro!: valid_ascii)

lemma build_line_valid: "labels_ascii t \<Longrightarrow> valid_text (build_line t)"
  unfolding build_line_def
  by (intro valid_append valid_join valid_literals) (simp add: list_all_iff link_words_valid)

lemma legend_runes:
  "length (runes (legend_line t)) \<le> 118"
  and legend_valid: "labels_ascii t \<Longrightarrow> valid_text (legend_line t)"
proof -
  let ?r = "runes (build_line t)"
  let ?cut = "take 115 ?r"
  have cut: "list_all is_rune ?cut"
    using runes_are_runes [of "build_line t"] by (auto simp: list_all_iff dest: in_set_takeD)
  have dots: "length (runes ''...'') = 3"
    by code_simp
  show "length (runes (legend_line t)) \<le> 118"
    by (simp add: legend_line_def Let_def runes_append [OF cut] dots)
  show "valid_text (legend_line t)" if "labels_ascii t"
    using build_line_valid [OF that] valid_append [OF valid_concat [OF cut] valid_literals(7)]
    by (simp add: legend_line_def Let_def)
qed

section \<open>The finished diagrams\<close>



lemma spread18: "a + 1 \<le> b \<Longrightarrow> (a - h) * 18 + 18 \<le> (b - h) * (18 :: rat)"
  using mult_right_mono [of "a + 1" b "18 :: rat"] by (simp add: algebra_simps)

text \<open>
  Two links of a lab between the same pair of nodes are written in the same direction and drawn
  with offsets at least 18 apart, so that no two lines lie on each other.
\<close>

theorem parallel_links_apart:
  fixes labID :: int
  defines "links \<equiv> tt_Links (TopologyForLab labID)"
  assumes "i < j" "j < length links" "pair_of (links ! i) = pair_of (links ! j)"
  shows "lt_NodeA (links ! i) = lt_NodeA (links ! j)
    \<and> (\<exists>a b. mget (parallelOffsets (TopologyForLab labID)) (link_key (links ! i)) = Some (Fin a)
         \<and> mget (parallelOffsets (TopologyForLab labID)) (link_key (links ! j)) = Some (Fin b)
         \<and> a + 18 \<le> b)"
proof -
  define n p q where "n = same_pair links (pair_of (links ! j))"
    and "p = same_pair (take i links) (pair_of (links ! i))"
    and "q = same_pair (take j links) (pair_of (links ! j))"
  have pq: "p < q" "q < n"
    using same_pair_take_mono [OF assms(2,3,4)] by (simp_all add: n_def p_def q_def)
  have "n \<le> 12"
    unfolding n_def same_pair_def links_def by (rule le_trans [OF length_filter_le lab_links_few])
  then have small: "int n < 2 ^ 20"
    by simp
  have off: "mget (parallelOffsets (TopologyForLab labID)) (link_key (links ! i)) = Some (fan_offset (int p) (int n))"
    "mget (parallelOffsets (TopologyForLab labID)) (link_key (links ! j)) = Some (fan_offset (int q) (int n))"
    using parallel_offset [OF lab_keys_distinct, of i labID] parallel_offset [OF lab_keys_distinct, of j labID] assms
    by (simp_all add: n_def p_def q_def links_def)
  have "of_int (int p) + 1 \<le> (of_int (int q) :: rat)"
    using pq by simp
  then have "(of_int (int p) - of_int (int n - 1) / 2) * 18 + 18 \<le> (of_int (int q) - of_int (int n - 1) / 2) * (18 :: rat)"
    by (rule spread18)
  moreover have "fan_offset (int k) (int n) = Fin ((of_int (int k) - of_int (int n - 1) / 2) * 18)" if "k < n" for k
    using pq that small by (intro fan_offset_exact) auto
  moreover have "lt_NodeA (links ! i) = lt_NodeA (links ! j)"
    using lab_same_direction [of labID] assms by (auto simp: same_direction_def list_all_iff links_def)
  ultimately show ?thesis
    using off pq by force
qed

lemma parallel_links_apart_witness:
  "lt_NodeA (tt_Links (TopologyForLab 26) ! 0) = lt_NodeA (tt_Links (TopologyForLab 26) ! 1)
    \<and> (\<exists>a b. mget (parallelOffsets (TopologyForLab 26)) (link_key (tt_Links (TopologyForLab 26) ! 0)) = Some (Fin a)
         \<and> mget (parallelOffsets (TopologyForLab 26)) (link_key (tt_Links (TopologyForLab 26) ! 1)) = Some (Fin b)
         \<and> a + 18 \<le> b)"
proof (rule parallel_links_apart)
  show "(0 :: nat) < 1" "1 < length (tt_Links (TopologyForLab 26))"
    "pair_of (tt_Links (TopologyForLab 26) ! 0) = pair_of (tt_Links (TopologyForLab 26) ! 1)"
    by code_simp+
qed

text \<open>
  The legend line of every lab is at most 118 characters and well-formed UTF-8: it is cut
  between characters.
\<close>

theorem legend_is_valid_text:
  "length (runes (legend_line (TopologyForLab labID))) \<le> 118 \<and> valid_text (legend_line (TopologyForLab labID))"
  by (simp add: legend_runes legend_valid lab_labels_ascii)

section \<open>The render command\<close>











end
