(* ===== verification/ConsoleBridge.thy ===== *)
theory ConsoleBridge
  imports SessionHandlers "HOL-Library.Sublist"
begin

text \<open>
  The relay of \<open>console.go\<close>: \<open>bridgeConsole\<close> with its four goroutines (pings, device to browser,
  keep-alive, browser to device) as a transition system.  A goroutine is the place in its loop; an
  action is one step of one goroutine with what the network answered, the passing of time, a tick,
  or what the caller of \<open>bridgeConsole\<close> does afterwards.  A heartbeat counts with the time it is sent;
  the close frame that ends the main loop is left out.

  The lemmas show, in this order: the invariants of the write mutex, the clocks and the heartbeats; that
  the goroutines end; how long a silent connection is kept; that no byte changes its place, and that the
  main loop is the sequential loop \<open>relay_loop\<close>; and what the heartbeats do to the session table.
\<close>

section \<open>State\<close>

record ConsoleBridgeConfig =
  PongWait :: int
  PingPeriod :: int
  WriteWait :: int

definition DefaultBridgeConfig :: ConsoleBridgeConfig where
  "DefaultBridgeConfig =
     \<lparr>PongWait = 35000000000, PingPeriod = 30000000000, WriteWait = 10000000000\<rparr>"

definition keep_period :: int where "keep_period = 60000000000"

text \<open>A \<open>time.Ticker\<close>: its channel holds one tick, further ones are dropped.\<close>

record ticker =
  tk_next :: int
  tk_due :: bool
  tk_on :: bool

definition new_ticker :: "int \<Rightarrow> int \<Rightarrow> ticker" where
  "new_ticker now period = \<lparr>tk_next = now + period, tk_due = False, tk_on = True\<rparr>"

datatype writer = PingWriter | RelayWriter

text \<open>Inside \<open>safeWrite\<close> a goroutine first waits for the mutex and then writes.\<close>

datatype ping_pc = PingSelect | PingLock | PingWrite | PingDone
datatype relay_pc = RelayRead | RelayLock string bool | RelayWrite string bool | RelayDone
datatype keep_pc = KeepSelect | KeepDone
datatype main_pc = MainRead | MainReturned

datatype ws_frame = PingFrame | BinaryFrame string

text \<open>A read error of the WebSocket: a close frame of the peer, or any other error.\<close>

datatype ws_error = CloseError int string | OtherError string

definition closeDetails :: "ws_error \<Rightarrow> int \<times> string" where
  "closeDetails e = (case e of CloseError code text \<Rightarrow> (code, text) | OtherError msg \<Rightarrow> (1006, msg))"

record bridge =
  br_now :: int
  br_done :: bool
  br_wsClosed :: bool
  br_tcpClosed :: bool
  br_mutex :: "writer option"
  br_ping :: ping_pc
  br_relay :: relay_pc
  br_keep :: keep_pc
  br_main :: main_pc
  br_pingTick :: ticker
  br_keepTick :: ticker
  br_readDeadline :: int
  br_writeDeadline :: int
  br_lastTouch :: int
  br_toBrowser :: "ws_frame list"
  br_toDevice :: "string list"
  br_beats :: "int list"
  br_closeLog :: "(string \<times> int \<times> string) option"

definition bridge_start :: "ConsoleBridgeConfig \<Rightarrow> int \<Rightarrow> bridge" where
  "bridge_start cfg now =
     \<lparr>br_now = now, br_done = False, br_wsClosed = False, br_tcpClosed = False, br_mutex = None,
      br_ping = PingSelect, br_relay = RelayRead, br_keep = KeepSelect, br_main = MainRead,
      br_pingTick = new_ticker now (PingPeriod cfg), br_keepTick = new_ticker now keep_period,
      br_readDeadline = now + PongWait cfg, br_writeDeadline = 0, br_lastTouch = now,
      br_toBrowser = [], br_toDevice = [], br_beats = [], br_closeLog = None\<rparr>"

section \<open>Actions\<close>

datatype bridge_act =
    Pass int | PingTick | KeepTick
  | PingServe | PingStop | PingAcquire | PingWrote bool
  | RelayGot string bool | RelayAcquire | RelayWrote bool
  | KeepServe | KeepStop
  | MainMsg string bool | MainPong | MainErr ws_error
  | Preempted | CallerCleanup

text \<open>
  Time does not pass beyond a tick that has not fired, beyond the read deadline the main loop waits
  for, or while it reads from a closed socket; goroutines may be delayed at any other place.
\<close>

definition may_pass :: "bridge \<Rightarrow> int \<Rightarrow> bool" where
  "may_pass b t =
     ((tk_on (br_pingTick b) \<longrightarrow> t \<le> tk_next (br_pingTick b))
      \<and> (tk_on (br_keepTick b) \<longrightarrow> t \<le> tk_next (br_keepTick b))
      \<and> (br_main b = MainRead \<longrightarrow> \<not> br_wsClosed b \<and> t \<le> br_readDeadline b))"

definition fires :: "bridge \<Rightarrow> ticker \<Rightarrow> bool" where
  "fires b tk = (tk_on tk \<and> tk_next tk \<le> br_now b)"

definition fired :: "int \<Rightarrow> ticker \<Rightarrow> ticker" where
  "fired period tk = tk\<lparr>tk_next := tk_next tk + period, tk_due := True\<rparr>"

definition take_tick :: "ticker \<Rightarrow> ticker" where "take_tick tk = tk\<lparr>tk_due := False\<rparr>"
definition stop_ticker :: "ticker \<Rightarrow> ticker" where "stop_ticker tk = tk\<lparr>tk_on := False\<rparr>"

text \<open>\<open>safeWrite\<close>: the mutex is free, then the deadline is set and the frame written.\<close>

definition acquire :: "ConsoleBridgeConfig \<Rightarrow> writer \<Rightarrow> bridge \<Rightarrow> bridge option" where
  "acquire cfg who b =
     (if br_mutex b = None
      then Some (b\<lparr>br_mutex := Some who, br_writeDeadline := br_now b + WriteWait cfg\<rparr>) else None)"

definition release :: "ws_frame option \<Rightarrow> bridge \<Rightarrow> bridge" where
  "release frame b =
     b\<lparr>br_mutex := None,
       br_toBrowser := br_toBrowser b @ (case frame of None \<Rightarrow> [] | Some f \<Rightarrow> [f])\<rparr>"

definition end_relay :: "bridge \<Rightarrow> bridge" where
  "end_relay b = b\<lparr>br_relay := RelayDone, br_done := True\<rparr>"

definition end_ping :: "bridge \<Rightarrow> bridge" where
  "end_ping b = b\<lparr>br_ping := PingDone, br_pingTick := stop_ticker (br_pingTick b)\<rparr>"

definition end_main :: "bridge \<Rightarrow> bridge" where
  "end_main b = b\<lparr>br_main := MainReturned, br_keepTick := stop_ticker (br_keepTick b)\<rparr>"

definition on_activity :: "bridge \<Rightarrow> bridge" where
  "on_activity b = b\<lparr>br_beats := br_beats b @ [br_now b]\<rparr>"

definition extend_read :: "ConsoleBridgeConfig \<Rightarrow> bridge \<Rightarrow> bridge" where
  "extend_read cfg b = b\<lparr>br_readDeadline := br_now b + PongWait cfg\<rparr>"

definition touch_after :: "bridge \<Rightarrow> bridge" where
  "touch_after b =
     (if br_now b - br_lastTouch b > touch_interval
      then (on_activity b)\<lparr>br_lastTouch := br_now b\<rparr> else b)"

definition log_close :: "ws_error \<Rightarrow> bridge \<Rightarrow> bridge" where
  "log_close e b =
     b\<lparr>br_closeLog := Some (if br_done b then ''server'' else ''client'', closeDetails e)\<rparr>"

definition ping_act :: "ConsoleBridgeConfig \<Rightarrow> bridge_act \<Rightarrow> bridge \<Rightarrow> bridge option" where
  "ping_act cfg a b =
     (case a of
        PingServe \<Rightarrow>
          (if br_ping b = PingSelect \<and> tk_due (br_pingTick b)
           then Some (b\<lparr>br_ping := PingLock, br_pingTick := take_tick (br_pingTick b)\<rparr>) else None)
      | PingStop \<Rightarrow> (if br_ping b = PingSelect \<and> br_done b then Some (end_ping b) else None)
      | PingAcquire \<Rightarrow>
          (if br_ping b = PingLock
           then map_option (\<lambda>c. c\<lparr>br_ping := PingWrite\<rparr>) (acquire cfg PingWriter b) else None)
      | PingWrote ok \<Rightarrow>
          (if br_ping b \<noteq> PingWrite \<or> ok \<and> br_wsClosed b then None
           else if ok then Some ((release (Some PingFrame) b)\<lparr>br_ping := PingSelect\<rparr>)
           else Some (end_ping (release None b)))
      | _ \<Rightarrow> None)"

definition relay_act :: "ConsoleBridgeConfig \<Rightarrow> bridge_act \<Rightarrow> bridge \<Rightarrow> bridge option" where
  "relay_act cfg a b =
     (case a of
        RelayGot bytes failed \<Rightarrow>
          (if br_relay b \<noteq> RelayRead \<or> length bytes > 4096 \<or> br_tcpClosed b \<and> (bytes \<noteq> [] \<or> \<not> failed)
           then None
           else if bytes \<noteq> [] then Some (b\<lparr>br_relay := RelayLock bytes failed\<rparr>)
           else if failed then Some (end_relay b) else Some b)
      | RelayAcquire \<Rightarrow>
          (case br_relay b of
             RelayLock bytes failed \<Rightarrow>
               map_option (\<lambda>c. c\<lparr>br_relay := RelayWrite bytes failed\<rparr>) (acquire cfg RelayWriter b)
           | _ \<Rightarrow> None)
      | RelayWrote ok \<Rightarrow>
          (case br_relay b of
             RelayWrite bytes failed \<Rightarrow>
               (if ok \<and> br_wsClosed b then None
                else if \<not> ok then Some (end_relay (release None b))
                else if failed then Some (end_relay (release (Some (BinaryFrame bytes)) b))
                else Some ((release (Some (BinaryFrame bytes)) b)\<lparr>br_relay := RelayRead\<rparr>))
           | _ \<Rightarrow> None)
      | _ \<Rightarrow> None)"

definition keep_act :: "bridge_act \<Rightarrow> bridge \<Rightarrow> bridge option" where
  "keep_act a b =
     (case a of
        KeepServe \<Rightarrow>
          (if br_keep b = KeepSelect \<and> tk_due (br_keepTick b)
           then Some (on_activity (b\<lparr>br_keepTick := take_tick (br_keepTick b)\<rparr>)) else None)
      | KeepStop \<Rightarrow> (if br_keep b = KeepSelect \<and> br_done b then Some (b\<lparr>br_keep := KeepDone\<rparr>) else None)
      | _ \<Rightarrow> None)"

text \<open>The main loop; a pong is handled inside \<open>ReadMessage\<close>, which fails once the socket is closed.\<close>

definition main_act :: "ConsoleBridgeConfig \<Rightarrow> bridge_act \<Rightarrow> bridge \<Rightarrow> bridge option" where
  "main_act cfg a b =
     (if br_main b \<noteq> MainRead then None
      else case a of
        MainMsg msg ok \<Rightarrow>
          (if br_wsClosed b \<or> ok \<and> br_tcpClosed b then None
           else let c = extend_read cfg b
                in if ok then Some (touch_after (c\<lparr>br_toDevice := br_toDevice c @ [msg]\<rparr>))
                   else Some (end_main c))
      | MainPong \<Rightarrow> (if br_wsClosed b then None else Some (extend_read cfg b))
      | MainErr e \<Rightarrow> Some (end_main (log_close e b))
      | _ \<Rightarrow> None)"

text \<open>
  The deferred calls of the handler after the bridge has returned (cancel and the two closes), and
  the callback of the console lock.
\<close>

definition env_act :: "ConsoleBridgeConfig \<Rightarrow> bridge_act \<Rightarrow> bridge \<Rightarrow> bridge option" where
  "env_act cfg a b =
     (case a of
        Pass d \<Rightarrow> (if 0 < d \<and> may_pass b (br_now b + d) then Some (b\<lparr>br_now := br_now b + d\<rparr>) else None)
      | PingTick \<Rightarrow>
          (if fires b (br_pingTick b)
           then Some (b\<lparr>br_pingTick := fired (PingPeriod cfg) (br_pingTick b)\<rparr>) else None)
      | KeepTick \<Rightarrow>
          (if fires b (br_keepTick b)
           then Some (b\<lparr>br_keepTick := fired keep_period (br_keepTick b)\<rparr>) else None)
      | Preempted \<Rightarrow> Some (b\<lparr>br_wsClosed := True\<rparr>)
      | CallerCleanup \<Rightarrow>
          (if br_main b = MainReturned
           then Some (b\<lparr>br_done := True, br_tcpClosed := True, br_wsClosed := True\<rparr>) else None)
      | _ \<Rightarrow> None)"

datatype actor = PingGo | RelayGo | KeepGo | MainGo | Outside

definition actor_of :: "bridge_act \<Rightarrow> actor" where
  "actor_of a =
     (case a of
        PingServe \<Rightarrow> PingGo | PingStop \<Rightarrow> PingGo | PingAcquire \<Rightarrow> PingGo | PingWrote ok \<Rightarrow> PingGo
      | RelayGot bytes failed \<Rightarrow> RelayGo | RelayAcquire \<Rightarrow> RelayGo | RelayWrote ok \<Rightarrow> RelayGo
      | KeepServe \<Rightarrow> KeepGo | KeepStop \<Rightarrow> KeepGo
      | MainMsg msg ok \<Rightarrow> MainGo | MainPong \<Rightarrow> MainGo | MainErr e \<Rightarrow> MainGo
      | _ \<Rightarrow> Outside)"

definition bridge_step :: "ConsoleBridgeConfig \<Rightarrow> bridge_act \<Rightarrow> bridge \<Rightarrow> bridge option" where
  "bridge_step cfg a b =
     (case actor_of a of
        PingGo \<Rightarrow> ping_act cfg a b
      | RelayGo \<Rightarrow> relay_act cfg a b
      | KeepGo \<Rightarrow> keep_act a b
      | MainGo \<Rightarrow> main_act cfg a b
      | Outside \<Rightarrow> env_act cfg a b)"

text \<open>A schedule is a list of actions; \<open>None\<close> if one of them is not possible.\<close>

fun bridgeConsole :: "ConsoleBridgeConfig \<Rightarrow> bridge_act list \<Rightarrow> bridge \<Rightarrow> bridge option" where
  "bridgeConsole cfg [] b = Some b"
| "bridgeConsole cfg (a # as) b =
     (case bridge_step cfg a b of None \<Rightarrow> None | Some c \<Rightarrow> bridgeConsole cfg as c)"

inductive bridge_reach :: "ConsoleBridgeConfig \<Rightarrow> int \<Rightarrow> bridge \<Rightarrow> bool" for cfg t0 where
  start: "bridge_reach cfg t0 (bridge_start cfg t0)"
| step: "bridge_reach cfg t0 b \<Longrightarrow> bridge_step cfg a b = Some c \<Longrightarrow> bridge_reach cfg t0 c"

section \<open>Invariants\<close>

lemmas act_defs = bridge_step_def actor_of_def ping_act_def relay_act_def keep_act_def main_act_def env_act_def
  acquire_def release_def end_relay_def end_ping_def end_main_def on_activity_def extend_read_def
  touch_after_def log_close_def fires_def fired_def take_tick_def stop_ticker_def may_pass_def

definition mutex_ok :: "bridge \<Rightarrow> bool" where
  "mutex_ok b \<longleftrightarrow>
     (br_mutex b = Some PingWriter \<longleftrightarrow> br_ping b = PingWrite)
     \<and> (br_mutex b = Some RelayWriter \<longleftrightarrow> (\<exists>bytes failed. br_relay b = RelayWrite bytes failed))"

definition clocks_ok :: "ConsoleBridgeConfig \<Rightarrow> int \<Rightarrow> bridge \<Rightarrow> bool" where
  "clocks_ok cfg t0 b \<longleftrightarrow>
     t0 \<le> br_now b \<and> br_readDeadline b \<le> br_now b + PongWait cfg
     \<and> (br_main b = MainRead \<longrightarrow> br_now b \<le> br_readDeadline b)
     \<and> (tk_on (br_keepTick b) \<longleftrightarrow> br_main b = MainRead)
     \<and> (tk_on (br_keepTick b) \<longrightarrow> br_now b \<le> tk_next (br_keepTick b))"

definition beats_ok :: "int \<Rightarrow> bridge \<Rightarrow> bool" where
  "beats_ok t0 b \<longleftrightarrow>
     (br_keep b = KeepDone \<longrightarrow> br_done b) \<and> sorted (br_beats b)
     \<and> t0 \<le> br_lastTouch b
     \<and> t0 + keep_period \<le> tk_next (br_keepTick b)
     \<and> (tk_next (br_keepTick b) = t0 + keep_period \<and> \<not> tk_due (br_keepTick b)
        \<or> tk_next (br_keepTick b) - keep_period \<le> br_now b
          \<and> t0 + keep_period \<le> tk_next (br_keepTick b) - keep_period)
     \<and> (\<forall>t\<in>set (br_beats b). t0 + touch_interval < t \<and> t \<le> br_now b)
     \<and> (br_keep b = KeepSelect \<and> \<not> tk_due (br_keepTick b) \<longrightarrow>
          tk_next (br_keepTick b) = t0 + keep_period
          \<or> (\<exists>t\<in>set (br_beats b). tk_next (br_keepTick b) - keep_period \<le> t))"

lemma keep_act_cases:
  assumes "keep_act a b = Some c"
  obtains "a = KeepServe" "br_keep b = KeepSelect" "tk_due (br_keepTick b)"
      "c = on_activity (b\<lparr>br_keepTick := take_tick (br_keepTick b)\<rparr>)"
  | "a = KeepStop" "br_keep b = KeepSelect" "br_done b" "c = b\<lparr>br_keep := KeepDone\<rparr>"
  using assms by (cases a) (auto simp: keep_act_def split: if_splits)

lemma main_act_cases:
  assumes "main_act cfg a b = Some c"
  obtains msg where "a = MainMsg msg True"
      "c = touch_after ((extend_read cfg b)\<lparr>br_toDevice := br_toDevice b @ [msg]\<rparr>)"
  | msg where "a = MainMsg msg False" "c = end_main (extend_read cfg b)"
  | "a = MainPong" "c = extend_read cfg b"
  | e where "a = MainErr e" "c = end_main (log_close e b)"
  using assms by (cases a) (auto simp: main_act_def extend_read_def Let_def split: if_splits)

lemma env_act_cases:
  assumes "env_act cfg a b = Some c"
  obtains d where "a = Pass d" "0 < d" "may_pass b (br_now b + d)" "c = b\<lparr>br_now := br_now b + d\<rparr>"
  | "a = PingTick" "fires b (br_pingTick b)" "c = b\<lparr>br_pingTick := fired (PingPeriod cfg) (br_pingTick b)\<rparr>"
  | "a = KeepTick" "fires b (br_keepTick b)" "c = b\<lparr>br_keepTick := fired keep_period (br_keepTick b)\<rparr>"
  | "a = Preempted" "c = b\<lparr>br_wsClosed := True\<rparr>"
  | "a = CallerCleanup" "br_main b = MainReturned"
      "c = b\<lparr>br_done := True, br_tcpClosed := True, br_wsClosed := True\<rparr>"
  using assms by (cases a) (auto simp: env_act_def split: if_splits)

lemma bridge_step_cases:
  assumes "bridge_step cfg a b = Some c"
  obtains "ping_act cfg a b = Some c" | "relay_act cfg a b = Some c" | "keep_act a b = Some c"
  | "main_act cfg a b = Some c" | "env_act cfg a b = Some c"
  using assms by (auto simp: bridge_step_def split: actor.splits)

definition mutex_fields :: "bridge \<Rightarrow> writer option \<times> ping_pc \<times> relay_pc" where
  "mutex_fields b = (br_mutex b, br_ping b, br_relay b)"

lemma mutex_frames:
  "keep_act a b = Some c \<Longrightarrow> mutex_fields c = mutex_fields b"
  "main_act cfg a b = Some c \<Longrightarrow> mutex_fields c = mutex_fields b"
  "env_act cfg a b = Some c \<Longrightarrow> mutex_fields c = mutex_fields b"
  by (auto simp: mutex_fields_def on_activity_def touch_after_def extend_read_def end_main_def log_close_def
      elim!: keep_act_cases main_act_cases env_act_cases)

lemma mutex_frame: "mutex_ok b \<Longrightarrow> mutex_fields c = mutex_fields b \<Longrightarrow> mutex_ok c"
  by (simp add: mutex_ok_def mutex_fields_def)

lemma mutex_ping: "mutex_ok b \<Longrightarrow> ping_act cfg a b = Some c \<Longrightarrow> mutex_ok c"
  by (cases a) (auto simp: act_defs mutex_ok_def split: if_splits)

lemma mutex_relay: "mutex_ok b \<Longrightarrow> relay_act cfg a b = Some c \<Longrightarrow> mutex_ok c"
  by (cases a) (auto simp: act_defs mutex_ok_def split: if_splits relay_pc.splits)

lemma mutex_step: "mutex_ok b \<Longrightarrow> bridge_step cfg a b = Some c \<Longrightarrow> mutex_ok c"
  by (erule bridge_step_cases) (blast intro: mutex_ping mutex_relay mutex_frame mutex_frames)+

definition clock_fields :: "bridge \<Rightarrow> int \<times> int \<times> main_pc \<times> ticker" where
  "clock_fields b = (br_now b, br_readDeadline b, br_main b, br_keepTick b)"

lemma relay_clocks: "relay_act cfg a b = Some c \<Longrightarrow> clock_fields c = clock_fields b"
  by (cases a) (auto simp: act_defs clock_fields_def split: if_splits relay_pc.splits)

lemma ping_clocks: "ping_act cfg a b = Some c \<Longrightarrow> clock_fields c = clock_fields b"
  by (cases a) (auto simp: act_defs clock_fields_def split: if_splits)

lemma clocks_frame: "clocks_ok cfg t0 b \<Longrightarrow> clock_fields c = clock_fields b \<Longrightarrow> clocks_ok cfg t0 c"
  by (simp add: clocks_ok_def clock_fields_def)

lemma clocks_keep: "clocks_ok cfg t0 b \<Longrightarrow> keep_act a b = Some c \<Longrightarrow> clocks_ok cfg t0 c"
  by (erule keep_act_cases) (simp_all add: clocks_ok_def on_activity_def take_tick_def)

lemma clocks_main:
  "clocks_ok cfg t0 b \<Longrightarrow> 0 \<le> PongWait cfg \<Longrightarrow> main_act cfg a b = Some c \<Longrightarrow> clocks_ok cfg t0 c"
  by (erule main_act_cases)
    (auto simp: clocks_ok_def touch_after_def on_activity_def extend_read_def end_main_def log_close_def stop_ticker_def)

lemma clocks_env: "clocks_ok cfg t0 b \<Longrightarrow> env_act cfg a b = Some c \<Longrightarrow> clocks_ok cfg t0 c"
  by (erule env_act_cases) (auto simp: clocks_ok_def may_pass_def fires_def fired_def keep_period_def)

lemma clocks_step:
  "clocks_ok cfg t0 b \<Longrightarrow> 0 \<le> PongWait cfg \<Longrightarrow> bridge_step cfg a b = Some c \<Longrightarrow> clocks_ok cfg t0 c"
  by (erule bridge_step_cases)
    (blast intro: clocks_frame relay_clocks ping_clocks clocks_keep clocks_main clocks_env)+

definition beat_fields :: "bridge \<Rightarrow> int \<times> keep_pc \<times> int \<times> int \<times> bool \<times> int list" where
  "beat_fields b = (br_now b, br_keep b, br_lastTouch b, tk_next (br_keepTick b), tk_due (br_keepTick b), br_beats b)"

lemma beats_frame:
  "beats_ok t0 b \<Longrightarrow> beat_fields c = beat_fields b \<Longrightarrow> br_done b \<longrightarrow> br_done c \<Longrightarrow> beats_ok t0 c"
  by (simp add: beats_ok_def beat_fields_def)

lemma relay_frame: "relay_act cfg a b = Some c \<Longrightarrow> beat_fields c = beat_fields b \<and> (br_done b \<longrightarrow> br_done c)"
  by (cases a) (auto simp: act_defs beat_fields_def split: if_splits relay_pc.splits)

lemma ping_frame: "ping_act cfg a b = Some c \<Longrightarrow> beat_fields c = beat_fields b \<and> (br_done b \<longrightarrow> br_done c)"
  by (cases a) (auto simp: act_defs beat_fields_def split: if_splits)

lemma beats_more:
  assumes "beats_ok t0 b" "t0 + touch_interval < br_now b" "t0 \<le> br_now b"
  shows "beats_ok t0 ((on_activity b)\<lparr>br_lastTouch := br_now b\<rparr>)"
  using assms unfolding beats_ok_def on_activity_def by (simp add: sorted_append) (meson order_refl)

lemma beats_main:
  assumes "beats_ok t0 b" "t0 \<le> br_now b" "main_act cfg a b = Some c"
  shows "beats_ok t0 c"
  using assms(3)
proof (cases rule: main_act_cases)
  case (1 msg)
  let ?d = "(extend_read cfg b)\<lparr>br_toDevice := br_toDevice b @ [msg]\<rparr>"
  have "beats_ok t0 ?d"
    using assms(1) by (rule beats_frame) (simp_all add: beat_fields_def extend_read_def)
  moreover have "t0 \<le> br_lastTouch b"
    using assms(1) by (simp add: beats_ok_def)
  ultimately show ?thesis
    using 1(2) beats_more [of t0 ?d] assms(2) by (auto simp: touch_after_def extend_read_def)
qed (use beats_frame [OF assms(1), of c] in
  \<open>simp_all add: beat_fields_def extend_read_def end_main_def stop_ticker_def log_close_def\<close>)

lemma beats_env:
  assumes "beats_ok t0 b" "env_act cfg a b = Some c"
  shows "beats_ok t0 c"
  using assms(2)
proof (cases rule: env_act_cases)
  case (1 d)
  then show ?thesis
    using assms(1) unfolding beats_ok_def by fastforce
next
  case 3
  then show ?thesis
    using assms(1) by (auto simp: fires_def fired_def beats_ok_def keep_period_def)
qed (use beats_frame [OF assms(1), of c] in \<open>simp_all add: beat_fields_def\<close>)

lemma beats_keep:
  assumes "beats_ok t0 b" "keep_act a b = Some c"
  shows "beats_ok t0 c"
  using assms(2)
proof (cases rule: keep_act_cases)
  case 1
  then have "tk_next (br_keepTick b) - keep_period \<le> br_now b" "t0 + keep_period \<le> tk_next (br_keepTick b) - keep_period"
    "\<forall>t\<in>set (br_beats b). t0 + touch_interval < t \<and> t \<le> br_now b" "t0 \<le> br_lastTouch b" "sorted (br_beats b)"
    using assms(1) by (auto simp: beats_ok_def)
  then show ?thesis
    unfolding 1(4) beats_ok_def using 1(2)
    by (auto simp: on_activity_def take_tick_def keep_period_def touch_interval_def sorted_append)
qed (use assms(1) in \<open>simp add: beats_ok_def\<close>)

lemma beats_step:
  assumes "beats_ok t0 b" "t0 \<le> br_now b" "bridge_step cfg a b = Some c"
  shows "beats_ok t0 c"
  using assms(3)
proof (cases rule: bridge_step_cases)
  case 1
  then show ?thesis
    using beats_frame [OF assms(1)] ping_frame by blast
next
  case 2
  then show ?thesis
    using beats_frame [OF assms(1)] relay_frame by blast
qed (use assms(1,2) beats_keep beats_main beats_env in blast)+

lemma bridge_invariants:
  assumes "bridge_reach cfg t0 b" "0 \<le> PongWait cfg"
  shows "mutex_ok b" "clocks_ok cfg t0 b" "beats_ok t0 b"
proof -
  from assms(1) have "mutex_ok b \<and> clocks_ok cfg t0 b \<and> beats_ok t0 b"
  proof induction
    case start
    show ?case
      using assms(2) by (simp add: bridge_start_def mutex_ok_def clocks_ok_def beats_ok_def new_ticker_def keep_period_def)
  next
    case (step b a c)
    then have "t0 \<le> br_now b"
      by (simp add: clocks_ok_def)
    then show ?case
      using step mutex_step clocks_step assms(2) beats_step by blast
  qed
  then show "mutex_ok b" "clocks_ok cfg t0 b" "beats_ok t0 b"
    by simp_all
qed

section \<open>Shutdown\<close>

text \<open>The state after the deferred calls of the handler, and the steps the goroutines have left.\<close>

definition closing :: "bridge \<Rightarrow> bool" where
  "closing b \<longleftrightarrow> br_main b = MainReturned \<and> br_done b \<and> br_tcpClosed b \<and> br_wsClosed b"

definition pending :: "bridge \<Rightarrow> nat" where
  "pending b =
     (case br_ping b of PingSelect \<Rightarrow> 3 | PingLock \<Rightarrow> 2 | PingWrite \<Rightarrow> 1 | PingDone \<Rightarrow> 0)
     + (case br_relay b of RelayRead \<Rightarrow> 1 | RelayLock bytes failed \<Rightarrow> 2 | RelayWrite bytes failed \<Rightarrow> 1 | RelayDone \<Rightarrow> 0)
     + (case br_keep b of KeepSelect \<Rightarrow> if tk_due (br_keepTick b) then 2 else 1 | KeepDone \<Rightarrow> 0)"

definition own_steps :: "bridge_act list \<Rightarrow> nat" where
  "own_steps as = length (filter (\<lambda>a. actor_of a \<noteq> Outside) as)"

lemma pending_ping: "closing b \<Longrightarrow> ping_act cfg a b = Some c \<Longrightarrow> closing c \<and> pending c < pending b"
  by (cases a) (auto simp: act_defs closing_def pending_def split: if_splits)

lemma pending_relay: "closing b \<Longrightarrow> relay_act cfg a b = Some c \<Longrightarrow> closing c \<and> pending c < pending b"
  by (cases a) (auto simp: act_defs closing_def pending_def split: if_splits relay_pc.splits)

lemma pending_keep: "closing b \<Longrightarrow> keep_act a b = Some c \<Longrightarrow> closing c \<and> pending c < pending b"
  by (erule keep_act_cases) (auto simp: closing_def pending_def on_activity_def take_tick_def)

lemma pending_env:
  "closing b \<Longrightarrow> \<not> tk_on (br_keepTick b) \<Longrightarrow> env_act cfg a b = Some c \<Longrightarrow>
     closing c \<and> pending c \<le> pending b \<and> \<not> tk_on (br_keepTick c)"
  by (erule env_act_cases) (auto simp: closing_def pending_def fires_def)

lemma pending_step:
  assumes "clocks_ok cfg t0 b" "closing b" "bridge_step cfg a b = Some c"
  shows "closing c \<and> pending c + own_steps [a] \<le> pending b"
proof (cases "actor_of a")
  case Outside
  moreover have "\<not> tk_on (br_keepTick b)"
    using assms(1,2) by (simp add: clocks_ok_def closing_def)
  ultimately show ?thesis
    using assms(2,3) pending_env [of b cfg a c] by (simp add: bridge_step_def own_steps_def)
next
  case MainGo
  then show ?thesis
    using assms(2,3) by (simp add: bridge_step_def main_act_def closing_def)
qed (use assms(2,3) pending_ping [of b cfg a c] pending_relay [of b cfg a c] pending_keep [of b a c] in
  \<open>simp_all add: bridge_step_def own_steps_def\<close>)

lemma own_steps_Cons: "own_steps (a # as) = own_steps [a] + own_steps as"
  by (simp add: own_steps_def)

lemma pending_schedule:
  "bridge_reach cfg t0 b \<Longrightarrow> 0 \<le> PongWait cfg \<Longrightarrow> closing b \<Longrightarrow> bridgeConsole cfg as b = Some c \<Longrightarrow>
     closing c \<and> pending c + own_steps as \<le> pending b"
proof (induction "as" arbitrary: b)
  case (Cons a as)
  then obtain d where d: "bridge_step cfg a b = Some d" "bridgeConsole cfg as d = Some c"
    by (auto split: option.splits)
  have "closing d \<and> pending d + own_steps [a] \<le> pending b"
    using pending_step [OF bridge_invariants(2) Cons.prems(3) d(1)] Cons.prems by blast
  moreover have "bridge_reach cfg t0 d"
    using Cons.prems(1) d(1) by (rule bridge_reach.step)
  ultimately show ?case
    using Cons.IH [of d] Cons.prems(2) d(2) own_steps_Cons [of a as] by linarith
qed (simp add: own_steps_def)

lemma pending_progress:
  assumes "mutex_ok b" "closing b" "pending b \<noteq> 0"
  shows "\<exists>a. actor_of a \<noteq> Outside \<and> bridge_step cfg a b \<noteq> None"
proof -
  note defs = bridge_step_def actor_of_def ping_act_def relay_act_def keep_act_def acquire_def
  consider (keep) "br_keep b = KeepSelect" | (ping) "br_ping b = PingSelect" | (writing) "br_ping b = PingWrite"
    | (read) "br_relay b = RelayRead" | (relay) bytes failed where "br_relay b = RelayWrite bytes failed"
    | (wait) "br_ping b = PingLock" "br_mutex b = None"
    | (lock) bytes failed where "br_relay b = RelayLock bytes failed" "br_mutex b = None"
    using assms(1,3) unfolding mutex_ok_def pending_def
    by (cases "br_mutex b"; cases "br_ping b"; cases "br_relay b"; cases "br_keep b") (auto, (metis writer.exhaust)+)
  then show ?thesis
  proof cases
    case keep
    then show ?thesis
      using assms(2) by (intro exI [of _ KeepStop]) (simp add: defs closing_def)
  next
    case ping
    then show ?thesis
      using assms(2) by (intro exI [of _ PingStop]) (simp add: defs closing_def)
  next
    case writing
    then show ?thesis
      by (intro exI [of _ "PingWrote False"]) (simp add: defs)
  next
    case read
    then show ?thesis
      by (intro exI [of _ "RelayGot [] True"]) (simp add: defs)
  next
    case relay
    then show ?thesis
      by (intro exI [of _ "RelayWrote False"]) (simp add: defs)
  next
    case wait
    then show ?thesis
      by (intro exI [of _ PingAcquire]) (simp add: defs)
  next
    case lock
    then show ?thesis
      by (intro exI [of _ RelayAcquire]) (simp add: defs)
  qed
qed

section \<open>How long the main loop waits\<close>






lemma reach_schedule: "bridge_reach cfg t0 b \<Longrightarrow> bridgeConsole cfg as b = Some c \<Longrightarrow> bridge_reach cfg t0 c"
  by (induction "as" arbitrary: b) (auto split: option.splits intro: bridge_reach.step)

text \<open>
  When the device closes its connection the context is cancelled and the pings and the keep-alive
  end, but the main loop waits for the WebSocket until its read deadline.
\<close>

lemma dead_device_keeps_bridge:
  "\<exists>b. bridgeConsole DefaultBridgeConfig
      [RelayGot [] True, PingStop, KeepStop, Pass 35000000000] (bridge_start DefaultBridgeConfig 0) = Some b
    \<and> br_done b \<and> br_relay b = RelayDone \<and> br_ping b = PingDone \<and> br_keep b = KeepDone
    \<and> br_main b = MainRead \<and> br_now b = 35000000000"
  by (simp add: act_defs bridge_start_def DefaultBridgeConfig_def new_ticker_def keep_period_def)

section \<open>Order of the data\<close>

definition frame_bytes :: "ws_frame \<Rightarrow> string" where
  "frame_bytes f = (case f of PingFrame \<Rightarrow> [] | BinaryFrame bytes \<Rightarrow> bytes)"

definition delivered :: "bridge \<Rightarrow> string" where
  "delivered b = concat (map frame_bytes (br_toBrowser b))"

definition in_flight :: "bridge \<Rightarrow> string" where
  "in_flight b = (case br_relay b of RelayLock bytes failed \<Rightarrow> bytes | RelayWrite bytes failed \<Rightarrow> bytes | _ \<Rightarrow> [])"

definition bytes_read :: "bridge_act list \<Rightarrow> string" where
  "bytes_read as = concat (map (\<lambda>a. case a of RelayGot bytes failed \<Rightarrow> bytes | _ \<Rightarrow> []) as)"

definition data_ok :: "string \<Rightarrow> bridge \<Rightarrow> bool" where
  "data_ok got b \<longleftrightarrow>
     (\<exists>lost. got = delivered b @ in_flight b @ lost \<and> (br_relay b \<noteq> RelayDone \<longrightarrow> lost = []))"

definition data_fields :: "bridge \<Rightarrow> ws_frame list \<times> relay_pc" where
  "data_fields b = (br_toBrowser b, br_relay b)"

lemma data_frames:
  "keep_act a b = Some c \<Longrightarrow> data_fields c = data_fields b"
  "main_act cfg a b = Some c \<Longrightarrow> data_fields c = data_fields b"
  "env_act cfg a b = Some c \<Longrightarrow> data_fields c = data_fields b"
  by (auto simp: data_fields_def on_activity_def touch_after_def extend_read_def end_main_def log_close_def
      elim!: keep_act_cases main_act_cases env_act_cases)

lemma data_ping: "ping_act cfg a b = Some c \<Longrightarrow> delivered c = delivered b \<and> br_relay c = br_relay b"
  by (cases a) (auto simp: act_defs delivered_def frame_bytes_def split: if_splits)

lemma data_relay: "data_ok got b \<Longrightarrow> relay_act cfg a b = Some c \<Longrightarrow> data_ok (got @ bytes_read [a]) c"
  by (cases a) (auto simp: act_defs data_ok_def delivered_def in_flight_def bytes_read_def frame_bytes_def
    split: if_splits relay_pc.splits)

lemma data_step:
  assumes "data_ok got b" "bridge_step cfg a b = Some c"
  shows "data_ok (got @ bytes_read [a]) c"
proof (cases "actor_of a = RelayGo")
  case True
  then show ?thesis
    using assms data_relay by (simp add: bridge_step_def)
next
  case False
  then have "bytes_read [a] = []"
    by (cases a) (simp_all add: bytes_read_def actor_of_def)
  moreover have "delivered c = delivered b \<and> br_relay c = br_relay b"
    using assms(2) False data_frames data_ping
    by (auto simp: bridge_step_def data_fields_def delivered_def split: actor.splits)
  ultimately show ?thesis
    using assms(1) by (simp add: data_ok_def in_flight_def)
qed

lemma bytes_read_Cons: "bytes_read (a # as) = bytes_read [a] @ bytes_read as"
  by (simp add: bytes_read_def)

lemma data_schedule:
  "data_ok got b \<Longrightarrow> bridgeConsole cfg as b = Some c \<Longrightarrow> data_ok (got @ bytes_read as) c"
proof (induction "as" arbitrary: got b)
  case (Cons a as)
  then show ?case
    using data_step by (fastforce simp: bytes_read_Cons [of a as] split: option.splits)
qed (simp add: bytes_read_def)

text \<open>
  What the main loop reads in a schedule, each with its time, and the sequential loop \<open>relay_loop\<close> that
  the goroutines around it do not disturb.
\<close>

definition main_read :: "int \<Rightarrow> bridge_act \<Rightarrow> (int \<times> ws_read) list" where
  "main_read now a =
     (case a of
        MainMsg msg ok \<Rightarrow> [(now, WsMsg msg ok)]
      | MainErr e \<Rightarrow> [(now, WsClosed (fst (closeDetails e)) (snd (closeDetails e)))]
      | _ \<Rightarrow> [])"

fun main_trace :: "ConsoleBridgeConfig \<Rightarrow> bridge_act list \<Rightarrow> bridge \<Rightarrow> (int \<times> ws_read) list" where
  "main_trace cfg [] b = []"
| "main_trace cfg (a # as) b =
     (case bridge_step cfg a b of None \<Rightarrow> [] | Some c \<Rightarrow> main_read (br_now b) a @ main_trace cfg as c)"

definition loop_fields :: "bridge \<Rightarrow> int \<times> string list \<times> (string \<times> int \<times> string) option \<times> main_pc" where
  "loop_fields b = (br_lastTouch b, br_toDevice b, br_closeLog b, br_main b)"

lemma loop_frames:
  assumes "bridge_step cfg a b = Some c" "actor_of a \<noteq> MainGo"
  shows "loop_fields c = loop_fields b \<and> main_read t a = [] \<and> (\<exists>more. br_beats c = br_beats b @ more)"
  using assms
  by (cases a) (auto simp: act_defs main_read_def loop_fields_def split: if_splits relay_pc.splits)

lemma returned_trace: "br_main b = MainReturned \<Longrightarrow> bridgeConsole cfg as b = Some c \<Longrightarrow>
    main_trace cfg as b = [] \<and> br_toDevice c = br_toDevice b \<and> br_closeLog c = br_closeLog b
    \<and> (\<exists>more. br_beats c = br_beats b @ more)"
proof (induction "as" arbitrary: b)
  case (Cons a as)
  obtain d where d: "bridge_step cfg a b = Some d" "bridgeConsole cfg as d = Some c"
    using Cons.prems(2) by (auto split: option.splits)
  have "actor_of a \<noteq> MainGo"
    using d(1) Cons.prems(1) by (auto simp: bridge_step_def main_act_def)
  with loop_frames [OF d(1)] Cons.IH [of d] Cons.prems(1) d show ?case
    by (fastforce simp: loop_fields_def)
qed simp

lemma loop_schedule:
  assumes "bridgeConsole cfg as b = Some c" "br_main b = MainRead" "br_closeLog b = None"
  shows "\<exists>ms ts cl. relay_loop (br_lastTouch b) (main_trace cfg as b) = (ms, ts, cl)
    \<and> br_toDevice c = br_toDevice b @ ms \<and> subseq (br_beats b @ ts) (br_beats c)
    \<and> map_option snd (br_closeLog c) = cl"
  using assms
proof (induction "as" arbitrary: b)
  case (Cons a as)
  obtain d where d: "bridge_step cfg a b = Some d" "bridgeConsole cfg as d = Some c"
    using Cons.prems(1) by (auto split: option.splits)
  show ?case
  proof (cases "actor_of a = MainGo")
    case False
    obtain more where f: "loop_fields d = loop_fields b" "main_read (br_now b) a = []" "br_beats d = br_beats b @ more"
      using loop_frames [OF d(1) False] by blast
    have "subseq (br_beats b @ ts) (br_beats c)" if "subseq (br_beats d @ ts) (br_beats c)" for ts
    proof -
      have "subseq (br_beats b @ ts) (br_beats b @ more @ ts)"
        by (intro list_emb_append_mono list_emb_append2) auto
      then show ?thesis
        using that f(3) by (auto intro: subseq_order.order_trans)
    qed
    then show ?thesis
      using Cons.IH [OF d(2)] Cons.prems(2,3) f d(1) by (fastforce simp: loop_fields_def)
  next
    case True
    then have m: "main_act cfg a b = Some d"
      using d(1) by (simp add: bridge_step_def)
    then show ?thesis
    proof (cases rule: main_act_cases)
      case (1 msg)
      have e: "br_main d = MainRead" "br_closeLog d = None" "br_toDevice d = br_toDevice b @ [msg]"
        "br_lastTouch d = (if br_now b - br_lastTouch b > touch_interval then br_now b else br_lastTouch b)"
        "br_beats d = br_beats b @ (if br_now b - br_lastTouch b > touch_interval then [br_now b] else [])"
        using 1(2) Cons.prems(2,3) by (simp_all add: touch_after_def on_activity_def extend_read_def)
      show ?thesis
        using Cons.IH [OF d(2) e(1,2)] d(1) 1(1) e(3-) by (auto simp: main_read_def split: if_splits)
    next
      case (2 msg)
      then show ?thesis
        using returned_trace [OF _ d(2)] d(1) Cons.prems(3) by (auto simp: main_read_def end_main_def extend_read_def)
    next
      case 3
      then show ?thesis
        using Cons.IH [OF d(2)] d(1) Cons.prems(2,3) by (auto simp: main_read_def extend_read_def)
    next
      case (4 e)
      then show ?thesis
        using returned_trace [OF _ d(2)] d(1) by (auto simp: main_read_def end_main_def log_close_def)
    qed
  qed
qed simp

section \<open>Heartbeats and the session table\<close>

text \<open>\<open>onActivity\<close>: the heartbeats of a connection, each at its time.\<close>

definition record_beat :: "uuid \<Rightarrow> 's world \<Rightarrow> int \<Rightarrow> 's world" where
  "record_beat i w t = fst (Heartbeat (w\<lparr>w_now := t\<rparr>) i)"

definition record_beats :: "uuid \<Rightarrow> 's world \<Rightarrow> int list \<Rightarrow> 's world" where
  "record_beats i w ts = foldl (record_beat i) w ts"

lemma excl_touch: "excl_ok (update_row i (\<lambda>s. s\<lparr>s_LastActiveAt := t\<rparr>) rows) = excl_ok rows"
proof -
  have "map (\<lambda>s. (s_UserID s, s_LabID s)) (filter active (update_row i (\<lambda>s. s\<lparr>s_LastActiveAt := t\<rparr>) rows))
      = map (\<lambda>s. (s_UserID s, s_LabID s)) (filter active rows)"
    by (induction rows) (simp_all add: update_row_def)
  then show ?thesis
    by (simp add: excl_ok_def)
qed

lemma record_beat_rows:
  assumes "w_faults w = []" "excl_ok (w_rows w)"
  shows "w_rows (record_beat i w t) = update_row i (\<lambda>s. s\<lparr>s_LastActiveAt := t\<rparr>) (w_rows w)"
    and "w_faults (record_beat i w t) = []" and "excl_ok (w_rows (record_beat i w t))"
  using assms by (simp_all add: record_beat_def Heartbeat_def Touch_def db_write_def next_outcome_def excl_touch)

lemma touched_rows: "list_all (\<lambda>s. s_ID s = i \<longrightarrow> s_LastActiveAt s = t) (update_row i (\<lambda>s. s\<lparr>s_LastActiveAt := t\<rparr>) rows)"
  by (induction rows) (simp_all add: update_row_def)

lemma record_beats_ok:
  "w_faults w = [] \<Longrightarrow> excl_ok (w_rows w) \<Longrightarrow>
     w_faults (record_beats i w ts) = [] \<and> excl_ok (w_rows (record_beats i w ts))"
  unfolding record_beats_def by (induction ts arbitrary: w) (simp_all add: record_beat_rows(2,3))

lemma record_beats_last:
  assumes "w_faults w = []" "excl_ok (w_rows w)" "ts \<noteq> []"
  shows "list_all (\<lambda>s. s_ID s = i \<longrightarrow> s_LastActiveAt s = last ts) (w_rows (record_beats i w ts))"
proof -
  obtain us t where ts: "ts = us @ [t]"
    using assms(3) by (metis rev_exhaust)
  have "w_rows (record_beats i w ts) = update_row i (\<lambda>s. s\<lparr>s_LastActiveAt := t\<rparr>) (w_rows (record_beats i w us))"
    using record_beat_rows(1) [of "record_beats i w us" i t] record_beats_ok [OF assms(1,2), of i us] by (simp add: ts record_beats_def)
  then show ?thesis
    by (simp add: ts touched_rows)
qed

lemma recent_beat:
  assumes "bridge_reach cfg t0 b" "0 \<le> PongWait cfg" "br_main b = MainRead" "\<not> br_done b"
    "\<not> tk_due (br_keepTick b)" "t0 + keep_period < br_now b"
  shows "br_beats b \<noteq> [] \<and> br_now b - keep_period \<le> last (br_beats b)"
proof -
  note inv = bridge_invariants(2,3) [OF assms(1,2)]
  have "br_now b \<le> tk_next (br_keepTick b)" "br_keep b = KeepSelect"
    using inv assms(3,4) by (auto simp: clocks_ok_def beats_ok_def intro: keep_pc.exhaust)
  then obtain t where t: "t \<in> set (br_beats b)" "br_now b - keep_period \<le> t"
    using inv(2) assms(5,6) by (fastforce simp: beats_ok_def)
  moreover have "t \<le> last (br_beats b)"
    using inv(2) t(1) by (cases "br_beats b" rule: rev_cases) (auto simp: beats_ok_def sorted_append)
  ultimately show ?thesis
    by auto
qed

text \<open>Opening a console is no activity: the first twenty seconds pass without a heartbeat.\<close>

lemma opening_is_no_activity:
  assumes "bridge_reach cfg t0 b" "0 \<le> PongWait cfg" "br_now b \<le> t0 + touch_interval"
  shows "br_beats b = []"
proof (rule ccontr)
  assume "br_beats b \<noteq> []"
  then have "hd (br_beats b) \<in> set (br_beats b)"
    by simp
  then show False
    using bridge_invariants(3) [OF assms(1,2)] assms(3) by (force simp: beats_ok_def)
qed

section \<open>Properties\<close>

text \<open>
  Never two goroutines are inside \<open>WriteMessage\<close> at the same time.
\<close>

theorem bridge_one_writer:
  assumes "bridge_reach cfg t0 b" "0 \<le> PongWait cfg"
  shows "\<not> (br_ping b = PingWrite \<and> (\<exists>bytes failed. br_relay b = RelayWrite bytes failed))"
  using bridge_invariants(1) [OF assms] by (auto simp: mutex_ok_def)

definition all_done :: "bridge \<Rightarrow> bool" where
  "all_done b \<longleftrightarrow> br_ping b = PingDone \<and> br_relay b = RelayDone \<and> br_keep b = KeepDone"

text \<open>
  C20: no goroutine of a console connection outlives it: after the deferred calls of the handler any
  schedule lets the goroutines make at most seven more steps, and as long as one of them is left,
  one can make a step.
\<close>

theorem bridge_shuts_down:
  assumes "bridge_reach cfg t0 b" "0 \<le> PongWait cfg" "closing b" "bridgeConsole cfg as b = Some c"
  shows "own_steps as \<le> 7
    \<and> (all_done c \<or> (\<exists>a. actor_of a \<noteq> Outside \<and> bridge_step cfg a c \<noteq> None))"
proof -
  have c: "closing c" "pending c + own_steps as \<le> pending b"
    using pending_schedule [OF assms] by simp_all
  have "pending b \<le> 7"
    by (simp add: pending_def split: ping_pc.split relay_pc.split keep_pc.split)
  moreover have "pending c = 0 \<Longrightarrow> all_done c"
    by (auto simp: pending_def all_done_def split: ping_pc.splits relay_pc.splits keep_pc.splits if_splits)
  ultimately show ?thesis
    using pending_progress [OF bridge_invariants(1) c(1)] reach_schedule [OF assms(1,4)] assms(2) c(2)
    by fastforce
qed

lemma bridge_shuts_down_witness:
  "\<exists>b c. bridgeConsole DefaultBridgeConfig [MainErr (CloseError 1001 []), CallerCleanup] (bridge_start DefaultBridgeConfig 0) = Some b
    \<and> bridgeConsole DefaultBridgeConfig [PingStop, RelayGot [] True] b = Some c
    \<and> own_steps [PingStop, RelayGot [] True] \<le> 7
    \<and> (all_done c \<or> (\<exists>a. actor_of a \<noteq> Outside \<and> bridge_step DefaultBridgeConfig a c \<noteq> None))"
proof -
  obtain b where b: "bridgeConsole DefaultBridgeConfig [MainErr (CloseError 1001 []), CallerCleanup]
      (bridge_start DefaultBridgeConfig 0) = Some b" "closing b"
      "\<exists>c. bridgeConsole DefaultBridgeConfig [PingStop, RelayGot [] True] b = Some c"
    by (simp add: act_defs bridge_start_def DefaultBridgeConfig_def new_ticker_def keep_period_def closing_def)
  then obtain c where c: "bridgeConsole DefaultBridgeConfig [PingStop, RelayGot [] True] b = Some c"
    by blast
  have "0 \<le> PongWait DefaultBridgeConfig"
    by (simp add: DefaultBridgeConfig_def)
  from bridge_shuts_down [OF reach_schedule [OF bridge_reach.start b(1)] this b(2) c] show ?thesis
    using b(1) c by blast
qed



text \<open>
  C22: however the goroutines interleave, the main loop does what the sequential loop does on what it
  reads: the same messages reach the device in the same order, the same close is reported, and the
  heartbeats of the keys are among the heartbeats sent; and the browser gets the bytes of the device
  in their order without a gap, with at most the chunk about to be written missing while the relay runs.
\<close>

theorem bridge_refines_loop:
  assumes "bridgeConsole cfg as (bridge_start cfg t0) = Some b"
  shows "(\<exists>touches. relay_loop t0 (main_trace cfg as (bridge_start cfg t0))
        = (br_toDevice b, touches, map_option snd (br_closeLog b)) \<and> subseq touches (br_beats b))
    \<and> (\<exists>lost. bytes_read as = delivered b @ in_flight b @ lost \<and> (lost = [] \<or> br_relay b = RelayDone))"
proof -
  have "data_ok [] (bridge_start cfg t0)"
    by (simp add: data_ok_def bridge_start_def delivered_def in_flight_def)
  then have "data_ok (bytes_read as) b"
    using data_schedule [OF _ assms, of "[]"] by simp
  then show ?thesis
    using loop_schedule [OF assms] by (force simp: data_ok_def bridge_start_def)
qed

lemma bridge_refines_loop_witness:
  "\<exists>b. bridgeConsole DefaultBridgeConfig [RelayGot ''R1#'' False, MainMsg ''sh'' True, RelayAcquire, RelayWrote True]
       (bridge_start DefaultBridgeConfig 0) = Some b
    \<and> (\<exists>touches. relay_loop 0 [(0, WsMsg ''sh'' True)] = (br_toDevice b, touches, map_option snd (br_closeLog b))
        \<and> subseq touches (br_beats b))
    \<and> (\<exists>lost. ''R1#'' = delivered b @ in_flight b @ lost \<and> (lost = [] \<or> br_relay b = RelayDone))"
proof -
  let ?as = "[RelayGot ''R1#'' False, MainMsg ''sh'' True, RelayAcquire, RelayWrote True]"
  obtain b where b: "bridgeConsole DefaultBridgeConfig ?as (bridge_start DefaultBridgeConfig 0) = Some b"
    by (simp add: act_defs bridge_start_def DefaultBridgeConfig_def new_ticker_def keep_period_def touch_interval_def Let_def)
  have "main_trace DefaultBridgeConfig ?as (bridge_start DefaultBridgeConfig 0) = [(0, WsMsg ''sh'' True)]"
    by (simp add: act_defs bridge_start_def DefaultBridgeConfig_def new_ticker_def keep_period_def touch_interval_def Let_def main_read_def)
  moreover have "bytes_read ?as = ''R1#''"
    by (simp add: bytes_read_def)
  ultimately show ?thesis
    using b bridge_refines_loop [OF b] by auto
qed

text \<open>
  C21: the reaper leaves the session of an open console alone: once a console has been open for more
  than a minute, with its context alive and no tick of the keep-alive waiting, and with a working
  database, the session is not among the stale ones, whatever idle timeout of whole minutes is set.
\<close>

theorem open_console_not_suspended:
  assumes "bridge_reach cfg t0 b" "0 \<le> PongWait cfg" "br_main b = MainRead" "\<not> br_done b"
    "\<not> tk_due (br_keepTick b)" "t0 + keep_period < br_now b"
    "w_faults w = []" "excl_ok (w_rows w)" "1 \<le> mins"
  shows "\<exists>stale. snd (StaleRunning ((record_beats i w (br_beats b))\<lparr>w_now := br_now b\<rparr>) mins) = Inr stale
    \<and> i \<notin> s_ID ` set stale"
proof -
  let ?w = "record_beats i w (br_beats b)"
  have r: "br_beats b \<noteq> []" "br_now b - keep_period \<le> last (br_beats b)"
    using recent_beat [OF assms(1-6)] by simp_all
  have "br_now b - mins * 60000000000 \<le> br_now b - keep_period"
    using assms(9) by (simp add: keep_period_def)
  then have "\<not> stale_running (br_now b) mins s" if "s \<in> set (w_rows ?w)" "s_ID s = i" for s
    using record_beats_last [OF assms(7,8) r(1), of i] r(2) that by (auto simp: stale_running_def list_all_iff)
  moreover have "w_faults ?w = []"
    using record_beats_ok [OF assms(7,8)] by blast
  ultimately show ?thesis
    by (auto simp: StaleRunning_def db_read_def next_outcome_def)
qed

lemma open_console_not_suspended_witness:
  "\<exists>b. bridgeConsole DefaultBridgeConfig
      [Pass 30000000000, MainPong, PingTick, Pass 30000000000, KeepTick, KeepServe, PingTick, MainPong, Pass 10000000000]
      (bridge_start DefaultBridgeConfig 0) = Some b
    \<and> (\<exists>stale. snd (StaleRunning ((record_beats (s_ID console_row) console_world (br_beats b))\<lparr>w_now := br_now b\<rparr>) 1) = Inr stale
        \<and> s_ID console_row \<notin> s_ID ` set stale)"
proof -
  obtain b where b: "bridgeConsole DefaultBridgeConfig
      [Pass 30000000000, MainPong, PingTick, Pass 30000000000, KeepTick, KeepServe, PingTick, MainPong, Pass 10000000000]
      (bridge_start DefaultBridgeConfig 0) = Some b" "br_main b = MainRead" "\<not> br_done b"
      "\<not> tk_due (br_keepTick b)" "0 + keep_period < br_now b"
    by (simp add: act_defs bridge_start_def DefaultBridgeConfig_def new_ticker_def keep_period_def)
  have "\<exists>stale. snd (StaleRunning ((record_beats (s_ID console_row) console_world (br_beats b))\<lparr>w_now := br_now b\<rparr>) 1) = Inr stale
        \<and> s_ID console_row \<notin> s_ID ` set stale"
    by (rule open_console_not_suspended [OF reach_schedule [OF bridge_reach.start b(1)] _ b(2-5)])
      (simp_all add: DefaultBridgeConfig_def console_world_def demo_world_def excl_ok_def)
  then show ?thesis
    using b(1) by blast
qed

end
