(* ===== verification/Startup.thy ===== *)
theory Startup
  imports Server
begin

text \<open>
  Start-up and shutdown: \<open>main\<close> of \<open>cmd/server/main.go\<close> from the configuration to the end of the process,
  \<open>Connect\<close> of \<open>pkg/db/postgres.go\<close>, \<open>LoadKeyPair\<close> of \<open>pkg/jwt/jwt.go\<close>, and the loop of the reaper.  The
  libraries it calls (the connection pool, the migrations, the PEM parser, the object store, the
  listener) are the fields of a record that say how each call ends.
\<close>

section \<open>The world at start-up\<close>

record ('k, 'm) machine =
  mc_env :: environ
  mc_ParseConfig :: "string \<Rightarrow> gerr option"
  mc_NewPool :: "string \<Rightarrow> int \<Rightarrow> int \<Rightarrow> gerr option"
  mc_Ping :: "gerr option"
  mc_MigrateNew :: "string \<Rightarrow> string \<Rightarrow> gerr option"
  mc_MigrateUp :: "gerr option"
  mc_ReadFile :: "string \<Rightarrow> gerr + string"
  mc_ParsePrivate :: "string \<Rightarrow> gerr + 'k"
  mc_ParsePublic :: "string \<Rightarrow> gerr + 'k"
  mc_Minio :: "string \<Rightarrow> string \<Rightarrow> string \<Rightarrow> bool \<Rightarrow> gerr + 'm minio"
  mc_store :: 'm

definition ErrNoChange :: gerr where "ErrNoChange = Sentinel ''no change''"

text \<open>The pool with its limits, once it has answered a ping.\<close>

record pool =
  po_URL :: string
  po_MaxConns :: int
  po_MinConns :: int

definition Connect :: "('k, 'm) machine \<Rightarrow> string \<Rightarrow> gerr + pool" where
  "Connect mc url =
     (case mc_ParseConfig mc url of
        Some e \<Rightarrow> Inl (Wrapf ''parse database URL: '' e [])
      | None \<Rightarrow>
     (case mc_NewPool mc url 25 5 of
        Some e \<Rightarrow> Inl (Wrapf ''create pool: '' e [])
      | None \<Rightarrow>
     (case mc_Ping mc of
        Some e \<Rightarrow> Inl (Wrapf ''ping database: '' e [])
      | None \<Rightarrow> Inr \<lparr>po_URL = url, po_MaxConns = 25, po_MinConns = 5\<rparr>)))"

record 'k KeyPair =
  kp_Private :: 'k
  kp_Public :: 'k

definition LoadKeyPair :: "('k, 'm) machine \<Rightarrow> string \<Rightarrow> string \<Rightarrow> gerr + 'k KeyPair" where
  "LoadKeyPair mc privatePath publicPath =
     (case mc_ReadFile mc privatePath of
        Inl e \<Rightarrow> Inl (Wrapf ''read private key: '' e [])
      | Inr privBytes \<Rightarrow>
     (case mc_ParsePrivate mc privBytes of
        Inl e \<Rightarrow> Inl (Wrapf ''parse private key: '' e [])
      | Inr privKey \<Rightarrow>
     (case mc_ReadFile mc publicPath of
        Inl e \<Rightarrow> Inl (Wrapf ''read public key: '' e [])
      | Inr pubBytes \<Rightarrow>
     (case mc_ParsePublic mc pubBytes of
        Inl e \<Rightarrow> Inl (Wrapf ''parse public key: '' e [])
      | Inr pubKey \<Rightarrow> Inr \<lparr>kp_Private = privKey, kp_Public = pubKey\<rparr>))))"

section \<open>The sequence of \<open>main\<close>\<close>

text \<open>What has happened outside the process, in order, and how it goes on.\<close>

datatype boot_event = PoolOpen | Migrated | KeysRead | BucketReady | ReaperStarted | Listening string

record 'k process =
  ps_Config :: Config
  ps_Keys :: "'k KeyPair"
  ps_Pool :: pool

datatype 'k boot =
    Fatal string gerr
  | Panics string
  | Started "'k process"

definition migrate_up :: "('k, 'm) machine \<Rightarrow> string \<Rightarrow> (string \<times> gerr) option" where
  "migrate_up mc url =
     (case mc_MigrateNew mc ''file://migrations'' (migrateURL url) of
        Some e \<Rightarrow> Some (''init migrations: '', e)
      | None \<Rightarrow>
     (case mc_MigrateUp mc of
        Some e \<Rightarrow> if e \<noteq> ErrNoChange then Some (''run migrations: '', e) else None
      | None \<Rightarrow> None))"

definition open_storage :: "('k, 'm) machine \<Rightarrow> Config \<Rightarrow> 'm \<times> (gerr + 'm storage)" where
  "open_storage mc cfg =
     storageNew (mc_Minio mc (cf_StorageEndpoint cfg) (cf_StorageAccessKey cfg) (cf_StorageSecretKey cfg)
       (cf_StorageUseSSL cfg)) (cf_StorageBucket cfg) (mc_store mc)"

text \<open>
  The reaper runs in a goroutine of its own, where \<open>time.NewTicker\<close> panics unless the interval is
  positive; a panic in a goroutine ends the process.
\<close>

definition start_reaper :: "Config \<Rightarrow> bool" where
  "start_reaper cfg = (gns3_configured cfg \<longrightarrow> 0 < cf_GNS3ReaperTick cfg)"

definition reaper_events :: "Config \<Rightarrow> boot_event list" where
  "reaper_events cfg = (if gns3_configured cfg then [ReaperStarted] else [])"

definition boot_services :: "('k, 'm) machine \<Rightarrow> Config \<Rightarrow> pool \<Rightarrow> 'k KeyPair \<Rightarrow> boot_event list \<Rightarrow> boot_event list \<times> 'k boot" where
  "boot_services mc cfg pool keys evs =
     (case open_storage mc cfg of
        (_, Inl e) \<Rightarrow> (evs, Fatal ''init storage: '' e)
      | (_, Inr storage) \<Rightarrow>
          if \<not> start_reaper cfg
          then (evs @ [BucketReady] @ reaper_events cfg, Panics ''non-positive interval for NewTicker'')
          else (evs @ [BucketReady] @ reaper_events cfg @ [Listening ('':'' @ cf_Port cfg)],
                Started \<lparr>ps_Config = cfg, ps_Keys = keys, ps_Pool = pool\<rparr>))"

definition boot_main :: "('k, 'm) machine \<Rightarrow> boot_event list \<times> 'k boot" where
  "boot_main mc =
     (case Load (mc_env mc) of
        LoadPanic msg \<Rightarrow> ([], Panics msg)
      | LoadError e \<Rightarrow> ([], Fatal ''load config: '' e)
      | Loaded cfg \<Rightarrow>
     (case Connect mc (cf_DatabaseURL cfg) of
        Inl e \<Rightarrow> ([], Fatal ''connect database: '' e)
      | Inr pool \<Rightarrow>
     (case migrate_up mc (cf_DatabaseURL cfg) of
        Some (what, e) \<Rightarrow> ([PoolOpen], Fatal what e)
      | None \<Rightarrow>
     (case LoadKeyPair mc (cf_JWTPrivateKeyPath cfg) (cf_JWTPublicKeyPath cfg) of
        Inl e \<Rightarrow> ([PoolOpen, Migrated], Fatal ''load JWT keys: '' e)
      | Inr keys \<Rightarrow> boot_services mc cfg pool keys [PoolOpen, Migrated, KeysRead]))))"

section \<open>The loop of the reaper\<close>

text \<open>A tick with what others have done to the world since the last one, or the end of the context.\<close>

datatype 's loop_event = Ticked "'s world \<Rightarrow> 's world" | Cancelled

fun reaper_loop :: "'s loop_event list \<Rightarrow> 's Reaper \<times> 's world \<Rightarrow> 's Reaper \<times> 's world" where
  "reaper_loop [] rw = rw"
| "reaper_loop (Cancelled # evs) rw = rw"
| "reaper_loop (Ticked others # evs) (r, w) = reaper_loop evs (sweep r (others w))"

text \<open>A row a query does not pick stays as it is, whatever happens to the picked ones.\<close>

definition unpicked :: "Session \<Rightarrow> 's world \<Rightarrow> bool" where
  "unpicked x w = (x \<in> set (w_rows w) \<and> distinct (map s_ID (w_rows w)))"

lemma unpicked_rows: "w_rows w' = w_rows w \<Longrightarrow> unpicked x w' = unpicked x w"
  by (simp add: unpicked_def)

lemma unpicked_write:
  assumes "db_write (update_row i f) w = (w', e)" "\<And>s. s_ID (f s) = s_ID s" "i \<noteq> s_ID x" "unpicked x w"
  shows "unpicked x w'"
proof -
  have "map s_ID (update_row i f rows) = map s_ID rows" for rows
    by (simp add: update_row_def assms(2))
  moreover have "x \<in> set (update_row i f rows)" if "x \<in> set rows" for rows
    using that assms(3) by (force simp: update_row_def)
  ultimately show ?thesis
    using db_write_rows [OF assms(1)] assms(4) by (auto simp: unpicked_def)
qed

lemma unpicked_status: "unpicked x w \<Longrightarrow> i \<noteq> s_ID x \<Longrightarrow> unpicked x (fst (SetStatus w i st))"
  by (cases "SetStatus w i st") (auto simp: SetStatus_def intro: unpicked_write)

lemma unpicked_end: "unpicked x w \<Longrightarrow> i \<noteq> s_ID x \<Longrightarrow> unpicked x (fst (End w i))"
  by (cases "End w i") (auto simp: End_def intro: unpicked_write)

lemma unpicked_gcall: "gcall m w = (w', a) \<Longrightarrow> unpicked x w \<Longrightarrow> unpicked x w'"
  using gcall_frame unpicked_rows by fastforce

lemma unpicked_suspend:
  "unpicked x w \<Longrightarrow> s_ID s \<noteq> s_ID x \<Longrightarrow> unpicked x (snd (suspend r w s))"
  by (auto simp: suspend_def Let_def intro: unpicked_status unpicked_end unpicked_gcall
      split: option.splits prod.splits)

lemma unpicked_teardown:
  "unpicked x w \<Longrightarrow> s_ID s \<noteq> s_ID x \<Longrightarrow> unpicked x (snd (teardown r w s))"
  by (auto simp: teardown_def Let_def intro: unpicked_end unpicked_gcall
      split: option.splits prod.splits)


lemma unpicked_sessions:
  assumes "\<And>r w s. unpicked x w \<Longrightarrow> s_ID s \<noteq> s_ID x \<Longrightarrow> unpicked x (snd (body r w s))"
  shows "unpicked x (snd rw) \<Longrightarrow> \<forall>s\<in>set ss. s_ID s \<noteq> s_ID x \<Longrightarrow> unpicked x (snd (for_sessions body rw ss))"
proof (induction ss arbitrary: rw)
  case (Cons s ss)
  have "unpicked x (snd (body (fst rw) (snd rw) s))"
    by (rule assms) (use Cons.prems in simp_all)
  moreover have "\<forall>t\<in>set ss. s_ID t \<noteq> s_ID x"
    using Cons.prems(2) by simp
  ultimately show ?case
    unfolding for_sessions.simps by (rule Cons.IH)
qed simp

lemma unpicked_query:
  assumes "unpicked x w" "\<not> sel x" "db_read (filter sel) w = (w1, q)"
  shows "unpicked x w1" and "q = Inr ss \<Longrightarrow> \<forall>s\<in>set ss. s_ID s \<noteq> s_ID x"
proof -
  show "unpicked x w1"
    using db_read_frame [OF assms(3)] assms(1) by (simp add: unpicked_def)
  assume "q = Inr ss"
  then have "ss = filter sel (w_rows w)"
    using db_read_value [of "filter sel" w w1 ss] assms(3) by simp
  then show "\<forall>s\<in>set ss. s_ID s \<noteq> s_ID x"
    using assms(1,2) by (auto simp: unpicked_def distinct_map inj_on_def)
qed

lemma unpicked_tier:
  assumes "unpicked x w" "\<not> sel x"
    and "\<And>r w s. unpicked x w \<Longrightarrow> s_ID s \<noteq> s_ID x \<Longrightarrow> unpicked x (snd (body r w s))"
  shows "unpicked x (snd (case db_read (filter sel) w of
      (w1, Inl err) \<Rightarrow> (r, w1) | (w1, Inr ss) \<Rightarrow> for_sessions body (r, w1) ss))"
proof -
  obtain w1 q where q: "db_read (filter sel) w = (w1, q)"
    by fastforce
  show ?thesis
    using unpicked_query [where ?sel = sel, OF assms(1,2) q] unpicked_sessions [where ?body = body, OF assms(3)]
    by (auto simp: q split: sum.split)
qed

lemma unpicked_sweep:
  assumes "unpicked x w" "s_Status x = StatusProvisioning"
  shows "unpicked x (snd (sweep r w))"
proof -
  have "unpicked x (snd (tier1 r w))" if "unpicked x w" for r :: "'s Reaper" and w
    unfolding tier1_def StaleRunning_def
    by (rule unpicked_tier) (simp_all add: that assms(2) stale_running_def unpicked_suspend)
  moreover have "unpicked x (snd (tier2 r w))" if "unpicked x w" for r :: "'s Reaper" and w
    unfolding tier2_def StaleIdle_def
    by (rule unpicked_tier) (simp_all add: that assms(2) stale_idle_def unpicked_teardown)
  ultimately show ?thesis
    using assms(1) by (metis (mono_tags, lifting) case_prod_beta sweep_def)
qed

text \<open>
  The reaper picks running and idle sessions only.  A session whose provisioning was cut off by the
  end of the process, or whose last status write failed, keeps its row and its slot over any number
  of sweeps, as long as nobody else touches it.
\<close>

lemma provisioning_slot: "unpicked x w \<Longrightarrow> s_Status x = StatusProvisioning \<Longrightarrow> 1 \<le> slots_used (w_rows w)"
  by (auto simp: unpicked_def slots_used_def active_status_def Suc_le_eq filter_empty_conv intro: bexI [of _ x])

lemma reaper_leaves_provisioning:
  assumes "s_Status x = StatusProvisioning"
    "\<And>f w. Ticked f \<in> set evs \<Longrightarrow> unpicked x w \<Longrightarrow> unpicked x (f w)"
  shows "unpicked x (snd rw) \<Longrightarrow>
    unpicked x (snd (reaper_loop evs rw)) \<and> 1 \<le> slots_used (w_rows (snd (reaper_loop evs rw)))"
  using assms(2)
proof (induction evs rw rule: reaper_loop.induct)
  case (3 others evs r w)
  then show ?case
    using unpicked_sweep [OF "3.prems"(2) [of others w] assms(1), of r] by (cases "sweep r (others w)") auto
qed (use provisioning_slot assms(1) in auto)

section \<open>Waiting and shutdown\<close>

datatype wake = ServerError gerr | Signal string

datatype exit_kind = ExitFatal gerr | ExitDrained | ExitForced

definition shutdown_grace :: int where "shutdown_grace = 30000000000"

text \<open>
  The requests in flight with the time each still needs, and whether its connection was hijacked for
  a WebSocket: \<open>Shutdown\<close> waits for the others only.
\<close>

definition Shutdown :: "(int \<times> bool) list \<Rightarrow> bool" where
  "Shutdown inflight = list_all (\<lambda>(left, hijacked). hijacked \<or> left \<le> shutdown_grace) inflight"

definition await_exit :: "wake \<Rightarrow> (int \<times> bool) list \<Rightarrow> exit_kind" where
  "await_exit wk inflight =
     (case wk of
        ServerError e \<Rightarrow> ExitFatal e
      | Signal s \<Rightarrow> if Shutdown inflight then ExitDrained else ExitForced)"

section \<open>What start-up guarantees\<close>

definition full_boot :: "Config \<Rightarrow> boot_event list" where
  "full_boot cfg = [PoolOpen, Migrated, KeysRead, BucketReady] @ reaper_events cfg @ [Listening ('':'' @ cf_Port cfg)]"

lemma boot_started_iff:
  "snd (boot_main mc) = Started p \<longleftrightarrow>
     Load (mc_env mc) = Loaded (ps_Config p)
     \<and> Connect mc (cf_DatabaseURL (ps_Config p)) = Inr (ps_Pool p)
     \<and> migrate_up mc (cf_DatabaseURL (ps_Config p)) = None
     \<and> LoadKeyPair mc (cf_JWTPrivateKeyPath (ps_Config p)) (cf_JWTPublicKeyPath (ps_Config p)) = Inr (ps_Keys p)
     \<and> (\<exists>st. snd (open_storage mc (ps_Config p)) = Inr st)
     \<and> start_reaper (ps_Config p)"
proof (cases "Load (mc_env mc)")
  case (Loaded cfg)
  show ?thesis
    by (cases p) (auto simp: boot_main_def boot_services_def Loaded split: sum.splits option.splits prod.splits)
qed (simp_all add: boot_main_def)




lemma boot_events:
  "Load (mc_env mc) = Loaded cfg \<Longrightarrow> \<exists>rest. full_boot cfg = fst (boot_main mc) @ rest"
  by (auto simp: boot_main_def boot_services_def full_boot_def split: sum.splits option.splits prod.splits)

lemma loaded_gns3: "Load env = Loaded cfg \<Longrightarrow> gns3_configured cfg"
  using load_config [of env] by blast



text \<open>
  The interval of the reaper is not checked when the configuration is loaded: with
  \<open>GNS3_REAPER_TICK=0s\<close> the configuration loads, and the process panics after the migrations.
\<close>

definition zero_tick_env :: environ where
  "zero_tick_env k = (if k = ''GNS3_REAPER_TICK'' then ''0s'' else if k \<in> set required_keys then ''x'' else [])"

lemma parse_single:
  assumes "map_of duration_units u = Some k" "n * k \<le> 2 ^ 63 - 1"
  shows "ParseDuration (itoa (int n) @ u) = Inr (int (n * k))"
proof -
  have "unit_ok u"
    using map_of_SomeD [OF assms(1)] by (force simp: unit_ok_def)
  then show ?thesis
    using ParseDuration_print [of "[(n, u)]"] assms by (simp add: print_duration_def nanoseconds_def)
qed

lemma itoa_samples: "itoa 15 = ''15''" "itoa 720 = ''720''" "itoa 1 = ''1''" "itoa 20 = ''20''" "itoa 0 = ''0''"
  by code_simp+

lemma default_durations:
  "ParseDuration ''15m'' = Inr 900000000000" "ParseDuration ''720h'' = Inr 2592000000000000"
  "ParseDuration ''1h'' = Inr 3600000000000" "ParseDuration ''20s'' = Inr 20000000000" "ParseDuration ''0s'' = Inr 0"
  using parse_single [of "''m''" 60000000000 15] parse_single [of "''h''" 3600000000000 720]
    parse_single [of "''h''" 3600000000000 1] parse_single [of "''s''" 1000000000 20] parse_single [of "''s''" 1000000000 0]
  by (simp_all add: duration_units_def itoa_samples)

lemma zero_tick_loads: "\<exists>cfg. Load zero_tick_env = Loaded cfg \<and> cf_GNS3ReaperTick cfg = 0"
proof -
  have "find (\<lambda>k. mustGetEnv zero_tick_env k = None) required_keys = None"
    by (auto simp: find_None_iff mustGetEnv_def zero_tick_env_def)
  moreover have "read_durations zero_tick_env duration_keys
      = Inr [900000000000, 2592000000000000, 900000000000, 3600000000000, 0, 20000000000]"
    by (simp add: duration_keys_def parseDuration_def getEnv_def zero_tick_env_def required_keys_def default_durations)
  ultimately show ?thesis
    by (simp add: Load_def with_durations_def)
qed

lemma zero_tick_never_starts:
  assumes "mc_env mc = zero_tick_env"
  shows "snd (boot_main mc) \<noteq> Started p"
proof
  assume "snd (boot_main mc) = Started p"
  then have "Load zero_tick_env = Loaded (ps_Config p)" "start_reaper (ps_Config p)"
    using assms by (simp_all add: boot_started_iff)
  then show False
    using zero_tick_loads loaded_gns3 by (force simp: start_reaper_def)
qed


end
